(* ===== verification/OJ_Prelude.thy ===== *)
theory OJ_Prelude
  imports Main "HOL-Library.Multiset"
begin

text \<open>
  Prelude of the development.  It fixes how the Go program's basic notions are read in HOL and
  holds the lemmas the components share: Go's truncating integer division and saturating time
  subtraction, decimal rendering and parsing of unsigned integers, database tables with an
  auto-increment key, HTTP results, and the standard library's \<open>sort.Slice\<close> as a sort by a
  comparison function, with the locales \<open>strict_less\<close> and \<open>keyed_less\<close> for comparison functions.
\<close>

section \<open>Collections of facts\<close>

named_theorems handler_defs \<open>definitions of request handlers, unfolded in frame proofs\<close>
named_theorems table_simps \<open>rewrite rules for table operations\<close>

section \<open>Go integers and time\<close>

text \<open>
  A \<open>time.Time\<close> is the number of nanoseconds since the epoch, a \<open>time.Duration\<close> a number of
  nanoseconds in the range of \<open>int64\<close>.  Go's integer division truncates towards zero, and
  \<open>Time.Sub\<close> saturates at the ends of the duration range.
\<close>

type_synonym time = int
type_synonym duration = int

definition go_div :: "int \<Rightarrow> int \<Rightarrow> int" where
  "go_div a b = sgn a * sgn b * (\<bar>a\<bar> div \<bar>b\<bar>)"

definition max_duration :: duration where
  "max_duration = 2 ^ 63 - 1"

definition min_duration :: duration where
  "min_duration = - (2 ^ 63)"

definition time_sub :: "time \<Rightarrow> time \<Rightarrow> duration" where
  "time_sub t u = max min_duration (min max_duration (t - u))"

definition dur_ms :: "duration \<Rightarrow> int" where
  "dur_ms d = go_div d 1000000"

definition second :: duration where "second = 1000000000"
definition minute :: duration where "minute = 60 * second"

text \<open>Go's zero time is the start of the year 1; a product of 64-bit integers wraps.\<close>

definition zero_time :: time where
  "zero_time = - 62135596800 * second"

definition wrap_int :: "int \<Rightarrow> int" where
  "wrap_int i = (i + 2 ^ 63) mod 2 ^ 64 - 2 ^ 63"

lemma go_div_nonneg: "0 \<le> a \<Longrightarrow> 0 < b \<Longrightarrow> go_div a b = a div b"
  by (cases "a = 0") (simp_all add: go_div_def)

lemma time_sub_exact: "\<bar>t - u\<bar> < 2 ^ 63 \<Longrightarrow> time_sub t u = t - u"
  by (auto simp: time_sub_def min_duration_def max_duration_def)

lemma time_sub_mono: "t \<le> t' \<Longrightarrow> time_sub t u \<le> time_sub t' u"
  by (auto simp: time_sub_def max_def min_def)

lemma time_sub_less_iff:
  assumes "min_duration < w" and "w \<le> max_duration"
  shows "time_sub t u < w \<longleftrightarrow> t - u < w"
  using assms by (auto simp: time_sub_def max_def min_def)

section \<open>Decimal strings\<close>

definition digit_char :: "nat \<Rightarrow> char" where
  "digit_char d = char_of (48 + d)"

definition is_digit :: "char \<Rightarrow> bool" where
  "is_digit c \<longleftrightarrow> 48 \<le> (of_char c :: nat) \<and> (of_char c :: nat) \<le> 57"

definition digit_val :: "char \<Rightarrow> nat" where
  "digit_val c = of_char c - 48"

fun nat_str :: "nat \<Rightarrow> string" where
  "nat_str n = (if n < 10 then [digit_char n] else nat_str (n div 10) @ [digit_char (n mod 10)])"

declare nat_str.simps [simp del]

definition int_str :: "int \<Rightarrow> string" where
  "int_str i = (if i < 0 then CHR ''-'' # nat_str (nat (- i)) else nat_str (nat i))"

definition str_val :: "string \<Rightarrow> nat" where
  "str_val s = foldl (\<lambda>v c. 10 * v + digit_val c) 0 s"

text \<open>\<open>strconv.ParseUint(s, 10, 64)\<close>: one or more decimal digits with a value below \<open>2 ^ 64\<close>.\<close>

definition parse_uint64 :: "string \<Rightarrow> nat option" where
  "parse_uint64 s =
     (if s \<noteq> [] \<and> list_all is_digit s \<and> str_val s < 2 ^ 64 then Some (str_val s) else None)"

text \<open>\<open>strconv.Atoi\<close> on a 64-bit machine: an optional sign, decimal digits, a value that fits.\<close>

definition atoi :: "string \<Rightarrow> int option" where
  "atoi s =
     (let neg = s \<noteq> [] \<and> hd s = CHR ''-'';
          ds = (if s \<noteq> [] \<and> (hd s = CHR ''-'' \<or> hd s = CHR ''+'') then tl s else s);
          v = (if neg then - int (str_val ds) else int (str_val ds))
      in if ds \<noteq> [] \<and> list_all is_digit ds \<and> - (2 ^ 63) \<le> v \<and> v < 2 ^ 63 then Some v else None)"

text \<open>The white space \<open>strings.TrimSpace\<close> removes, among the ASCII characters.\<close>

definition trim_space :: "string \<Rightarrow> string" where
  "trim_space s =
     (let sp = (\<lambda>c. c \<in> {CHR '' '', CHR 0x09, CHR 0x0A, CHR 0x0B, CHR 0x0C, CHR 0x0D})
      in rev (dropWhile sp (rev (dropWhile sp s))))"

lemma digit_char_of_nat: "d < 10 \<Longrightarrow> (of_char (digit_char d) :: nat) = 48 + d"
  by (simp add: digit_char_def)

lemma is_digit_digit_char [simp]: "d < 10 \<Longrightarrow> is_digit (digit_char d)"
  by (simp add: is_digit_def digit_char_of_nat)

lemma digit_val_digit_char [simp]: "d < 10 \<Longrightarrow> digit_val (digit_char d) = d"
  by (simp add: digit_val_def digit_char_of_nat)

lemma nat_str_digits: "list_all is_digit (nat_str n)"
proof (induction n rule: nat_str.induct)
  case (1 n)
  then show ?case by (subst nat_str.simps) simp
qed

lemma nat_str_nonempty [simp]: "nat_str n \<noteq> []"
  by (subst nat_str.simps) simp

lemma str_val_snoc [simp]: "str_val (s @ [c]) = 10 * str_val s + digit_val c"
  by (simp add: str_val_def)

lemma str_val_nat_str [simp]: "str_val (nat_str n) = n"
proof (induction n rule: nat_str.induct)
  case (1 n)
  show ?case
  proof (cases "n < 10")
    case True
    then show ?thesis by (subst nat_str.simps) (simp add: str_val_def)
  next
    case False
    with 1 show ?thesis by (subst nat_str.simps) simp
  qed
qed

lemma nat_str_inject [simp]: "nat_str m = nat_str n \<longleftrightarrow> m = n"
  using str_val_nat_str by metis

lemma parse_uint64_nat_str: "n < 2 ^ 64 \<Longrightarrow> parse_uint64 (nat_str n) = Some n"
  by (simp add: parse_uint64_def nat_str_digits)

lemma atoi_nat_str: "n < 2 ^ 63 \<Longrightarrow> atoi (nat_str n) = Some (int n)"
proof -
  assume n: "n < 2 ^ 63"
  obtain c cs where cs: "nat_str n = c # cs" using nat_str_nonempty by (cases "nat_str n") auto
  have "is_digit c" using nat_str_digits [of n] cs by simp
  then have "c \<noteq> CHR ''-''" "c \<noteq> CHR ''+''" by (auto simp: is_digit_def)
  moreover have "list_all is_digit (c # cs)" "str_val (c # cs) = n"
    using nat_str_digits [of n] str_val_nat_str [of n] cs by simp_all
  moreover have "int n < 2 ^ 63" using n by (metis of_nat_less_numeral_power_cancel_iff of_nat_numeral)
  ultimately show ?thesis by (simp add: atoi_def cs Let_def)
qed

lemma atoi_int_str: "0 \<le> i \<Longrightarrow> i < 2 ^ 63 \<Longrightarrow> atoi (int_str i) = Some i"
  by (simp add: int_str_def atoi_nat_str nat_less_iff)

section \<open>HTTP results\<close>

text \<open>
  A request handler answers 200 with a payload (\<open>Inr\<close>) or aborts with an HTTP status and an
  \<open>error\<close> text (\<open>Inl\<close>).  Texts the program writes in Chinese are given in English.
\<close>

datatype http_error = HTTP (http_status: nat) (http_text: string)

type_synonym ('s, 'a) handled = "'s \<times> (http_error + 'a)"

text \<open>
  What a handler takes from its surroundings: the clock, which of the database statements whose
  error the handler checks succeed (numbered in program order from 0), and the code produced by
  the random generator.  Statements whose error the program ignores are taken to succeed.
\<close>

record env =
  env_now :: time
  env_dbok :: "nat \<Rightarrow> bool"
  env_rand :: string

section \<open>Database tables\<close>

text \<open>
  A table holds its rows in primary-key order; \<open>seq\<close> is the last key its sequence gave out, so a
  created row gets the key \<open>Suc (seq t)\<close> and a key is never used again.
\<close>

record 'a table =
  rows :: "'a list"
  seq :: nat

definition empty_table :: "'a table" where
  "empty_table = \<lparr>rows = [], seq = 0\<rparr>"

definition tbl_first :: "('a \<Rightarrow> bool) \<Rightarrow> 'a table \<Rightarrow> 'a option" where
  "tbl_first P t = find P (rows t)"

definition tbl_select :: "('a \<Rightarrow> bool) \<Rightarrow> 'a table \<Rightarrow> 'a list" where
  "tbl_select P t = filter P (rows t)"

definition tbl_count :: "('a \<Rightarrow> bool) \<Rightarrow> 'a table \<Rightarrow> nat" where
  "tbl_count P t = length (filter P (rows t))"

definition tbl_create :: "(nat \<Rightarrow> 'a) \<Rightarrow> 'a table \<Rightarrow> 'a \<times> 'a table" where
  "tbl_create mk t =
     (let i = Suc (seq t) in (mk i, t\<lparr>rows := rows t @ [mk i], seq := i\<rparr>))"

definition tbl_update :: "('a \<Rightarrow> bool) \<Rightarrow> ('a \<Rightarrow> 'a) \<Rightarrow> 'a table \<Rightarrow> 'a table" where
  "tbl_update P f t = t\<lparr>rows := map (\<lambda>r. if P r then f r else r) (rows t)\<rparr>"

definition tbl_delete :: "('a \<Rightarrow> bool) \<Rightarrow> 'a table \<Rightarrow> 'a table" where
  "tbl_delete P t = t\<lparr>rows := filter (\<lambda>r. \<not> P r) (rows t)\<rparr>"

definition tbl_ok :: "('a \<Rightarrow> nat) \<Rightarrow> 'a table \<Rightarrow> bool" where
  "tbl_ok key t \<longleftrightarrow>
     sorted_wrt (<) (map key (rows t)) \<and> list_all (\<lambda>r. 0 < key r \<and> key r \<le> seq t) (rows t)"

lemma rows_empty_table [table_simps]: "rows empty_table = []"
  by (simp add: empty_table_def)

lemma rows_tbl_update [table_simps]:
  "rows (tbl_update P f t) = map (\<lambda>r. if P r then f r else r) (rows t)"
  by (simp add: tbl_update_def)

lemma rows_tbl_delete [table_simps]: "rows (tbl_delete P t) = filter (\<lambda>r. \<not> P r) (rows t)"
  by (simp add: tbl_delete_def)

lemma rows_tbl_create [table_simps]: "rows (snd (tbl_create mk t)) = rows t @ [mk (Suc (seq t))]"
  by (simp add: tbl_create_def Let_def)

lemma fst_tbl_create [table_simps]: "fst (tbl_create mk t) = mk (Suc (seq t))"
  by (simp add: tbl_create_def Let_def)

lemma seq_table_ops [table_simps]:
  "seq (tbl_update P f t) = seq t"
  "seq (tbl_delete P t) = seq t"
  "seq (snd (tbl_create mk t)) = Suc (seq t)"
  by (simp_all add: tbl_update_def tbl_delete_def tbl_create_def Let_def)

lemma tbl_count_pos: "0 < tbl_count P t \<longleftrightarrow> (\<exists>r \<in> set (rows t). P r)"
  by (auto simp: tbl_count_def filter_empty_conv)

lemma tbl_count_zero: "tbl_count P t = 0 \<longleftrightarrow> (\<forall>r \<in> set (rows t). \<not> P r)"
  by (auto simp: tbl_count_def filter_empty_conv)

lemma tbl_count_ex: "tbl_count P t = 0 \<longleftrightarrow> \<not> list_ex P (rows t)" "0 < tbl_count P t \<longleftrightarrow> list_ex P (rows t)"
  by (auto simp: tbl_count_zero tbl_count_pos list_ex_iff)

lemma tbl_first_SomeD: "tbl_first P t = Some r \<Longrightarrow> r \<in> set (rows t) \<and> P r"
  by (auto simp: tbl_first_def find_Some_iff)

lemma tbl_first_None: "tbl_first P t = None \<longleftrightarrow> (\<forall>r \<in> set (rows t). \<not> P r)"
  by (auto simp: tbl_first_def find_None_iff)

lemma tbl_ok_empty: "tbl_ok key empty_table"
  by (simp add: tbl_ok_def empty_table_def)

lemma tbl_ok_delete:
  assumes "tbl_ok key t"
  shows "tbl_ok key (tbl_delete P t)"
proof -
  have "sorted_wrt (<) (map key (filter Q xs))" if "sorted_wrt (<) (map key xs)" for Q and xs
    using that by (induction xs) auto
  then show ?thesis
    using assms by (auto simp: tbl_ok_def tbl_delete_def list_all_iff)
qed

lemma tbl_ok_update:
  assumes "tbl_ok key t" and "\<And>r. P r \<Longrightarrow> key (f r) = key r"
  shows "tbl_ok key (tbl_update P f t)"
proof -
  have "map key (map (\<lambda>r. if P r then f r else r) (rows t)) = map key (rows t)"
    using assms(2) by auto
  then have "map key (rows (tbl_update P f t)) = map key (rows t)"
    by (simp only: rows_tbl_update)
  then show ?thesis
    using assms by (auto simp: tbl_ok_def table_simps list_all_iff simp del: map_map)
qed

lemma tbl_ok_create:
  assumes "tbl_ok key t" and "\<And>i. key (mk i) = i"
  shows "tbl_ok key (snd (tbl_create mk t))"
proof -
  have "sorted_wrt (<) (map key (rows t @ [mk (Suc (seq t))]))"
    using assms by (auto simp: tbl_ok_def sorted_wrt_append list_all_iff)
  then show ?thesis
    using assms by (auto simp: tbl_ok_def table_simps list_all_iff)
qed

lemma tbl_ok_distinct: "tbl_ok key t \<Longrightarrow> distinct (map key (rows t))"
  by (auto simp: tbl_ok_def strict_sorted_iff)

lemma tbl_ok_unique:
  "tbl_ok key t \<Longrightarrow> r \<in> set (rows t) \<Longrightarrow> r' \<in> set (rows t) \<Longrightarrow> key r = key r' \<Longrightarrow> r = r'"
  by (auto dest!: tbl_ok_distinct simp: distinct_map inj_on_def)

lemma tbl_first_key:
  assumes "tbl_ok key t" and "r \<in> set (rows t)"
  shows "tbl_first (\<lambda>x. key x = key r) t = Some r"
proof -
  obtain x where x: "tbl_first (\<lambda>x. key x = key r) t = Some x"
    using assms(2) by (cases "tbl_first (\<lambda>x. key x = key r) t") (auto simp: tbl_first_None)
  with tbl_first_SomeD [OF x] tbl_ok_unique [OF assms(1)] assms(2) show ?thesis by auto
qed

section \<open>Sorting by a comparison function\<close>

text \<open>
  Go's \<open>sort.Slice(xs, less)\<close> and \<open>sort.SliceStable\<close> are modelled by a stable insertion sort.
  \<open>keyed_less\<close> is the contract under which the choice of algorithm cannot be seen: when ties of
  the comparison are ties of the key and keys are distinct, the sorted arrangement is unique.
\<close>

fun insert_by :: "('a \<Rightarrow> 'a \<Rightarrow> bool) \<Rightarrow> 'a \<Rightarrow> 'a list \<Rightarrow> 'a list" where
  "insert_by lt x [] = [x]"
| "insert_by lt x (y # ys) = (if lt y x then y # insert_by lt x ys else x # y # ys)"

definition sort_by :: "('a \<Rightarrow> 'a \<Rightarrow> bool) \<Rightarrow> 'a list \<Rightarrow> 'a list" where
  "sort_by lt xs = foldr (insert_by lt) xs []"

lemma sort_by_simps [simp]:
  "sort_by lt [] = []"
  "sort_by lt (x # xs) = insert_by lt x (sort_by lt xs)"
  by (simp_all add: sort_by_def)

lemma mset_insert_by [simp]: "mset (insert_by lt x ys) = add_mset x (mset ys)"
  by (induction ys) auto

lemma mset_sort_by [simp]: "mset (sort_by lt xs) = mset xs"
  by (induction xs) auto

lemma set_sort_by [simp]: "set (sort_by lt xs) = set xs"
  by (metis mset_sort_by set_mset_mset)

lemma length_sort_by [simp]: "length (sort_by lt xs) = length xs"
  by (metis mset_sort_by size_mset)

lemma set_insert_by: "set (insert_by lt x ys) = insert x (set ys)"
  by (induction ys) auto

lemma insert_by_first: "(\<And>y. y \<in> set ys \<Longrightarrow> \<not> lt y x) \<Longrightarrow> insert_by lt x ys = x # ys"
  by (cases ys) auto

lemma sort_by_id: "sorted_wrt (\<lambda>x y. \<not> lt y x) xs \<Longrightarrow> sort_by lt xs = xs"
  by (induction xs) (auto simp: insert_by_first)

lemma sorted_wrt_distinct_key:
  assumes "sorted_wrt P xs" and "distinct (map key xs)" and "\<And>x y. P x y \<Longrightarrow> key x \<noteq> key y \<Longrightarrow> Q x y"
  shows "sorted_wrt Q xs"
  using assms(1,2)
proof (induction xs)
  case (Cons x xs)
  have "Q x y" if "y \<in> set xs" for y
    using Cons.prems that by (intro assms(3)) auto
  with Cons show ?case by simp
qed simp

locale strict_less =
  fixes lt :: "'a \<Rightarrow> 'a \<Rightarrow> bool"
  assumes asym: "lt x y \<Longrightarrow> \<not> lt y x"
    and negtrans: "\<not> lt x y \<Longrightarrow> \<not> lt y z \<Longrightarrow> \<not> lt x z"
begin

lemma sorted_insert_by:
  "sorted_wrt (\<lambda>x y. \<not> lt y x) ys \<Longrightarrow> sorted_wrt (\<lambda>x y. \<not> lt y x) (insert_by lt x ys)"
  by (induction ys) (auto simp: set_insert_by dest: asym negtrans)

lemma sorted_sort_by: "sorted_wrt (\<lambda>x y. \<not> lt y x) (sort_by lt xs)"
  by (induction xs) (auto intro: sorted_insert_by)

end

locale keyed_less = strict_less +
  fixes key :: "'a \<Rightarrow> 'k"
  assumes tie_key: "\<not> lt x y \<Longrightarrow> \<not> lt y x \<Longrightarrow> key x = key y"
begin

lemma sorted_unique:
  assumes "mset xs = mset ys" and "distinct (map key xs)"
    and "sorted_wrt (\<lambda>x y. \<not> lt y x) xs" and "sorted_wrt (\<lambda>x y. \<not> lt y x) ys"
  shows "xs = ys"
  using assms
proof (induction xs arbitrary: ys)
  case Nil
  then show ?case by simp
next
  case (Cons x xs)
  then obtain y zs where ys: "ys = y # zs" by (cases ys) auto
  have sets: "set (x # xs) = set (y # zs)"
    using Cons.prems(1) ys by (metis set_mset_mset)
  have "x = y"
  proof (rule ccontr)
    assume "x \<noteq> y"
    with sets have "y \<in> set xs" and "x \<in> set zs" by auto
    with Cons.prems(3,4) ys have "\<not> lt y x" and "\<not> lt x y" by auto
    then have "key x = key y" by (metis tie_key)
    with \<open>y \<in> set xs\<close> Cons.prems(2) show False by auto
  qed
  with Cons ys show ?case by auto
qed

lemma sort_by_unique:
  assumes "mset ys = mset xs" and "distinct (map key xs)"
    and "sorted_wrt (\<lambda>x y. \<not> lt y x) ys"
  shows "ys = sort_by lt xs"
proof -
  have "distinct (map key ys)"
    using assms(1,2) by (metis mset_map mset_eq_imp_distinct_iff)
  with assms show ?thesis
    by (intro sorted_unique) (auto simp: sorted_sort_by)
qed

lemma sort_by_perm:
  assumes "mset ys = mset xs" and "distinct (map key xs)"
  shows "sort_by lt ys = sort_by lt xs"
  using assms by (intro sort_by_unique) (auto simp: sorted_sort_by)

end

end
