(* ===== verification/Go_Strings.thy ===== *)
theory Go_Strings
  imports OJ_Prelude
begin

text \<open>
  The functions of Go's \<open>strings\<close> and \<open>path/filepath\<close> packages that several components use, on strings
  as lists of bytes.  Case folding covers the ASCII letters.
\<close>

section \<open>Strings\<close>

fun split_on :: "char \<Rightarrow> string \<Rightarrow> string list" where
  "split_on c [] = [[]]"
| "split_on c (x # xs) =
     (if x = c then [] # split_on c xs
      else case split_on c xs of [] \<Rightarrow> [[x]] | w # ws \<Rightarrow> (x # w) # ws)"

definition is_prefix :: "string \<Rightarrow> string \<Rightarrow> bool" where
  "is_prefix a b \<longleftrightarrow> take (length a) b = a"

definition lower_char :: "char \<Rightarrow> char" where
  "lower_char c =
     (if 65 \<le> (of_char c :: nat) \<and> (of_char c :: nat) \<le> 90 then char_of ((of_char c :: nat) + 32) else c)"

definition ends_with :: "string \<Rightarrow> string \<Rightarrow> bool" where
  "ends_with s suf \<longleftrightarrow> is_prefix (rev suf) (rev s)"

definition lower :: "string \<Rightarrow> string" where
  "lower s = map lower_char s"

definition str_contains :: "string \<Rightarrow> string \<Rightarrow> bool" where
  "str_contains s sub \<longleftrightarrow> list_ex (\<lambda>i. is_prefix sub (drop i s)) [0..<Suc (length s)]"

definition trim_suffix :: "string \<Rightarrow> string \<Rightarrow> string" where
  "trim_suffix s suf = (if ends_with s suf then take (length s - length suf) s else s)"

definition trim_chars :: "string \<Rightarrow> string \<Rightarrow> string" where
  "trim_chars s cs = rev (dropWhile (\<lambda>c. c \<in> set cs) (rev (dropWhile (\<lambda>c. c \<in> set cs) s)))"

text \<open>\<open>strings.Cut\<close> at the first separator, when there is one.\<close>

definition cut_at :: "char \<Rightarrow> string \<Rightarrow> (string \<times> string) option" where
  "cut_at c s =
     (if c \<in> set s then Some (takeWhile (\<lambda>x. x \<noteq> c) s, tl (dropWhile (\<lambda>x. x \<noteq> c) s)) else None)"

definition replace_char :: "char \<Rightarrow> string \<Rightarrow> string \<Rightarrow> string" where
  "replace_char c r s = concat (map (\<lambda>x. if x = c then r else [x]) s)"

fun join_with :: "string \<Rightarrow> string list \<Rightarrow> string" where
  "join_with sep [] = []"
| "join_with sep [s] = s"
| "join_with sep (s # ss) = s @ sep @ join_with sep ss"

text \<open>The order of strings: by bytes, a proper prefix first.\<close>

fun bytes_less :: "string \<Rightarrow> string \<Rightarrow> bool" where
  "bytes_less [] b = (b \<noteq> [])"
| "bytes_less (x # a) [] = False"
| "bytes_less (x # a) (y # b) =
     ((of_char x :: nat) < of_char y \<or> x = y \<and> bytes_less a b)"

section \<open>Paths\<close>

text \<open>\<open>filepath.Base\<close>.\<close>

definition path_base :: "string \<Rightarrow> string" where
  "path_base p =
     (let q = rev (dropWhile (\<lambda>c. c = CHR ''/'') (rev p))
      in if p = [] then ''.'' else if q = [] then ''/''
         else rev (takeWhile (\<lambda>c. c \<noteq> CHR ''/'') (rev q)))"

text \<open>\<open>filepath.Clean\<close>: empty and \<open>.\<close> segments go, \<open>..\<close> takes the one before it.\<close>

fun clean_segs :: "bool \<Rightarrow> string list \<Rightarrow> string list \<Rightarrow> string list" where
  "clean_segs rooted acc [] = rev acc"
| "clean_segs rooted acc (s # ss) =
     (if s = [] \<or> s = ''.'' then clean_segs rooted acc ss
      else if s = ''..'' then
        if acc \<noteq> [] \<and> hd acc \<noteq> ''..'' then clean_segs rooted (tl acc) ss
        else if rooted then clean_segs rooted acc ss
        else clean_segs rooted (s # acc) ss
      else clean_segs rooted (s # acc) ss)"

definition path_clean :: "string \<Rightarrow> string" where
  "path_clean p =
     (let rooted = (p \<noteq> [] \<and> hd p = CHR ''/'');
          q = join_with ''/'' (clean_segs rooted [] (split_on (CHR ''/'') p))
      in if rooted then CHR ''/'' # q else if q = [] then ''.'' else q)"

text \<open>\<open>filepath.Dir\<close>.\<close>

definition path_dir :: "string \<Rightarrow> string" where
  "path_dir p = path_clean (rev (dropWhile (\<lambda>c. c \<noteq> CHR ''/'') (rev p)))"

section \<open>Lemmas\<close>

lemma is_prefix_append: "is_prefix a b \<longleftrightarrow> (\<exists>c. b = a @ c)"
proof
  assume "is_prefix a b"
  then have "b = a @ drop (length a) b"
    by (metis append_take_drop_id is_prefix_def)
  then show "\<exists>c. b = a @ c" ..
qed (auto simp: is_prefix_def)

lemma split_on_nonempty [simp]: "split_on c s \<noteq> []"
  by (induction s) (auto split: list.split)

lemma split_on_sep:
  "c \<notin> set xs \<Longrightarrow> split_on c (xs @ c # ys) = xs # split_on c ys"
  by (induction xs) auto

lemma split_on_none: "c \<notin> set xs \<Longrightarrow> split_on c xs = [xs]"
  by (induction xs) auto

lemma cut_at_sep: "c \<notin> set k \<Longrightarrow> cut_at c (k @ c # v) = Some (k, v)"
proof -
  assume "c \<notin> set k"
  then have "takeWhile (\<lambda>x. x \<noteq> c) (k @ c # v) = k" "dropWhile (\<lambda>x. x \<noteq> c) (k @ c # v) = c # v"
    by (induction k) auto
  then show ?thesis by (simp add: cut_at_def)
qed

lemma trim_chars_id:
  assumes "s = [] \<or> hd s \<notin> set cs \<and> List.last s \<notin> set cs"
  shows "trim_chars s cs = s"
proof (cases "s = []")
  case False
  then have "dropWhile (\<lambda>c. c \<in> set cs) s = s" using assms by (cases s) auto
  moreover have "dropWhile (\<lambda>c. c \<in> set cs) (rev s) = rev s"
    using assms False by (cases "rev s") (auto simp: hd_rev dest: arg_cong [where f = hd])
  ultimately show ?thesis by (simp add: trim_chars_def)
qed (simp add: trim_chars_def)

definition is_space :: "char \<Rightarrow> bool" where
  "is_space c \<longleftrightarrow> c \<in> {CHR '' '', CHR 0x09, CHR 0x0A, CHR 0x0B, CHR 0x0C, CHR 0x0D}"

lemma trim_space_id:
  assumes "s = [] \<or> \<not> is_space (hd s) \<and> \<not> is_space (List.last s)"
  shows "trim_space s = s"
proof -
  have "trim_space s = trim_chars s [CHR '' '', CHR 0x09, CHR 0x0A, CHR 0x0B, CHR 0x0C, CHR 0x0D]"
    by (simp add: trim_space_def trim_chars_def Let_def)
  then show ?thesis using assms by (simp add: trim_chars_id is_space_def)
qed

lemma trim_space_ends: "trim_space s = [] \<or> \<not> is_space (hd (trim_space s)) \<and> \<not> is_space (List.last (trim_space s))"
proof (cases "trim_space s = []")
  case False
  define u where "u = dropWhile is_space s"
  define t where "t = dropWhile is_space (rev u)"
  have tr: "trim_space s = rev t"
    by (simp add: trim_space_def Let_def u_def t_def is_space_def [abs_def])
  then have t: "t \<noteq> []" using False by simp
  then have "u \<noteq> []" by (auto simp: t_def)
  have "rev u = takeWhile is_space (rev u) @ t" by (simp add: t_def)
  then have "u = rev t @ rev (takeWhile is_space (rev u))" by (metis rev_append rev_rev_ident)
  then have "hd (rev t) = hd u" using t by (metis hd_append2 rev_is_Nil_conv)
  moreover have "\<not> is_space (hd u)" using \<open>u \<noteq> []\<close> unfolding u_def by (rule hd_dropWhile)
  moreover have "\<not> is_space (hd t)" using t unfolding t_def by (rule hd_dropWhile)
  ultimately show ?thesis using t by (simp add: tr last_rev)
qed simp

lemma trim_space_idem [simp]: "trim_space (trim_space s) = trim_space s"
  by (rule trim_space_id) (rule trim_space_ends)

lemma replace_char_id: "c \<notin> set s \<Longrightarrow> replace_char c r s = s"
  by (induction s) (auto simp: replace_char_def)

lemma replace_char_append: "replace_char c r (s @ t) = replace_char c r s @ replace_char c r t"
  by (simp add: replace_char_def)

lemma replace_char_Cons: "replace_char c r (x # t) = (if x = c then r else [x]) @ replace_char c r t"
  by (simp add: replace_char_def)

lemma ends_with_append: "ends_with s suf \<longleftrightarrow> (\<exists>p. s = p @ suf)"
proof -
  have "ends_with s suf \<longleftrightarrow> (\<exists>c. rev s = rev suf @ c)"
    by (simp add: ends_with_def is_prefix_append)
  also have "\<dots> \<longleftrightarrow> (\<exists>p. s = p @ suf)"
    by (metis rev_append rev_rev_ident)
  finally show ?thesis .
qed

lemma trim_suffix_append [simp]: "trim_suffix (s @ suf) suf = s"
  by (simp add: trim_suffix_def ends_with_append)

lemma bytes_less_Nil [simp]: "\<not> bytes_less b []"
  by (cases b) auto

lemma bytes_less_total: "\<not> bytes_less x y \<Longrightarrow> \<not> bytes_less y x \<Longrightarrow> x = y"
  by (induction x y rule: bytes_less.induct) (auto simp: not_less dest: order_antisym)

interpretation bytes: keyed_less bytes_less "\<lambda>s. s"
proof
  show "bytes_less x y \<Longrightarrow> \<not> bytes_less y x" for x y
    by (induction x y rule: bytes_less.induct) auto
  show "\<not> bytes_less x y \<Longrightarrow> \<not> bytes_less y z \<Longrightarrow> \<not> bytes_less x z" for x y z
  proof (induction x y arbitrary: z rule: bytes_less.induct)
    case (3 x a y b)
    then show ?case
      by (cases z) (auto dest: order_antisym [where ?'a = nat] simp: not_less)
  qed (auto elim: bytes_less.elims)
  show "\<not> bytes_less x y \<Longrightarrow> \<not> bytes_less y x \<Longrightarrow> x = y" for x y
    by (rule bytes_less_total)
qed

end
