(* ===== verification/Outbound.thy ===== *)
theory Outbound
  imports Go_Strings "HOL-Library.Word" "HOL-Library.AList"
begin

unbundle bit_operations_syntax

text \<open>
  The outbound side of the server: the registry of integrations (\<open>plugin.go\<close>), the guarded HTTP client
  every crawler uses (\<open>http.go\<close>), and the webhook hook with its admin endpoints (\<open>hooks.go\<close>,
  \<open>plugins_admin.go\<close>).

  The network is a record: how a URL parses (\<open>net/url\<close>), what the \<open>n\<close>-th resolution of a host answers,
  and what the server behind a URL answers.  A redirection carries the absolute URL of its target.
\<close>

section \<open>Addresses\<close>

text \<open>A \<open>net.IP\<close> is 4 or 16 bytes; \<open>To4\<close> also reads the IPv4-mapped form.  The tests are those of package \<open>net\<close>.\<close>

type_synonym ip = "8 word list"

definition to4 :: "ip \<Rightarrow> ip option" where
  "to4 a = (if length a = 4 then Some a
            else if length a = 16 \<and> take 12 a = replicate 10 0 @ [255, 255] then Some (drop 12 a)
            else None)"

definition IsLoopback :: "ip \<Rightarrow> bool" where
  "IsLoopback a = (case to4 a of Some b \<Rightarrow> b ! 0 = 127 | None \<Rightarrow> a = replicate 15 0 @ [1])"

definition IsPrivate :: "ip \<Rightarrow> bool" where
  "IsPrivate a =
     (case to4 a of
        Some b \<Rightarrow> b ! 0 = 10 \<or> b ! 0 = 172 \<and> b ! 1 AND 0xF0 = 16 \<or> b ! 0 = 192 \<and> b ! 1 = 168
      | None \<Rightarrow> length a = 16 \<and> a ! 0 AND 0xFE = 0xFC)"

definition IsLinkLocalUnicast :: "ip \<Rightarrow> bool" where
  "IsLinkLocalUnicast a =
     (case to4 a of
        Some b \<Rightarrow> b ! 0 = 169 \<and> b ! 1 = 254
      | None \<Rightarrow> length a = 16 \<and> a ! 0 = 0xFE \<and> a ! 1 AND 0xC0 = 0x80)"

definition IsLinkLocalMulticast :: "ip \<Rightarrow> bool" where
  "IsLinkLocalMulticast a =
     (case to4 a of
        Some b \<Rightarrow> b ! 0 = 224 \<and> b ! 1 = 0 \<and> b ! 2 = 0
      | None \<Rightarrow> length a = 16 \<and> a ! 0 = 0xFF \<and> a ! 1 AND 0x0F = 2)"

definition IsUnspecified :: "ip \<Rightarrow> bool" where
  "IsUnspecified a = (case to4 a of Some b \<Rightarrow> b = replicate 4 0 | None \<Rightarrow> a = replicate 16 0)"

definition IsMulticast :: "ip \<Rightarrow> bool" where
  "IsMulticast a =
     (case to4 a of
        Some b \<Rightarrow> b ! 0 AND 0xF0 = 0xE0
      | None \<Rightarrow> length a = 16 \<and> a ! 0 = 0xFF)"

section \<open>The network\<close>

datatype answer =
    Moved (moved_to: string)
  | Reply (reply_status: nat) (reply_body: string)
  | Down (down_error: string)

record net =
  nt_url :: "string \<Rightarrow> (string \<times> string) option"
  nt_lookup :: "nat \<Rightarrow> string \<Rightarrow> ip list option"
  nt_answer :: "nat \<Rightarrow> string \<Rightarrow> answer"

text \<open>A request that went out: its URL and the addresses the client may dial for it.\<close>

type_synonym contact = "string \<times> ip list"

definition unsafe_addr :: "ip \<Rightarrow> bool" where
  "unsafe_addr a \<longleftrightarrow> IsLoopback a \<or> IsPrivate a \<or> IsLinkLocalUnicast a
     \<or> IsLinkLocalMulticast a \<or> IsUnspecified a \<or> IsMulticast a"

definition errUnsafeHost :: string where
  "errUnsafeHost = ''plugin: host resolved to a local/private/reserved address''"

text \<open>\<open>None\<close> stands for the nil error.\<close>

definition SafeResolve :: "net \<Rightarrow> nat \<Rightarrow> string \<Rightarrow> string option" where
  "SafeResolve net n host =
     (if host = [] then Some errUnsafeHost
      else case nt_lookup net n host of
             None \<Rightarrow> Some (''plugin: resolve '' @ host)
           | Some ips \<Rightarrow> if list_ex unsafe_addr ips then Some errUnsafeHost else None)"

text \<open>One request of an \<open>http.Client\<close>: the client resolves the host on its own, for the \<open>n\<close>-th time.\<close>

definition send :: "net \<Rightarrow> nat \<Rightarrow> string \<Rightarrow> contact list \<times> answer" where
  "send net n url =
     (case nt_url net url of
        None \<Rightarrow> ([], Down ''bad url'')
      | Some (scheme, host) \<Rightarrow>
          if scheme \<noteq> ''http'' \<and> scheme \<noteq> ''https'' then ([], Down ''unsupported protocol scheme'')
          else case nt_lookup net n host of
                 None \<Rightarrow> ([], Down ''no such host'')
               | Some ips \<Rightarrow> ([(url, ips)], nt_answer net n url))"

text \<open>
  \<open>Client.Do\<close>: a redirection is followed when \<open>CheckRedirect\<close> lets it pass; \<open>via\<close> counts the requests
  made before this one.  Nothing but the check bounds the number of hops, so the result is optional:
  \<open>None\<close> is a call that never returns.
\<close>

partial_function (option) client_do ::
  "(net \<Rightarrow> nat \<Rightarrow> nat \<Rightarrow> string \<Rightarrow> string option) \<Rightarrow> net \<Rightarrow> nat \<Rightarrow> nat \<Rightarrow> string
     \<Rightarrow> (contact list \<times> (string + nat \<times> string)) option" where
  "client_do check net n via url =
     (case snd (send net n url) of
        Reply st body \<Rightarrow> Some (fst (send net n url), Inr (st, body))
      | Down err \<Rightarrow> Some (fst (send net n url), Inl err)
      | Moved target \<Rightarrow>
          (case check net (n + 1) (via + 1) target of
             Some err \<Rightarrow> Some (fst (send net n url), Inl err)
           | None \<Rightarrow> Option.bind (client_do check net (n + 2) (via + 1) target)
                (\<lambda>r. Some (fst (send net n url) @ fst r, snd r))))"

definition safe_redirect :: "net \<Rightarrow> nat \<Rightarrow> nat \<Rightarrow> string \<Rightarrow> string option" where
  "safe_redirect net n via url =
     (case nt_url net url of
        None \<Rightarrow> Some ''failed to parse Location header''
      | Some (scheme, host) \<Rightarrow>
          (case SafeResolve net n host of
             Some err \<Rightarrow> Some err
           | None \<Rightarrow> if via \<ge> 5 then Some ''plugin: too many redirects'' else None))"

definition maxFetchBytes :: nat where
  "maxFetchBytes = 8 * 2 ^ 20"

definition SafeHTTPGet :: "net \<Rightarrow> string \<Rightarrow> (contact list \<times> (string + string)) option" where
  "SafeHTTPGet net url =
     (case nt_url net url of
        None \<Rightarrow> Some ([], Inl ''plugin: bad url'')
      | Some (scheme, host) \<Rightarrow>
          if scheme \<noteq> ''http'' \<and> scheme \<noteq> ''https'' then Some ([], Inl (''plugin: scheme '' @ scheme @ '' not allowed''))
          else case SafeResolve net 0 host of
                 Some err \<Rightarrow> Some ([], Inl err)
               | None \<Rightarrow>
                   Option.bind (client_do safe_redirect net 1 0 url) (\<lambda>(cs, r). Some (cs,
                     case r of
                       Inl err \<Rightarrow> Inl err
                     | Inr (st, body) \<Rightarrow>
                         if st \<noteq> 200 then Inl (''plugin: '' @ url @ '' -> HTTP '' @ nat_str st)
                         else Inr (take maxFetchBytes body))))"

section \<open>The registry\<close>

text \<open>
  The three tables of integrations, by name.  A second registration under one name panics (\<open>None\<close>).
  The names are listed in byte order.
\<close>

record ('src, 'fet, 'hook) plugins =
  problemSrcs :: "(string \<times> 'src) list"
  subFetchers :: "(string \<times> 'fet) list"
  eventHooks :: "(string \<times> 'hook) list"

definition table_add :: "string \<Rightarrow> 'a \<Rightarrow> (string \<times> 'a) list \<Rightarrow> (string \<times> 'a) list option" where
  "table_add k v t = (if map_of t k \<noteq> None then None else Some ((k, v) # t))"

definition RegisterProblemSource ::
  "string \<Rightarrow> 'src \<Rightarrow> ('src, 'fet, 'hook) plugins \<Rightarrow> ('src, 'fet, 'hook) plugins option" where
  "RegisterProblemSource k p r =
     map_option (\<lambda>t. r\<lparr>problemSrcs := t\<rparr>) (table_add k p (problemSrcs r))"

definition RegisterSubmitFetcher ::
  "string \<Rightarrow> 'fet \<Rightarrow> ('src, 'fet, 'hook) plugins \<Rightarrow> ('src, 'fet, 'hook) plugins option" where
  "RegisterSubmitFetcher k p r =
     map_option (\<lambda>t. r\<lparr>subFetchers := t\<rparr>) (table_add k p (subFetchers r))"

definition RegisterEventHook ::
  "string \<Rightarrow> 'hook \<Rightarrow> ('src, 'fet, 'hook) plugins \<Rightarrow> ('src, 'fet, 'hook) plugins option" where
  "RegisterEventHook k p r =
     map_option (\<lambda>t. r\<lparr>eventHooks := t\<rparr>) (table_add k p (eventHooks r))"

definition ProblemSourceNames :: "('src, 'fet, 'hook) plugins \<Rightarrow> string list" where
  "ProblemSourceNames r = sort_by bytes_less (map fst (problemSrcs r))"

definition SubmitFetcherNames :: "('src, 'fet, 'hook) plugins \<Rightarrow> string list" where
  "SubmitFetcherNames r = sort_by bytes_less (map fst (subFetchers r))"

definition ProblemSourceByID :: "('src, 'fet, 'hook) plugins \<Rightarrow> string \<Rightarrow> 'src option" where
  "ProblemSourceByID r k = map_of (problemSrcs r) k"

definition SubmitFetcherByID :: "('src, 'fet, 'hook) plugins \<Rightarrow> string \<Rightarrow> 'fet option" where
  "SubmitFetcherByID r k = map_of (subFetchers r) k"

definition EventHookByID :: "('src, 'fet, 'hook) plugins \<Rightarrow> string \<Rightarrow> 'hook option" where
  "EventHookByID r k = map_of (eventHooks r) k"

text \<open>A finalized submission is handed to every hook; each call runs on a goroutine of its own.\<close>

definition EmitJudgeEvent :: "('hook \<Rightarrow> 'ev \<Rightarrow> 'job) \<Rightarrow> ('src, 'fet, 'hook) plugins \<Rightarrow> 'ev \<Rightarrow> 'job list" where
  "EmitJudgeEvent onJudgeEvent r event = map (\<lambda>h. onJudgeEvent (snd h) event) (eventHooks r)"

section \<open>The webhook\<close>

text \<open>The hook's client has no redirect check of its own: the default follows nine redirections.\<close>

definition default_redirect :: "net \<Rightarrow> nat \<Rightarrow> nat \<Rightarrow> string \<Rightarrow> string option" where
  "default_redirect net n via url =
     (case nt_url net url of
        None \<Rightarrow> Some ''failed to parse Location header''
      | Some _ \<Rightarrow> if via \<ge> 10 then Some ''stopped after 10 redirects'' else None)"

definition hostOf :: "net \<Rightarrow> string \<Rightarrow> string" where
  "hostOf net url = (case nt_url net url of None \<Rightarrow> [] | Some (scheme, host) \<Rightarrow> host)"

type_synonym targets = "(string \<times> string) list"

definition SetTarget :: "string \<Rightarrow> string \<Rightarrow> targets \<Rightarrow> targets" where
  "SetTarget name url w = (if url = [] then AList.delete name w else AList.update name url w)"

definition Targets :: "targets \<Rightarrow> string \<rightharpoonup> string" where
  "Targets w = map_of w"

definition ValidateHookURL :: "net \<Rightarrow> string \<Rightarrow> string option" where
  "ValidateHookURL net url =
     (case nt_url net url of
        None \<Rightarrow> Some ''bad url''
      | Some (scheme, host) \<Rightarrow>
          if scheme \<noteq> ''http'' \<and> scheme \<noteq> ''https'' then Some ''only http/https are allowed''
          else SafeResolve net 0 host)"

text \<open>One delivery: the requests made, and the error when there is one.\<close>

definition postOnce :: "net \<Rightarrow> string \<Rightarrow> (contact list \<times> string option) option" where
  "postOnce net url =
     (case SafeResolve net 0 (hostOf net url) of
        Some err \<Rightarrow> Some ([], Some err)
      | None \<Rightarrow> Option.bind (client_do default_redirect net 1 0 url)
           (\<lambda>(cs, r). Some (cs, case r of Inl err \<Rightarrow> Some err | Inr _ \<Rightarrow> None)))"

text \<open>
  Every target gets the event once, whether the deliveries before it failed or not; a delivery that
  does not return blocks the ones after it.
\<close>

fun deliver_all :: "net \<Rightarrow> string list \<Rightarrow> (string \<times> contact list \<times> string option) list option" where
  "deliver_all net [] = Some []"
| "deliver_all net (u # us) =
     Option.bind (postOnce net u) (\<lambda>r. Option.bind (deliver_all net us) (\<lambda>rs. Some ((u, r) # rs)))"

definition OnJudgeEvent ::
  "net \<Rightarrow> ('ev \<Rightarrow> string option) \<Rightarrow> targets \<Rightarrow> 'ev \<Rightarrow> (string \<times> contact list \<times> string option) list option" where
  "OnJudgeEvent net marshal w event =
     (let urls = map snd w
      in if urls = [] then Some []
         else case marshal event of None \<Rightarrow> Some [] | Some body \<Rightarrow> deliver_all net urls)"

text \<open>The admin endpoints; \<open>hook\<close> is \<open>None\<close> when the registry has no webhook hook.\<close>

definition listHookTargets :: "targets option \<Rightarrow> string \<rightharpoonup> string" where
  "listHookTargets hook = (case hook of None \<Rightarrow> (\<lambda>_. None) | Some w \<Rightarrow> Targets w)"

definition setHookTarget ::
  "net \<Rightarrow> string \<Rightarrow> string option \<Rightarrow> targets option \<Rightarrow> (targets option, string \<rightharpoonup> string) handled" where
  "setHookTarget net name req hook =
     (case req of
        None \<Rightarrow> (hook, Inl (HTTP 400 ''invalid request''))
      | Some url \<Rightarrow>
          if url = [] then (hook, Inl (HTTP 400 ''invalid request''))
          else case ValidateHookURL net url of
                 Some err \<Rightarrow> (hook, Inl (HTTP 400 err))
               | None \<Rightarrow>
                   (case hook of
                      None \<Rightarrow> (hook, Inl (HTTP 500 ''webhook hook not registered''))
                    | Some w \<Rightarrow> (Some (SetTarget name url w), Inr (Targets (SetTarget name url w)))))"

definition deleteHookTarget :: "string \<Rightarrow> targets option \<Rightarrow> (targets option, string \<rightharpoonup> string) handled" where
  "deleteHookTarget name hook =
     (case hook of
        None \<Rightarrow> (hook, Inl (HTTP 500 ''webhook hook not registered''))
      | Some w \<Rightarrow> (Some (SetTarget name [] w), Inr (Targets (SetTarget name [] w))))"

definition pluginList ::
  "('src, 'fet, 'hook) plugins \<Rightarrow> targets \<Rightarrow> string list \<times> string list \<times> string list \<times> (string \<rightharpoonup> string)" where
  "pluginList r w = (ProblemSourceNames r, SubmitFetcherNames r, [''webhook''], Targets w)"

section \<open>The blocks of addresses\<close>

text \<open>
  The address ranges as network blocks: the number of an address, big-endian, and the block of a base
  address with a prefix length.
\<close>

definition ip_val :: "ip \<Rightarrow> nat" where
  "ip_val a = foldl (\<lambda>v b. 256 * v + unat b) 0 a"

definition in_block :: "nat \<Rightarrow> nat \<Rightarrow> nat \<times> nat \<Rightarrow> bool" where
  "in_block width v blk \<longleftrightarrow> v div 2 ^ (width - snd blk) = fst blk div 2 ^ (width - snd blk)"

definition v4 :: "nat \<Rightarrow> nat \<Rightarrow> nat \<Rightarrow> nat \<Rightarrow> nat" where
  "v4 a b c d = ((a * 256 + b) * 256 + c) * 256 + d"

definition blocks4 :: "(nat \<times> nat) list" where
  "blocks4 = [(v4 127 0 0 0, 8), (v4 10 0 0 0, 8), (v4 172 16 0 0, 12), (v4 192 168 0 0, 16),
     (v4 169 254 0 0, 16), (v4 224 0 0 0, 4), (v4 0 0 0 0, 32)]"

definition blocks6 :: "(nat \<times> nat) list" where
  "blocks6 = [(1, 128), (0, 128), (0xFC * 2 ^ 120, 7), (0xFE8 * 2 ^ 116, 10), (0xFF * 2 ^ 120, 8)]"

lemma byte_less: "unat (w :: 8 word) < 256"
  using unsigned_less [of w] by simp

lemma mask_div:
  fixes w :: "8 word"
  assumes "k + j = 8"
  shows "unat (w AND push_bit k (mask j)) = 2 ^ k * (unat w div 2 ^ k)"
proof -
  have "w AND push_bit k (mask j) = push_bit k (drop_bit k w)"
    using assms by (auto intro!: bit_eqI simp: bit_simps)
  moreover have "unat (push_bit k (drop_bit k w)) = 2 ^ k * (unat w div 2 ^ k)"
  proof -
    have "2 ^ k * (unat w div 2 ^ k) < 256"
      using byte_less [of w] times_div_less_eq_dividend [of "2 ^ k" "unat w"] by (rule le_less_trans [rotated])
    then show ?thesis using byte_less [of w]
      by (simp only: unsigned_push_bit_eq unsigned_drop_bit_eq)
        (simp add: drop_bit_eq_div push_bit_eq_mult take_bit_nat_eq_self take_bit_eq_mod mult.commute)
  qed
  ultimately show ?thesis by simp
qed

lemma byte_eq: "w = v \<longleftrightarrow> unat (w :: 8 word) = unat v"
  by (simp add: word_unat_eq_iff)

lemma byte_masks:
  "(w :: 8 word) AND 0xF0 = 16 \<longleftrightarrow> unat w div 16 = 1"
  "w AND 0xF0 = 0xE0 \<longleftrightarrow> unat w div 16 = 14"
  "w AND 0xFE = 0xFC \<longleftrightarrow> unat w div 2 = 126"
  "w AND 0xC0 = 0x80 \<longleftrightarrow> unat w div 64 = 2"
proof -
  have m: "push_bit 4 (mask 4) = (0xF0 :: 8 word)" "push_bit 1 (mask 7) = (0xFE :: 8 word)"
    "push_bit 6 (mask 2) = (0xC0 :: 8 word)"
    by (simp_all add: mask_eq_exp_minus_1 push_bit_eq_mult)
  show "(w :: 8 word) AND 0xF0 = 16 \<longleftrightarrow> unat w div 16 = 1"
    "w AND 0xF0 = 0xE0 \<longleftrightarrow> unat w div 16 = 14"
    "w AND 0xFE = 0xFC \<longleftrightarrow> unat w div 2 = 126"
    "w AND 0xC0 = 0x80 \<longleftrightarrow> unat w div 64 = 2"
    using mask_div [of 4 4 w] mask_div [of 1 7 w] mask_div [of 6 2 w]
    by (simp_all only: m byte_eq) simp_all
qed

lemma v4_div:
  assumes "b < 256" and "c < 256" and "d < 256"
  shows "v4 a b c d div 2 ^ 24 = a" "v4 a b c d div 2 ^ 16 = a * 256 + b"
    "v4 a b c d div 2 ^ 20 = a * 16 + b div 16" "v4 a b c d div 2 ^ 28 = a div 16"
  using assms unfolding v4_def by simp_all

lemma pair_eq: "b < m \<Longrightarrow> n < m \<Longrightarrow> a * m + b = c * m + n \<longleftrightarrow> a = c \<and> b = (n :: nat)"
  by (metis add_right_cancel div_mult_self3 div_less add_0_right mod_less mod_mult_self3 gr_implies_not0)

lemma unsafe_blocks4:
  assumes "to4 a = Some b"
  shows "unsafe_addr a \<longleftrightarrow> list_ex (in_block 32 (ip_val b)) blocks4"
proof -
  have "length b = 4" using assms by (auto simp: to4_def split: if_splits)
  then obtain p q r s where b: "b = [p, q, r, s]"
    by (auto simp: length_Suc_conv eval_nat_numeral)
  have v: "ip_val b = v4 (unat p) (unat q) (unat r) (unat s)" by (simp add: b ip_val_def v4_def algebra_simps)
  note lim = byte_less [of p] byte_less [of q] byte_less [of r] byte_less [of s]
  note dv = v4_div [OF lim(2-4), of "unat p"]
  have blk: "list_ex (in_block 32 (ip_val b)) blocks4 \<longleftrightarrow>
     unat p = 127 \<or> unat p = 10 \<or> unat p * 16 + unat q div 16 = 172 * 16 + 1 \<or> unat p * 256 + unat q = 192 * 256 + 168
     \<or> unat p * 256 + unat q = 169 * 256 + 254 \<or> unat p div 16 = 14 \<or> v4 (unat p) (unat q) (unat r) (unat s) = 0"
    unfolding v by (simp add: blocks4_def in_block_def dv [simplified]) (simp add: v4_def)
  have nths: "[p, q, r, s] ! 0 = p" "[p, q, r, s] ! 1 = q" "[p, q, r, s] ! 2 = r"
    "[p, q, r, s] = replicate 4 0 \<longleftrightarrow> p = 0 \<and> q = 0 \<and> r = 0 \<and> s = 0"
    by (simp_all add: eval_nat_numeral)
  have tests: "unsafe_addr a \<longleftrightarrow> b ! 0 = 127 \<or> (b ! 0 = 10 \<or> b ! 0 = 172 \<and> b ! 1 AND 0xF0 = 16 \<or> b ! 0 = 192 \<and> b ! 1 = 168)
     \<or> b ! 0 = 169 \<and> b ! 1 = 254 \<or> b ! 0 = 224 \<and> b ! 1 = 0 \<and> b ! 2 = 0 \<or> b = replicate 4 0 \<or> b ! 0 AND 0xF0 = 0xE0"
    by (simp add: unsafe_addr_def IsLoopback_def IsPrivate_def IsLinkLocalUnicast_def IsLinkLocalMulticast_def
        IsUnspecified_def IsMulticast_def assms)
  have zero: "v4 (unat p) (unat q) (unat r) (unat s) = 0 \<longleftrightarrow> unat p = 0 \<and> unat q = 0 \<and> unat r = 0 \<and> unat s = 0"
    by (auto simp: v4_def)
  have "unsafe_addr a \<longleftrightarrow> unat p = 127
     \<or> (unat p = 10 \<or> unat p = 172 \<and> unat q div 16 = 1 \<or> unat p = 192 \<and> unat q = 168)
     \<or> unat p = 169 \<and> unat q = 254 \<or> unat p = 224 \<and> unat q = 0 \<and> unat r = 0
     \<or> (unat p = 0 \<and> unat q = 0 \<and> unat r = 0 \<and> unat s = 0) \<or> unat p div 16 = 14"
    using assms
    unfolding tests by (simp only: b nths byte_masks) (simp add: byte_eq)
  also have "\<dots> \<longleftrightarrow> list_ex (in_block 32 (ip_val b)) blocks4"
  proof -
    have "unat p * 16 + unat q div 16 = 172 * 16 + 1 \<longleftrightarrow> unat p = 172 \<and> unat q div 16 = 1"
      "unat p * 256 + unat q = 192 * 256 + 168 \<longleftrightarrow> unat p = 192 \<and> unat q = 168"
      "unat p * 256 + unat q = 169 * 256 + 254 \<longleftrightarrow> unat p = 169 \<and> unat q = 254"
      using pair_eq [of "unat q div 16" 16 1 "unat p" 172] pair_eq [of "unat q" 256 168 "unat p" 192]
        pair_eq [of "unat q" 256 254 "unat p" 169] lim(2) by simp_all
    moreover have "unat p = 224 \<Longrightarrow> unat p div 16 = 14" by simp
    ultimately show ?thesis unfolding blk zero by blast
  qed
  finally show ?thesis .
qed


lemma foldl_bytes: "foldl (\<lambda>v b. 256 * v + unat b) m (a :: ip) = m * 256 ^ length a + ip_val a"
proof (induction a rule: rev_induct)
  case (snoc x xs)
  then show ?case by (simp add: ip_val_def algebra_simps)
qed (simp add: ip_val_def)

lemma ip_val_Cons: "ip_val (x # xs) = unat x * 256 ^ length xs + ip_val xs"
  using foldl_bytes [of "unat x" xs] by (simp add: ip_val_def)

lemma ip_val_less: "ip_val a < 256 ^ length a"
proof (induction a)
  case (Cons x xs)
  have "unat x * 256 ^ length xs + ip_val xs < (unat x + 1) * 256 ^ length xs" using Cons by simp
  also have "\<dots> \<le> 256 * 256 ^ length xs" using byte_less [of x] by (intro mult_right_mono) auto
  finally show ?case by (simp add: ip_val_Cons)
qed (simp add: ip_val_def)

lemma ip_val_inject: "length a = length b \<Longrightarrow> ip_val a = ip_val b \<longleftrightarrow> a = b"
proof (induction a b rule: list_induct2)
  case (Cons x xs y ys)
  have "unat x = unat y \<and> ip_val xs = ip_val ys" if "ip_val (x # xs) = ip_val (y # ys)"
  proof -
    let ?m = "256 ^ length xs :: nat"
    have "unat x * ?m + ip_val xs = unat y * ?m + ip_val ys"
      using that Cons.hyps by (simp add: ip_val_Cons)
    then have "(unat x * ?m + ip_val xs) div ?m = (unat y * ?m + ip_val ys) div ?m"
      and "(unat x * ?m + ip_val xs) mod ?m = (unat y * ?m + ip_val ys) mod ?m" by simp_all
    then show ?thesis using ip_val_less [of xs] ip_val_less [of ys] Cons.hyps by simp
  qed
  then have "x = y \<and> xs = ys" if "ip_val (x # xs) = ip_val (y # ys)"
    using that Cons.IH by (simp add: byte_eq)
  then show ?case by auto
qed simp


lemma to4_v6: "length a = 16 \<Longrightarrow> to4 a = None \<or> (\<exists>b. to4 a = Some b \<and> a = replicate 10 0 @ [255, 255] @ b)"
  by (auto simp: to4_def intro: append_take_drop_id [of 12 a, symmetric, THEN trans])

lemma unsafe_blocks6:
  assumes "to4 a = None" and "length a = 16"
  shows "unsafe_addr a \<longleftrightarrow> list_ex (in_block 128 (ip_val a)) blocks6"
proof -
  obtain p q r where a: "a = p # q # r" and r: "length r = 14"
    using assms(2) by (cases a; cases "tl a") auto
  have rl: "ip_val r < 256 ^ 14" using ip_val_less [of r] r by simp
  have v: "ip_val a = (unat p * 256 + unat q) * 256 ^ 14 + ip_val r"
    by (simp add: a ip_val_Cons r algebra_simps)
  have hi: "ip_val a div 256 ^ 14 = unat p * 256 + unat q" using rl by (simp add: v)
  have dv: "ip_val a div 2 ^ (112 + k) = (unat p * 256 + unat q) div 2 ^ k" for k
    by (simp add: power_add div_mult2_eq hi [symmetric])
  have one: "a = replicate 15 0 @ [1] \<longleftrightarrow> ip_val a = 1" and nil: "a = replicate 16 0 \<longleftrightarrow> ip_val a = 0"
    using ip_val_inject [of a "replicate 15 0 @ [1]"] ip_val_inject [of a "replicate 16 0"] assms(2)
    by (simp_all add: ip_val_def eval_nat_numeral)
  have tests: "unsafe_addr a \<longleftrightarrow> a = replicate 15 0 @ [1] \<or> p AND 0xFE = 0xFC \<or> p = 0xFE \<and> q AND 0xC0 = 0x80
     \<or> a = replicate 16 0 \<or> p = 0xFF"
    using assms by (auto simp: unsafe_addr_def IsLoopback_def IsPrivate_def IsLinkLocalUnicast_def
        IsLinkLocalMulticast_def IsUnspecified_def IsMulticast_def a)
  have lim: "unat p < 256" "unat q < 256" by (rule byte_less)+
  have blk: "list_ex (in_block 128 (ip_val a)) blocks6 \<longleftrightarrow> ip_val a = 1 \<or> ip_val a = 0
     \<or> (unat p * 256 + unat q) div 2 ^ 9 = 126 \<or> (unat p * 256 + unat q) div 2 ^ 6 = 0x3FA
     \<or> (unat p * 256 + unat q) div 2 ^ 8 = 255"
    using dv [of 9] dv [of 6] dv [of 8] by (simp add: blocks6_def in_block_def)
  have "(unat p * 256 + unat q) div 2 ^ 9 = unat p div 2" "(unat p * 256 + unat q) div 2 ^ 8 = unat p"
    "(unat p * 256 + unat q) div 2 ^ 6 = unat p * 4 + unat q div 64"
    using lim by simp_all
  moreover have "unat p * 4 + unat q div 64 = 0x3FA \<longleftrightarrow> unat p = 254 \<and> unat q div 64 = 2"
    using pair_eq [of "unat q div 64" 4 2 "unat p" 254] lim by simp
  ultimately show ?thesis
    unfolding tests blk one nil byte_masks by (auto simp: byte_eq)
qed


text \<open>An address outside every local block.\<close>

definition global_addr :: "ip \<Rightarrow> bool" where
  "global_addr a =
     (case to4 a of
        Some b \<Rightarrow> \<not> list_ex (in_block 32 (ip_val b)) blocks4
      | None \<Rightarrow> \<not> list_ex (in_block 128 (ip_val a)) blocks6)"

lemma unsafe_addr_global: "length a \<in> {4, 16} \<Longrightarrow> unsafe_addr a \<longleftrightarrow> \<not> global_addr a"
  by (cases "to4 a") (auto simp: global_addr_def unsafe_blocks4 unsafe_blocks6 to4_def)

section \<open>Redirections\<close>

text \<open>A redirect check that refuses from some number of requests on.\<close>

locale redirect_policy =
  fixes check :: "net \<Rightarrow> nat \<Rightarrow> nat \<Rightarrow> string \<Rightarrow> string option" and limit :: nat
  assumes bounded: "check net n via url = None \<Longrightarrow> via < limit"
begin

lemma client_do_returns:
  assumes "via < limit"
  shows "\<exists>cs r. client_do check net n via url = Some (cs, r) \<and> length cs \<le> limit - via"
  using assms
proof (induction "limit - via" arbitrary: n via url rule: less_induct)
  case less
  have one: "length (fst (send net n url)) \<le> 1"
    by (auto simp: send_def split: option.split)
  show ?case
  proof (cases "\<exists>target. snd (send net n url) = Moved target \<and> check net (n + 1) (via + 1) target = None")
    case True
    then obtain target where t: "snd (send net n url) = Moved target" "check net (n + 1) (via + 1) target = None" by auto
    then have "via + 1 < limit" using bounded by blast
    then obtain cs r where "client_do check net (n + 2) (via + 1) target = Some (cs, r)" "length cs \<le> limit - (via + 1)"
      using less.hyps [of "via + 1" "n + 2" target] by force
    with t one less.prems show ?thesis by (subst client_do.simps) auto
  next
    case False
    with one less.prems show ?thesis
      by (subst client_do.simps) (auto split: answer.split option.split)
  qed
qed

text \<open>What the check lets pass decides what the client contacts.\<close>

lemma client_do_contacts:
  assumes "client_do check net n via url = Some (cs, r)" and "via < limit" and "Q url"
    and pass: "\<And>n via u. check net n via u = None \<Longrightarrow> Q u"
    and good: "\<And>n u. Q u \<Longrightarrow> list_all P (fst (send net n u))"
  shows "list_all P cs"
  using assms(1-3)
proof (induction "limit - via" arbitrary: n via url cs r rule: less_induct)
  case less
  show ?case
  proof (cases "\<exists>target. snd (send net n url) = Moved target \<and> check net (n + 1) (via + 1) target = None")
    case True
    then obtain target where t: "snd (send net n url) = Moved target" "check net (n + 1) (via + 1) target = None" by auto
    then have lim: "via + 1 < limit" using bounded by blast
    obtain cs' r' where step: "client_do check net (n + 2) (via + 1) target = Some (cs', r')"
      using client_do_returns [OF lim] by blast
    have "cs = fst (send net n url) @ cs'"
      using less.prems(1) t step by (subst (asm) client_do.simps) auto
    moreover have "list_all P cs'"
      using less.hyps [OF _ step lim pass [OF t(2)]] lim by simp
    ultimately show ?thesis using good less.prems(3) by simp
  next
    case False
    then have "cs = fst (send net n url)"
      using less.prems(1) by (subst (asm) client_do.simps) (auto split: answer.splits option.splits)
    with good less.prems(3) show ?thesis by simp
  qed
qed

end

interpretation safe: redirect_policy safe_redirect 5
  by unfold_locales (auto simp: safe_redirect_def split: option.splits if_splits)

interpretation follow: redirect_policy default_redirect 10
  by unfold_locales (auto simp: default_redirect_def split: option.splits if_splits)

text \<open>
  C15. A crawler's fetch always answers, whatever the servers and the name service do: a chain of
  redirections that never ends on its own is cut after at most five requests, and the body handed on
  has at most 8 MiB.
\<close>

theorem fetch_returns:
  "\<exists>cs r. SafeHTTPGet net url = Some (cs, r) \<and> length cs \<le> 5
     \<and> case_sum (\<lambda>_. True) (\<lambda>body. length body \<le> maxFetchBytes) r"
proof -
  obtain cs r where do: "client_do safe_redirect net 1 0 url = Some (cs, r)" "length cs \<le> 5"
    using safe.client_do_returns [of 0 net 1 url] by auto
  then show ?thesis
    by (auto simp: SafeHTTPGet_def split: option.split sum.split)
qed

text \<open>With a name service that answers alike for the length of a fetch, its guard decides for every request.\<close>

definition stable_names :: "net \<Rightarrow> bool" where
  "stable_names net \<longleftrightarrow>
     (\<forall>n h. nt_lookup net n h = nt_lookup net 0 h
        \<and> pred_option (list_all (\<lambda>a. length a = 4 \<or> length a = 16)) (nt_lookup net 0 h))"

definition vetted_url :: "net \<Rightarrow> string \<Rightarrow> bool" where
  "vetted_url net url = (case nt_url net url of None \<Rightarrow> False | Some (scheme, host) \<Rightarrow> SafeResolve net 0 host = None)"

lemma stable_lookup: "stable_names net \<Longrightarrow> nt_lookup net n host = nt_lookup net 0 host"
  unfolding stable_names_def by blast

lemma SafeResolve_stable: "stable_names net \<Longrightarrow> SafeResolve net n host = SafeResolve net 0 host"
  by (simp only: SafeResolve_def stable_lookup [of net n])

lemma vetted_url_send:
  assumes "stable_names net" and "vetted_url net url"
  shows "list_all (\<lambda>c. list_all global_addr (snd c)) (fst (send net n url))"
proof -
  obtain scheme host where u: "nt_url net url = Some (scheme, host)" and ok: "SafeResolve net 0 host = None"
    using assms(2) by (auto simp: vetted_url_def split: option.splits)
  have "list_all global_addr ips" if "nt_lookup net n host = Some ips" for ips
  proof -
    have now: "nt_lookup net 0 host = Some ips" using that stable_lookup [OF assms(1)] by metis
    have "pred_option (list_all (\<lambda>a. length a = 4 \<or> length a = 16)) (nt_lookup net 0 host)"
      using assms(1) unfolding stable_names_def by blast
    with now have "list_all (\<lambda>a. length a = 4 \<or> length a = 16) ips" by simp
    with ok now show ?thesis
      by (auto simp: SafeResolve_def list_all_iff list_ex_iff unsafe_addr_global split: if_splits)
  qed
  then show ?thesis by (auto simp: send_def u split: option.split)
qed

text \<open>
  C14. The server-side request guard: as long as the name service gives one answer per host during a
  fetch, no request of the fetch, redirections included, may dial an address of the loopback,
  private, link-local, multicast or unspecified blocks of IPv4 or IPv6, IPv4-mapped forms included.
\<close>

theorem fetch_confined:
  assumes "stable_names net" and "SafeHTTPGet net url = Some (cs, r)"
  shows "list_all (\<lambda>c. list_all global_addr (snd c)) cs"
proof (cases "cs = []")
  case False
  then obtain r' where do: "client_do safe_redirect net 1 0 url = Some (cs, r')" and first: "vetted_url net url"
    using assms(2) by (auto simp: SafeHTTPGet_def vetted_url_def split: option.splits if_splits bind_splits prod.splits)
  have pass: "vetted_url net u" if "safe_redirect net n via u = None" for n via u
    using that SafeResolve_stable [OF assms(1), of n] by (auto simp: safe_redirect_def vetted_url_def split: option.splits)
  show ?thesis
    by (rule safe.client_do_contacts [where Q = "vetted_url net", OF do _ first]) (auto intro: pass vetted_url_send [OF assms(1)])
qed simp

section \<open>A sample network\<close>

lemma four_zeros: "replicate 4 (0 :: 8 word) = [0, 0, 0, 0]"
  by (simp add: eval_nat_numeral)

lemmas addr_simps = unsafe_addr_def IsLoopback_def IsPrivate_def IsLinkLocalUnicast_def IsLinkLocalMulticast_def
  IsUnspecified_def IsMulticast_def to4_def four_zeros

text \<open>A public site redirects to a name of the inside.\<close>

definition sample_net :: net where
  "sample_net = \<lparr>
     nt_url = map_of [(''http://site/p'', (''http'', ''site'')), (''http://db/'', (''http'', ''db''))],
     nt_lookup = (\<lambda>_. map_of [(''site'', [[93, 184, 216, 34]]), (''db'', [[10, 0, 0, 5]])]),
     nt_answer = (\<lambda>_ url. if url = ''http://site/p'' then Moved ''http://db/'' else Reply 200 ''inside'')\<rparr>"

lemma sample_fetch:
  "SafeHTTPGet sample_net ''http://site/p'' =
     Some ([(''http://site/p'', [[93, 184, 216, 34]])], Inl errUnsafeHost)"
  by (simp add: SafeHTTPGet_def client_do.simps SafeResolve_def send_def safe_redirect_def sample_net_def
      addr_simps)

lemma sample_stable: "stable_names sample_net"
  by (simp add: stable_names_def sample_net_def)

theorem fetch_confined_witness:
  "stable_names sample_net
   \<and> SafeHTTPGet sample_net ''http://site/p'' = Some ([(''http://site/p'', [[93, 184, 216, 34]])], Inl errUnsafeHost)
   \<and> list_all (\<lambda>c. list_all global_addr (snd c)) [(''http://site/p'', [[93, 184, 216, 34]])]"
  using fetch_confined [OF sample_stable sample_fetch] sample_stable sample_fetch by blast

text \<open>
  The webhook's client follows redirections without asking the guard: the event reaches the inside.
\<close>

lemma webhook_follows_inward:
  "OnJudgeEvent sample_net Some [(''bot'', ''http://site/p'')] ''event'' =
     Some [(''http://site/p'', [(''http://site/p'', [[93, 184, 216, 34]]), (''http://db/'', [[10, 0, 0, 5]])], None)]"
  by (simp add: OnJudgeEvent_def postOnce_def hostOf_def client_do.simps SafeResolve_def send_def
      default_redirect_def sample_net_def addr_simps)

text \<open>The client resolves again after the guard: a name that changes its answer in between passes.\<close>

definition rebinding_net :: net where
  "rebinding_net = \<lparr>
     nt_url = map_of [(''http://site/p'', (''http'', ''site''))],
     nt_lookup = (\<lambda>n _. Some [if n = 0 then [93, 184, 216, 34] else [127, 0, 0, 1]]),
     nt_answer = (\<lambda>_ _. Reply 200 ''inside'')\<rparr>"

lemma rebinding_passes:
  "SafeHTTPGet rebinding_net ''http://site/p'' =
     Some ([(''http://site/p'', [[127, 0, 0, 1]])], Inr (take maxFetchBytes ''inside''))"
  by (simp add: SafeHTTPGet_def client_do.simps SafeResolve_def send_def safe_redirect_def rebinding_net_def
      addr_simps)

text \<open>The shared address space 100.64.0.0/10 and the addresses 0.x.y.z count as public.\<close>

lemma reserved_accepted: "\<not> unsafe_addr [100, 64, 0, 1]" "\<not> unsafe_addr [0, 0, 0, 1]"
  by (simp_all add: addr_simps)

section \<open>Deliveries and the registry\<close>

text \<open>A delivery makes at most ten requests.\<close>

lemma postOnce_returns: "\<exists>cs r. postOnce net url = Some (cs, r) \<and> length cs \<le> 10"
  using follow.client_do_returns [of 0 net 1 url] follow.client_do_returns [of 0 net 1 url]
  by (auto simp: postOnce_def split: option.split)

lemma deliver_all_total: "\<exists>rs. deliver_all net us = Some rs \<and> map fst rs = us"
proof (induction us)
  case (Cons u us)
  obtain cs r where "postOnce net u = Some (cs, r)" using postOnce_returns by blast
  with Cons show ?case by auto
qed simp

lemma setHookTarget_valid:
  assumes "setHookTarget net name req hook = (hook', Inr ts)"
  shows "\<exists>url w. req = Some url \<and> hook = Some w \<and> ValidateHookURL net url = None
     \<and> ts = (map_of w)(name \<mapsto> url) \<and> hook' = Some (AList.update name url w)"
  using assms
  by (auto simp: setHookTarget_def SetTarget_def Targets_def update_conv' split: option.splits if_splits)

lemma table_add_distinct:
  "table_add k v t = Some t' \<Longrightarrow> distinct (map fst t) \<Longrightarrow> distinct (map fst t')
     \<and> map_of t' = (map_of t)(k \<mapsto> v)"
  by (auto simp: table_add_def map_of_eq_None_iff split: if_splits)

text \<open>The order the plug-ins register in cannot be seen in the list of names.\<close>

lemma names_order_free:
  assumes "mset (problemSrcs r) = mset (problemSrcs r')" and "distinct (map fst (problemSrcs r'))"
  shows "ProblemSourceNames r = ProblemSourceNames r'"
proof -
  have "mset (map fst (problemSrcs r)) = mset (map fst (problemSrcs r'))"
    using assms(1) by (metis mset_map)
  then show ?thesis
    using bytes.sort_by_perm [of "map fst (problemSrcs r)" "map fst (problemSrcs r')"] assms(2)
    by (simp add: ProblemSourceNames_def)
qed

end
