(* ===== verification/Seccomp.thy ===== *)
theory Seccomp
  imports OJ_Prelude "HOL-Library.Word"
begin

text \<open>
  The seccomp filter of the sandbox (\<open>backend/pkg/sandbox/seccomp_linux.go\<close>): the system-call
  whitelist, the generator of the classic BPF program, and the choice of the kill action from
  the kernel version.  The numbers behind the constants of \<open>golang.org/x/sys/unix\<close> (system-call
  numbers, audit architecture, seccomp actions) are parameters.  The last section executes
  generated programs in an interpreter of classic BPF and shows that every program, for every
  whitelist, allows exactly the listed calls.
\<close>

section \<open>Instructions\<close>

record bpfInstruction =
  Code :: "16 word"
  Jt :: "8 word"
  Jf :: "8 word"
  K :: "32 word"

record seccomp_abi =
  AUDIT_ARCH_X86_64 :: "32 word"
  SECCOMP_RET_ALLOW :: "32 word"
  SECCOMP_RET_KILL :: "32 word"
  SECCOMP_RET_KILL_PROCESS :: "32 word"
  SYS :: "string \<Rightarrow> 32 word"

definition bpfLD :: "16 word" where "bpfLD = 0x00"
definition bpfJMP :: "16 word" where "bpfJMP = 0x05"
definition bpfRET :: "16 word" where "bpfRET = 0x06"
definition bpfW :: "16 word" where "bpfW = 0x00"
definition bpfABS :: "16 word" where "bpfABS = 0x20"
definition bpfJEQ :: "16 word" where "bpfJEQ = 0x10"
definition bpfK :: "16 word" where "bpfK = 0x00"
definition bpfJA :: "16 word" where "bpfJA = 0x00"

lemmas bpf_codes =
  bpfLD_def bpfJMP_def bpfRET_def bpfW_def bpfABS_def bpfJEQ_def bpfK_def bpfJA_def

definition bpfStmt :: "16 word \<Rightarrow> 32 word \<Rightarrow> bpfInstruction" where
  "bpfStmt code k = \<lparr>Code = or code bpfK, Jt = 0, Jf = 0, K = k\<rparr>"

definition bpfJump :: "16 word \<Rightarrow> 32 word \<Rightarrow> 8 word \<Rightarrow> 8 word \<Rightarrow> bpfInstruction" where
  "bpfJump code k jt jf = \<lparr>Code = code, Jt = jt, Jf = jf, K = k\<rparr>"

section \<open>The whitelist\<close>

datatype profile = ProfileCompile | ProfileRun

definition common_syscalls :: "string list" where
  "common_syscalls = [
    ''READ'', ''WRITE'', ''OPEN'', ''CLOSE'',
    ''STAT'', ''FSTAT'', ''LSTAT'', ''POLL'',
    ''LSEEK'', ''MMAP'', ''MPROTECT'', ''MUNMAP'',
    ''BRK'', ''RT_SIGACTION'', ''RT_SIGPROCMASK'',
    ''RT_SIGRETURN'', ''IOCTL'', ''PREAD64'',
    ''PWRITE64'', ''READV'', ''WRITEV'', ''ACCESS'',
    ''PIPE'', ''PIPE2'', ''SELECT'', ''SCHED_YIELD'',
    ''MREMAP'', ''MSYNC'', ''MINCORE'', ''MADVISE'',
    ''DUP'', ''DUP2'', ''DUP3'', ''NANOSLEEP'',
    ''GETITIMER'', ''ALARM'', ''SETITIMER'', ''GETPID'',
    ''GETPPID'', ''SENDFILE'', ''SOCKETPAIR'',
    ''EXECVE'', ''EXIT'', ''WAIT4'', ''WAITID'',
    ''KILL'', ''TGKILL'', ''UNAME'', ''FCNTL'',
    ''FLOCK'', ''FSYNC'', ''FDATASYNC'', ''TRUNCATE'',
    ''FTRUNCATE'', ''GETDENTS'', ''GETDENTS64'',
    ''GETCWD'', ''CHDIR'', ''FCHDIR'', ''RENAME'',
    ''MKDIR'', ''RMDIR'', ''CREAT'', ''LINK'',
    ''UNLINK'', ''SYMLINK'', ''READLINK'', ''CHMOD'',
    ''FCHMOD'', ''UMASK'', ''GETTIMEOFDAY'',
    ''GETRLIMIT'', ''SETRLIMIT'', ''PRLIMIT64'',
    ''GETRUSAGE'', ''SYSINFO'', ''TIMES'', ''GETUID'',
    ''GETEUID'', ''GETGID'', ''GETEGID'', ''SIGALTSTACK'',
    ''STATFS'', ''FSTATFS'', ''PRCTL'', ''ARCH_PRCTL'',
    ''SET_TID_ADDRESS'', ''SCHED_GETAFFINITY'', ''GETRANDOM'',
    ''CLOCK_NANOSLEEP'', ''EXIT_GROUP'', ''EPOLL_CREATE1'',
    ''EPOLL_CTL'', ''EPOLL_WAIT'', ''EPOLL_PWAIT'',
    ''EPOLL_PWAIT2'', ''EVENTFD2'', ''TIMERFD_CREATE'',
    ''TIMERFD_SETTIME'', ''FUTEX'', ''SET_ROBUST_LIST'',
    ''GET_ROBUST_LIST'', ''OPENAT'', ''OPENAT2'',
    ''FACCESSAT'', ''FACCESSAT2'', ''UNLINKAT'',
    ''MKDIRAT'', ''RENAMEAT'', ''RENAMEAT2'', ''FCHMODAT'',
    ''FALLOCATE'', ''COPY_FILE_RANGE'', ''STATX'',
    ''RSEQ'', ''PKEY_MPROTECT'', ''MEMBARRIER'',
    ''MEMFD_CREATE'', ''GETCPU'', ''GETTID'',
    ''RESTART_SYSCALL'',
    ''NEWFSTATAT'', ''CLOCK_GETRES'']"

definition seccompWhitelist :: "seccomp_abi \<Rightarrow> profile \<Rightarrow> 32 word list" where
  "seccompWhitelist abi p =
     (let common = map (SYS abi) common_syscalls;
          common = common @ map (SYS abi) [''FORK'', ''VFORK'', ''CLONE'', ''CLONE3'']
      in if p = ProfileCompile \<or> p = ProfileRun
         then common @ map (SYS abi)
           [''SOCKET'', ''CONNECT'', ''BIND'',
            ''LISTEN'', ''ACCEPT'', ''ACCEPT4'',
            ''SETSOCKOPT'', ''GETSOCKOPT'',
            ''GETSOCKNAME'', ''GETPEERNAME'']
         else common)"

section \<open>The kill action\<close>

text \<open>
  \<open>wrap64\<close> is the wrap-around of Go's 64-bit \<open>int\<close>.  The loop of \<open>parseKernelVersion\<close> stops
  at the NUL byte and after the second dot, and skips characters that are neither dots nor digits.
\<close>

definition wrap64 :: "int \<Rightarrow> int" where
  "wrap64 i = (i + 2 ^ 63) mod 2 ^ 64 - 2 ^ 63"

fun parseKernelVersion_loop :: "string \<Rightarrow> int list \<Rightarrow> int \<Rightarrow> int list \<times> int" where
  "parseKernelVersion_loop [] nums cur = (nums, cur)"
| "parseKernelVersion_loop (c # cs) nums cur =
     (if c = CHR 0x00 then (nums, cur)
      else if c = CHR ''.'' then
        (let nums = nums @ [cur]
         in if length nums = 2 then (nums, 0) else parseKernelVersion_loop cs nums 0)
      else if \<not> is_digit c then parseKernelVersion_loop cs nums cur
      else parseKernelVersion_loop cs nums (wrap64 (cur * 10 + int (digit_val c))))"

definition parseKernelVersion :: "string \<Rightarrow> int \<times> int" where
  "parseKernelVersion release =
     (let (nums, cur) = parseKernelVersion_loop release [] 0;
          nums = nums @ [cur]
      in if length nums < 2 then (0, 0) else (nums ! 0, nums ! 1))"

text \<open>\<open>uname\<close> is the release string of \<open>uname(2)\<close>, \<open>None\<close> when the call fails.\<close>

definition seccompKillAction :: "seccomp_abi \<Rightarrow> string option \<Rightarrow> 32 word" where
  "seccompKillAction abi uname =
     (case uname of
        None \<Rightarrow> SECCOMP_RET_KILL abi
      | Some release \<Rightarrow>
          (let (major, minor) = parseKernelVersion release
           in if major > 4 \<or> (major = 4 \<and> minor \<ge> 14)
              then SECCOMP_RET_KILL_PROCESS abi else SECCOMP_RET_KILL abi))"

section \<open>The generator\<close>

definition chunkSize :: nat where "chunkSize = 120"

text \<open>The inner loop over one chunk: \<open>i\<close> is the loop index, \<open>n\<close> the length of the chunk.\<close>

fun chunk_jumps :: "bool \<Rightarrow> int \<Rightarrow> int \<Rightarrow> 32 word list \<Rightarrow> bpfInstruction list" where
  "chunk_jumps lst n i [] = []"
| "chunk_jumps lst n i (nr # rest) =
     (let isChunkTail = (i = n - 1);
          jt = n - 1 - i;
          jt = (if lst then jt + 1 else jt + 2);
          jt = jt - 1;
          jf = (if isChunkTail then (if lst then 1 else 2) else (0::int))
      in bpfJump (or (or bpfJMP bpfJEQ) bpfK) nr (of_int jt) (of_int jf)
           # chunk_jumps lst n (i + 1) rest)"

text \<open>The outer loop, from \<open>start\<close> in steps of \<open>chunkSize\<close>.\<close>

function chunk_loop :: "seccomp_abi \<Rightarrow> 32 word list \<Rightarrow> nat \<Rightarrow> bpfInstruction list" where
  "chunk_loop abi allowed start =
     (if start < length allowed then
        (let stop = min (start + chunkSize) (length allowed);
             chunk = take (stop - start) (drop start allowed);
             lst = (stop = length allowed);
             n = int (length chunk)
         in chunk_jumps lst n 0 chunk
            @ (if \<not> lst then [bpfJump (or (or bpfJMP bpfJA) bpfK) 2 0 0] else [])
            @ [bpfStmt bpfRET (SECCOMP_RET_ALLOW abi)]
            @ chunk_loop abi allowed (start + chunkSize))
      else [])"
  by pat_completeness auto
termination
  by (relation "measure (\<lambda>(abi, allowed, start). length allowed - start)")
    (auto simp: chunkSize_def)

declare chunk_loop.simps [simp del]

definition build_from_whitelist ::
  "seccomp_abi \<Rightarrow> 32 word \<Rightarrow> 32 word list \<Rightarrow> bpfInstruction list" where
  "build_from_whitelist abi killAction allowed =
     [bpfStmt (or (or bpfLD bpfW) bpfABS) 4,
      bpfJump (or (or bpfJMP bpfJEQ) bpfK) (AUDIT_ARCH_X86_64 abi) 1 0,
      bpfStmt bpfRET killAction]
     @ [bpfStmt (or (or bpfLD bpfW) bpfABS) 0]
     @ chunk_loop abi allowed 0
     @ [bpfStmt bpfRET killAction]"

definition buildSeccompProgram ::
  "seccomp_abi \<Rightarrow> string option \<Rightarrow> profile \<Rightarrow> bpfInstruction list" where
  "buildSeccompProgram abi uname p =
     build_from_whitelist abi (seccompKillAction abi uname) (seccompWhitelist abi p)"

section \<open>Executing filters\<close>

text \<open>
  The kernel's interpreter for the instructions the generator emits.  \<open>seccomp_data\<close> offers the
  call number at offset 0 and the architecture at offset 4.  Jump offsets are unsigned and
  relative to the next instruction, so the state is the rest of the program and execution ends;
  \<open>None\<close> is a filter that runs off its end or holds an instruction or load it must not hold.
\<close>

record seccomp_data =
  sd_nr :: "32 word"
  sd_arch :: "32 word"

function bpf_exec :: "seccomp_data \<Rightarrow> bpfInstruction list \<Rightarrow> 32 word \<Rightarrow> 32 word option" where
  "bpf_exec d [] a = None"
| "bpf_exec d (ins # rest) a =
     (if Code ins = or (or bpfLD bpfW) bpfABS then
        (if K ins = 4 then bpf_exec d rest (sd_arch d)
         else if K ins = 0 then bpf_exec d rest (sd_nr d) else None)
      else if Code ins = or (or bpfJMP bpfJEQ) bpfK then
        (if a = K ins then bpf_exec d (drop (unat (Jt ins)) rest) a
         else bpf_exec d (drop (unat (Jf ins)) rest) a)
      else if Code ins = or (or bpfJMP bpfJA) bpfK then bpf_exec d (drop (unat (K ins)) rest) a
      else if Code ins = or bpfRET bpfK then Some (K ins)
      else None)"
  by pat_completeness auto
termination
  by (relation "measure (\<lambda>(d, code, a). length code)") auto

lemma bpf_exec_load [simp]:
  "bpf_exec d (bpfStmt (or (or bpfLD bpfW) bpfABS) 4 # rest) a = bpf_exec d rest (sd_arch d)"
  "bpf_exec d (bpfStmt (or (or bpfLD bpfW) bpfABS) 0 # rest) a = bpf_exec d rest (sd_nr d)"
  by (simp_all add: bpfStmt_def bpf_codes)

lemma bpf_exec_jeq [simp]:
  "bpf_exec d (bpfJump (or (or bpfJMP bpfJEQ) bpfK) k jt jf # rest) a =
     bpf_exec d (drop (unat (if a = k then jt else jf)) rest) a"
  by (simp add: bpfJump_def bpf_codes)

lemma bpf_exec_ret [simp]: "bpf_exec d (bpfStmt bpfRET k # rest) a = Some k"
  by (simp add: bpfStmt_def bpf_codes)

declare bpf_exec.simps(2) [simp del]

subsection \<open>Chunks\<close>

lemma unat_of_int_byte: "0 \<le> j \<Longrightarrow> j < 256 \<Longrightarrow> unat (of_int j :: 8 word) = nat j"
  by (simp add: unat_eq_nat_uint uint_word_of_int_eq take_bit_eq_mod)

lemma length_chunk_jumps [simp]: "length (chunk_jumps lst n i cs) = length cs"
  by (induction cs arbitrary: i) (simp_all add: Let_def)

text \<open>
  Distances in a chunk whose loop is at index \<open>i = n - length cs\<close>: a match jumps over the
  remaining tests (and, in a chunk that is not the last, over the trampoline) to the chunk's
  \<open>RET ALLOW\<close>; the mismatch of the last test jumps behind it.
\<close>

lemma bpf_exec_chunk:
  assumes "i = n - int (length cs)" and "cs \<noteq> []" and "n \<le> int chunkSize" and "0 \<le> i"
    and ja: "length ja = (if lst then 0 else 1)"
  shows "bpf_exec d (chunk_jumps lst n i cs @ ja @ bpfStmt bpfRET allow # rest) a =
    (if a \<in> set cs then Some allow else bpf_exec d rest a)"
  using assms(1-4)
proof (induction cs arbitrary: i)
  case Nil
  then show ?case by simp
next
  case (Cons c cs)
  let ?tl = "chunk_jumps lst n (i + 1) cs @ ja @ bpfStmt bpfRET allow # rest"
  let ?jt = "n - 1 - i + (if lst then 0 else 1)"
  have n: "n = i + 1 + int (length cs)" using Cons.prems(1) by simp
  have len: "length cs < chunkSize" using Cons.prems(3,4) n by simp
  have jt: "unat (of_int ?jt :: 8 word) = length cs + length ja"
    using unat_of_int_byte [of ?jt] n len ja by (auto simp: chunkSize_def simp del: of_int_add)
  have match: "drop (length cs + length ja) ?tl = bpfStmt bpfRET allow # rest" by simp
  show ?case
  proof (cases "a = c")
    case True
    then show ?thesis
      using jt match by (simp add: Let_def algebra_simps split: if_splits)
  next
    case False
    show ?thesis
    proof (cases "cs = []")
      case True
      then show ?thesis
        using False n ja by (cases lst) (simp_all add: Let_def drop_Cons')
    next
      case cs: False
      have "bpf_exec d ?tl a = (if a \<in> set cs then Some allow else bpf_exec d rest a)"
        using Cons.IH [of "i + 1"] Cons.prems cs by simp
      moreover have "i \<noteq> n - 1" using n cs by simp
      ultimately show ?thesis using False by (simp add: Let_def)
    qed
  qed
qed

lemma bpf_exec_chunk_loop:
  assumes "start \<le> length allowed"
  shows "bpf_exec d (chunk_loop abi allowed start @ rest) a =
    (if a \<in> set (drop start allowed) then Some (SECCOMP_RET_ALLOW abi) else bpf_exec d rest a)"
  using assms
proof (induction abi allowed start rule: chunk_loop.induct)
  case (1 abi allowed start)
  show ?case
  proof (cases "start < length allowed")
    case False
    then show ?thesis by (simp add: chunk_loop.simps [of _ _ start])
  next
    case True
    define stop where "stop = min (start + chunkSize) (length allowed)"
    define chunk where "chunk = take (stop - start) (drop start allowed)"
    define lst where "lst = (stop = length allowed)"
    define ja where
      "ja = (if \<not> lst then [bpfJump (or (or bpfJMP bpfJA) bpfK) 2 0 0] else [])"
    have pos: "0 < chunkSize" by (simp add: chunkSize_def)
    have len: "length chunk = stop - start" and lt: "start < stop"
      using True pos by (auto simp: chunk_def stop_def)
    then have ne: "chunk \<noteq> []" and bound: "length chunk \<le> chunkSize"
      by (auto simp: stop_def)
    have ja: "length ja = (if lst then 0 else 1)" by (simp add: ja_def)
    have unfold: "chunk_loop abi allowed start =
        chunk_jumps lst (int (length chunk)) 0 chunk @ ja
        @ [bpfStmt bpfRET (SECCOMP_RET_ALLOW abi)] @ chunk_loop abi allowed (start + chunkSize)"
      using True by (subst chunk_loop.simps)
        (simp add: Let_def chunk_def lst_def stop_def ja_def)
    have exec: "bpf_exec d (chunk_loop abi allowed start @ rest) a =
        (if a \<in> set chunk then Some (SECCOMP_RET_ALLOW abi)
         else bpf_exec d (chunk_loop abi allowed (start + chunkSize) @ rest) a)"
      using bpf_exec_chunk [of 0 "int (length chunk)" chunk ja lst d "SECCOMP_RET_ALLOW abi"
          "chunk_loop abi allowed (start + chunkSize) @ rest" a] ne bound ja
      by (simp add: unfold)
    show ?thesis
    proof (cases "start + chunkSize < length allowed")
      case more: True
      have "set (drop start allowed) = set chunk \<union> set (drop (start + chunkSize) allowed)"
        using more by (simp add: chunk_def stop_def flip: drop_drop)
          (metis append_take_drop_id drop_drop add.commute set_append)
      moreover have "bpf_exec d (chunk_loop abi allowed (start + chunkSize) @ rest) a =
          (if a \<in> set (drop (start + chunkSize) allowed) then Some (SECCOMP_RET_ALLOW abi)
           else bpf_exec d rest a)"
        using 1(1) [OF True refl refl refl refl] more by simp
      ultimately show ?thesis using exec by auto
    next
      case False
      then have "stop = length allowed" by (simp add: stop_def)
      then have "chunk = drop start allowed" by (simp add: chunk_def)
      moreover have "chunk_loop abi allowed (start + chunkSize) = []"
        using False by (subst chunk_loop.simps) simp
      ultimately show ?thesis using exec by simp
    qed
  qed
qed

lemma bpf_exec_build:
  "bpf_exec d (build_from_whitelist abi kill allowed) a =
     (if sd_arch d \<noteq> AUDIT_ARCH_X86_64 abi then Some kill
      else if sd_nr d \<in> set allowed then Some (SECCOMP_RET_ALLOW abi) else Some kill)"
  by (simp add: build_from_whitelist_def bpf_exec_chunk_loop)

subsection \<open>Jump offsets\<close>

lemma chunk_jumps_offsets:
  assumes "i = n - int (length cs)" and "n \<le> int chunkSize" and "0 \<le> i"
    and "ins \<in> set (chunk_jumps lst n i cs)"
  shows "unat (Jt ins) \<le> chunkSize \<and> unat (Jf ins) \<le> 2"
  using assms
proof (induction cs arbitrary: i)
  case Nil
  then show ?case by simp
next
  case (Cons c cs)
  let ?jt = "n - 1 - i + (if lst then 0 else 1)"
  have "unat (of_int ?jt :: 8 word) = nat ?jt"
    using Cons.prems by (intro unat_of_int_byte) (auto simp: chunkSize_def)
  moreover have "nat ?jt \<le> chunkSize" using Cons.prems(1-3) by auto
  ultimately have jt: "unat (of_int ?jt :: 8 word) \<le> chunkSize" by (simp only:)
  consider "ins = bpfJump (or (or bpfJMP bpfJEQ) bpfK) c (of_int ?jt)
      (of_int (if i = n - 1 then (if lst then 1 else 2) else 0))"
    | "ins \<in> set (chunk_jumps lst n (i + 1) cs)"
    using Cons.prems(4) by (cases lst) (auto simp: Let_def algebra_simps)
  then show ?case
  proof cases
    case 1
    then show ?thesis using jt by (simp add: bpfJump_def)
  next
    case 2
    then show ?thesis using Cons.IH [of "i + 1"] Cons.prems by simp
  qed
qed

lemma chunk_loop_offsets:
  "ins \<in> set (chunk_loop abi allowed start) \<Longrightarrow> unat (Jt ins) \<le> chunkSize \<and> unat (Jf ins) \<le> 2"
proof (induction abi allowed start rule: chunk_loop.induct)
  case (1 abi allowed start)
  show ?case
  proof (cases "start < length allowed")
    case False
    then show ?thesis using "1.prems" by (simp add: chunk_loop.simps [of _ _ start])
  next
    case True
    let ?stop = "min (start + chunkSize) (length allowed)"
    let ?chunk = "take (?stop - start) (drop start allowed)"
    have "length ?chunk \<le> chunkSize" by simp
    then have chunk: "unat (Jt ins) \<le> chunkSize \<and> unat (Jf ins) \<le> 2"
      if "ins \<in> set (chunk_jumps lst (int (length ?chunk)) 0 ?chunk)" for lst
      by (intro chunk_jumps_offsets [OF _ _ _ that]) auto
    have "ins \<in> set (chunk_jumps (?stop = length allowed) (int (length ?chunk)) 0 ?chunk)
      \<or> ins = bpfJump (or (or bpfJMP bpfJA) bpfK) 2 0 0
      \<or> ins = bpfStmt bpfRET (SECCOMP_RET_ALLOW abi)
      \<or> ins \<in> set (chunk_loop abi allowed (start + chunkSize))"
      using "1.prems" True
      by (subst (asm) chunk_loop.simps) (auto simp: Let_def split: if_splits)
    then show ?thesis
      using chunk "1.IH" [OF True refl refl refl refl]
      by (auto simp: bpfJump_def bpfStmt_def)
  qed
qed

subsection \<open>Kernel versions\<close>

lemma wrap64_id: "0 \<le> i \<Longrightarrow> i < 2 ^ 63 \<Longrightarrow> wrap64 i = i"
  by (simp add: wrap64_def)

lemma not_dot_digit: "is_digit c \<Longrightarrow> c \<noteq> CHR ''.'' \<and> c \<noteq> CHR 0x00"
  by (auto simp: is_digit_def)

lemma parseKernelVersion_loop_num:
  assumes "int n < 2 ^ 63"
  shows "parseKernelVersion_loop (nat_str n @ rest) nums 0 =
    parseKernelVersion_loop rest nums (int n)"
  using assms
proof (induction n arbitrary: rest rule: nat_str.induct)
  case (1 n)
  show ?case
  proof (cases "n < 10")
    case True
    then show ?thesis
      using not_dot_digit [OF is_digit_digit_char [OF True]]
      by (subst nat_str.simps) (simp add: wrap64_id)
  next
    case False
    have d: "n mod 10 < 10" by simp
    have "int (n div 10) < 2 ^ 63" using "1.prems" by linarith
    then have "parseKernelVersion_loop (nat_str n @ rest) nums 0 =
        parseKernelVersion_loop (digit_char (n mod 10) # rest) nums (int (n div 10))"
      using False "1.IH" by (subst nat_str.simps) simp
    also have "\<dots> = parseKernelVersion_loop rest nums
        (wrap64 (int (n div 10) * 10 + int (n mod 10)))"
      using not_dot_digit [OF is_digit_digit_char [OF d]] d by simp
    also have "int (n div 10) * 10 + int (n mod 10) = int n" by presburger
    finally show ?thesis using "1.prems" by (simp add: wrap64_id)
  qed
qed

lemma parseKernelVersion_release:
  assumes "int major < 2 ^ 63" and "int minor < 2 ^ 63"
    and "rest = [] \<or> hd rest = CHR ''.'' \<or> hd rest = CHR 0x00"
  shows "parseKernelVersion (nat_str major @ CHR ''.'' # nat_str minor @ rest) =
    (int major, int minor)"
proof -
  have "parseKernelVersion_loop (nat_str major @ CHR ''.'' # nat_str minor @ rest) [] 0 =
      parseKernelVersion_loop (nat_str minor @ rest) [int major] 0"
    using parseKernelVersion_loop_num [OF assms(1), of "CHR ''.'' # nat_str minor @ rest" "[]"]
    by simp
  also have "\<dots> = parseKernelVersion_loop rest [int major] (int minor)"
    by (rule parseKernelVersion_loop_num [OF assms(2)])
  finally show ?thesis
    using assms(3) by (cases rest) (auto simp: parseKernelVersion_def)
qed

section \<open>Properties\<close>

text \<open>
  C12. The generated filter is exact for every whitelist, however long: on the expected
  architecture a listed call is allowed and any other call meets the kill action, and on any
  other architecture (32-bit or x32 entry) every call meets the kill action.  The filter always
  ends in a verdict.
\<close>

theorem seccomp_filter_exact:
  "bpf_exec d (build_from_whitelist abi kill allowed) 0 =
     Some (if sd_arch d = AUDIT_ARCH_X86_64 abi \<and> sd_nr d \<in> set allowed
           then SECCOMP_RET_ALLOW abi else kill)"
  by (simp add: bpf_exec_build)

text \<open>
  No jump offset of a generated program is truncated by its 8-bit field: for both profiles,
  every true-offset is at most the chunk size and every false-offset at most 2.
\<close>

theorem seccomp_offsets_fit:
  "list_all (\<lambda>ins. unat (Jt ins) \<le> 120 \<and> unat (Jf ins) \<le> 2) (buildSeccompProgram abi uname p)"
proof (unfold list_all_iff, rule ballI)
  fix ins
  assume "ins \<in> set (buildSeccompProgram abi uname p)"
  then consider "ins \<in> set (chunk_loop abi (seccompWhitelist abi p) 0)"
    | "unat (Jt ins) \<le> 1 \<and> unat (Jf ins) \<le> 0"
    by (auto simp: buildSeccompProgram_def build_from_whitelist_def bpfJump_def bpfStmt_def)
  then show "unat (Jt ins) \<le> 120 \<and> unat (Jf ins) \<le> 2"
    using chunk_loop_offsets by cases (auto simp: chunkSize_def)
qed

text \<open>
  The kill action follows the kernel version: for a release string \<open>major.minor\<close> followed
  by a dot, a NUL or nothing, the whole process is killed exactly from version 4.14 on.
\<close>

theorem kill_action_by_version:
  assumes "int major < 2 ^ 63" and "int minor < 2 ^ 63"
    and "rest = [] \<or> hd rest = CHR ''.'' \<or> hd rest = CHR 0x00"
  shows "seccompKillAction abi (Some (nat_str major @ CHR ''.'' # nat_str minor @ rest)) =
    (if 4 < major \<or> major = 4 \<and> 14 \<le> minor
     then SECCOMP_RET_KILL_PROCESS abi else SECCOMP_RET_KILL abi)"
  using parseKernelVersion_release [OF assms] by (simp add: seccompKillAction_def)

theorem kill_action_by_version_witness:
  "\<forall>abi. seccompKillAction abi (Some (nat_str 6 @ CHR ''.'' # nat_str 1 @ ''.0-18-amd64'')) =
     SECCOMP_RET_KILL_PROCESS abi"
proof -
  have "''.0-18-amd64'' = [] \<or> hd ''.0-18-amd64'' = CHR ''.'' \<or> hd ''.0-18-amd64'' = CHR 0x00"
    by simp
  from kill_action_by_version [OF _ _ this, of 6 1] show ?thesis by simp
qed

text \<open>
  The two profiles have the same whitelist, so a run may fork like a compilation does, whatever
  the comments on the profiles say.
\<close>

theorem run_profile_may_fork:
  "seccompWhitelist abi ProfileRun = seccompWhitelist abi ProfileCompile
   \<and> SYS abi ''FORK'' \<in> set (seccompWhitelist abi ProfileRun)"
  by (simp add: seccompWhitelist_def Let_def)

text \<open>
  The trampoline between two chunks is never entered.  If it were, its offset 2 would skip the
  first test of the next chunk.
\<close>

theorem trampoline_skips_first_test:
  "bpf_exec d (bpfJump (or (or bpfJMP bpfJA) bpfK) 2 0 0
     # bpfStmt bpfRET (SECCOMP_RET_ALLOW abi) # chunk_loop abi allowed start) a =
   bpf_exec d (tl (chunk_loop abi allowed start)) a"
  by (simp add: bpf_exec.simps bpfJump_def bpf_codes drop_Suc)

end
