(* ===== verification/OJ_Model.thy ===== *)
theory OJ_Model
  imports OJ_Prelude
begin

text \<open>
  The entities of \<open>backend/internal/model/model.go\<close> as records, with the fields of the Go structs
  under a prefix per struct, the shared vocabulary of roles, visibilities, verdicts and contest
  modes, and the database as one record of tables.  A nullable pointer is an \<open>option\<close>; a column
  holding JSON text is the value the text encodes.
\<close>

section \<open>Vocabulary\<close>

abbreviation RoleSuperAdmin :: string where "RoleSuperAdmin \<equiv> ''super_admin''"
abbreviation RoleAdmin :: string where "RoleAdmin \<equiv> ''admin''"
abbreviation RoleSetter :: string where "RoleSetter \<equiv> ''setter''"
abbreviation RoleUser :: string where "RoleUser \<equiv> ''user''"

abbreviation VisibilityHidden :: string where "VisibilityHidden \<equiv> ''hidden''"
abbreviation VisibilityMembers :: string where "VisibilityMembers \<equiv> ''members''"
abbreviation VisibilityPublic :: string where "VisibilityPublic \<equiv> ''public''"

abbreviation JudgeModeDefault :: string where "JudgeModeDefault \<equiv> ''default''"
abbreviation JudgeModeSPJ :: string where "JudgeModeSPJ \<equiv> ''spj''"
abbreviation JudgeModeInteractive :: string where "JudgeModeInteractive \<equiv> ''interactive''"

abbreviation SubPending :: string where "SubPending \<equiv> ''PENDING''"
abbreviation SubCompiling :: string where "SubCompiling \<equiv> ''COMPILING''"
abbreviation SubJudging :: string where "SubJudging \<equiv> ''JUDGING''"
abbreviation SubAC :: string where "SubAC \<equiv> ''AC''"
abbreviation SubWA :: string where "SubWA \<equiv> ''WA''"
abbreviation SubTLE :: string where "SubTLE \<equiv> ''TLE''"
abbreviation SubMLE :: string where "SubMLE \<equiv> ''MLE''"
abbreviation SubRE :: string where "SubRE \<equiv> ''RE''"
abbreviation SubCE :: string where "SubCE \<equiv> ''CE''"
abbreviation SubSE :: string where "SubSE \<equiv> ''SE''"

abbreviation ContestModeACM :: string where "ContestModeACM \<equiv> ''acm''"
abbreviation ContestModeIOI :: string where "ContestModeIOI \<equiv> ''ioi''"

abbreviation DaemonOnline :: string where "DaemonOnline \<equiv> ''online''"
abbreviation DaemonOffline :: string where "DaemonOffline \<equiv> ''offline''"

section \<open>Users and invitations\<close>

record User =
  u_ID :: nat
  u_Username :: string
  u_PasswordHash :: string
  u_Nickname :: string
  u_Role :: string
  u_StudentNo :: string
  u_Banned :: bool
  u_CreatedAt :: time
  u_LastLoginAt :: "time option"

record InvitationCode =
  ic_ID :: nat
  ic_Code :: string
  ic_MaxUses :: int
  ic_UsedCount :: int
  ic_ExpiresAt :: "time option"
  ic_CreatedBy :: nat
  ic_CreatedAt :: time

section \<open>Problems\<close>

record Sample =
  sm_Input :: string
  sm_Output :: string
  sm_Note :: string

record Problem =
  p_ID :: nat
  p_Title :: string
  p_StatementMD :: string
  p_InputDesc :: string
  p_OutputDesc :: string
  p_Hint :: string
  p_Source :: string
  p_Tags :: "string list"
  p_Samples :: "Sample list"
  p_TimeLimitMS :: int
  p_MemLimitMB :: int
  p_Visibility :: string
  p_JudgeMode :: string
  p_ContestID :: "nat option"
  p_ReviewStatus :: string
  p_CheckerSource :: string
  p_InteractorSrc :: string
  p_CreatedBy :: nat
  p_CreatedAt :: time
  p_UpdatedAt :: time

record ProblemSolution =
  ps_ID :: nat
  ps_ProblemID :: nat
  ps_UserID :: nat
  ps_ParentID :: "nat option"
  ps_Title :: string
  ps_BodyMD :: string
  ps_IsOfficial :: bool
  ps_CreatedAt :: time
  ps_UpdatedAt :: time

record TestCase =
  tc_ID :: nat
  tc_ProblemID :: nat
  tc_CaseIndex :: int
  tc_InputSHA :: string
  tc_AnswerSHA :: string
  tc_InputSize :: int
  tc_AnswerSize :: int
  tc_Score :: int
  tc_CreatedAt :: time

section \<open>Submissions\<close>

record CaseResult =
  cr_Index :: int
  cr_Status :: string
  cr_TimeMS :: int
  cr_MemKB :: int
  cr_Message :: string
  cr_Score :: int

record Submission =
  s_ID :: nat
  s_UserID :: nat
  s_ProblemID :: nat
  s_ContestID :: "nat option"
  s_Language :: string
  s_CodePath :: string
  s_CodeSize :: int
  s_Status :: string
  s_Score :: int
  s_TimeMS :: int
  s_MemoryKB :: int
  s_CompileMessage :: string
  s_Cases :: "CaseResult list"
  s_CreatedAt :: time
  s_JudgedAt :: "time option"
  s_LeaseUntil :: "time option"
  s_IsPractice :: bool
  s_Cancelled :: bool

section \<open>Contests\<close>

record ContestUserFlag =
  f_ID :: nat
  f_ContestID :: nat
  f_UserID :: nat
  f_Starred :: bool
  f_Cheated :: bool
  f_UpdatedAt :: time

record ContestNotice =
  cn_ID :: nat
  cn_ContestID :: nat
  cn_Content :: string
  cn_CreatedAt :: time

record Contest =
  c_ID :: nat
  c_Title :: string
  c_Description :: string
  c_Mode :: string
  c_Visibility :: string
  c_StartTime :: time
  c_EndTime :: time
  c_FreezeTime :: "time option"
  c_FreezeEnabled :: bool
  c_NoManualFreeze :: bool
  c_ManualFrozen :: bool
  c_ManualFrozenAt :: "time option"
  c_RevealCount :: int
  c_RequireRegistration :: "bool option"
  c_TeamMode :: bool
  c_TeamCapacity :: int
  c_CreatedBy :: nat
  c_CreatedAt :: time

record ContestRegistration =
  r_ID :: nat
  r_ContestID :: nat
  r_UserID :: nat
  r_TeamName :: string
  r_TeamType :: string
  r_TeamID :: nat
  r_CreatedAt :: time

record ContestProblem =
  cp_ID :: nat
  cp_ContestID :: nat
  cp_ProblemID :: nat
  cp_Label :: string
  cp_OrderIndex :: int

section \<open>Judge machines\<close>

text \<open>The load figures of a heartbeat are floating point in the program; here they are opaque.\<close>

type_synonym load_figure = string

record JudgeDaemon =
  jd_ID :: nat
  jd_Name :: string
  jd_Status :: string
  jd_Capacity :: int
  jd_ActiveTasks :: int
  jd_Languages :: "string list"
  jd_LastHeartbeat :: "time option"
  jd_Load1 :: load_figure
  jd_MemUsedMB :: load_figure
  jd_MemTotalMB :: load_figure
  jd_CreatedAt :: time

section \<open>Problem lists and teams\<close>

record ProblemList =
  pl_ID :: nat
  pl_Title :: string
  pl_Description :: string
  pl_CreatedBy :: nat
  pl_CreatedAt :: time
  pl_UpdatedAt :: time

record ProblemListItem =
  pi_ID :: nat
  pi_ListID :: nat
  pi_ProblemID :: nat
  pi_OrderIndex :: int
  pi_Note :: string

record Team =
  t_ID :: nat
  t_Name :: string
  t_Bio :: string
  t_Capacity :: int
  t_CaptainID :: nat
  t_InviteCode :: string
  t_CreatedAt :: time

record TeamMember =
  tm_ID :: nat
  tm_TeamID :: nat
  tm_UserID :: nat
  tm_JoinedAt :: time

record TeamNotice =
  tn_ID :: nat
  tn_TeamID :: nat
  tn_UserID :: nat
  tn_Content :: string
  tn_CreatedAt :: time

record TeamList =
  tl_ID :: nat
  tl_TeamID :: nat
  tl_ListID :: nat
  tl_CreatedAt :: time

section \<open>The database\<close>

text \<open>
  \<open>db_files\<close> is the part of the data directory the handlers write (submitted code, test data),
  by path.
\<close>

record db =
  db_users :: "User table"
  db_codes :: "InvitationCode table"
  db_problems :: "Problem table"
  db_solutions :: "ProblemSolution table"
  db_cases :: "TestCase table"
  db_submissions :: "Submission table"
  db_flags :: "ContestUserFlag table"
  db_notices :: "ContestNotice table"
  db_contests :: "Contest table"
  db_regs :: "ContestRegistration table"
  db_links :: "ContestProblem table"
  db_daemons :: "JudgeDaemon table"
  db_lists :: "ProblemList table"
  db_items :: "ProblemListItem table"
  db_teams :: "Team table"
  db_members :: "TeamMember table"
  db_team_notices :: "TeamNotice table"
  db_team_lists :: "TeamList table"
  db_files :: "string \<Rightarrow> string option"

definition empty_db :: db where
  "empty_db = \<lparr>
     db_users = empty_table, db_codes = empty_table, db_problems = empty_table,
     db_solutions = empty_table, db_cases = empty_table, db_submissions = empty_table,
     db_flags = empty_table, db_notices = empty_table, db_contests = empty_table,
     db_regs = empty_table, db_links = empty_table, db_daemons = empty_table,
     db_lists = empty_table, db_items = empty_table, db_teams = empty_table,
     db_members = empty_table, db_team_notices = empty_table, db_team_lists = empty_table,
     db_files = (\<lambda>_. None)\<rparr>"

section \<open>The authenticated caller\<close>

text \<open>
  \<open>Claims\<close> is the part of \<open>auth.Claims\<close> the handlers read; an anonymous request has none.  The
  role is the one stored in the token when it was issued.
\<close>

record Claims =
  cl_UserID :: nat
  cl_Username :: string
  cl_Role :: string

definition isAdminRole :: "string \<Rightarrow> bool" where
  "isAdminRole role \<longleftrightarrow> role = RoleAdmin \<or> role = RoleSuperAdmin"

definition isSetterRole :: "string \<Rightarrow> bool" where
  "isSetterRole role \<longleftrightarrow> role = RoleSetter \<or> isAdminRole role"

definition IsSuperAdmin :: "string \<Rightarrow> bool" where
  "IsSuperAdmin role \<longleftrightarrow> role = RoleSuperAdmin"

definition orDefault :: "string \<Rightarrow> string \<Rightarrow> string" where
  "orDefault v d = (if v = [] then d else v)"

text \<open>\<open>paramID\<close> reads a numeric route parameter; \<open>math.MaxUint32\<close> is \<open>2 ^ 32 - 1\<close>.\<close>

definition paramID :: "string \<Rightarrow> nat option" where
  "paramID s =
     (case parse_uint64 s of
        None \<Rightarrow> None
      | Some id64 \<Rightarrow> (if id64 = 0 \<or> id64 > 2 ^ 32 - 1 then None else Some id64))"

definition byID :: "('a \<Rightarrow> nat) \<Rightarrow> 'a table \<Rightarrow> nat \<Rightarrow> 'a option" where
  "byID key t i = tbl_first (\<lambda>r. key r = i) t"

definition contestByID :: "db \<Rightarrow> string \<Rightarrow> Contest option" where
  "contestByID s idstr =
     (case paramID idstr of None \<Rightarrow> None | Some i \<Rightarrow> byID c_ID (db_contests s) i)"

definition contestByIDValue :: "db \<Rightarrow> nat \<Rightarrow> Contest option" where
  "contestByIDValue s i = byID c_ID (db_contests s) i"

definition problemByID :: "db \<Rightarrow> string \<Rightarrow> Problem option" where
  "problemByID s idstr =
     (case paramID idstr of None \<Rightarrow> None | Some i \<Rightarrow> byID p_ID (db_problems s) i)"

definition submissionByID :: "db \<Rightarrow> string \<Rightarrow> Submission option" where
  "submissionByID s idstr =
     (case paramID idstr of None \<Rightarrow> None | Some i \<Rightarrow> byID s_ID (db_submissions s) i)"

lemma byID_SomeD: "byID key t i = Some r \<Longrightarrow> r \<in> set (rows t) \<and> key r = i"
  by (auto simp: byID_def dest: tbl_first_SomeD)

lemma byID_row: "tbl_ok key t \<Longrightarrow> r \<in> set (rows t) \<Longrightarrow> byID key t (key r) = Some r"
  by (simp add: byID_def tbl_first_key)

lemma contestByID_SomeD: "contestByID s i = Some c \<Longrightarrow> c \<in> set (rows (db_contests s))"
  by (auto simp: contestByID_def dest: byID_SomeD split: option.splits)

lemma paramID_range:
  "paramID s = Some n \<Longrightarrow> 0 < n \<and> n < 2 ^ 32 \<and> list_all is_digit s \<and> s \<noteq> []"
  by (auto simp: paramID_def parse_uint64_def split: option.splits if_splits)

lemma paramID_iff:
  "paramID s = Some n \<longleftrightarrow>
     s \<noteq> [] \<and> list_all is_digit s \<and> str_val s = n \<and> 0 < n \<and> n < 2 ^ 32"
  by (auto simp: paramID_def parse_uint64_def)

lemma paramID_accepts: "0 < n \<Longrightarrow> n < 2 ^ 32 \<Longrightarrow> paramID (nat_str n) = Some n"
  by (simp add: paramID_iff nat_str_digits)

text \<open>
  Route parameters are parsed strictly: an accepted id comes from a non-empty string of
  decimal digits and lies in the 32-bit range from 1, so no other text can reach a query, and
  the decimal rendering of every such id is accepted back as that id.
\<close>

theorem paramID_strict:
  "(paramID s = Some n \<longleftrightarrow>
      s \<noteq> [] \<and> list_all is_digit s \<and> str_val s = n \<and> 0 < n \<and> n < 2 ^ 32)
   \<and> paramID (nat_str n) = (if 0 < n \<and> n < 2 ^ 32 then Some n else None)"
  by (auto simp: paramID_iff paramID_accepts not_Some_eq [symmetric] simp del: not_Some_eq)

end
