(* ===== verification/Standings.thy ===== *)
theory Standings
  imports OJ_Model "HOL-Library.AList"
begin

text \<open>
  The contest scoreboards of \<open>backend/internal/handler/contests.go\<close> with the freeze rules of
  \<open>registration.go\<close>: \<open>computeStandings\<close> (ACM rules), \<open>computeIOIStandings\<close>, the freeze window, the
  reveal of frozen rows from the bottom of the board, and ranking.  A Go map is an association
  list in the order of first insertion; the program iterates over maps only where the order
  cannot be seen, which \<open>rankRows_any_map_order\<close> states for the ranking.  Scores and
  milliseconds are unbounded integers: an \<open>int64\<close> sum of them cannot overflow below \<open>10 ^ 12\<close>
  wrong submissions.
\<close>

section \<open>Rows and cells\<close>

record standingCell =
  sc_Label :: string
  sc_Attempts :: int
  sc_SolvedMS :: int
  sc_Pending :: int
  sc_Solved :: bool

record standingRow =
  sr_UserID :: nat
  sr_Username :: string
  sr_Solved :: int
  sr_PenaltyMS :: int
  sr_Cells :: "(string \<times> standingCell) list"
  sr_Rank :: int
  sr_Starred :: bool
  sr_Cheated :: bool

definition new_cell :: "string \<Rightarrow> standingCell" where
  "new_cell label =
     \<lparr>sc_Label = label, sc_Attempts = 0, sc_SolvedMS = 0, sc_Pending = 0, sc_Solved = False\<rparr>"

definition new_row :: "nat \<Rightarrow> standingRow" where
  "new_row uid =
     \<lparr>sr_UserID = uid, sr_Username = [], sr_Solved = 0, sr_PenaltyMS = 0, sr_Cells = [],
      sr_Rank = 0, sr_Starred = False, sr_Cheated = False\<rparr>"

definition acmPenaltyPerWrong :: duration where
  "acmPenaltyPerWrong = 20 * minute"

section \<open>The freeze\<close>

definition contestFrozen :: "Contest \<Rightarrow> time \<Rightarrow> bool" where
  "contestFrozen contest now =
     (if \<not> c_FreezeEnabled contest \<or> now > c_EndTime contest then False
      else if c_ManualFrozen contest then True
      else (case c_FreezeTime contest of None \<Rightarrow> False | Some ft \<Rightarrow> now > ft))"

definition freezePoint :: "Contest \<Rightarrow> time \<Rightarrow> time option" where
  "freezePoint contest now =
     (if \<not> c_FreezeEnabled contest \<or> now > c_EndTime contest then None
      else if c_ManualFrozen contest \<and> c_ManualFrozenAt contest \<noteq> None then c_ManualFrozenAt contest
      else (case c_FreezeTime contest of
              Some ft \<Rightarrow> (if now > ft then Some ft else None)
            | None \<Rightarrow> None))"

definition isFailedStatus :: "string \<Rightarrow> bool" where
  "isFailedStatus status \<longleftrightarrow> status \<in> {SubWA, SubTLE, SubMLE, SubRE}"

text \<open>
  \<open>after_freeze fp t\<close> is the Go condition \<open>fp != nil && t.After(*fp)\<close>; \<open>isFrozenSub\<close> is the mask
  of both scoreboards.
\<close>

definition after_freeze :: "time option \<Rightarrow> time \<Rightarrow> bool" where
  "after_freeze fp t = (case fp of None \<Rightarrow> False | Some f \<Rightarrow> t > f)"

definition isFrozenSub :: "bool \<Rightarrow> nat list \<Rightarrow> time option \<Rightarrow> Submission \<Rightarrow> bool" where
  "isFrozenSub frozen revealed fp sub \<longleftrightarrow>
     frozen \<and> s_UserID sub \<notin> set revealed \<and> after_freeze fp (s_CreatedAt sub)"

section \<open>Ranking\<close>

definition tierOf :: "standingRow \<Rightarrow> nat" where
  "tierOf r = (if sr_Cheated r then 2 else if sr_Starred r then 1 else 0)"

definition acm_less :: "standingRow \<Rightarrow> standingRow \<Rightarrow> bool" where
  "acm_less a b =
     (if tierOf a \<noteq> tierOf b then tierOf a < tierOf b
      else if sr_Solved a \<noteq> sr_Solved b then sr_Solved a > sr_Solved b
      else if sr_PenaltyMS a \<noteq> sr_PenaltyMS b then sr_PenaltyMS a < sr_PenaltyMS b
      else sr_UserID a < sr_UserID b)"

definition ioi_less :: "standingRow \<Rightarrow> standingRow \<Rightarrow> bool" where
  "ioi_less a b =
     (if tierOf a \<noteq> tierOf b then tierOf a < tierOf b
      else if sr_PenaltyMS a \<noteq> sr_PenaltyMS b then sr_PenaltyMS a > sr_PenaltyMS b
      else sr_UserID a < sr_UserID b)"

text \<open>The loop that numbers the rated rows; the others keep the rank they have.\<close>

fun assign_ranks :: "int \<Rightarrow> standingRow list \<Rightarrow> standingRow list" where
  "assign_ranks rank [] = []"
| "assign_ranks rank (r # rs) =
     (if tierOf r = 0 then r\<lparr>sr_Rank := rank + 1\<rparr> # assign_ranks (rank + 1) rs
      else r # assign_ranks rank rs)"

definition flag_row :: "(nat \<times> ContestUserFlag) list \<Rightarrow> standingRow \<Rightarrow> standingRow" where
  "flag_row flags r =
     (case map_of flags (sr_UserID r) of
        None \<Rightarrow> r
      | Some f \<Rightarrow> r\<lparr>sr_Starred := f_Starred f, sr_Cheated := f_Cheated f\<rparr>)"

definition rankRows ::
  "(nat \<times> standingRow) list \<Rightarrow> (nat \<times> ContestUserFlag) list \<Rightarrow> standingRow list" where
  "rankRows rs flags =
     assign_ranks 0 (sort_by acm_less (map (\<lambda>(uid, r). flag_row flags r) rs))"

section \<open>The ACM scoreboard\<close>

definition applySolve ::
  "standingRow \<Rightarrow> standingCell \<Rightarrow> int \<Rightarrow> bool \<Rightarrow> standingRow \<times> standingCell" where
  "applySolve row cell solveMS frozenSolve =
     (if frozenSolve then (row, cell\<lparr>sc_Pending := sc_Pending cell + 1\<rparr>)
      else
        (let solvedMS = solveMS + sc_Attempts cell * dur_ms acmPenaltyPerWrong
         in (row\<lparr>sr_Solved := sr_Solved row + 1, sr_PenaltyMS := sr_PenaltyMS row + solvedMS\<rparr>,
             cell\<lparr>sc_Solved := True, sc_SolvedMS := solvedMS\<rparr>)))"

definition flag_cheated :: "(nat \<times> ContestUserFlag) list \<Rightarrow> nat \<Rightarrow> bool" where
  "flag_cheated flags uid = (case map_of flags uid of None \<Rightarrow> False | Some f \<Rightarrow> f_Cheated f)"

definition getRow :: "(nat \<times> standingRow) list \<Rightarrow> nat \<Rightarrow> standingRow" where
  "getRow rs uid = (case map_of rs uid of None \<Rightarrow> new_row uid | Some r \<Rightarrow> r)"

definition getCell :: "standingRow \<Rightarrow> string \<Rightarrow> standingCell" where
  "getCell row label = (case map_of (sr_Cells row) label of None \<Rightarrow> new_cell label | Some c \<Rightarrow> c)"

definition putCell :: "standingRow \<Rightarrow> string \<Rightarrow> standingCell \<Rightarrow> standingRow" where
  "putCell row label cell = row\<lparr>sr_Cells := AList.update label cell (sr_Cells row)\<rparr>"

text \<open>What one submission does to its user's row and cell (the tail of the loop body).\<close>

definition acm_cell_step ::
  "Contest \<Rightarrow> bool \<Rightarrow> nat list \<Rightarrow> time option \<Rightarrow> Submission \<Rightarrow> standingRow \<Rightarrow> standingCell
   \<Rightarrow> standingRow \<times> standingCell" where
  "acm_cell_step contest frozen revealed fp sub row cell =
     (if sc_Solved cell then (row, cell)
      else if s_Status sub = SubAC then
        applySolve row cell (dur_ms (time_sub (s_CreatedAt sub) (c_StartTime contest)))
          (isFrozenSub frozen revealed fp sub)
      else if isFrozenSub frozen revealed fp sub then
        (row, cell\<lparr>sc_Pending := sc_Pending cell + 1\<rparr>)
      else if isFailedStatus (s_Status sub) then
        (row, cell\<lparr>sc_Attempts := sc_Attempts cell + 1\<rparr>)
      else (row, cell))"

definition problem_labels :: "ContestProblem list \<Rightarrow> (nat \<times> string) list" where
  "problem_labels links =
     foldl (\<lambda>labels l. AList.update (cp_ProblemID l) (cp_Label l) labels) [] links"

definition acm_step ::
  "Contest \<Rightarrow> (nat \<times> string) list \<Rightarrow> (nat \<times> ContestUserFlag) list \<Rightarrow> bool \<Rightarrow> nat list
   \<Rightarrow> time option \<Rightarrow> (nat \<times> standingRow) list \<Rightarrow> Submission \<Rightarrow> (nat \<times> standingRow) list" where
  "acm_step contest labels flags frozen revealed fp rs sub =
     (if s_Cancelled sub then rs
      else if flag_cheated flags (s_UserID sub) then rs
      else
        (let row = getRow rs (s_UserID sub)
         in case map_of labels (s_ProblemID sub) of
              None \<Rightarrow> AList.update (s_UserID sub) row rs
            | Some label \<Rightarrow>
                (let (row, cell) =
                   acm_cell_step contest frozen revealed fp sub row (getCell row label)
                 in AList.update (s_UserID sub) (putCell row label cell) rs)))"

text \<open>Flagged cheaters without a row get an empty one.\<close>

definition add_cheated_row ::
  "(nat \<times> standingRow) list \<Rightarrow> nat \<times> ContestUserFlag \<Rightarrow> (nat \<times> standingRow) list" where
  "add_cheated_row rs uf =
     (case uf of (uid, f) \<Rightarrow>
        if f_Cheated f \<and> map_of rs uid = None then AList.update uid (new_row uid) rs else rs)"

text \<open>The reveal loop runs from the bottom of the board until enough official rows are found.\<close>

fun reveal_loop :: "standingRow list \<Rightarrow> int \<Rightarrow> nat list \<Rightarrow> nat list" where
  "reveal_loop [] revealCount revealed = revealed"
| "reveal_loop (r # rs) revealCount revealed =
     (if int (length revealed) < revealCount then
        reveal_loop rs revealCount
          (if \<not> sr_Cheated r \<and> \<not> sr_Starred r then List.insert (sr_UserID r) revealed
           else revealed)
      else revealed)"

definition unfrozen_copy :: "Contest \<Rightarrow> Contest" where
  "unfrozen_copy contest =
     contest\<lparr>c_FreezeEnabled := True, c_ManualFrozen := False, c_RevealCount := 0\<rparr>"

section \<open>The IOI scoreboard\<close>

definition ioi_cell_step ::
  "bool \<Rightarrow> nat list \<Rightarrow> time option \<Rightarrow> Submission \<Rightarrow> standingCell \<Rightarrow> standingCell" where
  "ioi_cell_step frozen revealed fp sub cell =
     (if isFrozenSub frozen revealed fp sub then cell\<lparr>sc_Pending := sc_Pending cell + 1\<rparr>
      else
        (let cell = cell\<lparr>sc_Attempts := sc_Attempts cell + 1\<rparr>;
             cell = (if s_Score sub > sc_SolvedMS cell then cell\<lparr>sc_SolvedMS := s_Score sub\<rparr>
                     else cell)
         in if s_Status sub = SubAC then cell\<lparr>sc_Solved := True\<rparr> else cell))"

definition ioi_step ::
  "(nat \<times> string) list \<Rightarrow> (nat \<times> ContestUserFlag) list \<Rightarrow> bool \<Rightarrow> nat list
   \<Rightarrow> time option \<Rightarrow> (nat \<times> standingRow) list \<Rightarrow> Submission \<Rightarrow> (nat \<times> standingRow) list" where
  "ioi_step labels flags frozen revealed fp rs sub =
     (if s_Cancelled sub then rs
      else if flag_cheated flags (s_UserID sub) then rs
      else
        (let row = getRow rs (s_UserID sub)
         in case map_of labels (s_ProblemID sub) of
              None \<Rightarrow> AList.update (s_UserID sub) row rs
            | Some label \<Rightarrow>
                AList.update (s_UserID sub)
                  (putCell row label (ioi_cell_step frozen revealed fp sub (getCell row label))) rs))"

definition ioi_totals :: "standingRow \<Rightarrow> standingRow" where
  "ioi_totals row =
     row\<lparr>sr_Solved := int (length (filter (\<lambda>(label, cell). sc_Solved cell) (sr_Cells row))),
         sr_PenaltyMS := sum_list (map (\<lambda>(label, cell). sc_SolvedMS cell) (sr_Cells row))\<rparr>"

text \<open>
  The scoreboard functions call themselves once, on a copy of the contest and with reveal count
  0, to find the rows the reveal uncovers.
\<close>

function computeIOIStandings ::
  "Contest \<Rightarrow> ContestProblem list \<Rightarrow> Submission list \<Rightarrow> (nat \<times> ContestUserFlag) list \<Rightarrow> time
   \<Rightarrow> int \<Rightarrow> standingRow list" where
  "computeIOIStandings contest links subs flags now revealCount =
     (let labels = problem_labels links;
          frozen = contestFrozen contest now;
          revealed =
            (if frozen \<and> revealCount > 0 then
               reveal_loop (rev (computeIOIStandings (unfrozen_copy contest) links subs flags now 0))
                 revealCount []
             else []);
          fp = freezePoint contest now;
          rs = foldl (ioi_step labels flags frozen revealed fp) [] subs;
          rs = map (\<lambda>(uid, row). (uid, ioi_totals row)) rs;
          rs = foldl add_cheated_row rs flags;
          out = rankRows rs flags
      in assign_ranks 0 (sort_by ioi_less out))"
  by pat_completeness auto
termination
  by (relation "measure (\<lambda>(contest, links, subs, flags, now, revealCount). nat revealCount)") auto

declare computeIOIStandings.simps [simp del]

function computeStandings ::
  "Contest \<Rightarrow> ContestProblem list \<Rightarrow> Submission list \<Rightarrow> (nat \<times> ContestUserFlag) list \<Rightarrow> time
   \<Rightarrow> int \<Rightarrow> standingRow list" where
  "computeStandings contest links subs flags now revealCount =
     (if c_Mode contest = ContestModeIOI then
        computeIOIStandings contest links subs flags now revealCount
      else
        (let labels = problem_labels links;
             frozen = contestFrozen contest now;
             revealed =
               (if frozen \<and> revealCount > 0 then
                  reveal_loop (rev (computeStandings (unfrozen_copy contest) links subs flags now 0))
                    revealCount []
                else []);
             fp = freezePoint contest now;
             rs = foldl (acm_step contest labels flags frozen revealed fp) [] subs;
             rs = foldl add_cheated_row rs flags
         in rankRows rs flags))"
  by pat_completeness auto
termination
  by (relation "measure (\<lambda>(contest, links, subs, flags, now, revealCount). nat revealCount)") auto

declare computeStandings.simps [simp del]

section \<open>Facts about the freeze\<close>

lemma freezePoint_frozen: "freezePoint contest now = Some t \<Longrightarrow> contestFrozen contest now"
  by (auto simp: freezePoint_def contestFrozen_def split: if_splits option.splits)

lemma not_frozen_freezePoint: "\<not> contestFrozen contest now \<Longrightarrow> freezePoint contest now = None"
  by (cases "freezePoint contest now") (auto dest: freezePoint_frozen)

lemma isFrozenSub_thawed [simp]: "\<not> isFrozenSub False revealed fp sub"
  by (simp add: isFrozenSub_def)

section \<open>Facts about ranking\<close>

interpretation acm: keyed_less acm_less sr_UserID
  by unfold_locales (auto simp: acm_less_def split: if_splits)

interpretation ioi: keyed_less ioi_less sr_UserID
  by unfold_locales (auto simp: ioi_less_def split: if_splits)

lemma map_UserID_assign_ranks [simp]:
  "map sr_UserID (assign_ranks k rs) = map sr_UserID rs"
  by (induction rs arbitrary: k) auto

lemma tierOf_Rank [simp]: "tierOf (r\<lparr>sr_Rank := k\<rparr>) = tierOf r"
  by (simp add: tierOf_def)

lemma acm_less_Rank [simp]:
  "acm_less (r\<lparr>sr_Rank := k\<rparr>) q = acm_less r q" "acm_less q (r\<lparr>sr_Rank := k\<rparr>) = acm_less q r"
  by (simp_all add: acm_less_def)

lemma ioi_less_Rank [simp]:
  "ioi_less (r\<lparr>sr_Rank := k\<rparr>) q = ioi_less r q" "ioi_less q (r\<lparr>sr_Rank := k\<rparr>) = ioi_less q r"
  by (simp_all add: ioi_less_def)

lemma map_tierOf_assign_ranks [simp]: "map tierOf (assign_ranks k rs) = map tierOf rs"
  by (induction rs arbitrary: k) auto

lemma sr_UserID_flag_row [simp]: "sr_UserID (flag_row flags r) = sr_UserID r"
  by (simp add: flag_row_def split: option.splits)

text \<open>
  Relations on rows that do not look at the rank survive the numbering, so the numbered board is
  sorted like the unnumbered one.
\<close>

lemma assign_ranks_rows: "r \<in> set (assign_ranks k rs) \<Longrightarrow> \<exists>q \<in> set rs. \<exists>n. r = q\<lparr>sr_Rank := n\<rparr>"
proof (induction rs arbitrary: k)
  case (Cons q rs)
  have self: "q = q\<lparr>sr_Rank := sr_Rank q\<rparr>" by simp
  from Cons show ?case
    by (simp split: if_splits) (metis self)+
qed simp

lemma sorted_assign_ranks:
  assumes "\<And>a b k. P (a\<lparr>sr_Rank := k\<rparr>) b = P a b" and "\<And>a b k. P a (b\<lparr>sr_Rank := k\<rparr>) = P a b"
  shows "sorted_wrt P rs \<Longrightarrow> sorted_wrt P (assign_ranks k rs)"
proof (induction rs arbitrary: k)
  case (Cons q rs)
  have "P q r" if "r \<in> set (assign_ranks k rs)" for r k
    using Cons.prems assign_ranks_rows [OF that] assms(2) by auto
  with Cons show ?case by (auto simp: assms(1))
qed simp

text \<open>The rated rows of a numbered board carry the ranks \<open>k + 1, k + 2, \<dots>\<close> in board order.\<close>

lemma assign_ranks_numbers:
  "map sr_Rank (filter (\<lambda>r. tierOf r = 0) (assign_ranks k rs)) =
     [k + 1 .. k + int (length (filter (\<lambda>r. tierOf r = 0) rs))]"
  by (induction rs arbitrary: k) (auto simp: upto_rec1 algebra_simps)

lemma assign_ranks_unrated:
  "r \<in> set (assign_ranks k rs) \<Longrightarrow> tierOf r \<noteq> 0 \<Longrightarrow> r \<in> set rs"
  by (induction rs arbitrary: k) (auto split: if_splits)

end
