(* ===== verification/Standings_Props.thy ===== *)
theory Standings_Props
  imports Standings
begin

text \<open>
  What the scoreboards guarantee: one cell is the fold of its user's submissions on its problem,
  totals agree with the cells, the board is ordered and numbered, masked verdicts have no
  influence, cancelled and cheated submissions are invisible; and where the code departs from
  its comments on the freeze and the reveal.
\<close>

section \<open>Association lists\<close>

lemma sum_list_update:
  fixes g :: "'k \<times> 'v \<Rightarrow> int"
  assumes "distinct (map fst al)"
  shows "sum_list (map g (AList.update k v al)) =
    sum_list (map g al) - (case map_of al k of None \<Rightarrow> 0 | Some w \<Rightarrow> g (k, w)) + g (k, v)"
  using assms
proof (induction al)
  case (Cons a al)
  obtain k' w where a: "a = (k', w)" by (cases a)
  show ?case
  proof (cases "k' = k")
    case True
    then have "map_of al k = None" using Cons.prems a by (simp add: map_of_eq_None_iff)
    then show ?thesis using True a by simp
  next
    case False
    then show ?thesis using Cons a by simp
  qed
qed simp

lemma in_set_update: "(k', v') \<in> set (AList.update k v al) \<Longrightarrow> (k', v') \<in> set al \<or> (k' = k \<and> v' = v)"
  by (induction al) (auto split: if_splits)

lemma map_of_update [simp]: "map_of (AList.update k v al) = (map_of al)(k \<mapsto> v)"
  by (simp add: update_conv')

section \<open>Projections of the folds\<close>

definition cellOf :: "(nat \<times> standingRow) list \<Rightarrow> nat \<Rightarrow> string \<Rightarrow> standingCell" where
  "cellOf rs u l = getCell (getRow rs u) l"

lemma cellOf_Nil [simp]: "cellOf [] u l = new_cell l"
  by (simp add: cellOf_def getRow_def getCell_def new_row_def)

lemma getCell_putCell [simp]:
  "getCell (putCell row l c) l' = (if l' = l then c else getCell row l')"
  by (simp add: getCell_def putCell_def)

lemma getRow_update [simp]:
  "getRow (AList.update u r rs) u' = (if u' = u then r else getRow rs u')"
  by (simp add: getRow_def)

lemma sr_UserID_putCell [simp]: "sr_UserID (putCell row l c) = sr_UserID row"
  by (simp add: putCell_def)

text \<open>The submissions a scoreboard looks at, and those that count for one cell.\<close>

definition visible :: "(nat \<times> ContestUserFlag) list \<Rightarrow> Submission \<Rightarrow> bool" where
  "visible flags sub \<longleftrightarrow> \<not> s_Cancelled sub \<and> \<not> flag_cheated flags (s_UserID sub)"

definition on_cell ::
  "(nat \<times> string) list \<Rightarrow> (nat \<times> ContestUserFlag) list \<Rightarrow> nat \<Rightarrow> string \<Rightarrow> Submission \<Rightarrow> bool" where
  "on_cell labels flags u l sub \<longleftrightarrow>
     visible flags sub \<and> s_UserID sub = u \<and> map_of labels (s_ProblemID sub) = Some l"

definition acm_cell ::
  "Contest \<Rightarrow> bool \<Rightarrow> nat list \<Rightarrow> time option \<Rightarrow> standingCell \<Rightarrow> Submission \<Rightarrow> standingCell" where
  "acm_cell contest frozen revealed fp cell sub =
     snd (acm_cell_step contest frozen revealed fp sub (new_row 0) cell)"

lemma getCell_row_update [simp]:
  "getCell (row\<lparr>sr_Solved := a, sr_PenaltyMS := b\<rparr>) l = getCell row l"
  by (simp add: getCell_def)

lemma getCell_acm_cell_step [simp]:
  "getCell (fst (acm_cell_step contest frozen revealed fp sub row cell)) l = getCell row l"
  by (simp add: acm_cell_step_def applySolve_def Let_def)

lemma snd_acm_cell_step:
  "snd (acm_cell_step contest frozen revealed fp sub row cell) =
     acm_cell contest frozen revealed fp cell sub"
  by (simp add: acm_cell_def acm_cell_step_def applySolve_def Let_def)

lemma cellOf_acm_step:
  "cellOf (acm_step contest labels flags frozen revealed fp rs sub) u l =
     (if on_cell labels flags u l sub then acm_cell contest frozen revealed fp (cellOf rs u l) sub
      else cellOf rs u l)"
  by (auto simp: acm_step_def on_cell_def visible_def cellOf_def Let_def case_prod_unfold
      snd_acm_cell_step split: option.split)

lemma cellOf_ioi_step:
  "cellOf (ioi_step labels flags frozen revealed fp rs sub) u l =
     (if on_cell labels flags u l sub then ioi_cell_step frozen revealed fp sub (cellOf rs u l)
      else cellOf rs u l)"
  by (auto simp: ioi_step_def on_cell_def visible_def cellOf_def Let_def split: option.split)

lemma cellOf_acm_fold:
  "cellOf (foldl (acm_step contest labels flags frozen revealed fp) rs subs) u l =
     foldl (acm_cell contest frozen revealed fp) (cellOf rs u l)
       (filter (on_cell labels flags u l) subs)"
  by (induction subs arbitrary: rs) (auto simp: cellOf_acm_step)

lemma cellOf_ioi_fold:
  "cellOf (foldl (ioi_step labels flags frozen revealed fp) rs subs) u l =
     foldl (\<lambda>c sub. ioi_cell_step frozen revealed fp sub c) (cellOf rs u l)
       (filter (on_cell labels flags u l) subs)"
  by (induction subs arbitrary: rs) (auto simp: cellOf_ioi_step)

section \<open>Well-formed scoreboards\<close>

text \<open>
  \<open>cells_ok\<close> and \<open>row_ok\<close> say that a row's cells carry their labels, count upwards from zero, and
  that an unsolved ACM cell has no time; \<open>totals_ok\<close> that the totals are those of the cells.
\<close>

definition cells_ok :: "(string \<times> standingCell) list \<Rightarrow> bool" where
  "cells_ok cs \<longleftrightarrow> distinct (map fst cs) \<and>
     list_all (\<lambda>(l, c). sc_Label c = l \<and> 0 \<le> sc_Attempts c \<and> 0 \<le> sc_Pending c) cs"

definition solved_count :: "(string \<times> standingCell) list \<Rightarrow> int" where
  "solved_count cs = sum_list (map (\<lambda>(l, c). if sc_Solved c then 1 else 0) cs)"

definition time_sum :: "(string \<times> standingCell) list \<Rightarrow> int" where
  "time_sum cs = sum_list (map (\<lambda>(l, c). sc_SolvedMS c) cs)"

definition totals_ok :: "standingRow \<Rightarrow> bool" where
  "totals_ok r \<longleftrightarrow>
     sr_Solved r = solved_count (sr_Cells r) \<and> sr_PenaltyMS r = time_sum (sr_Cells r)"

definition unsolved_zero :: "(string \<times> standingCell) list \<Rightarrow> bool" where
  "unsolved_zero cs \<longleftrightarrow> list_all (\<lambda>(l, c). sc_Solved c \<or> sc_SolvedMS c = 0) cs"

definition rows_ok :: "(standingRow \<Rightarrow> bool) \<Rightarrow> (nat \<times> standingRow) list \<Rightarrow> bool" where
  "rows_ok P rs \<longleftrightarrow> distinct (map fst rs) \<and>
     list_all (\<lambda>(u, r). sr_UserID r = u \<and> sr_Rank r = 0 \<and> cells_ok (sr_Cells r) \<and> P r) rs"

lemma solved_count_filter:
  "int (length (filter (\<lambda>(l, c). sc_Solved c) cs)) = solved_count cs"
  by (induction cs) (auto simp: solved_count_def)

lemma map_of_cells_ok:
  "cells_ok cs \<Longrightarrow> map_of cs l = Some c \<Longrightarrow>
     sc_Label c = l \<and> 0 \<le> sc_Attempts c \<and> 0 \<le> sc_Pending c"
  by (auto simp: cells_ok_def list_all_iff dest!: map_of_SomeD)

lemma cells_ok_putCell:
  assumes "cells_ok (sr_Cells r)" and "sc_Label c = l" "0 \<le> sc_Attempts c" "0 \<le> sc_Pending c"
  shows "cells_ok (sr_Cells (putCell r l c))"
  using assms by (auto simp: cells_ok_def putCell_def list_all_iff distinct_update dest!: in_set_update)

lemma cells_ok_getCell:
  "cells_ok (sr_Cells r) \<Longrightarrow>
     sc_Label (getCell r l) = l \<and> 0 \<le> sc_Attempts (getCell r l) \<and> 0 \<le> sc_Pending (getCell r l)"
  by (auto simp: getCell_def new_cell_def dest: map_of_cells_ok split: option.splits)

lemma rows_ok_Nil [simp]: "rows_ok P []"
  by (simp add: rows_ok_def)

lemma rows_ok_getRow:
  assumes "rows_ok P rs" and "P (new_row u)"
  shows "sr_UserID (getRow rs u) = u \<and> sr_Rank (getRow rs u) = 0
    \<and> cells_ok (sr_Cells (getRow rs u)) \<and> P (getRow rs u)"
proof (cases "map_of rs u")
  case None
  then show ?thesis using assms(2) by (simp add: getRow_def new_row_def cells_ok_def)
next
  case (Some r)
  then have "(u, r) \<in> set rs" by (rule map_of_SomeD)
  with Some assms(1) show ?thesis by (auto simp: getRow_def rows_ok_def list_all_iff)
qed

lemma rows_ok_update:
  assumes "rows_ok P rs" and "sr_UserID r = u" "sr_Rank r = 0" "cells_ok (sr_Cells r)" "P r"
  shows "rows_ok P (AList.update u r rs)"
  using assms by (auto simp: rows_ok_def list_all_iff distinct_update dest!: in_set_update)

lemma rows_ok_mono: "rows_ok P rs \<Longrightarrow> (\<And>r. P r \<Longrightarrow> Q r) \<Longrightarrow> rows_ok Q rs"
  by (auto simp: rows_ok_def list_all_iff)

lemma rows_ok_add_cheated:
  assumes "rows_ok P rs" and "\<And>u. P (new_row u)"
  shows "rows_ok P (foldl add_cheated_row rs flags)"
  using assms(1)
proof (induction flags arbitrary: rs)
  case (Cons f flags)
  have "rows_ok P (add_cheated_row rs f)"
    using Cons.prems assms(2)
    by (cases f) (auto simp: add_cheated_row_def new_row_def cells_ok_def intro!: rows_ok_update)
  then show ?case using Cons.IH by simp
qed simp

text \<open>One submission keeps an ACM row's totals in step with its cells.\<close>

definition acm_ok :: "standingRow \<Rightarrow> bool" where
  "acm_ok r \<longleftrightarrow> totals_ok r \<and> unsolved_zero (sr_Cells r)"

lemma acm_ok_new_row [simp]: "acm_ok (new_row u)"
  by (simp add: acm_ok_def totals_ok_def unsolved_zero_def new_row_def solved_count_def time_sum_def)

lemma unsolved_zero_getCell:
  "unsolved_zero (sr_Cells r) \<Longrightarrow> \<not> sc_Solved (getCell r l) \<Longrightarrow> sc_SolvedMS (getCell r l) = 0"
  by (auto simp: unsolved_zero_def getCell_def new_cell_def list_all_iff
      split: option.splits dest!: map_of_SomeD)

lemma solved_count_update:
  "distinct (map fst cs) \<Longrightarrow> solved_count (AList.update l c cs) = solved_count cs
     - (case map_of cs l of None \<Rightarrow> 0 | Some w \<Rightarrow> if sc_Solved w then 1 else 0)
     + (if sc_Solved c then 1 else 0)"
  by (simp add: solved_count_def sum_list_update split: option.split)

lemma time_sum_update:
  "distinct (map fst cs) \<Longrightarrow> time_sum (AList.update l c cs) = time_sum cs
     - (case map_of cs l of None \<Rightarrow> 0 | Some w \<Rightarrow> sc_SolvedMS w) + sc_SolvedMS c"
  by (simp add: time_sum_def sum_list_update split: option.split)

lemma solved_count_putCell:
  "cells_ok (sr_Cells r) \<Longrightarrow> solved_count (sr_Cells (putCell r l c)) = solved_count (sr_Cells r)
     - (if sc_Solved (getCell r l) then 1 else 0) + (if sc_Solved c then 1 else 0)"
  by (simp add: putCell_def getCell_def new_cell_def cells_ok_def solved_count_update
      split: option.split)

lemma time_sum_putCell:
  "cells_ok (sr_Cells r) \<Longrightarrow> time_sum (sr_Cells (putCell r l c)) = time_sum (sr_Cells r)
     - sc_SolvedMS (getCell r l) + sc_SolvedMS c"
  by (simp add: putCell_def getCell_def new_cell_def cells_ok_def time_sum_update
      split: option.split)

lemma unsolved_zero_putCell:
  "unsolved_zero (sr_Cells r) \<Longrightarrow> sc_Solved c \<or> sc_SolvedMS c = 0 \<Longrightarrow>
     unsolved_zero (sr_Cells (putCell r l c))"
  by (auto simp: unsolved_zero_def putCell_def list_all_iff dest!: in_set_update)

lemma putCell_fields [simp]:
  "sr_Solved (putCell r l c) = sr_Solved r" "sr_PenaltyMS (putCell r l c) = sr_PenaltyMS r"
  "sr_Rank (putCell r l c) = sr_Rank r"
  by (simp_all add: putCell_def)

lemma acm_cell_step_ok:
  assumes "acm_cell_step contest frozen revealed fp sub row (getCell row l) = (row', c)"
    and "cells_ok (sr_Cells row)" and "acm_ok row"
  shows "acm_ok (putCell row' l c) \<and> cells_ok (sr_Cells (putCell row' l c))
    \<and> sr_UserID row' = sr_UserID row \<and> sr_Rank row' = sr_Rank row"
proof -
  have same: "sr_Cells row' = sr_Cells row" "sr_UserID row' = sr_UserID row" "sr_Rank row' = sr_Rank row"
    using assms(1) by (auto simp: acm_cell_step_def applySolve_def Let_def split: if_splits)
  have lab: "sc_Label c = l" "0 \<le> sc_Attempts c" "0 \<le> sc_Pending c"
    using assms(1) cells_ok_getCell [OF assms(2), of l]
    by (auto simp: acm_cell_step_def applySolve_def Let_def split: if_splits)
  have get: "getCell row' l = getCell row l" using same by (simp add: getCell_def)
  have cells: "cells_ok (sr_Cells row')" and uz: "unsolved_zero (sr_Cells row')"
    using assms(2,3) same by (simp_all add: acm_ok_def)
  have zero: "\<not> sc_Solved (getCell row l) \<Longrightarrow> sc_SolvedMS (getCell row l) = 0"
    using assms(3) by (simp add: acm_ok_def unsolved_zero_getCell)
  have "totals_ok (putCell row' l c)"
    using assms(1,3) zero
    unfolding totals_ok_def solved_count_putCell [OF cells] time_sum_putCell [OF cells] get
    by (auto simp: acm_ok_def totals_ok_def acm_cell_step_def applySolve_def Let_def
        split: if_splits)
  moreover have "sc_Solved c \<or> sc_SolvedMS c = 0"
    using assms(1) zero by (auto simp: acm_cell_step_def applySolve_def Let_def split: if_splits)
  ultimately show ?thesis
    using unsolved_zero_putCell [OF uz] cells_ok_putCell [OF cells lab] same
    by (simp add: acm_ok_def)
qed

lemma rows_ok_acm_step:
  assumes "rows_ok acm_ok rs"
  shows "rows_ok acm_ok (acm_step contest labels flags frozen revealed fp rs sub)"
proof -
  let ?row = "getRow rs (s_UserID sub)"
  have row: "sr_UserID ?row = s_UserID sub" "sr_Rank ?row = 0" "cells_ok (sr_Cells ?row)" "acm_ok ?row"
    using rows_ok_getRow [OF assms, of "s_UserID sub"] by simp_all
  have "rows_ok acm_ok (AList.update (s_UserID sub) (putCell row' l c) rs)"
    if "acm_cell_step contest frozen revealed fp sub ?row (getCell ?row l) = (row', c)" for l row' c
    using acm_cell_step_ok [OF that row(3,4)] row by (intro rows_ok_update [OF assms]) simp_all
  then show ?thesis
    using assms row
    by (auto simp: acm_step_def Let_def split: option.split prod.split intro!: rows_ok_update)
qed

lemma rows_ok_acm_fold:
  "rows_ok acm_ok rs \<Longrightarrow> rows_ok acm_ok (foldl (acm_step contest labels flags frozen revealed fp) rs subs)"
  by (induction subs arbitrary: rs) (auto intro: rows_ok_acm_step)

lemma rows_ok_ioi_step:
  assumes "rows_ok (\<lambda>r. True) rs"
  shows "rows_ok (\<lambda>r. True) (ioi_step labels flags frozen revealed fp rs sub)"
proof -
  let ?row = "getRow rs (s_UserID sub)"
  have row: "sr_UserID ?row = s_UserID sub" "sr_Rank ?row = 0" "cells_ok (sr_Cells ?row)"
    using rows_ok_getRow [OF assms, of "s_UserID sub"] by simp_all
  have "cells_ok (sr_Cells (putCell ?row l (ioi_cell_step frozen revealed fp sub (getCell ?row l))))" for l
    using cells_ok_getCell [OF row(3), of l]
    by (intro cells_ok_putCell [OF row(3)]) (auto simp: ioi_cell_step_def Let_def)
  then show ?thesis
    using assms row by (auto simp: ioi_step_def Let_def split: option.split intro!: rows_ok_update)
qed

lemma rows_ok_ioi_fold:
  "rows_ok (\<lambda>r. True) rs \<Longrightarrow>
     rows_ok (\<lambda>r. True) (foldl (ioi_step labels flags frozen revealed fp) rs subs)"
  by (induction subs arbitrary: rs) (auto intro: rows_ok_ioi_step)

lemma ioi_totals_fields [simp]:
  "totals_ok (ioi_totals r)" "sr_UserID (ioi_totals r) = sr_UserID r"
  "sr_Rank (ioi_totals r) = sr_Rank r" "sr_Cells (ioi_totals r) = sr_Cells r"
  by (simp_all add: ioi_totals_def totals_ok_def solved_count_filter time_sum_def)

lemma map_fst_snd_map [simp]: "map fst (map (\<lambda>(u, r). (u, g r)) rs) = map fst rs"
  by (induction rs) auto

lemma rows_ok_ioi_totals:
  "rows_ok (\<lambda>r. True) rs \<Longrightarrow> rows_ok totals_ok (map (\<lambda>(u, r). (u, ioi_totals r)) rs)"
  unfolding rows_ok_def map_fst_snd_map by (auto simp: list_all_iff)

section \<open>The two boards before ranking\<close>

definition acm_rows ::
  "Contest \<Rightarrow> ContestProblem list \<Rightarrow> Submission list \<Rightarrow> (nat \<times> ContestUserFlag) list \<Rightarrow> time
   \<Rightarrow> nat list \<Rightarrow> (nat \<times> standingRow) list" where
  "acm_rows contest links subs flags now revealed =
     foldl add_cheated_row
       (foldl (acm_step contest (problem_labels links) flags (contestFrozen contest now) revealed
          (freezePoint contest now)) [] subs) flags"

definition ioi_rows ::
  "Contest \<Rightarrow> ContestProblem list \<Rightarrow> Submission list \<Rightarrow> (nat \<times> ContestUserFlag) list \<Rightarrow> time
   \<Rightarrow> nat list \<Rightarrow> (nat \<times> standingRow) list" where
  "ioi_rows contest links subs flags now revealed =
     foldl add_cheated_row
       (map (\<lambda>(u, r). (u, ioi_totals r))
         (foldl (ioi_step (problem_labels links) flags (contestFrozen contest now) revealed
            (freezePoint contest now)) [] subs)) flags"

lemma computeIOIStandings_rows:
  obtains revealed where
    "computeIOIStandings contest links subs flags now revealCount =
       assign_ranks 0 (sort_by ioi_less (rankRows (ioi_rows contest links subs flags now revealed) flags))"
    and "revealCount \<le> 0 \<Longrightarrow> revealed = []"
  by (rule that [of "if contestFrozen contest now \<and> revealCount > 0 then
        reveal_loop (rev (computeIOIStandings (unfrozen_copy contest) links subs flags now 0))
          revealCount [] else []"])
    (subst computeIOIStandings.simps, simp_all add: ioi_rows_def Let_def)

lemma computeStandings_rows:
  assumes "c_Mode contest \<noteq> ContestModeIOI"
  obtains revealed where
    "computeStandings contest links subs flags now revealCount =
       rankRows (acm_rows contest links subs flags now revealed) flags"
    and "revealCount \<le> 0 \<Longrightarrow> revealed = []"
  using assms
  by (intro that [of "if contestFrozen contest now \<and> revealCount > 0 then
        reveal_loop (rev (computeStandings (unfrozen_copy contest) links subs flags now 0))
          revealCount [] else []"])
    (subst computeStandings.simps, simp_all add: acm_rows_def Let_def)

lemma computeStandings_ioi:
  "c_Mode contest = ContestModeIOI \<Longrightarrow> computeStandings contest links subs flags now revealCount =
     computeIOIStandings contest links subs flags now revealCount"
  by (subst computeStandings.simps) simp

lemma rows_ok_acm_rows: "rows_ok totals_ok (acm_rows contest links subs flags now revealed)"
proof -
  have "rows_ok acm_ok (acm_rows contest links subs flags now revealed)"
    unfolding acm_rows_def by (intro rows_ok_add_cheated rows_ok_acm_fold) simp_all
  then show ?thesis by (rule rows_ok_mono) (simp add: acm_ok_def)
qed

lemma totals_ok_new_row [simp]: "totals_ok (new_row u)"
  using acm_ok_new_row unfolding acm_ok_def by simp

lemma rows_ok_ioi_rows: "rows_ok totals_ok (ioi_rows contest links subs flags now revealed)"
  unfolding ioi_rows_def by (intro rows_ok_add_cheated rows_ok_ioi_totals rows_ok_ioi_fold) simp_all

section \<open>The ranked board\<close>

text \<open>
  \<open>board_ok lt out\<close>: one row per user, rows in the order of \<open>lt\<close> and so official rows before
  starred before cheated ones, ranks 1, 2, \dots in board order on the official rows and 0 on
  the others, and totals that agree with the cells.
\<close>

definition board_ok :: "(standingRow \<Rightarrow> standingRow \<Rightarrow> bool) \<Rightarrow> standingRow list \<Rightarrow> bool" where
  "board_ok lt out \<longleftrightarrow>
     distinct (map sr_UserID out) \<and> sorted_wrt (\<lambda>a b. \<not> lt b a) out \<and> sorted (map tierOf out)
     \<and> map sr_Rank (filter (\<lambda>r. tierOf r = 0) out)
         = [1 .. int (length (filter (\<lambda>r. tierOf r = 0) out))]
     \<and> list_all (\<lambda>r. tierOf r = 0 \<or> sr_Rank r = 0) out
     \<and> list_all totals_ok out"

lemma totals_ok_flag_row [simp]: "totals_ok (flag_row flags r) = totals_ok r"
  by (simp add: flag_row_def totals_ok_def split: option.split)

lemma sr_Rank_flag_row [simp]: "sr_Rank (flag_row flags r) = sr_Rank r"
  by (simp add: flag_row_def split: option.split)

lemma totals_ok_Rank [simp]: "totals_ok (r\<lparr>sr_Rank := k\<rparr>) = totals_ok r"
  by (simp add: totals_ok_def)

lemma sorted_tier:
  "(\<And>a b. \<not> lt b a \<Longrightarrow> tierOf a \<le> tierOf b) \<Longrightarrow> sorted_wrt (\<lambda>a b. \<not> lt b a) out \<Longrightarrow>
     sorted (map tierOf out)"
  by (simp add: sorted_wrt_map) (rule sorted_wrt_mono_rel, auto)

lemma filter_tier_assign_ranks:
  "length (filter (\<lambda>r. tierOf r = 0) (assign_ranks k rs)) = length (filter (\<lambda>r. tierOf r = 0) rs)"
  by (induction rs arbitrary: k) auto

lemma board_ok_ranked:
  assumes "strict_less lt" and "\<And>a b. \<not> lt b a \<Longrightarrow> tierOf a \<le> tierOf b"
    and "\<And>a b k. lt (a\<lparr>sr_Rank := k\<rparr>) b = lt a b" "\<And>a b k. lt a (b\<lparr>sr_Rank := k\<rparr>) = lt a b"
    and "distinct (map sr_UserID rs)" and "list_all totals_ok rs"
    and "list_all (\<lambda>r. tierOf r = 0 \<or> sr_Rank r = 0) rs"
  shows "board_ok lt (assign_ranks 0 (sort_by lt rs))"
proof -
  let ?ss = "sort_by lt rs" and ?out = "assign_ranks 0 (sort_by lt rs)"
  have sorted: "sorted_wrt (\<lambda>a b. \<not> lt b a) ?out"
    using assms(3,4) by (intro sorted_assign_ranks strict_less.sorted_sort_by [OF assms(1)]) auto
  have "distinct (map sr_UserID ?out)"
    using assms(5) by (simp add: distinct_map)
      (metis assms(5) mset_map mset_sort_by distinct_map mset_eq_imp_distinct_iff)
  moreover have "list_all (\<lambda>r. tierOf r = 0 \<or> sr_Rank r = 0) ?out"
    using assms(7) assign_ranks_unrated [of _ 0 ?ss] by (fastforce simp: list_all_iff)
  moreover have "list_all totals_ok ?out"
    using assms(6) by (auto simp: list_all_iff dest!: assign_ranks_rows)
  ultimately show ?thesis
    using sorted sorted_tier [OF assms(2) sorted]
    by (simp add: board_ok_def assign_ranks_numbers filter_tier_assign_ranks)
qed

lemma map_snd_rows:
  "rows_ok P rs \<Longrightarrow> map sr_UserID (map (\<lambda>(u, r). flag_row flags r) rs) = map fst rs"
  by (auto simp: rows_ok_def list_all_iff case_prod_unfold)

lemma board_ok_rankRows:
  assumes "rows_ok totals_ok rs"
  shows "board_ok acm_less (rankRows rs flags)"
proof -
  let ?rs = "map (\<lambda>(u, r). flag_row flags r) rs"
  have "distinct (map sr_UserID ?rs)"
    unfolding map_snd_rows [OF assms] using assms by (simp add: rows_ok_def)
  moreover have "list_all totals_ok ?rs" and "list_all (\<lambda>r. tierOf r = 0 \<or> sr_Rank r = 0) ?rs"
    using assms by (auto simp: rows_ok_def list_all_iff)
  ultimately show ?thesis
    unfolding rankRows_def
    by (intro board_ok_ranked acm.strict_less_axioms) (auto simp: acm_less_def split: if_splits)
qed

lemma board_ok_ioi:
  assumes "board_ok acm_less rs"
  shows "board_ok ioi_less (assign_ranks 0 (sort_by ioi_less rs))"
  using assms
  by (intro board_ok_ranked ioi.strict_less_axioms)
    (auto simp: board_ok_def ioi_less_def split: if_splits)


text \<open>
  The order in which Go ranges over the map of rows cannot be seen: any arrangement of the
  same rows, one per user, is ranked into the same board.
\<close>

theorem rankRows_any_map_order:
  assumes "mset rs' = mset rs" and "distinct (map (sr_UserID \<circ> snd) rs)"
  shows "rankRows rs' flags = rankRows rs flags"
proof -
  have "mset (map (\<lambda>(u, r). flag_row flags r) rs') = mset (map (\<lambda>(u, r). flag_row flags r) rs)"
    using assms(1) by (metis mset_map)
  moreover have "map sr_UserID (map (\<lambda>(u, r). flag_row flags r) rs) = map (sr_UserID \<circ> snd) rs"
    by (auto simp: case_prod_unfold)
  ultimately show ?thesis
    using assms(2) unfolding rankRows_def by (metis acm.sort_by_perm)
qed

theorem rankRows_any_map_order_witness:
  "rankRows [(2, new_row 2), (1, new_row 1)] [] = rankRows [(1, new_row 1), (2, new_row 2)] []"
  by (rule rankRows_any_map_order) (simp_all add: new_row_def)

section \<open>Influence of submissions\<close>

text \<open>
  \<open>verdict_variant t a b\<close>: \<open>b\<close> is \<open>a\<close>, or both were made after \<open>t\<close> by the same user on the same
  problem at the same time and may differ in verdict, score, times and messages.
\<close>

definition verdict_variant :: "time \<Rightarrow> Submission \<Rightarrow> Submission \<Rightarrow> bool" where
  "verdict_variant t a b \<longleftrightarrow> a = b \<or>
     (t < s_CreatedAt a \<and> s_CreatedAt b = s_CreatedAt a \<and> s_UserID b = s_UserID a
      \<and> s_ProblemID b = s_ProblemID a \<and> s_Cancelled b = s_Cancelled a)"

lemma foldl_pointwise:
  "list_all2 R xs ys \<Longrightarrow> (\<And>acc x y. R x y \<Longrightarrow> f acc x = f acc y) \<Longrightarrow> foldl f acc xs = foldl f acc ys"
  by (induction xs ys arbitrary: acc rule: list_all2_induct) auto

lemma masked_variant:
  "verdict_variant t a b \<Longrightarrow> a \<noteq> b \<Longrightarrow> isFrozenSub True [] (Some t) a \<and> isFrozenSub True [] (Some t) b"
  by (auto simp: verdict_variant_def isFrozenSub_def after_freeze_def)

lemma acm_cell_step_masked:
  "isFrozenSub frozen revealed fp sub \<Longrightarrow> acm_cell_step contest frozen revealed fp sub row cell =
     (row, if sc_Solved cell then cell else cell\<lparr>sc_Pending := sc_Pending cell + 1\<rparr>)"
  by (simp add: acm_cell_step_def applySolve_def)

lemma acm_step_variant:
  "verdict_variant t a b \<Longrightarrow> acm_step contest labels flags True [] (Some t) rs a =
     acm_step contest labels flags True [] (Some t) rs b"
  using masked_variant [of t a b]
  by (cases "a = b") (auto simp: acm_step_def acm_cell_step_masked verdict_variant_def Let_def split: option.split)

lemma ioi_step_variant:
  "verdict_variant t a b \<Longrightarrow> ioi_step labels flags True [] (Some t) rs a =
     ioi_step labels flags True [] (Some t) rs b"
  using masked_variant [of t a b]
  by (cases "a = b") (auto simp: ioi_step_def ioi_cell_step_def verdict_variant_def Let_def split: option.split)

text \<open>
  C4. The freeze hides verdicts: while a contest is frozen from \<open>t\<close> on and nothing is revealed, the
  board of either mode is the same whatever the verdicts and scores of the submissions made
  after \<open>t\<close> are.
\<close>

theorem freeze_hides_verdicts:
  assumes "freezePoint contest now = Some t" and "list_all2 (verdict_variant t) subs subs'"
  shows "computeStandings contest links subs flags now 0 =
    computeStandings contest links subs' flags now 0"
proof -
  note frozen = freezePoint_frozen [OF assms(1)]
  have acm: "foldl (acm_step contest labels flags True [] (Some t)) [] subs =
      foldl (acm_step contest labels flags True [] (Some t)) [] subs'" for labels
    by (rule foldl_pointwise [OF assms(2)]) (rule acm_step_variant)
  have ioi: "foldl (ioi_step labels flags True [] (Some t)) [] subs =
      foldl (ioi_step labels flags True [] (Some t)) [] subs'" for labels
    by (rule foldl_pointwise [OF assms(2)]) (rule ioi_step_variant)
  have "computeIOIStandings contest links subs flags now 0 =
      computeIOIStandings contest links subs' flags now 0"
    by (simp add: computeIOIStandings.simps [of contest links _ flags now 0] frozen assms(1) ioi Let_def)
  then show ?thesis
    by (simp add: computeStandings.simps [of contest links _ flags now 0] frozen assms(1) acm Let_def)
qed

lemma foldl_filter:
  "(\<And>acc x. \<not> P x \<Longrightarrow> f acc x = acc) \<Longrightarrow> foldl f acc (filter P xs) = foldl f acc xs"
  by (induction xs arbitrary: acc) auto

lemma acm_step_invisible:
  "\<not> visible flags sub \<Longrightarrow> acm_step contest labels flags frozen revealed fp rs sub = rs"
  by (auto simp: visible_def acm_step_def)

lemma ioi_step_invisible:
  "\<not> visible flags sub \<Longrightarrow> ioi_step labels flags frozen revealed fp rs sub = rs"
  by (auto simp: visible_def ioi_step_def)

lemma computeIOIStandings_visible:
  "computeIOIStandings contest links (filter (visible flags) subs) flags now revealCount =
     computeIOIStandings contest links subs flags now revealCount"
proof (induction contest links subs flags now revealCount rule: computeIOIStandings.induct)
  case (1 contest links subs flags now revealCount)
  have "foldl (ioi_step labels flags frozen revealed fp) [] (filter (visible flags) subs) =
      foldl (ioi_step labels flags frozen revealed fp) [] subs" for labels frozen revealed fp
    by (rule foldl_filter) (rule ioi_step_invisible)
  moreover have "contestFrozen contest now \<and> revealCount > 0 \<Longrightarrow>
      computeIOIStandings (unfrozen_copy contest) links (filter (visible flags) subs) flags now 0 =
      computeIOIStandings (unfrozen_copy contest) links subs flags now 0"
    using 1 [OF refl refl] by simp
  ultimately show ?case
    by (simp add: computeIOIStandings.simps [of contest links _ flags now revealCount] Let_def
        cong: if_cong)
qed

text \<open>
  Submissions the jury cancelled and submissions of users flagged as cheaters are invisible: the
  board of either mode is the one computed from the other submissions alone.
\<close>

theorem cancelled_and_cheated_invisible:
  "computeStandings contest links (filter (visible flags) subs) flags now revealCount =
     computeStandings contest links subs flags now revealCount"
proof (induction contest links subs flags now revealCount rule: computeStandings.induct)
  case (1 contest links subs flags now revealCount)
  have "foldl (acm_step contest labels flags frozen revealed fp) [] (filter (visible flags) subs) =
      foldl (acm_step contest labels flags frozen revealed fp) [] subs" for labels frozen revealed fp
    by (rule foldl_filter) (rule acm_step_invisible)
  moreover have "c_Mode contest \<noteq> ContestModeIOI \<Longrightarrow> contestFrozen contest now \<and> revealCount > 0 \<Longrightarrow>
      computeStandings (unfrozen_copy contest) links (filter (visible flags) subs) flags now 0 =
      computeStandings (unfrozen_copy contest) links subs flags now 0"
    using 1 [OF _ refl refl] by simp
  ultimately show ?case
    by (simp add: computeStandings.simps [of contest links _ flags now revealCount] Let_def
        computeIOIStandings_visible cong: if_cong)
qed

text \<open>A contest and a submission for the instances below: one hour, frozen for the last quarter.\<close>

definition sample_contest :: Contest where
  "sample_contest = \<lparr>c_ID = 1, c_Title = ''Round 1'', c_Description = [], c_Mode = ContestModeACM,
     c_Visibility = ''public'', c_StartTime = 0, c_EndTime = 60 * minute,
     c_FreezeTime = Some (45 * minute), c_FreezeEnabled = True, c_NoManualFreeze = False,
     c_ManualFrozen = False, c_ManualFrozenAt = None, c_RevealCount = 0,
     c_RequireRegistration = None, c_TeamMode = False, c_TeamCapacity = 0, c_CreatedBy = 1,
     c_CreatedAt = 0\<rparr>"

definition sample_sub :: "nat \<Rightarrow> string \<Rightarrow> time \<Rightarrow> Submission" where
  "sample_sub uid status at = \<lparr>s_ID = 1, s_UserID = uid, s_ProblemID = 7, s_ContestID = Some 1,
     s_Language = ''cpp'', s_CodePath = [], s_CodeSize = 1, s_Status = status, s_Score = 0,
     s_TimeMS = 0, s_MemoryKB = 0, s_CompileMessage = [], s_Cases = [], s_CreatedAt = at,
     s_JudgedAt = None, s_LeaseUntil = None, s_IsPractice = False, s_Cancelled = False\<rparr>"

theorem freeze_hides_verdicts_witness:
  "computeStandings sample_contest [] [sample_sub 5 SubAC (50 * minute)] [] (55 * minute) 0 =
   computeStandings sample_contest [] [sample_sub 5 SubWA (50 * minute)] [] (55 * minute) 0"
  by (rule freeze_hides_verdicts [where t = "45 * minute"])
    (simp_all add: sample_contest_def sample_sub_def freezePoint_def verdict_variant_def
      minute_def second_def)

section \<open>One cell in closed form\<close>

lemma cellOf_update_new_row:
  "map_of rs u = None \<Longrightarrow> cellOf (AList.update u (new_row u) rs) v l = cellOf rs v l"
  by (simp add: cellOf_def getRow_def)

lemma cellOf_add_cheated [simp]: "cellOf (foldl add_cheated_row rs flags) u l = cellOf rs u l"
proof (induction flags arbitrary: rs)
  case (Cons f flags)
  then show ?case
    by (cases f) (simp add: add_cheated_row_def cellOf_update_new_row)
qed simp

lemma getCell_ioi_totals: "getCell (ioi_totals r) l = getCell r l"
  by (simp add: getCell_def)

lemma map_of_ioi_totals:
  "map_of (map (\<lambda>(u, r). (u, ioi_totals r)) rs) u = map_option ioi_totals (map_of rs u)"
  by (induction rs) auto

lemma cellOf_ioi_totals [simp]: "cellOf (map (\<lambda>(u, r). (u, ioi_totals r)) rs) u l = cellOf rs u l"
  by (auto simp: cellOf_def getRow_def map_of_ioi_totals getCell_ioi_totals getCell_def new_row_def
      split: option.split)

lemma getCell_flag_row [simp]: "getCell (flag_row flags r) l = getCell r l"
  by (simp add: getCell_def flag_row_def split: option.split)

lemma getCell_Rank [simp]: "getCell (r\<lparr>sr_Rank := k\<rparr>) l = getCell r l"
  by (simp add: getCell_def)

text \<open>Ranking moves rows but keeps each user's cells.\<close>

lemma rankRows_cells:
  assumes "rows_ok P rs" and "r \<in> set (rankRows rs flags)"
  shows "getCell r l = cellOf rs (sr_UserID r) l"
proof -
  obtain u q n where q: "(u, q) \<in> set rs" and r: "r = (flag_row flags q)\<lparr>sr_Rank := n\<rparr>"
    using assms(2) by (auto simp: rankRows_def dest!: assign_ranks_rows)
  with assms(1) have "map_of rs (sr_UserID q) = Some q"
    by (auto simp: rows_ok_def list_all_iff)
  then show ?thesis by (simp add: r cellOf_def getRow_def)
qed

lemma resorted_rows: "r \<in> set (assign_ranks k (sort_by lt rs)) \<Longrightarrow> \<exists>q n. q \<in> set rs \<and> r = q\<lparr>sr_Rank := n\<rparr>"
  by (auto dest!: assign_ranks_rows)

text \<open>
  The ACM rules for one cell, from the submissions \<open>xs\<close> that count for it in the order given:
  everything up to the first acceptance that is not masked counts; each failure before it costs
  the penalty, and every masked submission before it shows as pending.
\<close>

definition counted :: "(Submission \<Rightarrow> bool) \<Rightarrow> Submission list \<Rightarrow> Submission list" where
  "counted masked xs = takeWhile (\<lambda>s. \<not> (s_Status s = SubAC \<and> \<not> masked s)) xs"

definition acm_rules ::
  "Contest \<Rightarrow> (Submission \<Rightarrow> bool) \<Rightarrow> string \<Rightarrow> Submission list \<Rightarrow> standingCell" where
  "acm_rules contest masked l xs =
     (let before = counted masked xs;
          wrong = int (length (filter (\<lambda>s. \<not> masked s \<and> isFailedStatus (s_Status s)) before));
          pending = int (length (filter masked before))
      in case drop (length before) xs of
           [] \<Rightarrow> \<lparr>sc_Label = l, sc_Attempts = wrong, sc_SolvedMS = 0, sc_Pending = pending,
                 sc_Solved = False\<rparr>
         | s # _ \<Rightarrow>
             \<lparr>sc_Label = l, sc_Attempts = wrong,
              sc_SolvedMS = dur_ms (time_sub (s_CreatedAt s) (c_StartTime contest)) + wrong * 1200000,
              sc_Pending = pending, sc_Solved = True\<rparr>)"

lemma penalty_ms [simp]: "dur_ms acmPenaltyPerWrong = 1200000"
  by (simp add: dur_ms_def acmPenaltyPerWrong_def minute_def second_def go_div_def)

lemma acm_cell_solved [simp]: "sc_Solved c \<Longrightarrow> acm_cell contest frozen revealed fp c s = c"
  by (simp add: acm_cell_def acm_cell_step_def)

lemma acm_cell_fold_solved:
  "sc_Solved c \<Longrightarrow> foldl (acm_cell contest frozen revealed fp) c xs = c"
  by (induction xs) auto

lemma acm_cell_unsolved:
  "\<not> sc_Solved c \<Longrightarrow> acm_cell contest frozen revealed fp c s =
     (if isFrozenSub frozen revealed fp s then c\<lparr>sc_Pending := sc_Pending c + 1\<rparr>
      else if s_Status s = SubAC then
        c\<lparr>sc_Solved := True, sc_SolvedMS :=
            dur_ms (time_sub (s_CreatedAt s) (c_StartTime contest)) + sc_Attempts c * 1200000\<rparr>
      else if isFailedStatus (s_Status s) then c\<lparr>sc_Attempts := sc_Attempts c + 1\<rparr> else c)"
  by (simp add: acm_cell_def acm_cell_step_def applySolve_def Let_def)

lemma acm_cell_fold:
  fixes a p :: int
  assumes "masked = isFrozenSub frozen revealed fp"
  shows "foldl (acm_cell contest frozen revealed fp)
      \<lparr>sc_Label = l, sc_Attempts = a, sc_SolvedMS = 0, sc_Pending = p, sc_Solved = False\<rparr> xs =
    (let c = acm_rules contest masked l xs
     in c\<lparr>sc_Attempts := a + sc_Attempts c, sc_Pending := p + sc_Pending c,
         sc_SolvedMS := (if sc_Solved c then sc_SolvedMS c + a * 1200000 else 0)\<rparr>)"
proof (induction xs arbitrary: a p)
  case Nil
  then show ?case by (simp add: acm_rules_def counted_def)
next
  case (Cons s xs)
  show ?case
  proof (cases "s_Status s = SubAC \<and> \<not> masked s")
    case True
    then show ?thesis
      by (simp add: assms acm_cell_unsolved acm_cell_fold_solved acm_rules_def counted_def Let_def
          algebra_simps)
  next
    case False
    have fail: "isFailedStatus SubAC = False" by (simp add: isFailedStatus_def)
    have rules: "acm_rules contest masked l (s # xs) =
        (let c = acm_rules contest masked l xs;
             w = (if \<not> masked s \<and> isFailedStatus (s_Status s) then 1 else 0)
         in c\<lparr>sc_Attempts := w + sc_Attempts c,
             sc_Pending := (if masked s then 1 else 0) + sc_Pending c,
             sc_SolvedMS := (if sc_Solved c then sc_SolvedMS c + w * 1200000 else 0)\<rparr>)"
      using False
      by (auto simp: acm_rules_def counted_def Let_def algebra_simps split: list.split)
    from False show ?thesis
      unfolding rules
      by (auto simp: assms acm_cell_unsolved Cons.IH Let_def algebra_simps)
  qed
qed

lemma acm_rules_unsolved: "\<not> sc_Solved (acm_rules contest masked l xs) \<Longrightarrow>
    sc_SolvedMS (acm_rules contest masked l xs) = 0"
  by (auto simp: acm_rules_def Let_def split: list.splits)

text \<open>
  C6. ACM scoring: while nothing is revealed, each cell of an ACM board is given by the ACM rules
  from its user's visible submissions on its problem, with the submissions after the freeze
  point masked: the time of the first unmasked acceptance plus twenty minutes for each unmasked
  failure before it, and the masked submissions before it as pending.
\<close>

theorem acm_board_cells:
  assumes "c_Mode contest \<noteq> ContestModeIOI"
    and "r \<in> set (computeStandings contest links subs flags now 0)"
  shows "getCell r l = acm_rules contest (\<lambda>s. after_freeze (freezePoint contest now) (s_CreatedAt s)) l
    (filter (on_cell (problem_labels links) flags (sr_UserID r) l) subs)"
proof -
  obtain revealed where board: "computeStandings contest links subs flags now 0 =
      rankRows (acm_rows contest links subs flags now revealed) flags" and "revealed = []"
    by (rule computeStandings_rows [OF assms(1), of links subs flags now 0]) auto
  have "isFrozenSub (contestFrozen contest now) [] (freezePoint contest now) =
      (\<lambda>s. after_freeze (freezePoint contest now) (s_CreatedAt s))"
    by (cases "contestFrozen contest now")
      (auto simp: isFrozenSub_def after_freeze_def not_frozen_freezePoint)
  then have fold: "foldl (acm_cell contest (contestFrozen contest now) [] (freezePoint contest now)) (new_cell l) xs
      = acm_rules contest (\<lambda>s. after_freeze (freezePoint contest now) (s_CreatedAt s)) l xs" for xs
    using acm_rules_unsolved [of contest _ l xs]
    by (simp add: new_cell_def acm_cell_fold [OF refl, of _ _ _ _ l] Let_def)
  have "getCell r l = cellOf (acm_rows contest links subs flags now []) (sr_UserID r) l"
    using assms(2) unfolding board \<open>revealed = []\<close> by (intro rankRows_cells [OF rows_ok_acm_rows])
  then show ?thesis by (simp add: acm_rows_def cellOf_acm_fold fold)
qed

text \<open>An instance: a wrong answer after 10 minutes and an acceptance after 20 cost 40 minutes.\<close>

definition sample_link :: ContestProblem where
  "sample_link = \<lparr>cp_ID = 1, cp_ContestID = 1, cp_ProblemID = 7, cp_Label = ''A'', cp_OrderIndex = 0\<rparr>"

definition sample_board :: "Submission list \<Rightarrow> time \<Rightarrow> standingRow list" where
  "sample_board subs now = computeStandings sample_contest [sample_link] subs [] now 0"

lemmas sample_eval =
  sample_board_def sample_contest_def sample_link_def sample_sub_def computeStandings.simps
  problem_labels_def acm_step_def acm_cell_step_def applySolve_def rankRows_def contestFrozen_def
  freezePoint_def isFrozenSub_def after_freeze_def flag_cheated_def getRow_def getCell_def
  putCell_def new_row_def new_cell_def flag_row_def tierOf_def isFailedStatus_def
  minute_def second_def dur_ms_def go_div_def time_sub_def max_duration_def min_duration_def
  acmPenaltyPerWrong_def

lemma sample_board_row:
  "map sr_UserID (sample_board [sample_sub 5 SubWA (10 * minute), sample_sub 5 SubAC (20 * minute)]
     (30 * minute)) = [5]"
  by (simp add: sample_eval Let_def)

theorem acm_board_cells_witness:
  "getCell (hd (sample_board [sample_sub 5 SubWA (10 * minute), sample_sub 5 SubAC (20 * minute)]
       (30 * minute))) ''A'' =
     \<lparr>sc_Label = ''A'', sc_Attempts = 1, sc_SolvedMS = 2400000, sc_Pending = 0, sc_Solved = True\<rparr>"
proof -
  let ?subs = "[sample_sub 5 SubWA (10 * minute), sample_sub 5 SubAC (20 * minute)]"
  let ?board = "sample_board ?subs (30 * minute)"
  have mem: "hd ?board \<in> set ?board" and uid: "sr_UserID (hd ?board) = 5"
    using sample_board_row by (cases ?board; simp)+
  have "c_Mode sample_contest \<noteq> ContestModeIOI" by (simp add: sample_contest_def)
  from acm_board_cells [OF this mem [unfolded sample_board_def], folded sample_board_def, of "''A''"]
  show ?thesis
    unfolding uid
    by (simp add: acm_rules_def counted_def on_cell_def visible_def flag_cheated_def
        problem_labels_def sample_link_def sample_sub_def sample_contest_def freezePoint_def
        after_freeze_def isFailedStatus_def minute_def second_def dur_ms_def go_div_def
        time_sub_def max_duration_def min_duration_def)
qed

text \<open>
  The program reads the submissions without an ORDER BY.  The order matters for an ACM cell: the
  same two submissions in the other order give a board without penalty.
\<close>

theorem acm_board_depends_on_order:
  "map sr_PenaltyMS (sample_board [sample_sub 5 SubWA (10 * minute), sample_sub 5 SubAC (20 * minute)]
     (30 * minute)) = [2400000]
   \<and> map sr_PenaltyMS (sample_board [sample_sub 5 SubAC (20 * minute), sample_sub 5 SubWA (10 * minute)]
     (30 * minute)) = [1200000]"
  by (simp add: sample_eval Let_def)

subsection \<open>IOI cells\<close>

definition ioi_rules :: "(Submission \<Rightarrow> bool) \<Rightarrow> string \<Rightarrow> Submission list \<Rightarrow> standingCell" where
  "ioi_rules masked l xs =
     (let shown = filter (\<lambda>s. \<not> masked s) xs
      in \<lparr>sc_Label = l, sc_Attempts = int (length shown),
          sc_SolvedMS = Max (insert 0 (s_Score ` set shown)),
          sc_Pending = int (length (filter masked xs)),
          sc_Solved = (SubAC \<in> s_Status ` set shown)\<rparr>)"

lemma ioi_cell_step_eq:
  "ioi_cell_step frozen revealed fp s
      \<lparr>sc_Label = l, sc_Attempts = a, sc_SolvedMS = m, sc_Pending = p, sc_Solved = b\<rparr> =
    (if isFrozenSub frozen revealed fp s
     then \<lparr>sc_Label = l, sc_Attempts = a, sc_SolvedMS = m, sc_Pending = p + 1, sc_Solved = b\<rparr>
     else \<lparr>sc_Label = l, sc_Attempts = a + 1, sc_SolvedMS = max m (s_Score s), sc_Pending = p,
           sc_Solved = (b \<or> s_Status s = SubAC)\<rparr>)"
  by (simp add: ioi_cell_step_def Let_def max_def)

lemma Max_insert_max:
  "finite A \<Longrightarrow> Max (insert (max m n) A) = Max (insert m (insert (n::int) A))"
  by (cases "A = {}") (simp_all add: max.assoc)

lemma ioi_cell_fold:
  "foldl (\<lambda>c sub. ioi_cell_step frozen revealed fp sub c)
      \<lparr>sc_Label = l, sc_Attempts = a, sc_SolvedMS = m, sc_Pending = p, sc_Solved = b\<rparr> xs =
    (let shown = filter (\<lambda>s. \<not> isFrozenSub frozen revealed fp s) xs
     in \<lparr>sc_Label = l, sc_Attempts = a + int (length shown),
         sc_SolvedMS = Max (insert m (s_Score ` set shown)),
         sc_Pending = p + int (length (filter (isFrozenSub frozen revealed fp) xs)),
         sc_Solved = (b \<or> SubAC \<in> s_Status ` set shown)\<rparr>)"
proof (induction xs arbitrary: a m p b)
  case (Cons s xs)
  show ?case
    by (auto simp: ioi_cell_step_eq Cons.IH Let_def Max_insert_max)
qed simp



section \<open>Where the code departs from its comments\<close>

text \<open>
  After the end of the contest nothing is masked or frozen, whatever the freeze settings, and
  whatever submissions exist: the freeze point is gone in the same instant as the freeze.
\<close>

theorem no_freeze_after_end:
  assumes "c_EndTime contest < now"
  shows "\<not> contestFrozen contest now \<and> freezePoint contest now = None
    \<and> \<not> isFrozenSub (contestFrozen contest now) revealed (freezePoint contest now) sub"
  using assms by (simp add: contestFrozen_def freezePoint_def)

theorem no_freeze_after_end_witness:
  "\<not> contestFrozen sample_contest (61 * minute)"
  using no_freeze_after_end [of sample_contest "61 * minute" "[]" "sample_sub 5 SubAC minute"]
  by (simp add: sample_contest_def minute_def second_def)

text \<open>
  The reveal does not use the true final board.  When the freeze comes from the schedule, the copy
  of the contest the reveal ranks is still frozen, so its board is the public, masked board, and
  the rows the reveal uncovers are the last official rows of that.
\<close>

theorem reveal_ranks_masked_board:
  assumes "c_FreezeEnabled contest" and "\<not> c_ManualFrozen contest"
  shows "computeStandings (unfrozen_copy contest) links subs flags now 0 =
    computeStandings contest links subs flags now 0"
proof -
  have copy: "unfrozen_copy contest = contest\<lparr>c_RevealCount := 0\<rparr>"
    using assms by (simp add: unfrozen_copy_def)
  have "acm_cell_step (contest\<lparr>c_RevealCount := 0\<rparr>) = acm_cell_step contest"
    by (intro ext) (simp add: acm_cell_step_def)
  then have acm: "acm_step (contest\<lparr>c_RevealCount := 0\<rparr>) = acm_step contest"
    by (intro ext) (simp add: acm_step_def Let_def split: option.split)
  show ?thesis
    unfolding copy
    by (simp add: computeStandings.simps [of _ links subs flags now 0]
        computeIOIStandings.simps [of _ links subs flags now 0] acm contestFrozen_def freezePoint_def)
qed

theorem reveal_ranks_masked_board_witness:
  "computeStandings (unfrozen_copy sample_contest) [sample_link] [sample_sub 5 SubAC (50 * minute)] []
     (55 * minute) 0 = sample_board [sample_sub 5 SubAC (50 * minute)] (55 * minute)
   \<and> map sr_Solved (sample_board [sample_sub 5 SubAC (50 * minute)] (55 * minute)) = [0]"
  using reveal_ranks_masked_board [of sample_contest "[sample_link]"
      "[sample_sub 5 SubAC (50 * minute)]" "[]" "55 * minute"]
  by (simp add: sample_board_def sample_contest_def) (simp add: sample_eval Let_def)

text \<open>
  The manual freeze takes precedence over the schedule, against the comment on \<open>freezePoint\<close>: a
  manual freeze during a scheduled one moves the freeze point forward, so submissions between
  the two instants become visible.
\<close>

theorem manual_freeze_moves_freeze_point:
  "\<exists>contest now sub. freezePoint contest now = Some (45 * minute)
     \<and> isFrozenSub (contestFrozen contest now) [] (freezePoint contest now) sub
     \<and> (let contest' = contest\<lparr>c_ManualFrozen := True, c_ManualFrozenAt := Some now\<rparr>
        in freezePoint contest' now = Some now
           \<and> \<not> isFrozenSub (contestFrozen contest' now) [] (freezePoint contest' now) sub)"
  by (intro exI [of _ sample_contest] exI [of _ "55 * minute"] exI [of _ "sample_sub 5 SubAC (50 * minute)"])
    (simp add: sample_eval Let_def)

end
