(* ===== verification/Board_Views.thy ===== *)
theory Board_Views
  imports Standings_Props
begin

text \<open>
  Who may see a contest, and what the scoreboard endpoints answer: \<open>getStandings\<close>, the CSV export
  and the folding of user rows into team rows (\<open>contests.go\<close>).  A query without an ORDER BY is read
  in primary-key order.  The records of the CSV export are given field by field, before
  \<open>encoding/csv\<close> joins them.
\<close>

section \<open>Permissions\<close>

definition canManageContest :: "Claims option \<Rightarrow> Contest \<Rightarrow> bool" where
  "canManageContest cl contest =
     (case cl of None \<Rightarrow> False
      | Some c \<Rightarrow> isSetterRole (cl_Role c) \<or> c_CreatedBy contest = cl_UserID c)"

definition canViewContest :: "Claims option \<Rightarrow> Contest \<Rightarrow> bool" where
  "canViewContest cl contest =
     (if c_Visibility contest = ''public'' then True else canManageContest cl contest)"

definition canJudgeContest :: "Claims option \<Rightarrow> Contest \<Rightarrow> bool" where
  "canJudgeContest cl contest =
     (case cl of None \<Rightarrow> False
      | Some c \<Rightarrow> isAdminRole (cl_Role c) \<or> c_CreatedBy contest = cl_UserID c)"

section \<open>Team scoreboards\<close>

definition merge_cell :: "standingRow \<Rightarrow> string \<times> standingCell \<Rightarrow> standingRow" where
  "merge_cell t lc =
     (case lc of (label, cell) \<Rightarrow>
        (case map_of (sr_Cells t) label of
           None \<Rightarrow> putCell t label cell
         | Some cur \<Rightarrow>
             (if sc_Solved cell \<and> (\<not> sc_Solved cur \<or> sc_SolvedMS cell < sc_SolvedMS cur) then
                putCell t label (cell\<lparr>sc_Attempts := sc_Attempts cur\<rparr>)
              else if \<not> sc_Solved cell \<and> \<not> sc_Solved cur then
                putCell t label
                  (cur\<lparr>sc_Attempts := sc_Attempts cur + sc_Attempts cell,
                       sc_Pending := (if sc_Pending cell + sc_Pending cur > 0 then 1
                                      else sc_Pending cur)\<rparr>)
              else t)))"

definition add_member_row ::
  "(nat \<times> nat) list \<Rightarrow> (nat \<times> standingRow) list \<Rightarrow> standingRow \<Rightarrow> (nat \<times> standingRow) list" where
  "add_member_row userTeam teams r =
     (case map_of userTeam (sr_UserID r) of
        None \<Rightarrow> teams
      | Some tid \<Rightarrow>
          (let t = getRow teams tid;
               t = t\<lparr>sr_Solved := sr_Solved t + sr_Solved r,
                     sr_PenaltyMS := sr_PenaltyMS t + sr_PenaltyMS r\<rparr>
           in AList.update tid (foldl merge_cell t (sr_Cells r)) teams))"

text \<open>The totals recomputed from the merged cells, the name, and the captain's flags.\<close>

definition finish_team ::
  "Team list \<Rightarrow> (nat \<times> ContestUserFlag) list \<Rightarrow> nat \<times> standingRow \<Rightarrow> standingRow" where
  "finish_team teamTeams teamFlags tr =
     (case tr of (tid, t) \<Rightarrow>
        (let solved = filter (\<lambda>(l, c). sc_Solved c) (sr_Cells t);
             names = foldl (\<lambda>m team. AList.update (t_ID team) (t_Name team) m) [] teamTeams;
             captains = foldl (\<lambda>m team. AList.update (t_ID team) (t_CaptainID team) m) [] teamTeams;
             t = t\<lparr>sr_Solved := int (length solved),
                   sr_PenaltyMS := sum_list (map (\<lambda>(l, c). sc_SolvedMS c) solved),
                   sr_Username := (case map_of names tid of None \<Rightarrow> [] | Some n \<Rightarrow> n)\<rparr>;
             cap = (case map_of captains tid of None \<Rightarrow> 0 | Some u \<Rightarrow> u)
         in case map_of teamFlags cap of
              None \<Rightarrow> t
            | Some f \<Rightarrow> t\<lparr>sr_Starred := f_Starred f, sr_Cheated := f_Cheated f\<rparr>))"

definition flag_map :: "ContestUserFlag list \<Rightarrow> (nat \<times> ContestUserFlag) list" where
  "flag_map flags = foldl (\<lambda>m f. AList.update (f_UserID f) f m) [] flags"

definition teamStandings :: "db \<Rightarrow> Contest \<Rightarrow> standingRow list \<Rightarrow> standingRow list" where
  "teamStandings s contest rs =
     (let regs = tbl_select (\<lambda>r. r_ContestID r = c_ID contest \<and> r_TeamID r > 0) (db_regs s);
          userTeam = foldl (\<lambda>m r. AList.update (r_UserID r) (r_TeamID r) m) [] regs
      in if userTeam = [] then rs
         else
           (let teams = foldl (add_member_row userTeam) [] rs;
                teamFlags = flag_map (tbl_select (\<lambda>f. f_ContestID f = c_ID contest) (db_flags s));
                out = map (finish_team (rows (db_teams s)) teamFlags) teams
            in assign_ranks 0 (sort_by acm_less out)))"

section \<open>The endpoints\<close>

definition contest_links :: "db \<Rightarrow> Contest \<Rightarrow> ContestProblem list" where
  "contest_links s contest =
     sort_by (\<lambda>a b. cp_OrderIndex a < cp_OrderIndex b)
       (tbl_select (\<lambda>l. cp_ContestID l = c_ID contest) (db_links s))"

definition contest_subs :: "db \<Rightarrow> Contest \<Rightarrow> Submission list" where
  "contest_subs s contest =
     tbl_select (\<lambda>x. s_ContestID x = Some (c_ID contest) \<and> \<not> s_IsPractice x) (db_submissions s)"

definition contest_flags :: "db \<Rightarrow> Contest \<Rightarrow> (nat \<times> ContestUserFlag) list" where
  "contest_flags s contest =
     flag_map (tbl_select (\<lambda>f. f_ContestID f = c_ID contest) (db_flags s))"

definition display_name :: "User \<Rightarrow> string" where
  "display_name u = (if u_Nickname u \<noteq> [] then u_Nickname u else u_Username u)"

definition fill_name :: "db \<Rightarrow> standingRow \<Rightarrow> standingRow" where
  "fill_name s r =
     (let nameOf = foldl (\<lambda>m u. AList.update (u_ID u) (display_name u) m) [] (rows (db_users s))
      in r\<lparr>sr_Username := (case map_of nameOf (sr_UserID r) of None \<Rightarrow> [] | Some n \<Rightarrow> n)\<rparr>)"

record standings_reply =
  st_rows :: "standingRow list"
  st_reveal_count :: int
  st_frozen :: bool
  st_team_mode :: bool

definition getStandings :: "env \<Rightarrow> Claims option \<Rightarrow> string \<Rightarrow> db \<Rightarrow> http_error + standings_reply" where
  "getStandings e cl idstr s =
     (case contestByID s idstr of
        None \<Rightarrow> Inl (HTTP 404 ''contest not found'')
      | Some contest \<Rightarrow>
          if \<not> canViewContest cl contest then Inl (HTTP 404 ''contest not found'')
          else
            (let rs = computeStandings contest (contest_links s contest) (contest_subs s contest)
                        (contest_flags s contest) (env_now e) (c_RevealCount contest);
                 rs = map (fill_name s) rs;
                 rs = (if c_TeamMode contest then teamStandings s contest rs else rs)
             in Inr \<lparr>st_rows = rs, st_reveal_count = c_RevealCount contest,
                     st_frozen = contestFrozen contest (env_now e),
                     st_team_mode = c_TeamMode contest\<rparr>))"

definition cellTextCSV :: "standingCell option \<Rightarrow> string" where
  "cellTextCSV cell =
     (case cell of
        None \<Rightarrow> []
      | Some c \<Rightarrow>
          if sc_Solved c then CHR ''+'' # int_str (go_div (sc_SolvedMS c) 60000)
          else if sc_Pending c > 0 then CHR ''?'' # int_str (sc_Pending c)
          else if sc_Attempts c > 0 then CHR ''-'' # int_str (sc_Attempts c)
          else [])"

definition csv_record :: "ContestProblem list \<Rightarrow> standingRow \<Rightarrow> string list" where
  "csv_record links r =
     (let flagWord = (if sr_Cheated r then ''cheated'' else if sr_Starred r then ''star'' else []);
          rankWord = (if sr_Cheated r then ''cheated'' else if sr_Starred r then ''*''
                      else int_str (sr_Rank r))
      in [rankWord, nat_str (sr_UserID r), int_str (sr_Solved r),
          int_str (go_div (sr_PenaltyMS r) 60000), flagWord]
         @ map (\<lambda>l. cellTextCSV (map_of (sr_Cells r) (cp_Label l))) links)"

definition exportStandingsCSV ::
  "env \<Rightarrow> Claims option \<Rightarrow> string \<Rightarrow> db \<Rightarrow> http_error + string list list" where
  "exportStandingsCSV e cl idstr s =
     (case contestByID s idstr of
        None \<Rightarrow> Inl (HTTP 404 ''contest not found'')
      | Some contest \<Rightarrow>
          if \<not> canViewContest cl contest then Inl (HTTP 404 ''contest not found'')
          else
            (let links = contest_links s contest;
                 rs = computeStandings contest links (contest_subs s contest)
                        (contest_flags s contest) (env_now e) (c_RevealCount contest);
                 header = [''rank'', ''user_id'', ''solved'', ''penalty_min'', ''flag'']
                            @ map cp_Label links
             in Inr (header # map (csv_record links) rs)))"

section \<open>Properties of the endpoints\<close>

lemma list_all2_filter:
  assumes "list_all2 R xs ys" and "\<And>x y. R x y \<Longrightarrow> P x = P y"
  shows "list_all2 R (filter P xs) (filter P ys)"
  using assms(1) by (induction rule: list_all2_induct) (auto simp: assms(2))

definition stored_variant :: "time \<Rightarrow> Submission \<Rightarrow> Submission \<Rightarrow> bool" where
  "stored_variant t a b \<longleftrightarrow> verdict_variant t a b
     \<and> s_ContestID b = s_ContestID a \<and> s_IsPractice b = s_IsPractice a"

text \<open>
  C13. Nobody learns a frozen verdict from the standings endpoint: for two databases that differ only
  in what the judge found out about submissions made after the freeze point, with nothing revealed, the
  answer to every caller is the same, in both modes and for team contests too.
\<close>

theorem getStandings_hides_frozen_verdicts:
  assumes "contestByID s idstr = Some contest" and "freezePoint contest (env_now e) = Some t"
    and "c_RevealCount contest = 0"
    and "list_all2 (stored_variant t) (rows (db_submissions s)) (rows subs')"
  shows "getStandings e cl idstr (s\<lparr>db_submissions := subs'\<rparr>) = getStandings e cl idstr s"
proof -
  let ?s' = "s\<lparr>db_submissions := subs'\<rparr>"
  have "list_all2 (stored_variant t) (contest_subs s contest) (contest_subs ?s' contest)"
    unfolding contest_subs_def tbl_select_def using assms(4)
    by (simp, intro list_all2_filter) (auto simp: stored_variant_def)
  then have "list_all2 (verdict_variant t) (contest_subs s contest) (contest_subs ?s' contest)"
    by (rule list_all2_mono) (simp add: stored_variant_def)
  from freeze_hides_verdicts [OF assms(2) this]
  have board: "computeStandings contest (contest_links ?s' contest) (contest_subs ?s' contest)
      (contest_flags ?s' contest) (env_now e) 0 =
    computeStandings contest (contest_links s contest) (contest_subs s contest)
      (contest_flags s contest) (env_now e) 0"
    by (simp add: contest_links_def contest_flags_def)
  have "contestByID ?s' idstr = Some contest" using assms(1)
    by (simp add: contestByID_def split: option.splits)
  moreover have "fill_name ?s' = fill_name s" and "teamStandings ?s' = teamStandings s"
    by (simp_all add: fill_name_def teamStandings_def fun_eq_iff Let_def)
  ultimately show ?thesis
    using assms(1,3) by (simp add: getStandings_def board Let_def)
qed

text \<open>The database of the instance: one contest and one submission after its freeze.\<close>

definition sample_db :: "string \<Rightarrow> db" where
  "sample_db verdict = empty_db\<lparr>db_contests := \<lparr>rows = [sample_contest], seq = 1\<rparr>,
     db_submissions := \<lparr>rows = [sample_sub 5 verdict (50 * minute)], seq = 1\<rparr>\<rparr>"

definition sample_env :: "time \<Rightarrow> env" where
  "sample_env now = \<lparr>env_now = now, env_dbok = (\<lambda>_. True), env_rand = ''ABCDEFGH''\<rparr>"

lemma sample_contestByID: "contestByID (sample_db v) (nat_str 1) = Some sample_contest"
  using paramID_accepts [of 1]
  by (simp add: contestByID_def sample_db_def byID_def tbl_first_def sample_contest_def)

theorem getStandings_hides_frozen_verdicts_witness:
  "\<forall>cl. getStandings (sample_env (55 * minute)) cl (nat_str 1) (sample_db SubAC) =
        getStandings (sample_env (55 * minute)) cl (nat_str 1) (sample_db SubWA)"
proof
  fix cl
  let ?t = "\<lparr>rows = [sample_sub 5 SubAC (50 * minute)], seq = 1\<rparr> :: Submission table"
  have variant: "list_all2 (stored_variant (45 * minute)) (rows (db_submissions (sample_db SubWA))) (rows ?t)"
    by (simp add: sample_db_def stored_variant_def verdict_variant_def sample_sub_def minute_def
        second_def)
  have frozen: "freezePoint sample_contest (env_now (sample_env (55 * minute))) = Some (45 * minute)"
    and none: "c_RevealCount sample_contest = 0"
    by (simp_all add: sample_contest_def sample_env_def freezePoint_def minute_def second_def)
  have "sample_db SubAC = (sample_db SubWA)\<lparr>db_submissions := ?t\<rparr>" by (simp add: sample_db_def)
  with getStandings_hides_frozen_verdicts [OF sample_contestByID frozen none variant, of cl]
  show "getStandings (sample_env (55 * minute)) cl (nat_str 1) (sample_db SubAC) =
      getStandings (sample_env (55 * minute)) cl (nat_str 1) (sample_db SubWA)" by simp
qed

text \<open>
  A contest that is not public shows its standings and its CSV export only to callers who may
  manage it; to everyone else both endpoints answer as if the contest did not exist.
\<close>

theorem hidden_contest_standings:
  assumes "contestByID s idstr = Some contest" and "c_Visibility contest \<noteq> ''public''"
    and "\<not> canManageContest cl contest"
  shows "getStandings e cl idstr s = getStandings e cl [] s
    \<and> exportStandingsCSV e cl idstr s = exportStandingsCSV e cl [] s
    \<and> getStandings e cl [] s = Inl (HTTP 404 ''contest not found'')"
  using assms
  by (simp add: getStandings_def exportStandingsCSV_def canViewContest_def contestByID_def [of s "[]"]
      paramID_def parse_uint64_def)

theorem hidden_contest_standings_witness:
  "\<forall>e. getStandings e None (nat_str 1)
      (empty_db\<lparr>db_contests := \<lparr>rows = [sample_contest\<lparr>c_Visibility := ''hidden''\<rparr>], seq = 1\<rparr>\<rparr>)
    = Inl (HTTP 404 ''contest not found'')"
proof
  fix e
  let ?c = "sample_contest\<lparr>c_Visibility := ''hidden''\<rparr>"
  let ?s = "empty_db\<lparr>db_contests := \<lparr>rows = [?c], seq = 1\<rparr>\<rparr>"
  have "contestByID ?s (nat_str 1) = Some ?c"
    using paramID_range paramID_accepts [of 1]
    by (simp add: contestByID_def byID_def tbl_first_def sample_contest_def)
  moreover have "c_Visibility ?c \<noteq> ''public''" and "\<not> canManageContest None ?c"
    by (simp_all add: canManageContest_def)
  ultimately show "getStandings e None (nat_str 1) ?s = Inl (HTTP 404 ''contest not found'')"
    using hidden_contest_standings [of ?s "nat_str 1" ?c None e] by simp
qed

section \<open>Team boards\<close>

text \<open>
  \<open>solve_time r l\<close> is the time at which a row has solved problem \<open>l\<close>, and \<open>earlier\<close> the better of two.
\<close>

definition solve_time :: "standingRow \<Rightarrow> string \<Rightarrow> int option" where
  "solve_time r l =
     (case map_of (sr_Cells r) l of None \<Rightarrow> None
      | Some c \<Rightarrow> if sc_Solved c then Some (sc_SolvedMS c) else None)"

fun earlier :: "int option \<Rightarrow> int option \<Rightarrow> int option" where
  "earlier None y = y"
| "earlier x None = x"
| "earlier (Some a) (Some b) = Some (min a b)"

lemma earlier_None [simp]: "earlier x None = x"
  by (cases x) auto

lemma solve_time_fields [simp]:
  "solve_time (r\<lparr>sr_Solved := a, sr_PenaltyMS := b\<rparr>) l = solve_time r l"
  by (simp add: solve_time_def)

lemma solve_time_putCell:
  "solve_time (putCell t l c) l' =
     (if l' = l then (if sc_Solved c then Some (sc_SolvedMS c) else None) else solve_time t l')"
  by (simp add: solve_time_def putCell_def)

lemma solve_time_merge_cell:
  "solve_time (merge_cell t (l, c)) l' =
     (if l' = l then earlier (solve_time t l) (if sc_Solved c then Some (sc_SolvedMS c) else None)
      else solve_time t l')"
  by (cases "map_of (sr_Cells t) l")
    (auto simp: merge_cell_def solve_time_putCell, auto simp: solve_time_def min_def)

lemma solve_time_merge_cells:
  "distinct (map fst cs) \<Longrightarrow> solve_time (foldl merge_cell t cs) l =
     earlier (solve_time t l)
       (case map_of cs l of None \<Rightarrow> None | Some c \<Rightarrow> if sc_Solved c then Some (sc_SolvedMS c) else None)"
proof (induction cs arbitrary: t)
  case (Cons lc cs)
  obtain l' c where lc: "lc = (l', c)" by (cases lc)
  have "map_of cs l' = None" using Cons.prems lc by (simp add: map_of_eq_None_iff)
  then show ?case
    using Cons lc by (auto simp: solve_time_merge_cell)
qed simp

lemma solve_time_new_row [simp]: "solve_time (new_row u) l = None"
  by (simp add: solve_time_def new_row_def)

lemma team_fold:
  assumes "list_all (\<lambda>r. distinct (map fst (sr_Cells r))) rs"
  shows "solve_time (getRow (foldl (add_member_row userTeam) teams rs) tid) l =
    foldl earlier (solve_time (getRow teams tid) l)
      (map (\<lambda>r. solve_time r l) (filter (\<lambda>r. map_of userTeam (sr_UserID r) = Some tid) rs))"
  using assms
proof (induction rs arbitrary: teams)
  case (Cons r rs)
  have "solve_time (getRow (add_member_row userTeam teams r) tid) l =
      (if map_of userTeam (sr_UserID r) = Some tid
       then earlier (solve_time (getRow teams tid) l) (solve_time r l)
       else solve_time (getRow teams tid) l)"
    using Cons.prems
    by (auto simp: add_member_row_def Let_def solve_time_merge_cells solve_time_def [of r]
        split: option.split)
  then show ?case using Cons by simp
qed simp

lemma Min_insert_min:
  "finite T \<Longrightarrow> Min (insert (min a b) T) = Min (insert a (insert (b::int) T))"
  by (cases "T = {}") (simp_all add: min.assoc)

lemma foldl_earlier:
  "foldl earlier x ys =
     (let T = Option.these (insert x (set ys)) in if T = {} then None else Some (Min T))"
proof (induction ys arbitrary: x)
  case Nil
  then show ?case by (cases x) (simp_all add: Option.these_def)
next
  case (Cons y ys)
  have fin: "finite (Option.these (set ys))" by (simp add: Option.these_def)
  show ?case
    using fin by (cases x; cases y) (simp_all add: Cons.IH Let_def insert_commute Min_insert_min)
qed

text \<open>
  In a team contest a team has solved a problem exactly when one of its members has, and its time
  for the problem is the earliest among the members who have.
\<close>

theorem team_cell_is_earliest:
  assumes "list_all (\<lambda>r. distinct (map fst (sr_Cells r))) rs"
  shows "solve_time (getRow (foldl (add_member_row userTeam) [] rs) tid) l =
    (let T = Option.these ((\<lambda>r. solve_time r l) `
               {r \<in> set rs. map_of userTeam (sr_UserID r) = Some tid})
     in if T = {} then None else Some (Min T))"
  using team_fold [OF assms, of userTeam "[]" tid l]
  by (simp add: foldl_earlier getRow_def)

definition solved_cell :: "string \<Rightarrow> int \<Rightarrow> standingCell" where
  "solved_cell l ms =
     \<lparr>sc_Label = l, sc_Attempts = 0, sc_SolvedMS = ms, sc_Pending = 0, sc_Solved = True\<rparr>"

theorem team_cell_is_earliest_witness:
  "solve_time (getRow (foldl (add_member_row [(1, 9), (2, 9)]) []
     [(new_row 1)\<lparr>sr_Cells := [(''A'', solved_cell ''A'' 500)]\<rparr>,
      (new_row 2)\<lparr>sr_Cells := [(''A'', solved_cell ''A'' 300)]\<rparr>]) 9) ''A'' = Some 300"
proof -
  let ?rs = "[(new_row 1)\<lparr>sr_Cells := [(''A'', solved_cell ''A'' 500)]\<rparr>,
      (new_row 2)\<lparr>sr_Cells := [(''A'', solved_cell ''A'' 300)]\<rparr>]"
  have dist: "list_all (\<lambda>r. distinct (map fst (sr_Cells r))) ?rs" by simp
  have members: "{r \<in> set ?rs. map_of [(1, 9), (2, 9)] (sr_UserID r) = Some (9::nat)} = set ?rs"
    by (auto simp: new_row_def)
  from team_cell_is_earliest [OF dist, of "[(1, 9), (2, 9)]" 9 "''A''"]
  show ?thesis unfolding members by (simp add: solve_time_def solved_cell_def)
qed

text \<open>
  Team scoreboards rank by the ACM rule in IOI contests too.  Here two one-member teams have solved one
  problem each, for 100 and for 50 points, and the team with 50 points is ranked first.
\<close>

definition sample_team_db :: db where
  "sample_team_db = empty_db\<lparr>db_regs := \<lparr>rows =
     [\<lparr>r_ID = 1, r_ContestID = 1, r_UserID = 1, r_TeamName = ''X'', r_TeamType = ''official'',
       r_TeamID = 11, r_CreatedAt = 0\<rparr>,
      \<lparr>r_ID = 2, r_ContestID = 1, r_UserID = 2, r_TeamName = ''Y'', r_TeamType = ''official'',
       r_TeamID = 12, r_CreatedAt = 0\<rparr>], seq = 2\<rparr>\<rparr>"

theorem ioi_team_board_prefers_lower_score:
  "let rs = [(new_row 1)\<lparr>sr_Solved := 1, sr_PenaltyMS := 100, sr_Cells := [(''A'', solved_cell ''A'' 100)]\<rparr>,
             (new_row 2)\<lparr>sr_Solved := 1, sr_PenaltyMS := 50, sr_Cells := [(''B'', solved_cell ''B'' 50)]\<rparr>];
       contest = sample_contest\<lparr>c_Mode := ContestModeIOI, c_TeamMode := True\<rparr>
   in \<not> ioi_less (rs ! 1) (rs ! 0)
      \<and> map (\<lambda>r. (sr_Rank r, sr_UserID r, sr_PenaltyMS r)) (teamStandings sample_team_db contest rs)
          = [(1, 12, 50), (2, 11, 100)]"
  by (simp add: teamStandings_def sample_team_db_def empty_db_def empty_table_def tbl_select_def
      sample_contest_def new_row_def solved_cell_def add_member_row_def getRow_def merge_cell_def
      putCell_def finish_team_def flag_map_def tierOf_def ioi_less_def acm_less_def Let_def)

end
