(* ===== verification/Rate_Limits.thy ===== *)
theory Rate_Limits
  imports OJ_Prelude "HOL-Library.AList"
begin

text \<open>
  The three sliding-window rate limiters of \<open>backend/internal/handler\<close>: \<open>submitLimiter\<close>
  (\<open>submissions.go\<close>), \<open>ipLimiter\<close> (\<open>middleware.go\<close>) and \<open>userLimiter\<close> with its \<open>prune\<close>
  (\<open>security.go\<close>).  The locale \<open>sliding_window\<close> states what they have in common and derives that no
  window holds more accepted calls than allowed; each limiter is an interpretation of it.  The
  in-place filtering of the Go slices is a \<open>filter\<close>: an element is written at or before the
  position it is read from.
\<close>

section \<open>The three limiters\<close>

record submitLimiter =
  sl_hits :: "(nat \<times> time list) list"
  sl_window :: duration
  sl_allowed :: int

record ipLimiter =
  il_hits :: "(string \<times> time list) list"
  il_window :: duration
  il_allowed :: int

record userLimiter =
  ul_hits :: "(nat \<times> int list) list"
  ul_window :: int
  ul_allowed :: int

text \<open>Reading a missing key of a Go map of slices gives the empty slice.\<close>

definition hits_of :: "('k \<times> 'v list) list \<Rightarrow> 'k \<Rightarrow> 'v list" where
  "hits_of m k = (case map_of m k of None \<Rightarrow> [] | Some ts \<Rightarrow> ts)"

definition newSubmitLimiter :: submitLimiter where
  "newSubmitLimiter = \<lparr>sl_hits = [], sl_window = minute, sl_allowed = 15\<rparr>"

definition submit_allow :: "submitLimiter \<Rightarrow> nat \<Rightarrow> time \<Rightarrow> submitLimiter \<times> bool" where
  "submit_allow l userID now =
     (let recent = filter (\<lambda>t. time_sub now t < sl_window l) (hits_of (sl_hits l) userID)
      in if int (length recent) \<ge> sl_allowed l then
           (l\<lparr>sl_hits := AList.update userID recent (sl_hits l)\<rparr>, False)
         else (l\<lparr>sl_hits := AList.update userID (recent @ [now]) (sl_hits l)\<rparr>, True))"

definition newIPLimiter :: "int \<Rightarrow> duration \<Rightarrow> ipLimiter" where
  "newIPLimiter allowed window = \<lparr>il_hits = [], il_window = window, il_allowed = allowed\<rparr>"

definition ip_allow :: "ipLimiter \<Rightarrow> string \<Rightarrow> time \<Rightarrow> ipLimiter \<times> bool" where
  "ip_allow l key now =
     (let recent = filter (\<lambda>t. time_sub now t < il_window l) (hits_of (il_hits l) key)
      in if int (length recent) \<ge> il_allowed l then
           (l\<lparr>il_hits := AList.update key recent (il_hits l)\<rparr>, False)
         else (l\<lparr>il_hits := AList.update key (recent @ [now]) (il_hits l)\<rparr>, True))"

definition loginLimiter :: ipLimiter where
  "loginLimiter = newIPLimiter 10 minute"

definition registerLimiter :: ipLimiter where
  "registerLimiter = newIPLimiter 5 minute"

definition newUserLimiter :: "int \<Rightarrow> int \<Rightarrow> userLimiter" where
  "newUserLimiter allowed windowSec =
     \<lparr>ul_hits = [], ul_window = windowSec, ul_allowed = allowed\<rparr>"

definition user_allow :: "userLimiter \<Rightarrow> nat \<Rightarrow> int \<Rightarrow> userLimiter \<times> bool" where
  "user_allow l uid now =
     (let recent = filter (\<lambda>t. now - t < ul_window l) (hits_of (ul_hits l) uid);
          n = int (length recent);
          l = l\<lparr>ul_hits := AList.update uid recent (ul_hits l)\<rparr>
      in if n \<ge> ul_allowed l then (l, False)
         else (l\<lparr>ul_hits := AList.update uid (hits_of (ul_hits l) uid @ [now]) (ul_hits l)\<rparr>, True))"

definition user_prune :: "userLimiter \<Rightarrow> int \<Rightarrow> userLimiter" where
  "user_prune l now =
     (if length (ul_hits l) < 4096 then l
      else l\<lparr>ul_hits :=
        filter (\<lambda>(uid, recent). recent \<noteq> [])
          (map (\<lambda>(uid, ts). (uid, filter (\<lambda>t. now - t < ul_window l) ts)) (ul_hits l))\<rparr>)"

text \<open>The middleware prunes before it asks; an anonymous caller is user 0.\<close>

definition user_write :: "userLimiter \<Rightarrow> nat \<Rightarrow> int \<Rightarrow> userLimiter \<times> bool" where
  "user_write l uid now = user_allow (user_prune l now) uid now"

text \<open>The budgets per class of write endpoint, as \<open>(allowed, windowSec)\<close>.\<close>

record writeLimiters =
  wl_problem :: userLimiter
  wl_upload :: userLimiter
  wl_solution :: userLimiter
  wl_social :: userLimiter
  wl_external :: userLimiter
  wl_contest :: userLimiter

definition newWriteLimiters :: writeLimiters where
  "newWriteLimiters = \<lparr>
     wl_problem = newUserLimiter 10 60, wl_upload = newUserLimiter 20 60,
     wl_solution = newUserLimiter 10 60, wl_social = newUserLimiter 20 60,
     wl_external = newUserLimiter 4 60, wl_contest = newUserLimiter 10 60\<rparr>"

section \<open>The common contract\<close>

text \<open>
  \<open>log l k\<close> are the accepted calls a limiter still remembers for a key.  A call may forget any that
  are at least \<open>W\<close> old, for this key and for others, but none that are younger; it is accepted
  exactly when fewer than \<open>N\<close> young ones remain, and an accepted call is remembered.
\<close>

locale sliding_window =
  fixes allow :: "'l \<Rightarrow> 'k \<Rightarrow> int \<Rightarrow> 'l \<times> bool"
    and log :: "'l \<Rightarrow> 'k \<Rightarrow> int list"
    and inv :: "'l \<Rightarrow> bool"
    and W N :: int
  assumes W_pos: "0 < W" and N_nonneg: "0 \<le> N"
    and inv_allow: "inv l \<Longrightarrow> inv (fst (allow l k now))"
    and accept_iff: "inv l \<Longrightarrow>
      snd (allow l k now) \<longleftrightarrow> int (length (filter (\<lambda>t. now - t < W) (log l k))) < N"
    and log_allow: "inv l \<Longrightarrow>
      filter (\<lambda>t. now - t < W) (log (fst (allow l k now)) k') =
        filter (\<lambda>t. now - t < W) (log l k') @ (if snd (allow l k now) \<and> k' = k then [now] else [])"
begin

text \<open>A run over calls \<open>(key, time)\<close>: the final limiter and the accepted calls, in order.\<close>

fun run :: "'l \<Rightarrow> ('k \<times> int) list \<Rightarrow> 'l \<times> ('k \<times> int) list" where
  "run l [] = (l, [])"
| "run l ((k, now) # calls) =
     (let (l', ok) = allow l k now; (l'', acc) = run l' calls
      in (l'', (if ok then [(k, now)] else []) @ acc))"

definition times :: "'k \<Rightarrow> ('k \<times> int) list \<Rightarrow> int list" where
  "times k acc = map snd (filter (\<lambda>c. fst c = k) acc)"

definition within :: "int \<Rightarrow> int list \<Rightarrow> int" where
  "within t ts = int (length (filter (\<lambda>x. t - W < x \<and> x \<le> t) ts))"

text \<open>
  What is known after the accepted calls \<open>acc\<close>, when no later call is before \<open>now\<close>: the young part of
  the log is that of the accepted calls, and no window is overfull.
\<close>

definition tracked :: "'l \<Rightarrow> ('k \<times> int) list \<Rightarrow> int \<Rightarrow> bool" where
  "tracked l acc now \<longleftrightarrow> inv l \<and> (\<forall>c \<in> set acc. snd c \<le> now)
     \<and> (\<forall>k. filter (\<lambda>t. now - t < W) (log l k) = filter (\<lambda>t. now - t < W) (times k acc))
     \<and> (\<forall>k t. within t (times k acc) \<le> N)"

lemma filter_young_later:
  "now \<le> now' \<Longrightarrow> filter (\<lambda>t. now - t < W) xs = filter (\<lambda>t. now - t < W) ys \<Longrightarrow>
     filter (\<lambda>t. now' - t < W) xs = filter (\<lambda>t. now' - t < W) ys"
proof -
  assume le: "now \<le> now'" and eq: "filter (\<lambda>t. now - t < W) xs = filter (\<lambda>t. now - t < W) ys"
  have "filter (\<lambda>t. now' - t < W) zs = filter (\<lambda>t. now' - t < W) (filter (\<lambda>t. now - t < W) zs)" for zs
    using le by (auto intro!: filter_cong)
  then show ?thesis using eq by metis
qed

lemma tracked_later: "tracked l acc now \<Longrightarrow> now \<le> now' \<Longrightarrow> tracked l acc now'"
  unfolding tracked_def by (blast intro: filter_young_later order_trans)

lemma within_accept:
  assumes "\<And>t. within t ts \<le> N" and "int (length (filter (\<lambda>t. now - t < W) ts)) < N"
  shows "within t (ts @ [now]) \<le> N"
proof (cases "t - W < now \<and> now \<le> t")
  case True
  have "length (filter (\<lambda>x. t - W < x \<and> x \<le> t) ts) \<le> length (filter (\<lambda>x. now - x < W) ts)"
  proof -
    have "filter (\<lambda>x. t - W < x \<and> x \<le> t) ts =
        filter (\<lambda>x. t - W < x \<and> x \<le> t) (filter (\<lambda>x. now - x < W) ts)"
      using True by (auto intro!: filter_cong)
    then show ?thesis by (metis length_filter_le)
  qed
  then show ?thesis using True assms(2) by (simp add: within_def)
next
  case False
  then show ?thesis using assms(1) [of t] by (auto simp: within_def)
qed

lemma tracked_allow:
  assumes "tracked l acc now"
  shows "tracked (fst (allow l k now)) (acc @ (if snd (allow l k now) then [(k, now)] else [])) now"
proof -
  let ?new = "if snd (allow l k now) then [(k, now)] else []"
  have inv: "inv l" and young: "\<And>k. filter (\<lambda>t. now - t < W) (log l k) = filter (\<lambda>t. now - t < W) (times k acc)"
    and full: "\<And>k t. within t (times k acc) \<le> N"
    using assms by (auto simp: tracked_def)
  have "filter (\<lambda>t. now - t < W) (log (fst (allow l k now)) k') =
      filter (\<lambda>t. now - t < W) (times k' (acc @ ?new))" for k'
    using log_allow [OF inv] young W_pos by (simp add: times_def)
  moreover have "within t (times k' (acc @ ?new)) \<le> N" for k' t
    using full [of _ k'] within_accept [of "times k' acc" now t] accept_iff [OF inv] young
    by (auto simp: times_def)
  ultimately show ?thesis
    using assms inv_allow [OF inv] by (auto simp: tracked_def)
qed

lemma run_tracked:
  assumes "tracked l acc now" and "sorted (map snd calls)"
    and "\<forall>c \<in> set calls. now \<le> snd c \<and> snd c \<le> now'" and "now \<le> now'"
  shows "tracked (fst (run l calls)) (acc @ snd (run l calls)) now'"
  using assms
proof (induction calls arbitrary: l acc now)
  case Nil
  then show ?case by (auto intro: tracked_later)
next
  case (Cons c calls)
  obtain k' t' where c: "c = (k', t')" by (cases c)
  have "tracked l acc t'" using Cons.prems(1,3) c by (auto intro: tracked_later)
  from Cons.IH [OF tracked_allow [OF this, of k']] Cons.prems(2,3) c show ?case
    by (simp add: case_prod_unfold Let_def)
qed

lemma start_tracked: "inv l \<Longrightarrow> (\<And>k. log l k = []) \<Longrightarrow> tracked l [] now"
  using N_nonneg by (simp add: tracked_def times_def within_def)

text \<open>From an empty log, no window of length \<open>W\<close> holds more than \<open>N\<close> accepted calls of a key.\<close>

lemma window_bound:
  assumes "inv l" and "\<And>k. log l k = []" and "sorted (map snd calls)"
  shows "int (length (filter (\<lambda>x. t - W < x \<and> x \<le> t) (times k (snd (run l calls))))) \<le> N"
proof -
  define lo where "lo = Min (insert 0 (snd ` set calls))"
  define hi where "hi = Max (insert 0 (snd ` set calls))"
  have "\<forall>c \<in> set calls. lo \<le> snd c \<and> snd c \<le> hi" and "lo \<le> hi"
    by (auto simp: lo_def hi_def intro: order_trans [of _ 0])
  then show ?thesis
    using run_tracked [OF start_tracked [OF assms(1,2)] assms(3)]
    by (fastforce simp: tracked_def within_def)
qed

text \<open>
  After any run, a call is accepted exactly when fewer than \<open>N\<close> accepted calls of the same key lie
  in the window that ends with it.
\<close>

lemma accept_exact:
  assumes "inv l" and "\<And>k. log l k = []" and "sorted (map snd calls)"
    and "\<forall>c \<in> set calls. snd c \<le> now"
  shows "snd (allow (fst (run l calls)) k now) \<longleftrightarrow>
    int (length (filter (\<lambda>x. now - W < x) (times k (snd (run l calls))))) < N"
proof -
  have "tracked (fst (run l calls)) (snd (run l calls)) now"
    using run_tracked [OF start_tracked [OF assms(1,2), of "case calls of [] \<Rightarrow> now | c # _ \<Rightarrow> snd c"]
        assms(3), of now] assms(3,4)
    by (cases calls) auto
  then have "inv (fst (run l calls))"
    and "filter (\<lambda>t. now - t < W) (log (fst (run l calls)) k) =
      filter (\<lambda>t. now - t < W) (times k (snd (run l calls)))"
    by (simp_all add: tracked_def)
  moreover have "(\<lambda>t. now - t < W) = (\<lambda>x. now - W < x)" by auto
  ultimately show ?thesis by (simp add: accept_iff)
qed

end

section \<open>The limiters implement it\<close>

lemma hits_of_update [simp]:
  "hits_of (AList.update k ts m) k' = (if k' = k then ts else hits_of m k')"
  by (simp add: hits_of_def update_conv')

lemma hits_of_Nil [simp]: "hits_of [] k = []"
  by (simp add: hits_of_def)

definition submit_inv :: "submitLimiter \<Rightarrow> bool" where
  "submit_inv l \<longleftrightarrow> sl_window l = minute \<and> sl_allowed l = 15"

definition ip_inv :: "int \<Rightarrow> duration \<Rightarrow> ipLimiter \<Rightarrow> bool" where
  "ip_inv N W l \<longleftrightarrow> il_window l = W \<and> il_allowed l = N"

definition user_inv :: "int \<Rightarrow> int \<Rightarrow> userLimiter \<Rightarrow> bool" where
  "user_inv N W l \<longleftrightarrow> ul_window l = W \<and> ul_allowed l = N \<and> distinct (map fst (ul_hits l))"

lemma minute_in_range: "min_duration < minute" "minute \<le> max_duration" "0 < minute"
  by (simp_all add: minute_def second_def min_duration_def max_duration_def)

interpretation submit: sliding_window submit_allow "\<lambda>l. hits_of (sl_hits l)" submit_inv minute 15
  by unfold_locales
    (auto simp: submit_allow_def submit_inv_def Let_def minute_in_range
      time_sub_less_iff [OF minute_in_range(1,2)])

lemma ip_sliding_window:
  assumes "0 < W" and "W \<le> max_duration" and "0 \<le> N"
  shows "sliding_window ip_allow (\<lambda>l. hits_of (il_hits l)) (ip_inv N W) W N"
proof -
  have "time_sub t u < W \<longleftrightarrow> t - u < W" for t u
    by (rule time_sub_less_iff) (use assms in \<open>auto simp: min_duration_def\<close>)
  then show ?thesis
    using assms by unfold_locales (auto simp: ip_allow_def ip_inv_def Let_def)
qed

interpretation login: sliding_window ip_allow "\<lambda>l. hits_of (il_hits l)" "ip_inv 10 minute" minute 10
  by (rule ip_sliding_window) (simp_all add: minute_in_range)

interpretation register: sliding_window ip_allow "\<lambda>l. hits_of (il_hits l)" "ip_inv 5 minute" minute 5
  by (rule ip_sliding_window) (simp_all add: minute_in_range)

lemma map_of_prune:
  "distinct (map fst m) \<Longrightarrow>
     hits_of (filter (\<lambda>(k, ts). ts \<noteq> []) (map (\<lambda>(k, ts). (k, filter P ts)) m)) k =
       filter P (hits_of m k)"
proof (induction m)
  case (Cons c m)
  have "hits_of m j = []" if "j \<notin> set (map fst m)" for j
    using that by (auto simp: hits_of_def map_of_eq_None_iff [THEN iffD2])
  with Cons show ?case by (cases c) (auto simp: hits_of_def split: if_splits)
qed simp

lemma distinct_prune:
  "distinct (map fst m) \<Longrightarrow>
     distinct (map fst (filter (\<lambda>(k, ts). ts \<noteq> []) (map (\<lambda>(k, ts). (k, filter P ts)) m)))"
  by (induction m) (auto simp: case_prod_unfold rev_image_eqI)

lemma user_prune_facts:
  assumes "user_inv N W l"
  shows "user_inv N W (user_prune l now)"
    and "filter (\<lambda>t. now - t < W) (hits_of (ul_hits (user_prune l now)) k) =
           filter (\<lambda>t. now - t < W) (hits_of (ul_hits l) k)"
  using assms by (auto simp: user_prune_def user_inv_def map_of_prune distinct_prune)

lemma user_sliding_window:
  assumes "0 < W" and "0 \<le> N"
  shows "sliding_window user_write (\<lambda>l. hits_of (ul_hits l)) (user_inv N W) W N"
proof
  fix l k now
  assume inv: "user_inv N W l"
  define l' where "l' = user_prune l now"
  have inv': "user_inv N W l'"
    and young: "\<And>k. filter (\<lambda>t. now - t < W) (hits_of (ul_hits l') k) =
      filter (\<lambda>t. now - t < W) (hits_of (ul_hits l) k)"
    using user_prune_facts [OF inv] by (simp_all add: l'_def)
  show "user_inv N W (fst (user_write l k now))"
    using inv' by (auto simp: user_write_def user_allow_def user_inv_def Let_def distinct_update
      simp flip: l'_def)
  show acc: "snd (user_write l k now) \<longleftrightarrow>
      int (length (filter (\<lambda>t. now - t < W) (hits_of (ul_hits l) k))) < N"
    using inv' young [of k] by (auto simp: user_write_def user_allow_def user_inv_def Let_def
      simp flip: l'_def)
  show "filter (\<lambda>t. now - t < W) (hits_of (ul_hits (fst (user_write l k now))) k') =
      filter (\<lambda>t. now - t < W) (hits_of (ul_hits l) k') @
        (if snd (user_write l k now) \<and> k' = k then [now] else [])" for k'
    using inv' young assms by (auto simp: user_write_def user_allow_def user_inv_def Let_def
      simp flip: l'_def)
qed (use assms in auto)

interpretation upload: sliding_window user_write "\<lambda>l. hits_of (ul_hits l)" "user_inv 20 60" 60 20
  by (rule user_sliding_window) simp_all

interpretation writer: sliding_window user_write "\<lambda>l. hits_of (ul_hits l)" "user_inv 10 60" 60 10
  by (rule user_sliding_window) simp_all

section \<open>Properties\<close>

text \<open>
  C20. However a client spaces its calls, in any window of one minute the submit limiter accepts at
  most 15 submissions of a user.
\<close>

theorem submit_rate_bounded:
  assumes "sorted (map snd calls)"
  shows "length (filter (\<lambda>x. t - minute < x \<and> x \<le> t)
           (submit.times user (snd (submit.run newSubmitLimiter calls)))) \<le> 15"
  using submit.window_bound [of newSubmitLimiter calls t user] assms
  by (simp add: newSubmitLimiter_def submit_inv_def)

theorem submit_rate_bounded_witness:
  "length (filter (\<lambda>x. 5 - minute < x \<and> x \<le> 5)
     (submit.times 1 (snd (submit.run newSubmitLimiter
        [(1, 1), (1, 2), (2, 2), (1, 2), (1, 3), (1, 4), (1, 5)])))) \<le> 15"
  by (rule submit_rate_bounded) simp

text \<open>
  The problem write limiter, which prunes its table whenever it has 4096 keys or more, accepts a
  call exactly when the same user had fewer than 10 accepted calls in the last 60 seconds: pruning
  forgets no call that counts, and no user is refused because of another.
\<close>

theorem write_limit_exact:
  assumes "sorted (map snd calls)" and "list_all (\<lambda>c. snd c \<le> now) calls"
  shows "snd (user_write (fst (writer.run (wl_problem newWriteLimiters) calls)) user now) \<longleftrightarrow>
    length (filter (\<lambda>x. now - 60 < x)
      (writer.times user (snd (writer.run (wl_problem newWriteLimiters) calls)))) < 10"
proof -
  have "user_inv 10 60 (wl_problem newWriteLimiters)" and "ul_hits (wl_problem newWriteLimiters) = []"
    by (simp_all add: newWriteLimiters_def newUserLimiter_def user_inv_def)
  then show ?thesis
    using writer.accept_exact [of "wl_problem newWriteLimiters" calls now user] assms
    by (simp add: list_all_iff)
qed

theorem write_limit_exact_witness:
  "snd (user_write (fst (writer.run (wl_problem newWriteLimiters) [(1, 3), (2, 4), (1, 5)])) 1 7) \<longleftrightarrow>
    length (filter (\<lambda>x. 7 - 60 < x)
      (writer.times 1 (snd (writer.run (wl_problem newWriteLimiters) [(1, 3), (2, 4), (1, 5)])))) < 10"
  by (rule write_limit_exact) simp_all

end
