(* ===== verification/Token_Compare.thy ===== *)
theory Token_Compare
  imports OJ_Prelude
begin

text \<open>
  The default checker of \<open>backend/pkg/judge/judge_cases.go\<close>: the allocation-free scan \<open>equalTokens\<close>
  with its two indices, and its equivalence with the reference it replaced, the comparison of the
  lists of whitespace-separated fields.
\<close>

section \<open>The scan\<close>

definition isSpaceByte :: "char \<Rightarrow> bool" where
  "isSpaceByte c \<longleftrightarrow> c = CHR '' '' \<or> c = CHR 0x09 \<or> c = CHR 0x0A \<or> c = CHR 0x0D
     \<or> c = CHR 0x0B \<or> c = CHR 0x0C"

function skip_space :: "string \<Rightarrow> nat \<Rightarrow> nat" where
  "skip_space a i = (if i < length a \<and> isSpaceByte (a ! i) then skip_space a (Suc i) else i)"
  by auto
termination by (relation "measure (\<lambda>(a, i). length a - i)") auto

text \<open>The loop over one token; \<open>None\<close> is the return of \<open>false\<close> at the first differing byte.\<close>

function scan_token :: "string \<Rightarrow> string \<Rightarrow> nat \<Rightarrow> nat \<Rightarrow> (nat \<times> nat) option" where
  "scan_token a b i j =
     (if i < length a \<and> j < length b \<and> \<not> isSpaceByte (a ! i) \<and> \<not> isSpaceByte (b ! j) then
        if a ! i \<noteq> b ! j then None else scan_token a b (Suc i) (Suc j)
      else Some (i, j))"
  by auto
termination by (relation "measure (\<lambda>(a, b, i, j). length a - i)") auto

declare skip_space.simps [simp del] scan_token.simps [simp del]

text \<open>At a byte that is no space, the token loop makes progress or returns.\<close>

lemma skip_space_bounds: "i \<le> skip_space a i \<and> (i \<le> length a \<longrightarrow> skip_space a i \<le> length a)"
  by (induction a i rule: skip_space.induct) (subst (1 2) skip_space.simps, auto)

lemma skip_space_stop:
  "skip_space a i < length a \<Longrightarrow> \<not> isSpaceByte (a ! skip_space a i)"
proof (induction a i rule: skip_space.induct)
  case (1 a i)
  then show ?case
    by (cases "i < length a \<and> isSpaceByte (a ! i)") (simp_all add: skip_space.simps [of a i])
qed

lemma scan_token_mono: "scan_token a b i j = Some (i', j') \<Longrightarrow> i \<le> i' \<and> j \<le> j'"
proof (induction a b i j rule: scan_token.induct)
  case (1 a b i j)
  from 1(2) have "(i', j') = (i, j) \<or> scan_token a b (Suc i) (Suc j) = Some (i', j')"
    by (subst (asm) scan_token.simps) (auto split: if_splits)
  then show ?case
    using 1 by (subst (asm) scan_token.simps) (force split: if_splits)
qed

lemma scan_token_progress:
  assumes "scan_token a b i j = Some (i', j')" and "i < length a" and "j < length b"
    and "\<not> isSpaceByte (a ! i)" and "\<not> isSpaceByte (b ! j)"
  shows "Suc i \<le> i'"
proof -
  have "scan_token a b (Suc i) (Suc j) = Some (i', j')"
    using assms by (subst (asm) scan_token.simps) (auto split: if_splits)
  then show ?thesis using scan_token_mono by blast
qed

function equal_from :: "string \<Rightarrow> string \<Rightarrow> nat \<Rightarrow> nat \<Rightarrow> bool" where
  "equal_from a b i0 j0 =
     (let i = skip_space a i0; j = skip_space b j0
      in if i \<ge> length a \<or> j \<ge> length b then i \<ge> length a \<and> j \<ge> length b
         else case scan_token a b i j of
           None \<Rightarrow> False
         | Some (i', j') \<Rightarrow>
             if (i' < length a \<and> \<not> isSpaceByte (a ! i')) \<or> (j' < length b \<and> \<not> isSpaceByte (b ! j'))
             then False else equal_from a b i' j')"
  by auto
termination
proof (relation "measure (\<lambda>(a, b, i, j). length a - i)", goal_cases)
  case (2 a b i0 j0 i j p i' j')
  then have "Suc i \<le> i'"
    using scan_token_progress [of a b i j i' j'] skip_space_stop by (simp add: not_le)
  moreover have "i0 \<le> i" using 2 skip_space_bounds by blast
  ultimately show ?case using 2 by auto
qed simp

definition equalTokens :: "string \<Rightarrow> string \<Rightarrow> bool" where
  "equalTokens a b = equal_from a b 0 0"

section \<open>The reference: fields\<close>

text \<open>\<open>strings.Fields\<close> on bytes: the maximal runs of non-space bytes.\<close>

function fields_of :: "string \<Rightarrow> string list" where
  "fields_of s =
     (let s = dropWhile isSpaceByte s
      in if s = [] then []
         else takeWhile (\<lambda>c. \<not> isSpaceByte c) s # fields_of (dropWhile (\<lambda>c. \<not> isSpaceByte c) s))"
  by auto
termination
proof (relation "measure length", goal_cases)
  case (2 s s')
  then have "\<not> isSpaceByte (hd s')" and "s' \<noteq> []"
    using hd_dropWhile [of isSpaceByte s] by simp_all
  then obtain c cs where c: "s' = c # cs" and "\<not> isSpaceByte c" by (cases s') auto
  then have "length (dropWhile (\<lambda>c. \<not> isSpaceByte c) s') \<le> length cs"
    by (simp add: length_dropWhile_le)
  moreover have "length s' \<le> length s" using 2 by (simp add: length_dropWhile_le)
  ultimately show ?case using c by simp
qed simp

declare fields_of.simps [simp del]

lemma fields_empty: "dropWhile isSpaceByte s = [] \<Longrightarrow> fields_of s = []"
  by (simp add: fields_of.simps [of s])

lemma fields_token:
  "dropWhile isSpaceByte s = t \<Longrightarrow> t \<noteq> [] \<Longrightarrow>
     fields_of s = takeWhile (\<lambda>c. \<not> isSpaceByte c) t # fields_of (dropWhile (\<lambda>c. \<not> isSpaceByte c) t)"
  by (simp add: fields_of.simps [of s])

text \<open>The index functions, read on the rest of the text.\<close>

lemma drop_skip_space: "drop (skip_space a i) a = dropWhile isSpaceByte (drop i a)"
proof (induction a i rule: skip_space.induct)
  case (1 a i)
  show ?case
  proof (cases "i < length a")
    case True
    then show ?thesis
      using 1 by (subst skip_space.simps) (simp add: Cons_nth_drop_Suc [symmetric])
  qed (subst skip_space.simps, simp)
qed

abbreviation tok :: "string \<Rightarrow> nat \<Rightarrow> string" where
  "tok a i \<equiv> takeWhile (\<lambda>c. \<not> isSpaceByte c) (drop i a)"

abbreviation rest :: "string \<Rightarrow> nat \<Rightarrow> string" where
  "rest a i \<equiv> dropWhile (\<lambda>c. \<not> isSpaceByte c) (drop i a)"

lemma tok_Cons:
  "i < length a \<Longrightarrow> \<not> isSpaceByte (a ! i) \<Longrightarrow> tok a i = a ! i # tok a (Suc i) \<and> rest a i = rest a (Suc i)"
  by (simp add: Cons_nth_drop_Suc [symmetric])

lemma tok_Nil: "\<not> (i < length a \<and> \<not> isSpaceByte (a ! i)) \<Longrightarrow> tok a i = [] \<and> rest a i = drop i a"
  by (cases "i < length a") (auto simp: Cons_nth_drop_Suc [symmetric])

lemma tok_Nil_iff: "tok a i = [] \<longleftrightarrow> \<not> (i < length a \<and> \<not> isSpaceByte (a ! i))"
  using tok_Cons tok_Nil by (metis list.distinct(1))

lemma rest_Nil: "tok a i = [] \<Longrightarrow> rest a i = drop i a"
  using tok_Nil tok_Nil_iff by blast

text \<open>
  The token loop, followed by the test whether both tokens ended, decides whether the two tokens are
  equal, and then both indices are at the ends of their tokens.
\<close>

lemma scan_token_spec:
  "case scan_token a b i j of
     None \<Rightarrow> tok a i \<noteq> tok b j
   | Some (i', j') \<Rightarrow>
       (if tok a i' = [] \<and> tok b j' = []
        then tok a i = tok b j \<and> drop i' a = rest a i \<and> drop j' b = rest b j
        else tok a i \<noteq> tok b j)"
proof (induction a b i j rule: scan_token.induct)
  case (1 a b i j)
  let ?go = "(i < length a \<and> \<not> isSpaceByte (a ! i)) \<and> (j < length b \<and> \<not> isSpaceByte (b ! j))"
  show ?case
  proof (cases ?go)
    case True
    then have cons: "tok a i = a ! i # tok a (Suc i)" "rest a i = rest a (Suc i)"
      "tok b j = b ! j # tok b (Suc j)" "rest b j = rest b (Suc j)"
      using tok_Cons by blast+
    show ?thesis
    proof (cases "a ! i = b ! j")
      case True
      with \<open>?go\<close> have "scan_token a b i j = scan_token a b (Suc i) (Suc j)"
        by (subst scan_token.simps) simp
      with 1 \<open>?go\<close> True show ?thesis by (simp add: cons split: option.splits prod.splits)
    next
      case False
      with \<open>?go\<close> have "scan_token a b i j = None" by (subst scan_token.simps) simp
      with False show ?thesis by (simp add: cons)
    qed
  next
    case False
    then have "scan_token a b i j = Some (i, j)" by (subst scan_token.simps) auto
    moreover have "tok a i = [] \<or> tok b j = []" using False by (auto simp only: tok_Nil_iff)
    ultimately show ?thesis
      by (cases "tok a i = []"; cases "tok b j = []") (simp_all add: rest_Nil)
  qed
qed

declare equal_from.simps [simp del]

lemma equal_from_fields: "equal_from a b i j \<longleftrightarrow> fields_of (drop i a) = fields_of (drop j b)"
proof (induction a b i j rule: equal_from.induct)
  case (1 a b i0 j0)
  define i j where "i = skip_space a i0" and "j = skip_space b j0"
  have d: "drop i a = dropWhile isSpaceByte (drop i0 a)" "drop j b = dropWhile isSpaceByte (drop j0 b)"
    by (simp_all add: i_def j_def drop_skip_space)
  have F: "fields_of (drop k s) = (if drop l s = [] then [] else tok s l # fields_of (rest s l))"
    if "drop l s = dropWhile isSpaceByte (drop k s)" for k l :: nat and s
    using that fields_empty [of "drop k s"] fields_token [of "drop k s"] by auto
  note fa = F [OF d(1)] and fb = F [OF d(2)]
  show ?case
  proof (cases "i \<ge> length a \<or> j \<ge> length b")
    case True
    then show ?thesis
      by (subst equal_from.simps) (auto simp: Let_def fa fb simp flip: i_def j_def)
  next
    case False
    then have ne: "drop i a \<noteq> []" "drop j b \<noteq> []" by auto
    have step: "equal_from a b i0 j0 =
        (case scan_token a b i j of None \<Rightarrow> False
         | Some (i', j') \<Rightarrow> if tok a i' \<noteq> [] \<or> tok b j' \<noteq> [] then False else equal_from a b i' j')"
      using False by (subst equal_from.simps)
        (simp add: Let_def tok_Nil_iff not_le split: option.split flip: i_def j_def)
    show ?thesis
    proof (cases "scan_token a b i j")
      case None
      then show ?thesis using scan_token_spec [where a = a and b = b and i = i and j = j] False by (simp add: step fa fb)
    next
      case (Some p)
      obtain i' j' where p: "p = (i', j')" by (cases p)
      show ?thesis
      proof (cases "tok a i' = [] \<and> tok b j' = []")
        case True
        then have "equal_from a b i' j' \<longleftrightarrow> fields_of (drop i' a) = fields_of (drop j' b)"
          using 1 [OF i_def j_def _ Some p [symmetric]] False by (auto simp only: tok_Nil_iff)
        then show ?thesis
          using scan_token_spec [where a = a and b = b and i = i and j = j] True Some p ne by (simp add: step fa fb)
      next
        case nonempty: False
        then show ?thesis
          using scan_token_spec [where a = a and b = b and i = i and j = j] Some p ne by (auto simp: step fa fb split: if_splits)
      qed
    qed
  qed
qed

section \<open>Properties\<close>

text \<open>
  The streaming comparison of the default checker terminates and accepts exactly the outputs whose
  whitespace-separated fields equal those of the answer, as the version it replaced did: amount and
  kind of white space never matter, and every byte of every token does.
\<close>

theorem equalTokens_fields: "equalTokens a b \<longleftrightarrow> fields_of a = fields_of b"
  by (simp add: equalTokens_def equal_from_fields)

end
