(* ===== verification/Sandbox_Run.thy ===== *)
theory Sandbox_Run
  imports Go_Strings
begin

text \<open>
  The judge sandbox around the seccomp filter, \<open>backend/pkg/sandbox\<close>: the specification and result of
  a run (\<open>spec.go\<close>), the cgroup limits and counters (\<open>cgroup_linux.go\<close>), the classification of an
  outcome (\<open>helpers_linux.go\<close>), the execution core \<open>runProcess\<close> (\<open>sandbox_linux.go\<close>) and the second
  stage that builds the jail (\<open>stage2_linux.go\<close>) as the sequence of system calls it makes.  What
  the kernel answers is an argument.  Error texts end in the kernel's text, here after a colon.
\<close>

section \<open>Specification and result\<close>

datatype profile_name = ProfileCompile | ProfileRun

record Spec =
  sp_Argv :: "string list"
  sp_Env :: "string list"
  sp_Workspace :: string
  sp_StdinPath :: string
  sp_StdoutPath :: string
  sp_StderrPath :: string
  sp_TimeLimitMS :: int
  sp_WallLimitMS :: int
  sp_MemLimitKB :: int
  sp_FSizeLimitKB :: int
  sp_StackLimitKB :: int
  sp_AsLimitKB :: int
  sp_PidsLimit :: int
  sp_Profile :: profile_name

record SandboxResult =
  sr_ExitCode :: int
  sr_Signal :: int
  sr_Status :: string
  sr_WallMS :: int
  sr_CPUTimeMS :: int
  sr_MaxRSSKB :: int
  sr_KilledByWatchdog :: bool
  sr_Message :: string

abbreviation StatusOK :: string where "StatusOK \<equiv> ''OK''"
abbreviation StatusRE :: string where "StatusRE \<equiv> ''RE''"
abbreviation StatusTLE :: string where "StatusTLE \<equiv> ''TLE''"
abbreviation StatusMLE :: string where "StatusMLE \<equiv> ''MLE''"
abbreviation StatusSE :: string where "StatusSE \<equiv> ''SE''"

definition watchdogGraceMS :: int where "watchdogGraceMS = 300"
definition runAsUID :: int where "runAsUID = 65534"
definition runAsGID :: int where "runAsGID = 65534"

text \<open>\<open>None\<close> is no error.\<close>

definition spec_validate :: "Spec \<Rightarrow> string option" where
  "spec_validate s =
     (if sp_Argv s = [] \<or> hd (sp_Argv s) = [] then Some ''sandbox: argv is empty''
      else if sp_Workspace s = [] then Some ''sandbox: workspace is required''
      else if sp_TimeLimitMS s \<le> 0 then Some ''sandbox: time limit must be positive''
      else None)"

definition wallLimit :: "Spec \<Rightarrow> int" where
  "wallLimit s =
     (if sp_WallLimitMS s > 0 then sp_WallLimitMS s else sp_TimeLimitMS s + watchdogGraceMS)"

section \<open>Cgroup\<close>

definition stage2HeadroomKB :: int where "stage2HeadroomKB = 64 * 1024"

text \<open>The control files \<open>applyLimits\<close> writes, in order; the first write that fails ends it.\<close>

definition cgroup_writes :: "Spec \<Rightarrow> (string \<times> string) list" where
  "cgroup_writes spec =
     (if sp_MemLimitKB spec > 0 then
        [(''memory.max'', int_str ((sp_MemLimitKB spec + stage2HeadroomKB) * 1024)),
         (''memory.swap.max'', ''0'')]
      else [])
     @ [(''cpu.max'', ''100000 100000''),
        (''pids.max'', int_str (if sp_PidsLimit spec \<le> 0 then 512 else sp_PidsLimit spec))]"

fun write_all :: "(string \<Rightarrow> string option) \<Rightarrow> (string \<times> string) list \<Rightarrow> (string \<times> string) list \<times> string option" where
  "write_all fail [] = ([], None)"
| "write_all fail ((f, v) # ws) =
     (case fail f of
        Some err \<Rightarrow> ([], Some (''cgroup: '' @ f @ '': '' @ err))
      | None \<Rightarrow> (let (done, e) = write_all fail ws in ((f, v) # done, e)))"

definition applyLimits :: "(string \<Rightarrow> string option) \<Rightarrow> Spec \<Rightarrow> (string \<times> string) list \<times> string option" where
  "applyLimits fail spec = write_all fail (cgroup_writes spec)"

section \<open>Classification\<close>

text \<open>
  What \<open>Wait\<close> and the cgroup report: whether there is a process state, the resource usage when the
  platform gives one (user and system time in seconds and microseconds, maximal resident set), the
  exit code (-1 for a signalled process), the signal when there was one, and the counters
  \<open>memory.peak\<close> (in KB, 0 when unreadable) and \<open>oom_kill\<close>.
\<close>

record outcome =
  oc_state :: bool
  oc_usage :: "(int \<times> int \<times> int \<times> int \<times> int) option"
  oc_exit :: int
  oc_signal :: "int option"
  oc_peak :: int
  oc_oom :: int

definition SIGKILL :: int where "SIGKILL = 9"
definition SIGXCPU :: int where "SIGXCPU = 24"

text \<open>The measured part of the result, before the verdict.\<close>

definition measured :: "outcome \<Rightarrow> int \<Rightarrow> SandboxResult" where
  "measured oc wallMS =
     (let res = \<lparr>sr_ExitCode = 0, sr_Signal = 0, sr_Status = StatusOK, sr_WallMS = wallMS,
                 sr_CPUTimeMS = 0, sr_MaxRSSKB = 0, sr_KilledByWatchdog = False, sr_Message = []\<rparr>;
          res = (case oc_usage oc of
                   None \<Rightarrow> res
                 | Some (us, uus, ss, sus, maxrss) \<Rightarrow>
                     res\<lparr>sr_CPUTimeMS := us * 1000 + go_div uus 1000 + ss * 1000 + go_div sus 1000,
                         sr_MaxRSSKB := maxrss\<rparr>);
          res = (if oc_peak oc > sr_MaxRSSKB res then res\<lparr>sr_MaxRSSKB := oc_peak oc\<rparr> else res);
          res = res\<lparr>sr_ExitCode := oc_exit oc\<rparr>
      in case oc_signal oc of None \<Rightarrow> res | Some sig \<Rightarrow> res\<lparr>sr_Signal := sig\<rparr>)"

definition classify :: "Spec \<Rightarrow> outcome \<Rightarrow> bool \<Rightarrow> int \<Rightarrow> SandboxResult" where
  "classify spec oc watchdogFired wallMS =
     (if \<not> oc_state oc then
        \<lparr>sr_ExitCode = 0, sr_Signal = 0, sr_Status = StatusSE, sr_WallMS = wallMS, sr_CPUTimeMS = 0,
         sr_MaxRSSKB = 0, sr_KilledByWatchdog = False,
         sr_Message = ''process state missing after wait''\<rparr>
      else
        let res = measured oc wallMS
        in if watchdogFired then
             res\<lparr>sr_Status := StatusTLE, sr_KilledByWatchdog := True,
                 sr_Message := ''wall clock limit exceeded''\<rparr>
           else if oc_oom oc > 0 then
             res\<lparr>sr_Status := StatusMLE, sr_Message := ''killed by kernel OOM''\<rparr>
           else if sr_Signal res = SIGXCPU then
             res\<lparr>sr_Status := StatusTLE, sr_Message := ''CPU time limit exceeded''\<rparr>
           else if sr_Signal res = SIGKILL \<and> sp_MemLimitKB spec > 0
               \<and> sr_MaxRSSKB res > go_div (sp_MemLimitKB spec * 9) 10 then
             res\<lparr>sr_Status := StatusMLE, sr_Message := ''memory limit exceeded''\<rparr>
           else if sr_ExitCode res = 0 \<and> sr_Signal res = 0 then res
           else
             res\<lparr>sr_Status := StatusRE,
                 sr_Message := ''exit code '' @ int_str (sr_ExitCode res) @ '', signal '' @
                   int_str (sr_Signal res)\<rparr>)"

section \<open>The execution core\<close>

text \<open>
  How the steps of one run turn out: \<open>None\<close> is success, \<open>Some err\<close> the error.  \<open>x_diag\<close> is what the
  second stage wrote to the diagnostic pipe before it failed, trimmed.
\<close>

record execution =
  x_workspace :: "string option"
  x_cgroup :: "string option"
  x_limit :: "string \<Rightarrow> string option"
  x_build :: "string option"
  x_start :: "string option"
  x_attach :: "string option"
  x_outcome :: outcome
  x_fired :: bool
  x_wall :: int
  x_diag :: string

definition runProcess :: "Spec \<Rightarrow> execution \<Rightarrow> string + SandboxResult" where
  "runProcess spec x =
     (case spec_validate spec of Some err \<Rightarrow> Inl err | None \<Rightarrow>
     (case x_workspace x of
        Some err \<Rightarrow> Inl (''sandbox: workspace '' @ sp_Workspace spec @ '' unavailable: '' @ err)
      | None \<Rightarrow>
     (case x_cgroup x of Some err \<Rightarrow> Inl (''cgroup: create: '' @ err) | None \<Rightarrow>
     (case snd (applyLimits (x_limit x) spec) of Some err \<Rightarrow> Inl err | None \<Rightarrow>
     (case x_build x of Some err \<Rightarrow> Inl err | None \<Rightarrow>
     (case x_start x of Some err \<Rightarrow> Inl (''sandbox: start: '' @ err) | None \<Rightarrow>
     (case x_attach x of Some err \<Rightarrow> Inl (''sandbox: cgroup attach: '' @ err) | None \<Rightarrow>
        (let res = classify spec (x_outcome x) (x_fired x) (x_wall x)
         in Inr (if x_diag x \<noteq> [] then res\<lparr>sr_Status := StatusSE, sr_Message := x_diag x\<rparr>
                 else res)))))))))"

text \<open>Both runs of a pair take place; the user's error is reported first.\<close>

definition RunPair :: "Spec \<Rightarrow> Spec \<Rightarrow> string option \<Rightarrow> string option \<Rightarrow> execution \<Rightarrow> execution \<Rightarrow>
    string + SandboxResult \<times> SandboxResult" where
  "RunPair userSpec interSpec pipe1 pipe2 xu xi =
     (case pipe1 of Some err \<Rightarrow> Inl err | None \<Rightarrow>
     (case pipe2 of Some err \<Rightarrow> Inl err | None \<Rightarrow>
       (case runProcess userSpec xu of
          Inl err \<Rightarrow> Inl err
        | Inr userRes \<Rightarrow>
            (case runProcess interSpec xi of
               Inl err \<Rightarrow> Inl err
             | Inr interRes \<Rightarrow> Inr (userRes, interRes)))))"

section \<open>The second stage\<close>

datatype syscall =
    Mount string string string "string list" string
  | Mknod string nat nat
  | Mkdir string
  | Chdir string
  | Setgroups "int list"
  | Setresgid int
  | Setresuid int
  | LoadSeccomp profile_name
  | Setrlimit string int
  | Exec string "string list" "string list"

text \<open>A step is a call, the prefix its error is reported with, and whether an error is fatal.\<close>

type_synonym stage2_step = "syscall \<times> string \<times> bool"

definition must :: "string \<Rightarrow> syscall \<Rightarrow> stage2_step" where
  "must what c = (c, what, True)"

definition mountPrivateRoot :: "stage2_step list" where
  "mountPrivateRoot =
     [must ''make / private'' (Mount [] ''/'' [] [''REC'', ''PRIVATE''] []),
      must ''bind /'' (Mount ''/'' ''/'' [] [''BIND'', ''REC''] []),
      must ''remount / read-only''
        (Mount [] ''/'' [] [''BIND'', ''REMOUNT'', ''RDONLY'', ''NOSUID'', ''NODEV''] [])]"

definition mountDev :: "stage2_step list" where
  "mountDev =
     must ''mount /dev'' (Mount ''tmpfs'' ''/dev'' ''tmpfs'' [''NOSUID''] ''mode=755,size=16m'')
     # map (\<lambda>(name, major, minor). must (''mknod /dev/'' @ name) (Mknod (''/dev/'' @ name) major minor))
         [(''null'', 1, 3), (''zero'', 1, 5), (''full'', 1, 7), (''random'', 1, 8), (''urandom'', 1, 9)]
     @ [must ''mkdir /dev/shm'' (Mkdir ''/dev/shm''),
        must ''mount /dev/shm''
          (Mount ''tmpfs'' ''/dev/shm'' ''tmpfs'' [''NOSUID'', ''NODEV''] ''mode=1777,size=64m'')]"

definition mountVirtualRoots :: "stage2_step list" where
  "mountVirtualRoots =
     [must ''mount /proc'' (Mount ''proc'' ''/proc'' ''proc'' [''RDONLY'', ''NOSUID'', ''NODEV'', ''NOEXEC''] []),
      must ''mount /sys'' (Mount ''sysfs'' ''/sys'' ''sysfs'' [''RDONLY'', ''NOSUID'', ''NODEV'', ''NOEXEC''] []),
      must ''mount /run'' (Mount ''tmpfs'' ''/run'' ''tmpfs'' [''NOSUID'', ''NODEV'', ''NOEXEC''] ''mode=755,size=8m''),
      must ''mount /tmp'' (Mount ''tmpfs'' ''/tmp'' ''tmpfs'' [''NOSUID''] ''mode=1777,size=256m'')]
     @ mountDev"

definition stage2WorkspacePath :: string where
  "stage2WorkspacePath = ''/tmp/ojws''"

definition mountWorkspace :: "string \<Rightarrow> stage2_step list" where
  "mountWorkspace hostPath =
     [must (''mkdir '' @ stage2WorkspacePath) (Mkdir stage2WorkspacePath),
      must (''bind workspace '' @ hostPath) (Mount hostPath stage2WorkspacePath [] [''BIND''] []),
      must ''remount workspace rw'' (Mount [] stage2WorkspacePath [] [''BIND'', ''REMOUNT''] [])]"

text \<open>Each path is covered once, in order of first mention; errors are ignored.\<close>

fun hide_loop :: "string list \<Rightarrow> string list \<Rightarrow> stage2_step list" where
  "hide_loop seen [] = []"
| "hide_loop seen (p # ps) =
     (if p = [] \<or> p \<in> set seen then hide_loop seen ps
      else (Mount ''tmpfs'' p ''tmpfs'' [''RDONLY'', ''NOSUID'', ''NODEV'', ''NOEXEC''] ''mode=000,size=4k'',
            [], False) # hide_loop (p # seen) ps)"

definition hideHostPaths :: "string \<Rightarrow> stage2_step list" where
  "hideHostPaths extra =
     hide_loop [] ([''/home'', ''/root'', ''/var''] @ (if extra \<noteq> [] then split_on (CHR '':'') extra else []))"

definition dropPrivileges :: "stage2_step list" where
  "dropPrivileges =
     [must ''setgroups'' (Setgroups []), must ''setresgid'' (Setresgid runAsGID),
      must ''setresuid'' (Setresuid runAsUID)]"

definition stage2Setup :: "Spec \<Rightarrow> string \<Rightarrow> stage2_step list" where
  "stage2Setup spec extra =
     mountPrivateRoot @ mountVirtualRoots @ mountWorkspace (sp_Workspace spec) @ hideHostPaths extra
     @ [must ''chdir workspace'' (Chdir stage2WorkspacePath)] @ dropPrivileges"

definition set_limit :: "string \<Rightarrow> string \<Rightarrow> int \<Rightarrow> stage2_step list" where
  "set_limit what res kb = (if kb \<le> 0 then [] else [must what (Setrlimit res (kb * 1024))])"

definition applyRlimits :: "Spec \<Rightarrow> stage2_step list" where
  "applyRlimits spec =
     set_limit ''rlimit core'' ''CORE'' 0
     @ set_limit ''rlimit fsize'' ''FSIZE'' (sp_FSizeLimitKB spec)
     @ set_limit ''rlimit stack'' ''STACK'' (sp_StackLimitKB spec)
     @ set_limit ''rlimit as'' ''AS'' (sp_AsLimitKB spec)
     @ [must [] (Setrlimit ''CPU'' (go_div (sp_TimeLimitMS spec) 1000 + 1))]"

text \<open>\<open>executable p\<close> says that \<open>p\<close> is a regular executable file.\<close>

fun first_executable :: "(string \<Rightarrow> bool) \<Rightarrow> string \<Rightarrow> string list \<Rightarrow> string option" where
  "first_executable executable argv0 [] = None"
| "first_executable executable argv0 (dir # dirs) =
     (if dir \<noteq> [] \<and> executable (dir @ ''/'' @ argv0) then Some (dir @ ''/'' @ argv0)
      else first_executable executable argv0 dirs)"

fun search_env :: "(string \<Rightarrow> bool) \<Rightarrow> string \<Rightarrow> string list \<Rightarrow> string option" where
  "search_env executable argv0 [] = None"
| "search_env executable argv0 (kv # env) =
     (if take 5 kv \<noteq> ''PATH='' then search_env executable argv0 env
      else case first_executable executable argv0 (split_on (CHR '':'') (drop 5 kv)) of
        Some p \<Rightarrow> Some p
      | None \<Rightarrow> search_env executable argv0 env)"

definition resolveArgv0 :: "(string \<Rightarrow> bool) \<Rightarrow> string \<Rightarrow> string list \<Rightarrow> string" where
  "resolveArgv0 executable argv0 env =
     (if CHR ''/'' \<in> set argv0 then argv0
      else case search_env executable argv0 env of Some p \<Rightarrow> p | None \<Rightarrow> argv0)"

definition stage2_program :: "(string \<Rightarrow> bool) \<Rightarrow> Spec \<Rightarrow> string \<Rightarrow> stage2_step list" where
  "stage2_program executable spec extra =
     stage2Setup spec extra
     @ [must ''seccomp'' (LoadSeccomp (sp_Profile spec))]
     @ applyRlimits spec
     @ [must ''exec'' (Exec (resolveArgv0 executable (hd (sp_Argv spec)) (sp_Env spec))
          (sp_Argv spec) (sp_Env spec))]"

text \<open>
  Running the steps against a kernel that may refuse any call at any point (\<open>refuse n c\<close> is the
  error of the \<open>n\<close>-th call): the calls made, and the text of the fatal error if there was one.
\<close>

fun run_steps :: "(nat \<Rightarrow> syscall \<Rightarrow> string option) \<Rightarrow> nat \<Rightarrow> stage2_step list \<Rightarrow> syscall list \<times> string option" where
  "run_steps refuse n [] = ([], None)"
| "run_steps refuse n ((c, what, fatal) # steps) =
     (case refuse n c of
        Some err \<Rightarrow>
          (if fatal then ([c], Some (what @ '': '' @ err))
           else (let (tr, e) = run_steps refuse (Suc n) steps in (c # tr, e)))
      | None \<Rightarrow> (let (tr, e) = run_steps refuse (Suc n) steps in (c # tr, e)))"

definition Stage2Main ::
  "(nat \<Rightarrow> syscall \<Rightarrow> string option) \<Rightarrow> (string \<Rightarrow> bool) \<Rightarrow> Spec \<Rightarrow> string \<Rightarrow> syscall list \<times> string option" where
  "Stage2Main refuse executable spec extra = run_steps refuse 0 (stage2_program executable spec extra)"

section \<open>What a verdict means\<close>

lemma runProcess_InrD:
  assumes "runProcess spec x = Inr res"
  shows "spec_validate spec = None"
    and "res = (let r = classify spec (x_outcome x) (x_fired x) (x_wall x)
                in if x_diag x \<noteq> [] then r\<lparr>sr_Status := StatusSE, sr_Message := x_diag x\<rparr> else r)"
  using assms by (auto simp: runProcess_def Let_def split: option.splits)

text \<open>The resident set and the signal \<open>classify\<close> works with.\<close>

definition seen_rss :: "outcome \<Rightarrow> int" where
  "seen_rss oc = max (case oc_usage oc of None \<Rightarrow> 0 | Some (_, _, _, _, maxrss) \<Rightarrow> maxrss) (oc_peak oc)"

definition seen_signal :: "outcome \<Rightarrow> int" where
  "seen_signal oc = (case oc_signal oc of None \<Rightarrow> 0 | Some sig \<Rightarrow> sig)"

lemma measured_facts:
  "sr_Status (measured oc wall) = StatusOK" "sr_ExitCode (measured oc wall) = oc_exit oc"
  "sr_Signal (measured oc wall) = seen_signal oc" "sr_MaxRSSKB (measured oc wall) = seen_rss oc"
  by (simp_all add: measured_def Let_def seen_rss_def seen_signal_def max_def split: option.split)

lemma classify_status:
  "sr_Status (classify spec oc fired wall) =
     (if \<not> oc_state oc then StatusSE
      else if fired then StatusTLE
      else if oc_oom oc > 0 then StatusMLE
      else if seen_signal oc = SIGXCPU then StatusTLE
      else if seen_signal oc = SIGKILL \<and> sp_MemLimitKB spec > 0
          \<and> seen_rss oc > go_div (sp_MemLimitKB spec * 9) 10 then StatusMLE
      else if oc_exit oc = 0 \<and> seen_signal oc = 0 then StatusOK
      else StatusRE)"
  by (simp add: classify_def Let_def measured_facts)

text \<open>
  The sandbox as the runner its clients see: \<open>machine\<close> stands for what the machine does with a
  specification in a file system \<open>'f\<close>, giving the new file system and the outcome.
\<close>

definition sandbox_run :: "(Spec \<Rightarrow> 'f \<Rightarrow> 'f \<times> execution) \<Rightarrow> Spec \<Rightarrow> 'f \<Rightarrow> 'f \<times> (string + SandboxResult)" where
  "sandbox_run machine spec f = (case machine spec f of (f', x) \<Rightarrow> (f', runProcess spec x))"

definition sandbox_pair ::
  "(Spec \<Rightarrow> Spec \<Rightarrow> string \<Rightarrow> 'f \<Rightarrow> 'f \<times> string option \<times> string option \<times> execution \<times> execution) \<Rightarrow>
     Spec \<Rightarrow> Spec \<Rightarrow> string \<Rightarrow> 'f \<Rightarrow> 'f \<times> (string + SandboxResult \<times> SandboxResult)" where
  "sandbox_pair machine us is err f =
     (case machine us is err f of (f', p1, p2, xu, xi) \<Rightarrow> (f', RunPair us is p1 p2 xu xi))"

definition run_statuses :: "string set" where
  "run_statuses = {StatusOK, StatusRE, StatusTLE, StatusMLE, StatusSE}"

lemma runProcess_status: "runProcess spec x = Inr res \<Longrightarrow> sr_Status res \<in> run_statuses"
  using runProcess_InrD(2) [of spec x res] by (simp add: Let_def classify_status run_statuses_def)

lemma RunPair_status:
  "RunPair us is p1 p2 xu xi = Inr (ru, ri) \<Longrightarrow>
     sr_Status ru \<in> run_statuses \<and> sr_Status ri \<in> run_statuses"
  by (auto simp: RunPair_def split: option.splits sum.splits dest: runProcess_status)

text \<open>The contract of the judge's \<open>Runner\<close> interface, and the sandbox as its implementation.\<close>

locale runner =
  fixes run :: "Spec \<Rightarrow> 'f \<Rightarrow> 'f \<times> (string + SandboxResult)"
    and pair :: "Spec \<Rightarrow> Spec \<Rightarrow> string \<Rightarrow> 'f \<Rightarrow> 'f \<times> (string + SandboxResult \<times> SandboxResult)"
  assumes run_status: "run spec f = (f', Inr sr) \<Longrightarrow> sr_Status sr \<in> run_statuses"
    and pair_status: "pair us is err f = (f', Inr (ru, ri)) \<Longrightarrow>
      sr_Status ru \<in> run_statuses \<and> sr_Status ri \<in> run_statuses"

interpretation sandbox: runner "sandbox_run machine" "sandbox_pair pair_machine" for machine pair_machine
  by unfold_locales
    (auto simp: sandbox_run_def sandbox_pair_def runProcess_status
      split: prod.splits dest: RunPair_status)

text \<open>
  C23. The outcome of a run that could be started: a diagnostic from the jail set-up or a missing process
  state is a system error; else the watchdog, then the kernel's out-of-memory killer, then the CPU
  limit, then a kill signal near the memory limit decide, in this order; only a process that ends by
  itself with exit code 0 is OK, and everything else is a runtime error.
\<close>

theorem run_verdict:
  assumes "runProcess spec x = Inr res"
  shows "sr_Status res =
     (if x_diag x \<noteq> [] \<or> \<not> oc_state (x_outcome x) then StatusSE
      else if x_fired x then StatusTLE
      else if oc_oom (x_outcome x) > 0 then StatusMLE
      else if seen_signal (x_outcome x) = SIGXCPU then StatusTLE
      else if seen_signal (x_outcome x) = SIGKILL \<and> sp_MemLimitKB spec > 0
          \<and> seen_rss (x_outcome x) > go_div (sp_MemLimitKB spec * 9) 10 then StatusMLE
      else if oc_exit (x_outcome x) = 0 \<and> seen_signal (x_outcome x) = 0 then StatusOK
      else StatusRE)"
  using runProcess_InrD(2) [OF assms] by (simp add: Let_def classify_status)

definition sample_spec :: Spec where
  "sample_spec = \<lparr>sp_Argv = [''main''], sp_Env = [''PATH=/usr/bin''], sp_Workspace = ''/w'',
     sp_StdinPath = [], sp_StdoutPath = [], sp_StderrPath = [], sp_TimeLimitMS = 1000,
     sp_WallLimitMS = 0, sp_MemLimitKB = 1000, sp_FSizeLimitKB = 0, sp_StackLimitKB = 0,
     sp_AsLimitKB = 0, sp_PidsLimit = 0, sp_Profile = ProfileRun\<rparr>"

definition sample_run :: execution where
  "sample_run = \<lparr>x_workspace = None, x_cgroup = None, x_limit = (\<lambda>_. None), x_build = None,
     x_start = None, x_attach = None,
     x_outcome = \<lparr>oc_state = True, oc_usage = Some (0, 5000, 0, 1000, 950), oc_exit = - 1,
        oc_signal = Some 9, oc_peak = 10, oc_oom = 0\<rparr>,
     x_fired = False, x_wall = 20, x_diag = []\<rparr>"

lemma sample_run_starts: "\<exists>res. runProcess sample_spec sample_run = Inr res"
  by (simp add: runProcess_def sample_spec_def sample_run_def spec_validate_def applyLimits_def
      cgroup_writes_def Let_def)

theorem run_verdict_witness:
  "map_sum (\<lambda>_. ()) sr_Status (runProcess sample_spec sample_run) = Inr StatusMLE"
proof -
  obtain res where res: "runProcess sample_spec sample_run = Inr res"
    using sample_run_starts by blast
  from run_verdict [OF this] show ?thesis
    by (simp add: res)
      (simp add: sample_run_def sample_spec_def seen_signal_def seen_rss_def SIGXCPU_def SIGKILL_def
        go_div_def)
qed

section \<open>Nothing runs outside the jail\<close>

lemma run_steps_trace:
  "run_steps refuse n steps = (tr, e) \<Longrightarrow>
     tr = map fst (take (length tr) steps) \<and> length tr \<le> length steps
     \<and> (\<forall>i. Suc i < length tr \<longrightarrow> snd (snd (steps ! i)) \<longrightarrow> refuse (n + i) (tr ! i) = None)"
proof (induction steps arbitrary: n tr e)
  case (Cons step steps)
  obtain c what fatal where step: "step = (c, what, fatal)" by (cases step)
  show ?case
  proof (cases "fatal \<and> refuse n c \<noteq> None")
    case True
    then show ?thesis using Cons.prems step by auto
  next
    case False
    obtain tr' e' where rest: "run_steps refuse (Suc n) steps = (tr', e')" by fastforce
    with False Cons.prems step have tr: "tr = c # tr'" by (auto split: option.splits if_splits)
    have "snd (snd ((step # steps) ! i)) \<Longrightarrow> refuse (n + i) (tr ! i) = None" if "Suc i < length tr" for i
      using that False step Cons.IH [OF rest] by (cases i) (auto simp: tr)
    then show ?thesis using Cons.IH [OF rest] step tr by auto
  qed
qed simp

lemma fst_must [simp]: "fst (must what c) = c"
  by (simp add: must_def)

lemma snd_snd_must [simp]: "snd (snd (must what c))"
  by (simp add: must_def)

lemma limits_only: "step \<in> set (applyRlimits spec) \<Longrightarrow> \<exists>r k. fst step = Setrlimit r k"
  by (auto simp: applyRlimits_def set_limit_def split: if_splits)

lemma hide_loop_mounts: "step \<in> set (hide_loop seen ps) \<Longrightarrow> \<exists>p. fst step =
    Mount ''tmpfs'' p ''tmpfs'' [''RDONLY'', ''NOSUID'', ''NODEV'', ''NOEXEC''] ''mode=000,size=4k''"
  by (induction seen ps rule: hide_loop.induct) (auto split: if_splits)

definition is_limit :: "syscall \<Rightarrow> bool" where
  "is_limit c = (case c of Setrlimit _ _ \<Rightarrow> True | _ \<Rightarrow> False)"

definition is_setup :: "syscall \<Rightarrow> bool" where
  "is_setup c = (case c of Setrlimit _ _ \<Rightarrow> False | Exec _ _ _ \<Rightarrow> False | _ \<Rightarrow> True)"

lemma setup_is_setup: "list_all (\<lambda>step. is_setup (fst step)) (stage2Setup spec extra)"
proof -
  have "list_all (\<lambda>step. is_setup (fst step)) (hideHostPaths extra)"
    unfolding list_all_iff hideHostPaths_def using hide_loop_mounts by (fastforce simp: is_setup_def)
  then show ?thesis
    by (simp add: stage2Setup_def mountPrivateRoot_def mountVirtualRoots_def mountDev_def
        mountWorkspace_def dropPrivileges_def is_setup_def)
qed

lemma not_setup: "\<not> is_setup (Exec a v e)" "\<not> is_setup (Setrlimit r k)"
  by (simp_all add: is_setup_def)

lemma setup_no_exec: "Exec a v e \<notin> fst ` set (stage2Setup spec extra)"
  using setup_is_setup [of spec extra] not_setup(1) by (force simp: list_all_iff)

lemma setup_no_limit: "Setrlimit r k \<notin> fst ` set (stage2Setup spec extra)"
  using setup_is_setup [of spec extra] not_setup(2) by (force simp: list_all_iff)

text \<open>
  Whatever calls the kernel refuses, the target program is started only behind the whole jail: the
  root was made private and remounted read-only, the workspace was bound, groups, gid and uid were
  dropped to nobody, then the seccomp filter of the run's profile was loaded, and after it nothing
  but resource limits was set before the exec; no earlier call that has to succeed was refused.
\<close>

theorem exec_only_jailed:
  assumes "Stage2Main refuse executable spec extra = (tr, err)" and "Exec a v env \<in> set tr"
  shows "\<exists>mounts limits.
      tr = mounts @ [Setgroups [], Setresgid 65534, Setresuid 65534, LoadSeccomp (sp_Profile spec)]
             @ limits @ [Exec a v env]
      \<and> list_all is_limit limits
      \<and> {Mount [] ''/'' [] [''REC'', ''PRIVATE''] [],
         Mount [] ''/'' [] [''BIND'', ''REMOUNT'', ''RDONLY'', ''NOSUID'', ''NODEV''] [],
         Mount (sp_Workspace spec) ''/tmp/ojws'' [] [''BIND''] [], Chdir ''/tmp/ojws''} \<subseteq> set mounts
      \<and> v = sp_Argv spec
      \<and> refuse (length mounts) (Setgroups []) = None
      \<and> refuse (length mounts + 2) (Setresuid 65534) = None
      \<and> refuse (length mounts + 3) (LoadSeccomp (sp_Profile spec)) = None"
proof -
  let ?steps = "stage2_program executable spec extra"
  define mounts where "mounts = mountPrivateRoot @ mountVirtualRoots @ mountWorkspace (sp_Workspace spec)
    @ hideHostPaths extra @ [must ''chdir workspace'' (Chdir stage2WorkspacePath)]"
  define exec where "exec = must ''exec'' (Exec (resolveArgv0 executable (hd (sp_Argv spec)) (sp_Env spec))
    (sp_Argv spec) (sp_Env spec))"
  define tail where "tail = dropPrivileges @ [must ''seccomp'' (LoadSeccomp (sp_Profile spec))]
    @ applyRlimits spec"
  have steps: "?steps = (mounts @ tail) @ [exec]"
    by (simp add: stage2_program_def stage2Setup_def mounts_def tail_def exec_def)
  have noexec: "Exec a v env \<notin> fst ` set (mounts @ tail)"
  proof -
    have "mounts @ tail = stage2Setup spec extra @ [must ''seccomp'' (LoadSeccomp (sp_Profile spec))]
        @ applyRlimits spec"
      by (simp add: stage2Setup_def mounts_def tail_def)
    moreover have "Exec a v env \<notin> fst ` set (applyRlimits spec)"
      by (auto dest!: limits_only)
    ultimately show ?thesis using setup_no_exec [of a v env spec extra] by auto
  qed
  have trace: "tr = map fst (take (length tr) ?steps)" "length tr \<le> length ?steps"
    "\<And>i. Suc i < length tr \<Longrightarrow> snd (snd (?steps ! i)) \<Longrightarrow> refuse i (tr ! i) = None"
    using run_steps_trace [OF assms(1) [unfolded Stage2Main_def]] by simp_all
  have "length tr = length ?steps"
  proof (rule ccontr)
    assume "length tr \<noteq> length ?steps"
    then have "tr = map fst (take (length tr) (mounts @ tail))"
      using trace(1,2) by (simp add: steps)
    then have "set tr \<subseteq> fst ` set (mounts @ tail)"
      by (metis image_mono set_map set_take_subset)
    with noexec assms(2) show False by blast
  qed
  then have tr: "tr = map fst mounts @ map fst tail @ [fst exec]"
    using trace(1) by (simp add: steps)
  have is_exec: "fst exec = Exec a v env"
    using assms(2) noexec by (auto simp: tr)
  let ?limits = "map fst (applyRlimits spec)"
  have tail: "map fst tail = [Setgroups [], Setresgid 65534, Setresuid 65534,
      LoadSeccomp (sp_Profile spec)] @ ?limits"
    by (simp add: tail_def dropPrivileges_def runAsGID_def runAsUID_def)
  have "refuse (length mounts + k) (map fst tail ! k) = None" if "k < 4" for k
  proof -
    have "k < length tail" using that by (simp add: tail_def dropPrivileges_def)
    then have "?steps ! (length mounts + k) = tail ! k" and "tr ! (length mounts + k) = map fst tail ! k"
      by (simp_all add: steps tr nth_append)
    moreover have "snd (snd (tail ! k))"
      using that by (auto simp: tail_def dropPrivileges_def less_Suc_eq numeral_eq_Suc)
    ultimately show ?thesis
      using trace(3) [of "length mounts + k"] \<open>k < length tail\<close> by (simp add: tr)
  qed
  from this [of 0] this [of 2] this [of 3] have kernel: "refuse (length mounts) (Setgroups []) = None"
    "refuse (length mounts + 2) (Setresuid 65534) = None"
    "refuse (length mounts + 3) (LoadSeccomp (sp_Profile spec)) = None"
    by (simp_all add: tail)
  have "list_all is_limit ?limits"
    by (auto simp: list_all_iff is_limit_def dest!: limits_only)
  moreover have "{Mount [] ''/'' [] [''REC'', ''PRIVATE''] [],
         Mount [] ''/'' [] [''BIND'', ''REMOUNT'', ''RDONLY'', ''NOSUID'', ''NODEV''] [],
         Mount (sp_Workspace spec) ''/tmp/ojws'' [] [''BIND''] [], Chdir ''/tmp/ojws''}
      \<subseteq> set (map fst mounts)"
    by (simp add: mounts_def mountPrivateRoot_def mountWorkspace_def stage2WorkspacePath_def)
  moreover have "v = sp_Argv spec" using is_exec by (simp add: exec_def)
  ultimately show ?thesis
    using kernel tail is_exec
    by (intro exI [of _ "map fst mounts"] exI [of _ ?limits]) (simp add: tr)
qed

theorem exec_only_jailed_witness:
  "\<exists>mounts limits. fst (Stage2Main (\<lambda>_ _. None) (\<lambda>p. p = ''/usr/bin/main'') sample_spec []) =
     mounts @ [Setgroups [], Setresgid 65534, Setresuid 65534, LoadSeccomp ProfileRun]
       @ limits @ [Exec ''/usr/bin/main'' [''main''] [''PATH=/usr/bin'']] \<and> list_all is_limit limits"
proof -
  let ?r = "Stage2Main (\<lambda>_ _. None) (\<lambda>p. p = ''/usr/bin/main'') sample_spec []"
  have "Exec ''/usr/bin/main'' [''main''] [''PATH=/usr/bin''] \<in> set (fst ?r)"
    by code_simp
  then show ?thesis
    using exec_only_jailed [of "\<lambda>_ _. None" "\<lambda>p. p = ''/usr/bin/main''" sample_spec "[]" "fst ?r" "snd ?r"
      "''/usr/bin/main''" "[''main'']" "[''PATH=/usr/bin'']"]
    by (auto simp: sample_spec_def)
qed

text \<open>
  The call that is to forbid core dumps is never made: the helper takes the limit 0 for \<open>no limit\<close>.
\<close>

theorem core_limit_never_set:
  "Setrlimit ''CORE'' k \<notin> set (fst (Stage2Main refuse executable spec extra))"
proof -
  obtain tr e where r: "Stage2Main refuse executable spec extra = (tr, e)" by fastforce
  then have "set tr \<subseteq> fst ` set (stage2_program executable spec extra)"
    using run_steps_trace [of refuse 0] unfolding Stage2Main_def
    by (metis image_mono set_map set_take_subset)
  moreover have "Setrlimit ''CORE'' k \<notin> fst ` set (stage2_program executable spec extra)"
    using setup_no_limit [of "''CORE''" k spec extra]
    by (simp add: stage2_program_def image_Un applyRlimits_def set_limit_def)
  ultimately show ?thesis using r by auto
qed

end
