(* ===== verification/Judge_Service.thy ===== *)
theory Judge_Service
  imports Complex_Main OJ_Prelude Token_Compare Sandbox_Run
begin

text \<open>
  The judge core, \<open>backend/pkg/judge\<close>: tasks and results, the language registry (\<open>languages.go\<close>), the
  compile and run specifications, the checkers and interactors, the per-case pipeline
  (\<open>judge_cases.go\<close>, \<open>judge_parallel.go\<close>), the download cache (\<open>fetch.go\<close>) and the aggregation into a
  verdict (\<open>judge.go\<close>).  The sandbox is the \<open>Runner\<close> interface of the code: its two functions, like the
  HTTP client, SHA-256 and the file operations that can fail, are fields of the record \<open>host\<close>.
  The file system is a map from paths to contents, threaded through every operation.
\<close>

section \<open>Tasks and results\<close>

record JCaseRef =
  jr_Index :: int
  jr_InputSHA :: string
  jr_AnswerSHA :: string
  jr_InputSize :: int
  jr_AnswerSize :: int
  jr_Score :: int

record Task =
  k_SubmissionID :: nat
  k_ProblemID :: nat
  k_LanguageID :: string
  k_Code :: string
  k_TimeLimitMS :: int
  k_MemLimitMB :: int
  k_JudgeMode :: string
  k_CheckerSource :: string
  k_InteractorSource :: string
  k_Cases :: "JCaseRef list"
  k_StopOnFail :: bool

record JCaseResult =
  jc_Index :: int
  jc_Status :: string
  jc_TimeMS :: int
  jc_MemKB :: int
  jc_Message :: string
  jc_Score :: int

record JResult =
  jx_SubmissionID :: nat
  jx_Status :: string
  jx_TimeMS :: int
  jx_MemKB :: int
  jx_Score :: int
  jx_CompileMessage :: string
  jx_Cases :: "JCaseResult list"
  jx_Error :: string

abbreviation interactiveMode :: string where "interactiveMode \<equiv> ''interactive''"
abbreviation spjMode :: string where "spjMode \<equiv> ''spj''"

definition maxOutputBytes :: int where "maxOutputBytes = 128 * 2 ^ 20"
definition maxStderrTail :: nat where "maxStderrTail = 8 * 2 ^ 10"
definition maxTimeMS :: int where "maxTimeMS = 120000"
definition checkerTimeMS :: int where "checkerTimeMS = 30000"
definition checkerMemMB :: int where "checkerMemMB = 1024"

section \<open>Languages\<close>

text \<open>The time multiplier is a \<open>float64\<close> in the program and an exact rational here.\<close>

record CompileProfile =
  cf_Argv :: "string list"
  cf_TimeoutS :: int
  cf_MemMB :: int

record RunProfile =
  rf_Argv :: "string list"
  rf_TimeMultiplier :: rat
  rf_MemOverheadMB :: int
  rf_StackKB :: int
  rf_AsLimited :: bool

record Language =
  l_ID :: string
  l_Name :: string
  l_SourceFile :: string
  l_Compile :: "CompileProfile option"
  l_Run :: RunProfile

text \<open>
  The registry's map holds pointers into its list, so the list alone determines both: looking an id
  up finds the one element that has it.
\<close>

type_synonym registry = "Language list"

definition reg_get :: "registry \<Rightarrow> string \<Rightarrow> string + Language" where
  "reg_get r i =
     (case find (\<lambda>l. l_ID l = i) r of
        None \<Rightarrow> Inl (''unknown language '' @ i)
      | Some l \<Rightarrow> Inr l)"

fun replace_or_add :: "Language \<Rightarrow> registry \<Rightarrow> registry" where
  "replace_or_add lang [] = [lang]"
| "replace_or_add lang (l # ls) = (if l_ID l = l_ID lang then lang # ls else l # replace_or_add lang ls)"

text \<open>\<open>loadInto\<close> on the parsed entries; an invalid entry ends it with the earlier ones loaded.\<close>

fun loadInto :: "registry \<Rightarrow> Language list \<Rightarrow> registry \<times> string option" where
  "loadInto r [] = (r, None)"
| "loadInto r (lang # langs) =
     (if l_ID lang = [] \<or> l_SourceFile lang = [] \<or> rf_Argv (l_Run lang) = [] then
        (r, Some (''language '' @ l_ID lang @ '' missing id/source_file/run.argv''))
      else loadInto (replace_or_add lang r) langs)"

definition has_suffix :: "string \<Rightarrow> string \<Rightarrow> bool" where
  "has_suffix suf s \<longleftrightarrow> length suf \<le> length s \<and> drop (length s - length suf) s = suf"

text \<open>
  \<open>clean\<close> is \<open>filepath.ToSlash(filepath.Clean(path))\<close>; \<open>read_yaml\<close> reads a file and parses it;
  \<open>embedded\<close> is the parsed embedded file.
\<close>

definition NewRegistry ::
  "Language list \<Rightarrow> (string \<Rightarrow> string) \<Rightarrow> (string \<Rightarrow> string + Language list) \<Rightarrow> string \<Rightarrow> string + registry" where
  "NewRegistry embedded clean read_yaml overridePath =
     (case loadInto [] embedded of
        (_, Some err) \<Rightarrow> Inl (''embedded languages.yaml: '' @ err)
      | (r, None) \<Rightarrow>
          if overridePath = [] then Inr r
          else if \<not> has_suffix ''.yaml'' overridePath \<and> \<not> has_suffix ''.yml'' overridePath then
            Inl (''language override '' @ overridePath @ '': only .yaml/.yml accepted'')
          else if ''..'' \<in> set (split_on (CHR ''/'') (clean overridePath)) then
            Inl (''language override '' @ overridePath @ '': traversal segments not allowed'')
          else case read_yaml overridePath of
            Inl err \<Rightarrow> Inl (''read language override: '' @ err)
          | Inr langs \<Rightarrow>
              (case loadInto r langs of
                 (_, Some err) \<Rightarrow> Inl (''language override '' @ overridePath @ '': '' @ err)
               | (r', None) \<Rightarrow> Inr r'))"

definition compiledName :: "CompileProfile \<Rightarrow> string" where
  "compiledName cp =
     (case find (\<lambda>i. cf_Argv cp ! i = ''-o'' \<and> Suc i < length (cf_Argv cp)) [0..<length (cf_Argv cp)] of
        Some i \<Rightarrow> cf_Argv cp ! Suc i
      | None \<Rightarrow> ''main'')"

section \<open>The host\<close>

type_synonym fs = "string \<Rightarrow> string option"

text \<open>
  \<open>ho_write p\<close>, \<open>ho_chown p\<close> and \<open>ho_mkdir p\<close> are the error of the operation on \<open>p\<close>, if any;
  \<open>ho_tmp\<close> makes a fresh directory under the work root; \<open>ho_get\<close> is an HTTP GET answering a status and
  a body; \<open>ho_cancelled n\<close> says whether the context is done when \<open>n\<close> cases have been handled.
\<close>

record host =
  ho_run :: "Spec \<Rightarrow> fs \<Rightarrow> fs \<times> (string + SandboxResult)"
  ho_pair :: "Spec \<Rightarrow> Spec \<Rightarrow> string \<Rightarrow> fs \<Rightarrow> fs \<times> (string + SandboxResult \<times> SandboxResult)"
  ho_write :: "string \<Rightarrow> string option"
  ho_chown :: "string \<Rightarrow> string option"
  ho_mkdir :: "string \<Rightarrow> string option"
  ho_tmp :: "string \<Rightarrow> string + string"
  ho_get :: "string \<Rightarrow> string + nat \<times> string"
  ho_sha256 :: "string \<Rightarrow> string"
  ho_cancelled :: "nat \<Rightarrow> bool"

record Service =
  sv_Reg :: registry
  sv_CacheRoot :: string
  sv_BlobDir :: string
  sv_FetchBase :: string
  sv_MaxCases :: nat
  sv_CaseWorkers :: int

text \<open>\<open>filepath.Join\<close> of a clean directory and a relative name; a leading \<open>./\<close> disappears.\<close>

definition path_join :: "string \<Rightarrow> string \<Rightarrow> string" where
  "path_join a b = a @ ''/'' @ (if take 2 b = ''./'' then drop 2 b else b)"

definition write_file :: "host \<Rightarrow> string \<Rightarrow> string \<Rightarrow> fs \<Rightarrow> fs \<times> string option" where
  "write_file ho p d f =
     (case ho_write ho p of Some err \<Rightarrow> (f, Some err) | None \<Rightarrow> (f(p \<mapsto> d), None))"

definition tailFile :: "fs \<Rightarrow> string \<Rightarrow> nat \<Rightarrow> string" where
  "tailFile f p n =
     (case f p of None \<Rightarrow> [] | Some raw \<Rightarrow> trim_space (drop (length raw - n) raw))"

definition firstLine :: "string \<Rightarrow> string" where
  "firstLine s = trim_space (takeWhile (\<lambda>c. c \<noteq> CHR 0x0A) s)"

section \<open>Specifications of the sandboxed programs\<close>

definition sandboxEnv :: "string list" where
  "sandboxEnv = [''PATH=/usr/local/bin:/usr/bin:/bin'', ''HOME=/tmp'', ''TMPDIR=/tmp'', ''LANG=C.UTF-8'']"

function replace_mem :: "string \<Rightarrow> string \<Rightarrow> string" where
  "replace_mem r s =
     (if s = [] then []
      else if take 5 s = ''{MEM}'' then r @ replace_mem r (drop 5 s)
      else hd s # replace_mem r (tl s))"
  by auto
termination by (relation "measure (\<lambda>(r, s). length s)") auto

declare replace_mem.simps [simp del]

definition runSpec :: "string \<Rightarrow> Language \<Rightarrow> Task \<Rightarrow> string \<Rightarrow> Spec" where
  "runSpec ws lang task stderrName =
     (let rp = l_Run lang;
          mult = (if rf_TimeMultiplier rp \<le> 0 then 1 else rf_TimeMultiplier rp);
          timeMS = \<lfloor>max 100 (min (rat_of_int maxTimeMS) (rat_of_int (k_TimeLimitMS task) * mult))\<rfloor>;
          memKB = (k_MemLimitMB task + rf_MemOverheadMB rp) * 1024;
          stackKB = (if rf_StackKB rp \<le> 0 then 256 * 2 ^ 10 else rf_StackKB rp)
      in \<lparr>sp_Argv = map (replace_mem (int_str (k_MemLimitMB task))) (rf_Argv rp),
          sp_Env = sandboxEnv, sp_Workspace = ws, sp_StdinPath = [], sp_StdoutPath = [],
          sp_StderrPath = path_join ws stderrName,
          sp_TimeLimitMS = timeMS, sp_WallLimitMS = timeMS + 300, sp_MemLimitKB = memKB,
          sp_FSizeLimitKB = maxOutputBytes div 2 ^ 10, sp_StackLimitKB = stackKB,
          sp_AsLimitKB = (if rf_AsLimited rp then memKB else 0), sp_PidsLimit = 512,
          sp_Profile = ProfileRun\<rparr>)"

definition compileSpec :: "string \<Rightarrow> string list \<Rightarrow> string \<Rightarrow> int \<Rightarrow> int \<Rightarrow> Spec" where
  "compileSpec ws argv err timeMS memKB =
     \<lparr>sp_Argv = argv, sp_Env = sandboxEnv, sp_Workspace = ws, sp_StdinPath = [], sp_StdoutPath = [],
      sp_StderrPath = err, sp_TimeLimitMS = timeMS, sp_WallLimitMS = timeMS + 500,
      sp_MemLimitKB = memKB, sp_FSizeLimitKB = 64 * 2 ^ 10, sp_StackLimitKB = 512 * 2 ^ 10,
      sp_AsLimitKB = 0, sp_PidsLimit = 256, sp_Profile = ProfileCompile\<rparr>"

definition toolSpec :: "string \<Rightarrow> string list \<Rightarrow> string \<Rightarrow> Spec" where
  "toolSpec ws argv err =
     \<lparr>sp_Argv = argv, sp_Env = sandboxEnv, sp_Workspace = ws, sp_StdinPath = [], sp_StdoutPath = [],
      sp_StderrPath = err, sp_TimeLimitMS = checkerTimeMS, sp_WallLimitMS = checkerTimeMS + 500,
      sp_MemLimitKB = checkerMemMB * 1024, sp_FSizeLimitKB = 64 * 2 ^ 10,
      sp_StackLimitKB = 256 * 2 ^ 10, sp_AsLimitKB = 0, sp_PidsLimit = 256, sp_Profile = ProfileRun\<rparr>"

section \<open>Test data\<close>

definition fetchBlob ::
  "host \<Rightarrow> string \<Rightarrow> string \<Rightarrow> nat \<Rightarrow> int \<Rightarrow> string \<Rightarrow> string \<Rightarrow> int \<Rightarrow> fs \<Rightarrow> fs \<times> (string + string)" where
  "fetchBlob ho base blobDir problemID index kind sha sz f =
     (let dst = path_join blobDir sha
      in case f dst of
        Some raw \<Rightarrow> (f, Inr raw)
      | None \<Rightarrow>
          (let url = base @ ''/api/v1/internal/testdata/'' @ nat_str problemID @ ''/'' @ int_str index
                @ ''/'' @ kind
           in case ho_get ho url of
                Inl err \<Rightarrow> (f, Inl err)
              | Inr (status, body) \<Rightarrow>
                  if status \<noteq> 200 then (f, Inl (''fetch '' @ url @ '': status '' @ nat_str status))
                  else
                    let raw = take (256 * 2 ^ 20) body
                    in if ho_sha256 ho raw \<noteq> sha then
                         (f, Inl (''sha mismatch for case '' @ int_str index @ '' '' @ kind))
                       else if sz > 0 \<and> int (length raw) \<noteq> sz then
                         (f, Inl (''size mismatch for case '' @ int_str index @ '' '' @ kind))
                       else if ho_write ho (dst @ ''.tmp'') \<noteq> None then (f, Inr raw)
                       else if ho_write ho dst \<noteq> None then (f(dst @ ''.tmp'' \<mapsto> raw), Inr raw)
                       else (f(dst \<mapsto> raw, dst @ ''.tmp'' := None), Inr raw)))"

definition blob ::
  "host \<Rightarrow> Service \<Rightarrow> Task \<Rightarrow> string \<Rightarrow> int \<Rightarrow> int \<Rightarrow> string \<Rightarrow> fs \<Rightarrow> fs \<times> (string + string)" where
  "blob ho sv task sha sz index kind f =
     (if sha = [] then (f, Inl (''empty sha for case '' @ int_str index @ '' '' @ kind))
      else fetchBlob ho (sv_FetchBase sv) (sv_BlobDir sv) (k_ProblemID task) index kind sha sz f)"

section \<open>One case\<close>

definition mapSandboxStatus :: "string \<Rightarrow> string" where
  "mapSandboxStatus st =
     (if st = StatusOK then ''AC'' else if st = StatusTLE then ''TLE''
      else if st = StatusMLE then ''MLE'' else if st = StatusRE then ''RE'' else ''SE'')"

definition se :: "string \<Rightarrow> JCaseResult \<Rightarrow> JCaseResult" where
  "se msg out = out\<lparr>jc_Status := ''SE'', jc_Message := msg\<rparr>"

definition runPlain ::
  "host \<Rightarrow> string \<Rightarrow> Language \<Rightarrow> Task \<Rightarrow> JCaseResult \<Rightarrow> fs \<Rightarrow> fs \<times> JCaseResult" where
  "runPlain ho ws lang task out f =
     (let spec = (runSpec ws lang task ''stderr.txt'')
                   \<lparr>sp_StdinPath := path_join ws ''input.txt'', sp_StdoutPath := path_join ws ''output.txt''\<rparr>
      in case ho_run ho spec f of
        (f, Inl err) \<Rightarrow> (f, se err out)
      | (f, Inr sr) \<Rightarrow>
          (let out = out\<lparr>jc_TimeMS := sr_CPUTimeMS sr, jc_MemKB := sr_MaxRSSKB sr\<rparr>
           in (f, if sr_Status sr = StatusOK then out\<lparr>jc_Status := ''AC''\<rparr>
                  else if sr_Status sr = StatusTLE then
                    out\<lparr>jc_Status := ''TLE'', jc_Message := ''time limit exceeded''\<rparr>
                  else if sr_Status sr = StatusMLE then
                    out\<lparr>jc_Status := ''MLE'', jc_Message := ''memory limit exceeded''\<rparr>
                  else if sr_Status sr = StatusRE then
                    out\<lparr>jc_Status := ''RE'', jc_Message := trim_space (sr_Message sr)\<rparr>
                  else if sr_Status sr = StatusSE then se (sr_Message sr) out
                  else out)))"

definition diffCase :: "string \<Rightarrow> JCaseResult \<Rightarrow> fs \<Rightarrow> JCaseResult" where
  "diffCase ws out f =
     (case (f (path_join ws ''output.txt''), f (path_join ws ''answer.txt'')) of
        (Some rawOut, Some rawAns) \<Rightarrow>
          if rawOut = rawAns \<or> equalTokens rawOut rawAns then out
          else out\<lparr>jc_Status := ''WA'', jc_Message := ''output mismatch''\<rparr>
      | _ \<Rightarrow> se ''read program output'' out)"

definition judgeInteractive ::
  "host \<Rightarrow> string \<Rightarrow> Language \<Rightarrow> Task \<Rightarrow> JCaseResult \<Rightarrow> fs \<Rightarrow> fs \<times> JCaseResult" where
  "judgeInteractive ho ws lang task out f =
     (let userSpec = runSpec ws lang task ''stderr.txt'';
          interSpec = toolSpec ws [''./interactor'', ''input.txt''] [];
          ifErr = path_join ws ''interactor_err.txt''
      in case write_file ho ifErr [] f of
        (f, Some err) \<Rightarrow> (f, se (''open interactor stderr: '' @ err) out)
      | (f, None) \<Rightarrow>
          (case ho_pair ho userSpec interSpec ifErr f of
             (f, Inl err) \<Rightarrow> (f, se err out)
           | (f, Inr (userRes, interRes)) \<Rightarrow>
               (let out = out\<lparr>jc_TimeMS := sr_CPUTimeMS userRes, jc_MemKB := sr_MaxRSSKB userRes\<rparr>;
                    interMsg = tailFile f ifErr maxStderrTail
                in (f, if sr_Status interRes = StatusSE then se (''interactor: '' @ sr_Message interRes) out
                       else if sr_ExitCode interRes = 0 \<and> sr_Status userRes = StatusOK then
                         out\<lparr>jc_Status := ''AC''\<rparr>
                       else if sr_ExitCode interRes = 1 then
                         (let out = out\<lparr>jc_Status := ''WA''\<rparr>
                          in if interMsg \<noteq> [] then out\<lparr>jc_Message := interMsg\<rparr> else out)
                       else if sr_ExitCode interRes = 0 then
                         (let out = out\<lparr>jc_Status := mapSandboxStatus (sr_Status userRes)\<rparr>
                          in if jc_Message out = [] then
                               out\<lparr>jc_Message := trim_space (sr_Message userRes)\<rparr>
                             else out)
                       else se (''interactor exit '' @ int_str (sr_ExitCode interRes)) out))))"

definition runChecker :: "host \<Rightarrow> string \<Rightarrow> JCaseResult \<Rightarrow> fs \<Rightarrow> fs \<times> JCaseResult" where
  "runChecker ho ws out f =
     (let err_path = path_join ws ''checker_err.txt'';
          spec = toolSpec ws [''./checker'', ''input.txt'', ''answer.txt'', ''output.txt''] err_path
      in case ho_run ho spec f of
        (f, Inl err) \<Rightarrow> (f, se err out)
      | (f, Inr sr) \<Rightarrow>
          (f, if sr_Status sr = StatusSE then se (''checker: '' @ sr_Message sr) out
              else if sr_ExitCode sr = 0 then out
              else
                let msg = tailFile f err_path maxStderrTail
                in out\<lparr>jc_Status := ''WA'',
                       jc_Message := (if msg \<noteq> [] then firstLine msg
                                      else ''checker exit '' @ int_str (sr_ExitCode sr))\<rparr>))"

definition judgeOneCase ::
  "host \<Rightarrow> Service \<Rightarrow> string \<Rightarrow> Language \<Rightarrow> Task \<Rightarrow> JCaseRef \<Rightarrow> fs \<Rightarrow> fs \<times> JCaseResult" where
  "judgeOneCase ho sv cws lang task cr f =
     (let out = \<lparr>jc_Index = jr_Index cr, jc_Status = [], jc_TimeMS = 0, jc_MemKB = 0, jc_Message = [],
                 jc_Score = jr_Score cr\<rparr>
      in case blob ho sv task (jr_InputSHA cr) (jr_InputSize cr) (jr_Index cr) ''in'' f of
        (f, Inl err) \<Rightarrow> (f, se (''fetch input: '' @ err) out)
      | (f, Inr input) \<Rightarrow>
          (case write_file ho (path_join cws ''input.txt'') input f of
             (f, Some err) \<Rightarrow> (f, se (''write input: '' @ err) out)
           | (f, None) \<Rightarrow>
               if k_JudgeMode task = interactiveMode then judgeInteractive ho cws lang task out f
               else if k_JudgeMode task = spjMode then
                 (let f = (case blob ho sv task (jr_AnswerSHA cr) (jr_AnswerSize cr) (jr_Index cr) ''out'' f of
                             (f, Inr answer) \<Rightarrow> fst (write_file ho (path_join cws ''answer.txt'') answer f)
                           | (f, Inl _) \<Rightarrow> f);
                      (f, out) = runPlain ho cws lang task out f
                  in if jc_Status out = ''AC'' \<or> jc_Status out = ''WA'' then runChecker ho cws out f
                     else (f, out))
               else
                 (case blob ho sv task (jr_AnswerSHA cr) (jr_AnswerSize cr) (jr_Index cr) ''out'' f of
                    (f, Inl err) \<Rightarrow> (f, se (''fetch answer: '' @ err) out)
                  | (f, Inr answer) \<Rightarrow>
                      (case write_file ho (path_join cws ''answer.txt'') answer f of
                         (f, Some err) \<Rightarrow> (f, se (''write answer: '' @ err) out)
                       | (f, None) \<Rightarrow>
                           (let (f, out) = runPlain ho cws lang task out f
                            in (f, if jc_Status out \<noteq> ''AC'' then out else diffCase cws out f))))))"

section \<open>All cases\<close>

definition caseFailed :: "JCaseResult list \<Rightarrow> bool" where
  "caseFailed cases \<longleftrightarrow> list_ex (\<lambda>c. jc_Status c \<noteq> ''AC'' \<and> jc_Status c \<noteq> ''SKIPPED'') cases"

definition skipped :: "JCaseRef \<Rightarrow> JCaseResult" where
  "skipped cr = \<lparr>jc_Index = jr_Index cr, jc_Status = ''SKIPPED'', jc_TimeMS = 0, jc_MemKB = 0,
     jc_Message = [], jc_Score = 0\<rparr>"

text \<open>
  The serial loop.  \<open>n\<close> counts the cases handled; the results in \<open>jx_Cases\<close> are also the sequence of
  \<open>OnCase\<close> calls.
\<close>

fun judge_serial ::
  "host \<Rightarrow> Service \<Rightarrow> string \<Rightarrow> Language \<Rightarrow> Task \<Rightarrow> nat \<Rightarrow> JCaseRef list \<Rightarrow> JResult \<Rightarrow> fs \<Rightarrow> fs \<times> JResult" where
  "judge_serial ho sv ws lang task n [] res f = (f, res)"
| "judge_serial ho sv ws lang task n (cr # crs) res f =
     (if ho_cancelled ho n then (f, res\<lparr>jx_Status := ''SE'', jx_Error := ''judge canceled''\<rparr>)
      else if k_StopOnFail task \<and> caseFailed (jx_Cases res) then
        judge_serial ho sv ws lang task (Suc n) crs (res\<lparr>jx_Cases := jx_Cases res @ [skipped cr]\<rparr>) f
      else
        (let (f, out) = judgeOneCase ho sv ws lang task cr f
         in judge_serial ho sv ws lang task (Suc n) crs (res\<lparr>jx_Cases := jx_Cases res @ [out]\<rparr>) f))"

definition staged_bins :: "Language \<Rightarrow> Task \<Rightarrow> string \<Rightarrow> string \<Rightarrow> string list" where
  "staged_bins lang task checkerPath interactorPath =
     (case l_Compile lang of
        Some cp \<Rightarrow> [''./'' @ compiledName cp]
      | None \<Rightarrow> [l_SourceFile lang])
     @ (if k_JudgeMode task = spjMode \<and> checkerPath \<noteq> [] then [''checker''] else [])
     @ (if k_JudgeMode task = interactiveMode \<and> interactorPath \<noteq> [] then [''interactor''] else [])"

definition copyFileIfExist :: "host \<Rightarrow> string \<Rightarrow> string \<Rightarrow> fs \<Rightarrow> fs \<times> string option" where
  "copyFileIfExist ho src dst f =
     (case f src of None \<Rightarrow> (f, None) | Some raw \<Rightarrow> write_file ho dst raw f)"

fun stage_bins :: "host \<Rightarrow> string \<Rightarrow> string \<Rightarrow> int \<Rightarrow> string list \<Rightarrow> fs \<Rightarrow> fs \<times> string option" where
  "stage_bins ho ws cws idx [] f = (f, None)"
| "stage_bins ho ws cws idx (b # bs) f =
     (case copyFileIfExist ho (path_join ws b) (path_join cws b) f of
        (f, Some err) \<Rightarrow> (f, Some (''case '' @ int_str idx @ '' stage '' @ b @ '': '' @ err))
      | (f, None) \<Rightarrow> stage_bins ho ws cws idx bs f)"

definition case_ws :: "string \<Rightarrow> JCaseRef \<Rightarrow> string" where
  "case_ws ws cr = path_join (path_join ws ''cases'') (int_str (jr_Index cr))"

fun stage_cases :: "host \<Rightarrow> string \<Rightarrow> string list \<Rightarrow> JCaseRef list \<Rightarrow> fs \<Rightarrow> fs \<times> string option" where
  "stage_cases ho ws bins [] f = (f, None)"
| "stage_cases ho ws bins (cr # crs) f =
     (case ho_mkdir ho (case_ws ws cr) of
        Some err \<Rightarrow> (f, Some (''case '' @ int_str (jr_Index cr) @ '' dir: '' @ err))
      | None \<Rightarrow>
     (case ho_chown ho (case_ws ws cr) of
        Some err \<Rightarrow> (f, Some (''case '' @ int_str (jr_Index cr) @ '' chown: '' @ err))
      | None \<Rightarrow>
     (case stage_bins ho ws (case_ws ws cr) (jr_Index cr) bins f of
        (f, Some err) \<Rightarrow> (f, Some err)
      | (f, None) \<Rightarrow> stage_cases ho ws bins crs f)))"

definition stageCaseWorkspaces ::
  "host \<Rightarrow> string \<Rightarrow> Language \<Rightarrow> Task \<Rightarrow> string \<Rightarrow> string \<Rightarrow> JCaseRef list \<Rightarrow> fs \<Rightarrow> fs \<times> string option" where
  "stageCaseWorkspaces ho ws lang task checkerPath interactorPath crs f =
     (case ho_mkdir ho (path_join ws ''cases'') of
        Some err \<Rightarrow> (f, Some (''cases dir: '' @ err))
      | None \<Rightarrow> stage_cases ho ws (staged_bins lang task checkerPath interactorPath) crs f)"

text \<open>
  The parallel path.  \<open>order\<close> is the order in which the workers finish the cases (indices into the
  case list); a case runs in a workspace of its own, so its run is one step.  After a system error
  the shared context is cancelled, and a download that is not in the cache fails.
\<close>

definition cancel_fetch :: "host \<Rightarrow> host" where
  "cancel_fetch ho = ho\<lparr>ho_get := (\<lambda>_. Inl ''context canceled'')\<rparr>"

fun judge_workers ::
  "host \<Rightarrow> Service \<Rightarrow> string \<Rightarrow> Language \<Rightarrow> Task \<Rightarrow> JCaseRef list \<Rightarrow> nat list \<Rightarrow>
     (nat \<Rightarrow> JCaseResult option) \<Rightarrow> fs \<Rightarrow> fs \<times> (nat \<Rightarrow> JCaseResult option)" where
  "judge_workers ho sv ws lang task crs [] results f = (f, results)"
| "judge_workers ho sv ws lang task crs (i # order) results f =
     (let cr = crs ! i; (f, out) = judgeOneCase ho sv (case_ws ws cr) lang task cr f;
          ho = (if jc_Status out = ''SE'' then cancel_fetch ho else ho)
      in judge_workers ho sv ws lang task crs order (results(i \<mapsto> out)) f)"

definition collect :: "nat \<Rightarrow> (nat \<Rightarrow> JCaseResult option) \<Rightarrow> JCaseResult list" where
  "collect n results =
     sort_by (\<lambda>a b. jc_Index a < jc_Index b)
       (filter (\<lambda>c. jc_Status c \<noteq> []) (List.map_filter results [0..<n]))"

definition judgeCases ::
  "host \<Rightarrow> Service \<Rightarrow> nat list \<Rightarrow> string \<Rightarrow> Language \<Rightarrow> Task \<Rightarrow> string \<Rightarrow> string \<Rightarrow> JResult \<Rightarrow> fs \<Rightarrow> fs \<times> JResult" where
  "judgeCases ho sv order ws lang task checkerPath interactorPath res f =
     (if k_Cases task = [] then (f, res)
      else
        let crs = take (sv_MaxCases sv) (k_Cases task);
            workers = (if sv_CaseWorkers sv \<le> 0 then 1 else sv_CaseWorkers sv);
            workers = (if workers > int (length crs) then int (length crs) else workers)
        in if workers = 1 \<or> k_StopOnFail task then judge_serial ho sv ws lang task 0 crs res f
           else case stageCaseWorkspaces ho ws lang task checkerPath interactorPath crs f of
             (f, Some err) \<Rightarrow> (f, res\<lparr>jx_Status := ''SE'', jx_Error := err\<rparr>)
           | (f, None) \<Rightarrow>
               (let (f, results) = judge_workers ho sv ws lang task crs order (\<lambda>_. None) f
                in (f, res\<lparr>jx_Cases := jx_Cases res @ collect (length crs) results\<rparr>)))"

section \<open>The verdict\<close>

text \<open>The loop of \<open>aggregate\<close> over the sorted cases: the status and the score so far.\<close>

fun aggregate_loop :: "JCaseResult list \<Rightarrow> string \<Rightarrow> int \<Rightarrow> string \<times> int" where
  "aggregate_loop [] status score = (status, score)"
| "aggregate_loop (c # cs) status score =
     (if jc_Status c = ''SE'' then (''SE'', score)
      else
        aggregate_loop cs
          (if status = ''AC'' \<and> jc_Status c \<noteq> ''AC'' \<and> jc_Status c \<noteq> ''SKIPPED'' then jc_Status c else status)
          (if jc_Status c = ''AC'' then score + jc_Score c else score))"

definition aggregate :: "JResult \<Rightarrow> JResult" where
  "aggregate res =
     (let sorted = sort_by (\<lambda>a b. jc_Index a < jc_Index b) (jx_Cases res);
          (status, score) = aggregate_loop sorted ''AC'' 0
      in res\<lparr>jx_Status := status, jx_Score := score,
             jx_TimeMS := fold (\<lambda>c t. if jc_TimeMS c > t then jc_TimeMS c else t) (jx_Cases res) (jx_TimeMS res),
             jx_MemKB := fold (\<lambda>c t. if jc_MemKB c > t then jc_MemKB c else t) (jx_Cases res) (jx_MemKB res)\<rparr>)"

section \<open>Compiling\<close>

definition compileSubmission ::
  "host \<Rightarrow> string \<Rightarrow> CompileProfile \<Rightarrow> JResult \<Rightarrow> fs \<Rightarrow> fs \<times> JResult \<times> bool" where
  "compileSubmission ho ws cp res f =
     (let err_path = path_join ws ''compile_err.txt'';
          spec = compileSpec ws (cf_Argv cp) err_path (cf_TimeoutS cp * 1000) (cf_MemMB cp * 1024)
      in case ho_run ho spec f of
        (f, Inl err) \<Rightarrow> (f, res\<lparr>jx_Status := ''SE'', jx_Error := err\<rparr>, False)
      | (f, Inr sr) \<Rightarrow>
          (let res = res\<lparr>jx_CompileMessage := tailFile f err_path maxStderrTail\<rparr>
           in if sr_Status sr \<noteq> StatusOK then
                (f, (if sr_Status sr = StatusSE then res\<lparr>jx_Status := ''SE'', jx_Error := sr_Message sr\<rparr>
                     else res\<lparr>jx_Status := ''CE''\<rparr>), False)
              else (f, res, True)))"

text \<open>The cache of compiled tools, one file per key.\<close>

definition cache_path :: "Service \<Rightarrow> string \<Rightarrow> string" where
  "cache_path sv key = path_join (sv_CacheRoot sv) (key @ ''.bin'')"

definition copyFile :: "host \<Rightarrow> string \<Rightarrow> string \<Rightarrow> fs \<Rightarrow> fs \<times> string option" where
  "copyFile ho src dst f =
     (case f src of None \<Rightarrow> (f, Some (''open '' @ src)) | Some raw \<Rightarrow> write_file ho dst raw f)"

definition cache_put :: "host \<Rightarrow> Service \<Rightarrow> string \<Rightarrow> string \<Rightarrow> fs \<Rightarrow> fs \<times> (string + string)" where
  "cache_put ho sv key src f =
     (let dst = cache_path sv key; tmp = dst @ ''.tmp''
      in case copyFile ho src tmp f of
        (f, Some err) \<Rightarrow> (f, Inl err)
      | (f, None) \<Rightarrow>
          (case ho_write ho dst of
             Some err \<Rightarrow> (f(tmp := None), Inl err)
           | None \<Rightarrow> (f(dst := f tmp, tmp := None), Inr dst)))"

text \<open>
  \<open>prepareTool\<close>: the path of the tool in the workspace.  Removing the temporary directory at the end is
  left out: nothing reads it afterwards.
\<close>

definition prepareTool ::
  "host \<Rightarrow> Service \<Rightarrow> string \<Rightarrow> string \<Rightarrow> string \<Rightarrow> fs \<Rightarrow> fs \<times> (string + string)" where
  "prepareTool ho sv ws source name f =
     (if source = [] then (f, Inl (name @ '' source is empty''))
      else
        let key = ho_sha256 ho source;
            (f, cached) =
              (if f (cache_path sv key) \<noteq> None then (f, Inr (cache_path sv key))
               else case ho_tmp ho ''tool-'' of
                 Inl err \<Rightarrow> (f, Inl err)
               | Inr tws \<Rightarrow>
              (case ho_chown ho tws of
                 Some err \<Rightarrow> (f, Inl err)
               | None \<Rightarrow>
              (case write_file ho (path_join tws (name @ ''.cpp'')) source f of
                 (f, Some err) \<Rightarrow> (f, Inl err)
               | (f, None) \<Rightarrow>
              (case ho_run ho (compileSpec tws
                     [''g++'', ''-O2'', ''-std=c++17'', ''-o'', name, name @ ''.cpp'']
                     (path_join tws ''cerr.txt'') 60000 (1024 * 1024)) f of
                 (f, Inl err) \<Rightarrow> (f, Inl err)
               | (f, Inr sr) \<Rightarrow>
                   if sr_Status sr \<noteq> StatusOK then
                     (f, Inl (name @ '' compile failed: '' @
                        tailFile f (path_join tws ''cerr.txt'') maxStderrTail))
                   else cache_put ho sv key (path_join tws name) f))))
        in case cached of
             Inl err \<Rightarrow> (f, Inl err)
           | Inr src \<Rightarrow>
               (case copyFile ho src (path_join ws name) f of
                  (f, Some err) \<Rightarrow> (f, Inl err)
                | (f, None) \<Rightarrow>
                    (case ho_chown ho (path_join ws name) of
                       Some err \<Rightarrow> (f, Inl err)
                     | None \<Rightarrow> (f, Inr (path_join ws name)))))"

section \<open>Judging a submission\<close>

definition start_result :: "Task \<Rightarrow> JResult" where
  "start_result task = \<lparr>jx_SubmissionID = k_SubmissionID task, jx_Status = [], jx_TimeMS = 0,
     jx_MemKB = 0, jx_Score = 0, jx_CompileMessage = [], jx_Cases = [], jx_Error = []\<rparr>"

definition fail_se :: "string \<Rightarrow> JResult \<Rightarrow> JResult" where
  "fail_se err res = res\<lparr>jx_Status := ''SE'', jx_Error := err\<rparr>"

text \<open>
  A tool is prepared only in its mode; an error ends the judging.  The removal of the workspace after
  the result is fixed is left out.
\<close>

definition prepare_if ::
  "bool \<Rightarrow> host \<Rightarrow> Service \<Rightarrow> string \<Rightarrow> string \<Rightarrow> string \<Rightarrow> fs \<Rightarrow> fs \<times> (string + string)" where
  "prepare_if c ho sv ws source name f = (if c then prepareTool ho sv ws source name f else (f, Inr []))"

definition Run :: "host \<Rightarrow> Service \<Rightarrow> nat list \<Rightarrow> Task \<Rightarrow> fs \<Rightarrow> fs \<times> JResult" where
  "Run ho sv order task f =
     (let res = start_result task
      in case reg_get (sv_Reg sv) (k_LanguageID task) of
        Inl err \<Rightarrow> (f, fail_se err res)
      | Inr lang \<Rightarrow>
     (case ho_tmp ho ''judge-'' of
        Inl err \<Rightarrow> (f, fail_se (''workspace: '' @ err) res)
      | Inr ws \<Rightarrow>
     (case ho_chown ho ws of
        Some err \<Rightarrow> (f, fail_se (''workspace chown: '' @ err) res)
      | None \<Rightarrow>
     (case write_file ho (path_join ws (l_SourceFile lang)) (k_Code task) f of
        (f, Some err) \<Rightarrow> (f, fail_se (''write source: '' @ err) res)
      | (f, None) \<Rightarrow>
     (case (case l_Compile lang of None \<Rightarrow> (f, res, True) | Some cp \<Rightarrow> compileSubmission ho ws cp res f) of
        (f, res, False) \<Rightarrow> (f, res)
      | (f, res, True) \<Rightarrow>
     (case prepare_if (k_JudgeMode task = spjMode) ho sv ws (k_CheckerSource task) ''checker'' f of
        (f, Inl err) \<Rightarrow> (f, fail_se (''checker: '' @ err) res)
      | (f, Inr checkerPath) \<Rightarrow>
     (case prepare_if (k_JudgeMode task = interactiveMode) ho sv ws (k_InteractorSource task)
             ''interactor'' f of
        (f, Inl err) \<Rightarrow> (f, fail_se (''interactor: '' @ err) res)
      | (f, Inr interactorPath) \<Rightarrow>
          (let (f, res) = judgeCases ho sv order ws lang task checkerPath interactorPath res f
           in (f, aggregate res)))))))))"

section \<open>The aggregation\<close>

interpretation index_order: strict_less "\<lambda>a b. jc_Index a < jc_Index b"
  by unfold_locales auto

definition failing :: "JCaseResult \<Rightarrow> bool" where
  "failing c \<longleftrightarrow> jc_Status c \<noteq> ''AC'' \<and> jc_Status c \<noteq> ''SKIPPED''"

abbreviation in_order :: "JCaseResult list \<Rightarrow> JCaseResult list" where
  "in_order cs \<equiv> sort_by (\<lambda>a b. jc_Index a < jc_Index b) cs"

lemma aggregate_loop_no_se:
  "\<not> list_ex (\<lambda>c. jc_Status c = ''SE'') cs \<Longrightarrow>
     aggregate_loop cs st sc =
       (if st = ''AC'' then (case find failing cs of None \<Rightarrow> ''AC'' | Some c \<Rightarrow> jc_Status c) else st,
        sc + sum_list (map jc_Score (filter (\<lambda>c. jc_Status c = ''AC'') cs)))"
  by (induction cs arbitrary: st sc) (auto simp: failing_def)

lemma aggregate_loop_se:
  "list_ex (\<lambda>c. jc_Status c = ''SE'') cs \<Longrightarrow> fst (aggregate_loop cs st sc) = ''SE''"
  by (induction cs arbitrary: st sc) auto

lemma fold_worst:
  fixes t :: int
  shows "fold (\<lambda>c t. if g c > t then g c else t) cs t = Max (insert t (g ` set cs))"
proof (induction cs arbitrary: t)
  case (Cons c cs)
  have "Max (insert (max t (g c)) (g ` set cs)) = Max (insert t (insert (g c) (g ` set cs)))"
    by (cases "cs = []") (simp_all add: max.assoc)
  moreover have "(if g c > t then g c else t) = max t (g c)" by simp
  ultimately show ?case using Cons by (simp only: fold_simps list.set image_insert)
qed simp

lemma sum_list_in_order:
  "sum_list (map jc_Score (filter P (in_order cs))) = sum_list (map jc_Score (filter P cs))"
  by (simp flip: sum_mset_sum_list)

lemma list_ex_in_order: "list_ex P (in_order cs) \<longleftrightarrow> list_ex P cs"
  by (simp add: list_ex_iff)

lemma aggregate_status:
  "jx_Status (aggregate res) =
     (if list_ex (\<lambda>c. jc_Status c = ''SE'') (jx_Cases res) then ''SE''
      else case find failing (in_order (jx_Cases res)) of None \<Rightarrow> ''AC'' | Some c \<Rightarrow> jc_Status c)"
  using aggregate_loop_no_se [of "in_order (jx_Cases res)" "''AC''" 0]
    aggregate_loop_se [of "in_order (jx_Cases res)" "''AC''" 0]
  by (auto simp: aggregate_def Let_def list_ex_in_order case_prod_unfold)

text \<open>
  C24. The verdict of a submission: a system error in any case makes it a system error; otherwise it is the
  status of the failing case with the lowest index, or accepted when none fails, and the score is
  the sum of the credits of the accepted cases; time and memory are the worst over all cases.
\<close>

theorem aggregate_verdict:
  "jx_Status (aggregate res) =
     (if list_ex (\<lambda>c. jc_Status c = ''SE'') (jx_Cases res) then ''SE''
      else case find failing (sort_by (\<lambda>a b. jc_Index a < jc_Index b) (jx_Cases res)) of
             None \<Rightarrow> ''AC'' | Some c \<Rightarrow> jc_Status c)
   \<and> (list_ex (\<lambda>c. jc_Status c = ''SE'') (jx_Cases res) \<or>
        jx_Score (aggregate res) =
          sum_list (map jc_Score (filter (\<lambda>c. jc_Status c = ''AC'') (jx_Cases res))))
   \<and> jx_TimeMS (aggregate res) = Max (insert (jx_TimeMS res) (jc_TimeMS ` set (jx_Cases res)))
   \<and> jx_MemKB (aggregate res) = Max (insert (jx_MemKB res) (jc_MemKB ` set (jx_Cases res)))
   \<and> sorted (map jc_Index (sort_by (\<lambda>a b. jc_Index a < jc_Index b) (jx_Cases res)))"
proof -
  have "list_ex (\<lambda>c. jc_Status c = ''SE'') (jx_Cases res) \<or>
      jx_Score (aggregate res) = sum_list (map jc_Score (filter (\<lambda>c. jc_Status c = ''AC'') (jx_Cases res)))"
    using aggregate_loop_no_se [of "in_order (jx_Cases res)" "''AC''" 0]
    by (cases "list_ex (\<lambda>c. jc_Status c = ''SE'') (jx_Cases res)")
      (simp_all add: aggregate_def Let_def list_ex_in_order case_prod_unfold sum_list_in_order)
  moreover have "sorted (map jc_Index (in_order (jx_Cases res)))"
    using index_order.sorted_sort_by [of "jx_Cases res"] by (simp add: sorted_map not_less)
  ultimately show ?thesis
    by (simp add: aggregate_status)
      (simp add: aggregate_def Let_def case_prod_unfold fold_worst)
qed

section \<open>Statuses\<close>

definition case_statuses :: "string set" where
  "case_statuses = {''AC'', ''WA'', ''TLE'', ''MLE'', ''RE'', ''SE''}"

lemma case_statuses_simps:
  "''AC'' \<in> case_statuses" "''WA'' \<in> case_statuses" "''SE'' \<in> case_statuses"
  "jc_Status (se m out) \<in> case_statuses" "jc_Index (se m out) = jc_Index out"
  "mapSandboxStatus st \<in> case_statuses"
  by (simp_all add: case_statuses_def se_def mapSandboxStatus_def)

lemma judgeOneCase_index: "jc_Index (snd (judgeOneCase ho sv ws lang task cr f)) = jr_Index cr"
proof -
  have plain: "jc_Index (snd (runPlain ho ws lang task out f)) = jc_Index out" for out f
    by (auto simp: runPlain_def Let_def se_def split: prod.split sum.split)
  have checker: "jc_Index (snd (runChecker ho ws out f)) = jc_Index out" for out f
    by (auto simp: runChecker_def Let_def se_def split: prod.split sum.split)
  have diff: "jc_Index (diffCase ws out f) = jc_Index out" for out f
    by (simp add: diffCase_def se_def split: option.split)
  have inter: "jc_Index (snd (judgeInteractive ho ws lang task out f)) = jc_Index out" for out f
    by (simp add: judgeInteractive_def Let_def se_def split: prod.split sum.split option.split)
  show ?thesis
    using plain
    by (auto simp: judgeOneCase_def Let_def checker diff inter case_statuses_simps case_prod_unfold
        split: sum.split option.split)
qed

text \<open>The judge's runner is a runner on its file system.\<close>

locale fs_runner = runner run pair
  for run :: "Spec \<Rightarrow> fs \<Rightarrow> fs \<times> (string + SandboxResult)"
    and pair :: "Spec \<Rightarrow> Spec \<Rightarrow> string \<Rightarrow> fs \<Rightarrow> fs \<times> (string + SandboxResult \<times> SandboxResult)"
begin

definition runs_on :: "host \<Rightarrow> bool" where
  "runs_on ho \<longleftrightarrow> ho_run ho = run \<and> ho_pair ho = pair"

lemma runPlain_status:
  assumes "runs_on ho"
  shows "jc_Status (snd (runPlain ho ws lang task out f)) \<in> case_statuses"
proof -
  have "sr_Status sr \<in> run_statuses" if "ho_run ho spec f = (f', Inr sr)" for spec f' sr
    using that assms run_status by (auto simp: runs_on_def)
  then show ?thesis
    by (fastforce simp: runPlain_def Let_def se_def case_statuses_def run_statuses_def
        split: prod.split sum.split)
qed

lemma checker_status:
  "jc_Status out \<in> case_statuses \<Longrightarrow> jc_Status (snd (runChecker ho ws out f)) \<in> case_statuses"
  by (auto simp: runChecker_def Let_def case_statuses_simps split: prod.split sum.split)

lemma interactive_status: "jc_Status (snd (judgeInteractive ho ws lang task out f)) \<in> case_statuses"
  by (auto simp: judgeInteractive_def Let_def case_statuses_simps split: prod.split sum.split option.split)

lemma diff_status: "jc_Status out \<in> case_statuses \<Longrightarrow> jc_Status (diffCase ws out f) \<in> case_statuses"
  by (auto simp: diffCase_def case_statuses_simps split: option.split)

lemma judgeOneCase_status:
  assumes "runs_on ho"
  shows "jc_Status (snd (judgeOneCase ho sv ws lang task cr f)) \<in> case_statuses"
  using runPlain_status [OF assms]
  by (auto simp: judgeOneCase_def Let_def case_prod_unfold case_statuses_simps interactive_status
      intro!: checker_status diff_status split: sum.split option.split)

lemma judge_serial_statuses:
  assumes "runs_on ho" and "\<forall>c \<in> set (jx_Cases res). jc_Status c \<in> insert ''SKIPPED'' case_statuses"
  shows "\<forall>c \<in> set (jx_Cases (snd (judge_serial ho sv ws lang task n crs res f))).
    jc_Status c \<in> insert ''SKIPPED'' case_statuses"
  using assms(2)
proof (induction crs arbitrary: n res f)
  case (Cons cr crs)
  have "\<forall>c \<in> set (jx_Cases (snd (judge_serial ho sv ws lang task (Suc n) crs
        (res\<lparr>jx_Cases := jx_Cases res @ [out]\<rparr>) f'))). jc_Status c \<in> insert ''SKIPPED'' case_statuses"
    if "jc_Status out \<in> insert ''SKIPPED'' case_statuses" for out f'
    using that Cons.prems by (intro Cons.IH) auto
  from this [of "skipped cr"] this [OF insertI2 [OF judgeOneCase_status [OF assms(1)]]]
  show ?case using Cons.prems by (simp add: case_prod_unfold skipped_def Let_def)
qed simp

text \<open>Stop-on-fail: accepted cases, then the first failing one, and the rest skipped.\<close>

lemma serial_after_failure:
  assumes "k_StopOnFail task" and "\<And>n. \<not> ho_cancelled ho n" and "caseFailed (jx_Cases res)"
  shows "jx_Cases (snd (judge_serial ho sv ws lang task n crs res f)) = jx_Cases res @ map skipped crs"
  using assms(3) by (induction crs arbitrary: n res f) (simp_all add: assms(1,2) caseFailed_def)

lemma serial_stop:
  assumes "k_StopOnFail task" and "\<And>n. \<not> ho_cancelled ho n" and "runs_on ho"
    and "\<not> caseFailed (jx_Cases res)"
  shows "\<exists>outs. jx_Cases (snd (judge_serial ho sv ws lang task n crs res f)) =
        jx_Cases res @ outs @ map skipped (drop (length outs) crs)
      \<and> map jc_Index outs = map jr_Index (take (length outs) crs) \<and> length outs \<le> length crs
      \<and> list_all (\<lambda>c. jc_Status c = ''AC'') (butlast outs)
      \<and> (if outs = [] then crs = []
         else jc_Status (last outs) \<in> case_statuses
           \<and> (length outs = length crs \<or> jc_Status (last outs) \<noteq> ''AC''))"
  using assms(4)
proof (induction crs arbitrary: n res f)
  case (Cons cr crs)
  obtain f' out where one: "judgeOneCase ho sv ws lang task cr f = (f', out)" by fastforce
  have st: "jc_Status out \<in> case_statuses" and idx: "jc_Index out = jr_Index cr"
    using judgeOneCase_status [OF assms(3), of sv ws lang task cr f]
      judgeOneCase_index [of ho sv ws lang task cr f] by (simp_all add: one)
  let ?res = "res\<lparr>jx_Cases := jx_Cases res @ [out]\<rparr>"
  have unfold: "judge_serial ho sv ws lang task n (cr # crs) res f =
      judge_serial ho sv ws lang task (Suc n) crs ?res f'"
    using Cons.prems assms(2) by (simp add: one)
  show ?case
  proof (cases "jc_Status out = ''AC''")
    case True
    then have "\<not> caseFailed (jx_Cases ?res)" using Cons.prems by (simp add: caseFailed_def)
    from Cons.IH [OF this, of "Suc n" f'] obtain outs where outs:
      "jx_Cases (snd (judge_serial ho sv ws lang task (Suc n) crs ?res f')) =
        jx_Cases ?res @ outs @ map skipped (drop (length outs) crs)"
      "map jc_Index outs = map jr_Index (take (length outs) crs)" "length outs \<le> length crs"
      "list_all (\<lambda>c. jc_Status c = ''AC'') (butlast outs)"
      "if outs = [] then crs = [] else jc_Status (last outs) \<in> case_statuses
           \<and> (length outs = length crs \<or> jc_Status (last outs) \<noteq> ''AC'')"
      by blast
    then show ?thesis
      using True st idx by (intro exI [of _ "out # outs"]) (auto simp: unfold simp del: judge_serial.simps split: if_splits)
  next
    case False
    then have "caseFailed (jx_Cases ?res)"
      using st by (auto simp: caseFailed_def case_statuses_def)
    from serial_after_failure [OF assms(1,2) this]
    have "jx_Cases (snd (judge_serial ho sv ws lang task (Suc n) crs ?res f')) =
        jx_Cases res @ out # map skipped crs" by simp
    then show ?thesis
      using False st idx by (intro exI [of _ "[out]"]) (simp add: unfold del: judge_serial.simps)
  qed
qed simp

lemma workers_results:
  assumes "runs_on ho"
    and "\<forall>i c. results i = Some c \<longrightarrow> jc_Index c = jr_Index (crs ! i) \<and> jc_Status c \<in> case_statuses"
  shows "\<forall>i. case snd (judge_workers ho sv ws lang task crs order results f) i of
      None \<Rightarrow> results i = None \<and> i \<notin> set order
    | Some c \<Rightarrow> jc_Index c = jr_Index (crs ! i) \<and> jc_Status c \<in> case_statuses"
  using assms
proof (induction order arbitrary: ho results f)
  case Nil
  then show ?case by (auto split: option.split)
next
  case (Cons i order)
  obtain f' out where one: "judgeOneCase ho sv (case_ws ws (crs ! i)) lang task (crs ! i) f = (f', out)"
    by fastforce
  have st: "jc_Status out \<in> case_statuses" and idx: "jc_Index out = jr_Index (crs ! i)"
    using judgeOneCase_status [OF Cons.prems(1), of sv "case_ws ws (crs ! i)" lang task "crs ! i" f]
      judgeOneCase_index [of ho sv "case_ws ws (crs ! i)" lang task "crs ! i" f] by (simp_all add: one)
  let ?ho = "if jc_Status out = ''SE'' then cancel_fetch ho else ho"
  have "runs_on ?ho" using Cons.prems(1) by (simp add: runs_on_def cancel_fetch_def)
  moreover have "\<forall>j c. (results(i \<mapsto> out)) j = Some c \<longrightarrow>
      jc_Index c = jr_Index (crs ! j) \<and> jc_Status c \<in> case_statuses"
    using Cons.prems(2) st idx by auto
  ultimately have IH: "\<forall>j. case snd (judge_workers ?ho sv ws lang task crs order (results(i \<mapsto> out)) f') j of
      None \<Rightarrow> (results(i \<mapsto> out)) j = None \<and> j \<notin> set order
    | Some c \<Rightarrow> jc_Index c = jr_Index (crs ! j) \<and> jc_Status c \<in> case_statuses"
    by (rule Cons.IH)
  have step: "judge_workers ho sv ws lang task crs (i # order) results f =
      judge_workers ?ho sv ws lang task crs order (results(i \<mapsto> out)) f'"
    by (simp add: one)
  show ?case
  proof
    fix j
    show "case snd (judge_workers ho sv ws lang task crs (i # order) results f) j of
        None \<Rightarrow> results j = None \<and> j \<notin> set (i # order)
      | Some c \<Rightarrow> jc_Index c = jr_Index (crs ! j) \<and> jc_Status c \<in> case_statuses"
      unfolding step using IH [rule_format, of j] by (auto split: option.splits if_splits)
  qed
qed

end

definition with_sandbox ::
  "host \<Rightarrow> (Spec \<Rightarrow> fs \<Rightarrow> fs \<times> execution) \<Rightarrow>
     (Spec \<Rightarrow> Spec \<Rightarrow> string \<Rightarrow> fs \<Rightarrow> fs \<times> string option \<times> string option \<times> execution \<times> execution) \<Rightarrow> host" where
  "with_sandbox ho machine pair_machine =
     ho\<lparr>ho_run := sandbox_run machine, ho_pair := sandbox_pair pair_machine\<rparr>"

interpretation judge_sandbox: fs_runner "sandbox_run machine" "sandbox_pair pair_machine"
  for machine pair_machine
  by unfold_locales

lemma runs_on_sandbox: "judge_sandbox.runs_on m p (with_sandbox ho m p)"
  by (simp add: judge_sandbox.runs_on_def with_sandbox_def)

section \<open>Whole submissions\<close>

definition ok_statuses :: "JResult \<Rightarrow> bool" where
  "ok_statuses res \<longleftrightarrow> (\<forall>c \<in> set (jx_Cases res). jc_Status c \<in> insert ''SKIPPED'' case_statuses)"

lemma set_collect: "set (collect n results) \<subseteq> {c. \<exists>i < n. results i = Some c}"
  by (auto simp: collect_def List.map_filter_def)

lemma workers_from_none:
  assumes "judge_workers (with_sandbox ho m p) sv ws lang task crs order (\<lambda>_. None) f = (f', results)"
  shows "case results i of None \<Rightarrow> i \<notin> set order
    | Some c \<Rightarrow> jc_Index c = jr_Index (crs ! i) \<and> jc_Status c \<in> case_statuses"
proof -
  have "\<forall>i. case snd (judge_workers (with_sandbox ho m p) sv ws lang task crs order none f) i of
      None \<Rightarrow> none i = None \<and> i \<notin> set order
    | Some c \<Rightarrow> jc_Index c = jr_Index (crs ! i) \<and> jc_Status c \<in> case_statuses"
    if "none = (\<lambda>_. None)" for none
    by (rule judge_sandbox.workers_results [OF runs_on_sandbox]) (simp add: that)
  from this [OF refl] assms show ?thesis by (auto split: option.splits dest!: spec [of _ i])
qed

lemma judgeCases_statuses:
  assumes "ok_statuses res"
  shows "ok_statuses (snd (judgeCases (with_sandbox ho m p) sv order ws lang task cp ip res f))"
proof -
  have serial: "ok_statuses (snd (judge_serial (with_sandbox ho m p) sv ws lang task n crs res f))" for n crs f
    using judge_sandbox.judge_serial_statuses [OF runs_on_sandbox] assms by (simp add: ok_statuses_def)
  have "ok_statuses (res\<lparr>jx_Cases := jx_Cases res @ collect n results\<rparr>)"
    if *: "judge_workers (with_sandbox ho m p) sv ws lang task crs order (\<lambda>_. None) f = (f', results)"
    for crs f f' n results
  proof -
    have "jc_Status c \<in> case_statuses" if c: "c \<in> set (collect n results)" for c
    proof -
      obtain i where "results i = Some c" using c set_collect [of n results] by blast
      then show ?thesis using workers_from_none [OF *, of i] by simp
    qed
    then show ?thesis using assms by (auto simp: ok_statuses_def)
  qed
  moreover have "ok_statuses (res\<lparr>jx_Status := s, jx_Error := e\<rparr>)" for s e
    using assms by (simp add: ok_statuses_def)
  ultimately show ?thesis
    using assms serial by (auto simp: judgeCases_def Let_def split: prod.split option.split)
qed

lemma find_failing: "find failing (in_order cs) = Some c \<Longrightarrow> c \<in> set cs \<and> failing c"
  unfolding find_Some_iff by (metis nth_mem set_sort_by)

lemma aggregate_final:
  assumes "ok_statuses res"
  shows "jx_Status (aggregate res) \<in> case_statuses"
proof (cases "find failing (in_order (jx_Cases res))")
  case None
  then show ?thesis by (simp add: aggregate_status case_statuses_simps)
next
  case (Some c)
  then have "jc_Status c \<in> case_statuses"
    using find_failing [OF Some] assms by (auto simp: ok_statuses_def failing_def)
  with Some show ?thesis by (simp add: aggregate_status case_statuses_simps)
qed

lemma compile_result:
  assumes "compileSubmission ho ws cp res f = (f', res', go)"
  shows "jx_Cases res' = jx_Cases res \<and> (go \<or> jx_Status res' = ''CE'' \<or> jx_Status res' = ''SE'')"
proof -
  obtain g r where "ho_run ho (compileSpec ws (cf_Argv cp) (path_join ws ''compile_err.txt'')
      (cf_TimeoutS cp * 1000) (cf_MemMB cp * 1024)) f = (g, r)"
    by (rule prod.exhaust)
  with assms show ?thesis
    by (cases r; cases "sr_Status (projr r) = StatusOK"; cases "sr_Status (projr r) = StatusSE")
      (auto simp: compileSubmission_def Let_def)
qed

definition final_verdicts :: "string set" where
  "final_verdicts = {''AC'', ''WA'', ''TLE'', ''MLE'', ''RE'', ''SE'', ''CE''}"

definition final_run :: "fs \<times> JResult \<Rightarrow> bool" where
  "final_run r \<longleftrightarrow> jx_Status (snd r) \<in> final_verdicts"

lemma final_run_intros:
  "(\<And>a b. p = (a, b) \<Longrightarrow> final_run (h a b)) \<Longrightarrow> final_run (case p of (a, b) \<Rightarrow> h a b)"
  "(\<And>x. s = Inl x \<Longrightarrow> final_run (g1 x)) \<Longrightarrow> (\<And>x. s = Inr x \<Longrightarrow> final_run (g2 x)) \<Longrightarrow>
     final_run (case s of Inl x \<Rightarrow> g1 x | Inr x \<Rightarrow> g2 x)"
  "(t = None \<Longrightarrow> final_run r) \<Longrightarrow> (\<And>x. t = Some x \<Longrightarrow> final_run (k x)) \<Longrightarrow>
     final_run (case t of None \<Rightarrow> r | Some x \<Rightarrow> k x)"
  "(b \<Longrightarrow> final_run r1) \<Longrightarrow> (\<not> b \<Longrightarrow> final_run r2) \<Longrightarrow> final_run (case b of True \<Rightarrow> r1 | False \<Rightarrow> r2)"
  by (simp_all split: prod.split sum.split option.split bool.split)

lemma Run_final: "final_run (Run (with_sandbox ho m p) sv order task f)"
proof -
  have "case_statuses \<subseteq> final_verdicts"
    by (auto simp: final_verdicts_def case_statuses_def)
  then have agg: "final_run (g', aggregate res')"
    if "judgeCases (with_sandbox ho m p) sv order ws lang task c i res g = (g', res')" and "jx_Cases res = []"
    for ws lang c i res res' g g'
    using aggregate_final [OF judgeCases_statuses, of res ho m p sv order ws lang task c i g] that
    by (auto simp: ok_statuses_def final_run_def)
  have se: "final_run (g, fail_se err res)" for err res g
    by (simp add: fail_se_def final_run_def final_verdicts_def)
  have compiled: "jx_Cases res' = [] \<and> (go \<or> final_run (g', res'))"
    if "(case l_Compile lang of None \<Rightarrow> (g, start_result task, True)
      | Some cp \<Rightarrow> compileSubmission ho' ws cp (start_result task) g) = (g', res', go)"
    for ho' ws lang g g' res' go
    using that by (auto simp: start_result_def final_run_def final_verdicts_def
        dest!: compile_result split: option.splits)
  show ?thesis
    unfolding Run_def Let_def
    by (intro final_run_intros se) (blast intro: agg dest: compiled)+
qed

end
