(* ===== verification/Judge_Verdicts.thy ===== *)
theory Judge_Verdicts
  imports Judge_Service
begin

text \<open>
  What the judge core promises: its verdicts are final whatever the machine does, stop-on-fail reports
  a prefix, the parallel path reports every case once in any schedule, and the default checker
  accepts exactly a successful run with the right tokens.  At the end, the places where it does not
  keep what its comments say.
\<close>

section \<open>Verdicts\<close>

text \<open>
  C25. Whatever the sandboxed programs, the kernel, the disk, the network and the schedule do, a judged
  submission comes back with one of the seven final verdicts; no path leaves it without a status.
\<close>

theorem run_always_final:
  "jx_Status (snd (Run (with_sandbox ho machine pair_machine) sv order task f))
     \<in> {''AC'', ''WA'', ''TLE'', ''MLE'', ''RE'', ''SE'', ''CE''}"
  using Run_final [of ho machine pair_machine sv order task f]
  by (simp add: final_run_def final_verdicts_def)

lemma in_order_id: "sorted (map jc_Index cs) \<Longrightarrow> in_order cs = cs"
  by (rule sort_by_id) (simp add: sorted_map not_less)

lemma find_butlast_AC:
  "list_all (\<lambda>c. jc_Status c = ''AC'') (butlast outs) \<Longrightarrow> outs \<noteq> [] \<Longrightarrow>
     find failing (outs @ map skipped crs) = (if failing (last outs) then Some (last outs) else None)"
  by (induction outs) (auto simp: failing_def skipped_def find_None_iff split: if_splits)

lemma SE_last:
  "list_all (\<lambda>c. jc_Status c = ''AC'') (butlast outs) \<Longrightarrow> outs \<noteq> [] \<Longrightarrow>
     list_ex (\<lambda>c. jc_Status c = ''SE'') (outs @ map skipped crs) \<longleftrightarrow> jc_Status (last outs) = ''SE''"
  by (induction outs) (auto simp: skipped_def list_ex_iff split: if_splits)

text \<open>
  Stop on fail: the reported cases are accepted ones, then the first case that is not accepted if there
  is one, and every later case as skipped, with the indices of the task's cases in their order; and
  the verdict of the submission is the status of the last case that was run.
\<close>

theorem stop_on_fail_shape:
  assumes "k_StopOnFail task" and "k_Cases task \<noteq> []" and "0 < sv_MaxCases sv"
    and "ho_cancelled ho = (\<lambda>_. False)" and "jx_Cases res = []"
    and "sorted (map jr_Index (k_Cases task))"
    and "crs = take (sv_MaxCases sv) (k_Cases task)"
    and "res' = snd (judgeCases (with_sandbox ho m p) sv order ws lang task c i res f)"
  shows "\<exists>outs. outs \<noteq> [] \<and> jx_Cases res' = outs @ map skipped (drop (length outs) crs)
      \<and> map jc_Index (jx_Cases res') = map jr_Index crs
      \<and> list_all (\<lambda>c. jc_Status c = ''AC'') (butlast outs)
      \<and> (length outs = length crs \<or> jc_Status (last outs) \<noteq> ''AC'')
      \<and> jx_Status (aggregate res') = jc_Status (last outs)"
proof -
  have res': "res' = snd (judge_serial (with_sandbox ho m p) sv ws lang task 0 crs res f)"
    using assms(1,2,7,8) by (simp add: judgeCases_def Let_def)
  have "crs \<noteq> []" using assms(2,3,7) by simp
  have nc: "\<not> ho_cancelled (with_sandbox ho m p) n" for n
    using assms(4) by (simp add: with_sandbox_def)
  have nf: "\<not> caseFailed (jx_Cases res)"
    using assms(5) by (simp add: caseFailed_def)
  obtain outs where outs: "jx_Cases res' = outs @ map skipped (drop (length outs) crs)"
    "map jc_Index outs = map jr_Index (take (length outs) crs)" "length outs \<le> length crs"
    "list_all (\<lambda>c. jc_Status c = ''AC'') (butlast outs)"
    "if outs = [] then crs = [] else jc_Status (last outs) \<in> case_statuses
       \<and> (length outs = length crs \<or> jc_Status (last outs) \<noteq> ''AC'')"
    using judge_sandbox.serial_stop [OF assms(1) nc runs_on_sandbox nf, of sv ws lang 0 crs f]
    unfolding res' assms(5) append_Nil by (elim exE conjE) blast
  have ne: "outs \<noteq> []" using outs(5) \<open>crs \<noteq> []\<close> by auto
  have idx: "map jc_Index (jx_Cases res') = map jr_Index crs"
  proof -
    have "map jc_Index (jx_Cases res') = map jr_Index (take (length outs) crs) @ map jr_Index (drop (length outs) crs)"
      using outs(1,2) by (simp add: skipped_def)
    then show ?thesis by (metis append_take_drop_id map_append)
  qed
  have "sorted (map jc_Index (jx_Cases res'))"
    unfolding idx using assms(6,7) by (simp add: take_map [symmetric] sorted_wrt_take)
  then have order: "in_order (jx_Cases res') = jx_Cases res'" by (rule in_order_id)
  have last: "jc_Status (last outs) \<in> case_statuses" using outs(5) ne by simp
  have SE: "list_ex (\<lambda>c. jc_Status c = ''SE'') (jx_Cases res') \<longleftrightarrow> jc_Status (last outs) = ''SE''"
    unfolding outs(1) by (rule SE_last [OF outs(4) ne])
  have "jx_Status (aggregate res') = (if jc_Status (last outs) = ''SE'' then ''SE''
      else case find failing (outs @ map skipped (drop (length outs) crs)) of
        None \<Rightarrow> ''AC'' | Some c \<Rightarrow> jc_Status c)"
    unfolding aggregate_status SE order unfolding outs(1) ..
  then have "jx_Status (aggregate res') = jc_Status (last outs)"
    using find_butlast_AC [OF outs(4) ne, of "drop (length outs) crs"] last
    by (auto simp: failing_def case_statuses_def split: if_splits)
  with ne outs idx show ?thesis by auto
qed

definition sample_lang :: Language where
  "sample_lang = \<lparr>l_ID = ''py'', l_Name = ''Python'', l_SourceFile = ''main.py'', l_Compile = None,
     l_Run = \<lparr>rf_Argv = [''python3'', ''main.py''], rf_TimeMultiplier = 3, rf_MemOverheadMB = 0,
       rf_StackKB = 0, rf_AsLimited = False\<rparr>\<rparr>"

definition case_no :: "int \<Rightarrow> JCaseRef" where
  "case_no i = \<lparr>jr_Index = i, jr_InputSHA = ''h'', jr_AnswerSHA = ''h'', jr_InputSize = 0,
     jr_AnswerSize = 0, jr_Score = 50\<rparr>"

definition sample_task :: Task where
  "sample_task = \<lparr>k_SubmissionID = 1, k_ProblemID = 1, k_LanguageID = ''py'', k_Code = ''code'',
     k_TimeLimitMS = 1000, k_MemLimitMB = 256, k_JudgeMode = ''default'', k_CheckerSource = [],
     k_InteractorSource = [], k_Cases = [case_no 1, case_no 2], k_StopOnFail = True\<rparr>"

definition sample_service :: Service where
  "sample_service = \<lparr>sv_Reg = [sample_lang], sv_CacheRoot = ''/c'', sv_BlobDir = ''/b'',
     sv_FetchBase = ''http'', sv_MaxCases = 200, sv_CaseWorkers = 2\<rparr>"

text \<open>A machine whose program copies the file \<open>src\<close> of its workspace to its output.\<close>

definition ok_run :: execution where
  "ok_run = sample_run\<lparr>x_outcome := \<lparr>oc_state = True, oc_usage = None, oc_exit = 0, oc_signal = None,
     oc_peak = 0, oc_oom = 0\<rparr>\<rparr>"

definition copying_machine :: "string \<Rightarrow> Spec \<Rightarrow> fs \<Rightarrow> fs \<times> execution" where
  "copying_machine src spec f =
     (f(path_join (sp_Workspace spec) ''output.txt'' := f (path_join (sp_Workspace spec) src)), ok_run)"

definition idle_pair ::
  "Spec \<Rightarrow> Spec \<Rightarrow> string \<Rightarrow> fs \<Rightarrow> fs \<times> string option \<times> string option \<times> execution \<times> execution" where
  "idle_pair us is err f = (f, None, None, ok_run, ok_run)"

definition sample_host :: host where
  "sample_host = \<lparr>ho_run = (\<lambda>spec f. (f, Inl [])), ho_pair = (\<lambda>us is err f. (f, Inl [])),
     ho_write = (\<lambda>_. None), ho_chown = (\<lambda>_. None), ho_mkdir = (\<lambda>_. None),
     ho_tmp = (\<lambda>p. Inr ''/w''), ho_get = (\<lambda>url. Inr (200, ''42'')), ho_sha256 = (\<lambda>_. ''h''),
     ho_cancelled = (\<lambda>_. False)\<rparr>"

theorem stop_on_fail_shape_witness:
  "\<exists>outs res'. outs \<noteq> [] \<and> jx_Cases res' = outs @ map skipped (drop (length outs) [case_no 1, case_no 2])
      \<and> map jc_Index (jx_Cases res') = [1, 2] \<and> jx_Status (aggregate res') = jc_Status (last outs)"
proof -
  let ?r = "snd (judgeCases (with_sandbox sample_host (copying_machine ''input.txt'') idle_pair)
      sample_service [] ''/w'' sample_lang sample_task [] [] (start_result sample_task) (\<lambda>_. None))"
  have "\<exists>outs. outs \<noteq> [] \<and> jx_Cases ?r = outs @ map skipped (drop (length outs) [case_no 1, case_no 2])
      \<and> map jc_Index (jx_Cases ?r) = map jr_Index [case_no 1, case_no 2]
      \<and> list_all (\<lambda>c. jc_Status c = ''AC'') (butlast outs)
      \<and> (length outs = length [case_no 1, case_no 2] \<or> jc_Status (last outs) \<noteq> ''AC'')
      \<and> jx_Status (aggregate ?r) = jc_Status (last outs)"
    by (rule stop_on_fail_shape [OF _ _ _ _ _ _ _ refl])
      (simp_all add: sample_task_def sample_service_def sample_host_def start_result_def case_no_def)
  moreover have "map jr_Index [case_no 1, case_no 2] = [1, 2]" by (simp add: case_no_def)
  ultimately show ?thesis by metis
qed

section \<open>The parallel path\<close>

lemma map_filter_Some: "\<forall>i < n. g i \<noteq> None \<Longrightarrow> List.map_filter g [0..<n] = map (\<lambda>i. the (g i)) [0..<n]"
  by (induction n) (auto simp: List.map_filter_def)

text \<open>
  The parallel path reports every case exactly once, in ascending index order, in whatever order the
  workers finish the cases and even when one of them is a system error that cancels the others; the
  report never depends on a case being skipped.
\<close>

theorem parallel_reports_every_case:
  assumes "crs = take (sv_MaxCases sv) (k_Cases task)"
    and "\<not> k_StopOnFail task" and "1 < sv_CaseWorkers sv" and "1 < length crs"
    and "snd (stageCaseWorkspaces (with_sandbox ho m p) ws lang task cp ip crs f) = None"
    and "set order = {0..<length crs}" and "jx_Cases res = []"
    and "res' = snd (judgeCases (with_sandbox ho m p) sv order ws lang task cp ip res f)"
  shows "mset (map jc_Index (jx_Cases res')) = mset (map jr_Index crs)
    \<and> sorted (map jc_Index (jx_Cases res'))
    \<and> list_all (\<lambda>c. jc_Status c \<in> {''AC'', ''WA'', ''TLE'', ''MLE'', ''RE'', ''SE''}) (jx_Cases res')"
proof -
  obtain g where staged: "stageCaseWorkspaces (with_sandbox ho m p) ws lang task cp ip crs f = (g, None)"
    using assms(5) by (metis prod.collapse)
  obtain f' results where workers:
    "judge_workers (with_sandbox ho m p) sv ws lang task crs order (\<lambda>_. None) g = (f', results)"
    by (rule prod.exhaust)
  have "k_Cases task \<noteq> []" using assms(1,4) by auto
  with assms(2,3,4,8) staged workers have cases: "jx_Cases res' = collect (length crs) results"
    by (simp add: judgeCases_def Let_def assms(7) flip: assms(1))
  have all: "results i \<noteq> None \<and> jc_Index (the (results i)) = jr_Index (crs ! i)
      \<and> jc_Status (the (results i)) \<in> case_statuses" if "i < length crs" for i
    using workers_from_none [OF workers, of i] that assms(6) by (auto split: option.splits)
  have mf: "List.map_filter results [0..<length crs] = map (\<lambda>i. the (results i)) [0..<length crs]"
    using all by (intro map_filter_Some) blast
  have stat: "\<forall>c \<in> set (map (\<lambda>i. the (results i)) [0..<length crs]). jc_Status c \<in> case_statuses"
    using all by auto
  then have "filter (\<lambda>c. jc_Status c \<noteq> []) (map (\<lambda>i. the (results i)) [0..<length crs]) =
      map (\<lambda>i. the (results i)) [0..<length crs]"
    by (intro filter_True) (auto simp: case_statuses_def)
  then have report: "jx_Cases res' = in_order (map (\<lambda>i. the (results i)) [0..<length crs])"
    by (simp add: cases collect_def mf)
  have "map jc_Index (map (\<lambda>i. the (results i)) [0..<length crs]) = map (\<lambda>i. jr_Index (crs ! i)) [0..<length crs]"
    using all by simp
  also have "\<dots> = map jr_Index crs" by (rule nth_equalityI) simp_all
  finally have idx: "map jc_Index (map (\<lambda>i. the (results i)) [0..<length crs]) = map jr_Index crs" .
  have "mset (map jc_Index (jx_Cases res')) = mset (map jr_Index crs)"
    unfolding idx [symmetric] by (simp add: report image_mset.compositionality)
  moreover have "sorted (map jc_Index (jx_Cases res'))"
    using index_order.sorted_sort_by by (simp add: report sorted_map not_less)
  moreover have "list_all (\<lambda>c. jc_Status c \<in> case_statuses) (jx_Cases res')"
    using stat by (simp add: list_all_iff report)
  ultimately show ?thesis unfolding case_statuses_def by blast
qed

theorem parallel_reports_every_case_witness:
  "map jc_Index (jx_Cases (snd (judgeCases (with_sandbox sample_host (copying_machine ''input.txt'') idle_pair)
     sample_service [1, 0] ''/w'' sample_lang (sample_task\<lparr>k_StopOnFail := False\<rparr>) [] []
     (start_result sample_task) (\<lambda>_. None)))) \<in> {[1, 2]}"
proof -
  let ?r = "snd (judgeCases (with_sandbox sample_host (copying_machine ''input.txt'') idle_pair)
     sample_service [1, 0] ''/w'' sample_lang (sample_task\<lparr>k_StopOnFail := False\<rparr>) [] []
     (start_result sample_task) (\<lambda>_. None))"
  have "snd (stageCaseWorkspaces (with_sandbox sample_host (copying_machine ''input.txt'') idle_pair) ''/w''
      sample_lang (sample_task\<lparr>k_StopOnFail := False\<rparr>) [] [] [case_no 1, case_no 2] (\<lambda>_. None)) = None"
    by (simp add: stageCaseWorkspaces_def with_sandbox_def sample_host_def staged_bins_def
        sample_lang_def sample_task_def copyFileIfExist_def)
  note stage = this
  have "mset (map jc_Index (jx_Cases ?r)) = mset (map jr_Index [case_no 1, case_no 2])
      \<and> sorted (map jc_Index (jx_Cases ?r))
      \<and> list_all (\<lambda>c. jc_Status c \<in> {''AC'', ''WA'', ''TLE'', ''MLE'', ''RE'', ''SE''}) (jx_Cases ?r)"
    by (rule parallel_reports_every_case [OF _ _ _ _ stage _ _ refl])
      (auto simp: sample_service_def sample_task_def start_result_def)
  then have "mset (map jc_Index (jx_Cases ?r)) = mset [1, 2] \<and> sorted (map jc_Index (jx_Cases ?r))"
    by (simp add: case_no_def)
  then have "sort [1, 2] = map jc_Index (jx_Cases ?r)"
    by (intro properties_for_sort) auto
  then show ?thesis by simp
qed

section \<open>The default checker\<close>

lemma default_case:
  assumes "k_JudgeMode task \<noteq> interactiveMode" and "k_JudgeMode task \<noteq> spjMode"
    and "blob ho sv task (jr_InputSHA cr) (jr_InputSize cr) (jr_Index cr) ''in'' f = (f1, Inr input)"
    and "write_file ho (path_join ws ''input.txt'') input f1 = (f2, None)"
    and "blob ho sv task (jr_AnswerSHA cr) (jr_AnswerSize cr) (jr_Index cr) ''out'' f2 = (f3, Inr answer)"
    and "write_file ho (path_join ws ''answer.txt'') answer f3 = (f4, None)"
    and "ho_run ho ((runSpec ws lang task ''stderr.txt'')\<lparr>sp_StdinPath := path_join ws ''input.txt'',
           sp_StdoutPath := path_join ws ''output.txt''\<rparr>) f4 = (f5, Inr sr)"
    and "sr_Status sr \<in> run_statuses"
    and "f5 (path_join ws ''output.txt'') = Some output" and "f5 (path_join ws ''answer.txt'') = Some answer"
    and "out = snd (judgeOneCase ho sv ws lang task cr f)"
  shows "jc_Status out =
      (if sr_Status sr \<noteq> StatusOK then mapSandboxStatus (sr_Status sr)
       else if fields_of output = fields_of answer then ''AC'' else ''WA'')
    \<and> jc_Index out = jr_Index cr \<and> jc_Score out = jr_Score cr
    \<and> jc_TimeMS out = sr_CPUTimeMS sr \<and> jc_MemKB out = sr_MaxRSSKB sr"
proof -
  have eq: "output = answer \<or> equalTokens output answer \<longleftrightarrow> fields_of output = fields_of answer"
    by (auto simp: equalTokens_def equal_from_fields)
  have st: "sr_Status sr = StatusOK \<or> sr_Status sr = StatusTLE \<or> sr_Status sr = StatusMLE
      \<or> sr_Status sr = StatusRE \<or> sr_Status sr = StatusSE"
    using assms(8) by (auto simp: run_statuses_def)
  have "judgeOneCase ho sv ws lang task cr f =
      (let (f, out) = runPlain ho ws lang task
             \<lparr>jc_Index = jr_Index cr, jc_Status = [], jc_TimeMS = 0, jc_MemKB = 0, jc_Message = [],
              jc_Score = jr_Score cr\<rparr> f4
       in (f, if jc_Status out \<noteq> ''AC'' then out else diffCase ws out f))"
    using assms(1-6) by (simp add: judgeOneCase_def Let_def)
  with st show ?thesis
    using assms(7,9,10,11) eq
    by (elim disjE) (simp_all add: runPlain_def Let_def diffCase_def se_def mapSandboxStatus_def)
qed

text \<open>
  One case in the default mode, once its data is at hand: the verdict is accepted exactly when the run
  succeeded and the fields of the output are those of the answer, wrong answer when they differ, and
  otherwise the failure of the run; the case keeps its index and its assigned credit and reports the
  resources of the run.
\<close>

theorem default_case_verdict:
  assumes "k_JudgeMode task \<noteq> interactiveMode" and "k_JudgeMode task \<noteq> spjMode"
    and "blob ho sv task (jr_InputSHA cr) (jr_InputSize cr) (jr_Index cr) ''in'' f = (f1, Inr input)"
    and "write_file ho (path_join ws ''input.txt'') input f1 = (f2, None)"
    and "blob ho sv task (jr_AnswerSHA cr) (jr_AnswerSize cr) (jr_Index cr) ''out'' f2 = (f3, Inr answer)"
    and "write_file ho (path_join ws ''answer.txt'') answer f3 = (f4, None)"
    and "ho_run ho ((runSpec ws lang task ''stderr.txt'')\<lparr>sp_StdinPath := path_join ws ''input.txt'',
           sp_StdoutPath := path_join ws ''output.txt''\<rparr>) f4 = (f5, Inr sr)"
    and "sr_Status sr \<in> run_statuses"
    and "f5 (path_join ws ''output.txt'') = Some output" and "f5 (path_join ws ''answer.txt'') = Some answer"
    and "out = snd (judgeOneCase ho sv ws lang task cr f)"
  shows "jc_Status out =
      (if sr_Status sr \<noteq> StatusOK then mapSandboxStatus (sr_Status sr)
       else if fields_of output = fields_of answer then ''AC'' else ''WA'')
    \<and> jc_Index out = jr_Index cr \<and> jc_Score out = jr_Score cr
    \<and> jc_TimeMS out = sr_CPUTimeMS sr \<and> jc_MemKB out = sr_MaxRSSKB sr"
  using assms by (rule default_case)

theorem default_case_verdict_witness:
  "jc_Status (snd (judgeOneCase (with_sandbox sample_host (copying_machine ''input.txt'') idle_pair)
     sample_service ''/w'' sample_lang sample_task (case_no 1) (\<lambda>_. None))) = ''AC''"
proof -
  let ?ho = "with_sandbox sample_host (copying_machine ''input.txt'') idle_pair"
  define f1 f2 f5 where "f1 = [''/b/h'' \<mapsto> ''42'']" and "f2 = f1(''/w/input.txt'' \<mapsto> ''42'')"
    and "f5 = (f2(''/w/answer.txt'' \<mapsto> ''42''))(''/w/output.txt'' \<mapsto> ''42'')"
  let ?spec = "(runSpec ''/w'' sample_lang sample_task ''stderr.txt'')
    \<lparr>sp_StdinPath := path_join ''/w'' ''input.txt'', sp_StdoutPath := path_join ''/w'' ''output.txt''\<rparr>"
  have paths: "path_join ''/w'' ''input.txt'' = ''/w/input.txt''"
    "path_join ''/w'' ''answer.txt'' = ''/w/answer.txt''" "path_join ''/w'' ''output.txt'' = ''/w/output.txt''"
    "path_join ''/b'' ''h'' = ''/b/h''"
    by (simp_all add: path_join_def)
  have ok: "spec_validate ?spec = None" and ws: "sp_Workspace ?spec = ''/w''"
    by (simp_all add: spec_validate_def runSpec_def Let_def sample_lang_def sample_task_def maxTimeMS_def
        replace_mem.simps)
  obtain sr where sr: "runProcess ?spec ok_run = Inr sr"
    using ok by (simp add: runProcess_def ok_run_def sample_run_def applyLimits_def cgroup_writes_def Let_def)
  have st: "sr_Status sr = StatusOK"
    using runProcess_InrD(2) [OF sr]
    by (simp add: Let_def classify_status ok_run_def sample_run_def seen_signal_def SIGXCPU_def SIGKILL_def)
  have blob_in: "blob ?ho sample_service sample_task (jr_InputSHA (case_no 1)) (jr_InputSize (case_no 1))
      (jr_Index (case_no 1)) ''in'' (\<lambda>_. None) = (f1, Inr ''42'')"
    by (simp add: blob_def fetchBlob_def Let_def sample_host_def with_sandbox_def case_no_def
        sample_service_def sample_task_def paths f1_def)
  have blob_out: "blob ?ho sample_service sample_task (jr_AnswerSHA (case_no 1)) (jr_AnswerSize (case_no 1))
      (jr_Index (case_no 1)) ''out'' f2 = (f2, Inr ''42'')"
    by (simp add: blob_def fetchBlob_def Let_def case_no_def sample_service_def paths f1_def f2_def)
  have run: "ho_run ?ho ?spec (f2(''/w/answer.txt'' \<mapsto> ''42'')) = (f5, Inr sr)"
    using sr ws by (simp add: with_sandbox_def sandbox_run_def copying_machine_def paths f1_def f2_def f5_def)
  from default_case_verdict [OF _ _ blob_in _ blob_out _ run _ _ _ refl, of "''42''"] st show ?thesis
    by (simp add: sample_task_def write_file_def with_sandbox_def sample_host_def paths f1_def f2_def f5_def
        run_statuses_def)
qed

section \<open>Where the code does not keep its promise\<close>

text \<open>
  A submission whose workspaces could not be staged is set to a system error, but the aggregation that
  always follows finds no case, hence no failing one, and turns it into an accepted submission.
\<close>

theorem staging_failure_accepted:
  assumes "crs = take (sv_MaxCases sv) (k_Cases task)" and "\<not> k_StopOnFail task"
    and "1 < sv_CaseWorkers sv" and "1 < length crs" and "jx_Cases res = []"
    and "stageCaseWorkspaces ho ws lang task cp ip crs f = (g, Some err)"
    and "res' = snd (judgeCases ho sv order ws lang task cp ip res f)"
  shows "jx_Status res' = ''SE'' \<and> jx_Error res' = err \<and> jx_Status (aggregate res') = ''AC''"
proof -
  have "k_Cases task \<noteq> []" using assms(1,4) by auto
  with assms(2-4,6,7) have "res' = res\<lparr>jx_Status := ''SE'', jx_Error := err\<rparr>"
    by (simp add: judgeCases_def Let_def flip: assms(1))
  then show ?thesis by (simp add: aggregate_status assms(5))
qed

text \<open>
  In the same way a judging that is cancelled before its first case, or between accepted cases, comes
  out as accepted.
\<close>

theorem cancelled_judging_accepted:
  assumes "k_StopOnFail task" and "k_Cases task \<noteq> []" and "0 < sv_MaxCases sv" and "ho_cancelled ho 0"
    and "jx_Cases res = []" and "res' = snd (judgeCases ho sv order ws lang task cp ip res f)"
  shows "jx_Status res' = ''SE'' \<and> jx_Status (aggregate res') = ''AC''"
proof -
  obtain cr crs where "take (sv_MaxCases sv) (k_Cases task) = cr # crs"
    using assms(2,3) by (cases "take (sv_MaxCases sv) (k_Cases task)") auto
  then have "res' = res\<lparr>jx_Status := ''SE'', jx_Error := ''judge canceled''\<rparr>"
    using assms by (simp add: judgeCases_def Let_def)
  then show ?thesis by (simp add: aggregate_status assms(5))
qed

text \<open>
  The answer is written into the workspace before the submitted program runs there, so a program that
  copies the file \<open>answer.txt\<close> of its working directory to its output is accepted on every case.
\<close>

theorem copying_the_answer_is_accepted:
  assumes "k_JudgeMode task \<noteq> interactiveMode" and "k_JudgeMode task \<noteq> spjMode"
    and "blob ho sv task (jr_InputSHA cr) (jr_InputSize cr) (jr_Index cr) ''in'' f = (f1, Inr input)"
    and "write_file ho (path_join ws ''input.txt'') input f1 = (f2, None)"
    and "blob ho sv task (jr_AnswerSHA cr) (jr_AnswerSize cr) (jr_Index cr) ''out'' f2 = (f3, Inr answer)"
    and "write_file ho (path_join ws ''answer.txt'') answer f3 = (f4, None)"
    and "ho_run ho = sandbox_run (copying_machine ''answer.txt'')"
    and "runProcess ((runSpec ws lang task ''stderr.txt'')\<lparr>sp_StdinPath := path_join ws ''input.txt'',
           sp_StdoutPath := path_join ws ''output.txt''\<rparr>) ok_run = Inr sr"
  shows "jc_Status (snd (judgeOneCase ho sv ws lang task cr f)) = ''AC''"
proof -
  let ?spec = "(runSpec ws lang task ''stderr.txt'')\<lparr>sp_StdinPath := path_join ws ''input.txt'',
           sp_StdoutPath := path_join ws ''output.txt''\<rparr>"
  let ?f5 = "f4(path_join ws ''output.txt'' := Some answer)"
  have ans: "f4 (path_join ws ''answer.txt'') = Some answer"
    using assms(6) by (auto simp: write_file_def split: option.splits)
  then have run: "ho_run ho ?spec f4 = (?f5, Inr sr)"
    using assms(7,8) by (simp add: sandbox_run_def copying_machine_def runSpec_def Let_def)
  have ok: "sr_Status sr = StatusOK"
    using runProcess_InrD(2) [OF assms(8)]
    by (simp add: Let_def classify_status ok_run_def sample_run_def seen_signal_def SIGXCPU_def SIGKILL_def)
  have "path_join ws ''answer.txt'' \<noteq> path_join ws ''output.txt''" by (simp add: path_join_def)
  with default_case [OF assms(1-6) run _ _ _ refl, of answer] ok ans show ?thesis
    by (simp add: run_statuses_def)
qed

end
