(* ===== verification/Judge_Messages.thy ===== *)
theory Judge_Messages
  imports OJ_Model
begin

text \<open>
  The messages of the relay between the API server and the judge machines (\<open>backend/proto/oj.proto\<close>)
  and the conversion of Go's machine-size \<open>int\<close> to the \<open>int32\<close> fields of the wire format.
\<close>

section \<open>Conversion to the wire width\<close>

definition i32 :: "int \<Rightarrow> int" where
  "i32 x = signed_take_bit 31 x"

lemma i32_fits: "- (2 ^ 31) \<le> x \<Longrightarrow> x < 2 ^ 31 \<Longrightarrow> i32 x = x"
  by (simp add: i32_def signed_take_bit_int_eq_self)

lemma i32_range: "- (2 ^ 31) \<le> i32 x \<and> i32 x < 2 ^ 31"
  using signed_take_bit_int_greater_eq_minus_exp [of 31 x] signed_take_bit_int_less_exp [of 31 x]
  by (simp add: i32_def)

section \<open>Messages\<close>

record Register =
  rg_DaemonName :: string
  rg_Token :: string
  rg_Capacity :: int
  rg_Languages :: "string list"
  rg_Version :: string

record Heartbeat =
  hb_ActiveTasks :: int
  hb_Load1 :: load_figure
  hb_MemUsedMb :: load_figure
  hb_MemTotalMb :: load_figure

record PbCaseResult =
  pc_Index :: int
  pc_Status :: string
  pc_TimeMs :: int
  pc_MemoryKb :: int
  pc_Message :: string
  pc_Score :: int

record TaskResult =
  tr_SubmissionId :: nat
  tr_Status :: string
  tr_TimeMs :: int
  tr_MemoryKb :: int
  tr_CompileMessage :: string
  tr_Cases :: "PbCaseResult list"
  tr_Error :: string
  tr_Score :: int

record CaseProgress =
  pg_SubmissionId :: nat
  pg_Index :: int
  pg_Status :: string
  pg_TimeMs :: int
  pg_MemoryKb :: int
  pg_Score :: int
  pg_Total :: int

record PbCaseRef =
  pr_Index :: int
  pr_InputSha256 :: string
  pr_AnswerSha256 :: string
  pr_InputSize :: int
  pr_AnswerSize :: int
  pr_Score :: int

record JudgeTask =
  jt_SubmissionId :: nat
  jt_ProblemId :: nat
  jt_LanguageId :: string
  jt_Code :: string
  jt_TimeLimitMs :: int
  jt_MemLimitMb :: int
  jt_JudgeMode :: string
  jt_CheckerSource :: string
  jt_InteractorSource :: string
  jt_FetchBase :: string
  jt_FetchToken :: string
  jt_Cases :: "PbCaseRef list"
  jt_StopOnFail :: bool

datatype DaemonMessage =
    RegisterMsg Register
  | HeartbeatMsg Heartbeat
  | ResultMsg TaskResult
  | CaseProgressMsg CaseProgress

end
