(* ===== verification/Task_Queue.thy ===== *)
theory Task_Queue
  imports Go_Strings
begin

text \<open>
  The judge task queue of \<open>backend/internal/queue/queue.go\<close>: the in-memory channel \<open>memoryQueue\<close> and the
  list of a Redis server.  The locale \<open>fifo_queue\<close> is the contract of the interface \<open>TaskQueue\<close> its
  clients rely on, with the first-in first-out law proved once from it, and \<open>task_queue\<close> adds the
  bound of the channel.  The commands of the server are parameters of the Redis queue; the locale
  \<open>redis_server\<close> states what Redis documents of them, and from it the same law follows.
\<close>

section \<open>The in-memory queue\<close>

datatype queue_error = ErrClosed | QueueFull | CtxDone | RedisErr

record memoryQueue =
  mq_ch :: "nat list"
  mq_closed :: bool

definition mq_capacity :: nat where
  "mq_capacity = 8192"

definition newMemoryQueue :: memoryQueue where
  "newMemoryQueue = \<lparr>mq_ch = [], mq_closed = False\<rparr>"

definition mq_push :: "memoryQueue \<Rightarrow> nat \<Rightarrow> memoryQueue \<times> queue_error option" where
  "mq_push m tid =
     (if mq_closed m then (m, Some ErrClosed)
      else if length (mq_ch m) < mq_capacity then (m\<lparr>mq_ch := mq_ch m @ [tid]\<rparr>, None)
      else (m, Some QueueFull))"

text \<open>
  \<open>Pop\<close> selects between the channel and the context.  The channel is ready when it holds a task or
  is closed, the context when it is done; when both are, Go chooses at random, here by \<open>prefer_ch\<close>.
  \<open>None\<close> is a call that blocks.  The answer is \<open>(id, ok, err)\<close>.
\<close>

definition mq_pop :: "memoryQueue \<Rightarrow> bool \<Rightarrow> bool \<Rightarrow>
    (memoryQueue \<times> nat \<times> bool \<times> queue_error option) option" where
  "mq_pop m ctx_done prefer_ch =
     (let ready = mq_ch m \<noteq> [] \<or> mq_closed m
      in if ready \<and> (prefer_ch \<or> \<not> ctx_done) then
           (case mq_ch m of
              [] \<Rightarrow> Some (m, 0, False, None)
            | tid # ch \<Rightarrow> Some (m\<lparr>mq_ch := ch\<rparr>, tid, True, None))
         else if ctx_done then Some (m, 0, False, Some CtxDone)
         else None)"

definition mq_len :: "memoryQueue \<Rightarrow> nat" where
  "mq_len m = length (mq_ch m)"

definition mq_close :: "memoryQueue \<Rightarrow> memoryQueue" where
  "mq_close m = (if mq_closed m then m else m\<lparr>mq_closed := True\<rparr>)"

section \<open>The contract of a task queue\<close>

text \<open>
  \<open>items\<close> are the tasks waiting.  A push that reports no error appends its task, one that reports an
  error changes nothing; a pop that answers \<open>ok\<close> removes the oldest task, any other pop changes
  nothing; a pop never blocks while a task waits.  \<open>valid\<close> are the ids the queue can hold.
\<close>

locale fifo_queue =
  fixes push :: "'q \<Rightarrow> nat \<Rightarrow> 'q \<times> 'e option"
    and pop :: "'q \<Rightarrow> bool \<Rightarrow> bool \<Rightarrow> ('q \<times> nat \<times> bool \<times> 'e option) option"
    and items :: "'q \<Rightarrow> nat list"
    and valid :: "nat \<Rightarrow> bool"
  assumes push_ok: "push q i = (q', None) \<Longrightarrow> valid i \<Longrightarrow> items q' = items q @ [i]"
    and push_err: "push q i = (q', Some err) \<Longrightarrow> items q' = items q"
    and pop_ok: "pop q d p = Some (q', i, True, e) \<Longrightarrow> items q = i # items q'"
    and pop_none: "pop q d p = Some (q', i, False, e) \<Longrightarrow> items q' = items q"
    and pop_ready: "items q \<noteq> [] \<Longrightarrow> pop q d p \<noteq> None"
begin

text \<open>
  A run of pushes and pops from several clients: what was pushed without error and what was popped,
  each in order.  A pop that would block is not taken (it takes effect later, or never).
\<close>

fun fifo_run :: "'q \<Rightarrow> (nat + bool \<times> bool) list \<Rightarrow> 'q \<times> nat list \<times> nat list" where
  "fifo_run q [] = (q, [], [])"
| "fifo_run q (Inl i # ops) =
     (case push q i of (q', e) \<Rightarrow>
       (case fifo_run q' ops of (r, ins, outs) \<Rightarrow>
         (r, (if e = None then i # ins else ins), outs)))"
| "fifo_run q (Inr (d, p) # ops) =
     (case pop q d p of
        None \<Rightarrow> fifo_run q ops
      | Some (q', i, ok, e) \<Rightarrow>
          (case fifo_run q' ops of (r, ins, outs) \<Rightarrow> (r, ins, if ok then i # outs else outs)))"

text \<open>Nothing is lost, duplicated or reordered.\<close>

lemma fifo:
  "fifo_run q ops = (r, ins, outs) \<Longrightarrow> list_all (case_sum valid (\<lambda>_. True)) ops \<Longrightarrow> items q @ ins = outs @ items r"
proof (induction q ops arbitrary: r ins outs rule: fifo_run.induct)
  case (2 q i ops)
  obtain q' e where p: "push q i = (q', e)" by (cases "push q i")
  then have "items q' = items q @ (if e = None then [i] else [])"
    using push_ok [of q i q'] push_err [of q i q'] 2(3) by (cases e) auto
  with 2 p show ?case by (auto split: prod.splits if_splits)
next
  case (3 q d p ops)
  show ?case
  proof (cases "pop q d p")
    case None
    with 3 show ?thesis by simp
  next
    case (Some x)
    then obtain q' i ok e where x: "pop q d p = Some (q', i, ok, e)" by (cases x) auto
    then have "items q = (if ok then [i] else []) @ items q'"
      using pop_ok [of q d p q' i e] pop_none [of q d p q' i e] by (cases ok) simp_all
    with 3 x show ?thesis by (auto split: prod.splits if_splits)
  qed
qed simp

end

locale task_queue = fifo_queue push pop items valid
  for push :: "'q \<Rightarrow> nat \<Rightarrow> 'q \<times> 'e option"
    and pop :: "'q \<Rightarrow> bool \<Rightarrow> bool \<Rightarrow> ('q \<times> nat \<times> bool \<times> 'e option) option"
    and items :: "'q \<Rightarrow> nat list"
    and valid :: "nat \<Rightarrow> bool" +
  fixes cap :: nat
  assumes push_cap: "push q i = (q', e') \<Longrightarrow> length (items q) \<le> cap \<Longrightarrow> length (items q') \<le> cap"
begin

lemma capped:
  "fifo_run q ops = (r, ins, outs) \<Longrightarrow> length (items q) \<le> cap \<Longrightarrow> length (items r) \<le> cap"
proof (induction q ops arbitrary: r ins outs rule: fifo_run.induct)
  case (2 q i ops)
  then show ?case using push_cap [of q i] by (auto split: prod.splits)
next
  case (3 q d p ops)
  have "length (items q') \<le> cap" if "pop q d p = Some (q', i, ok, e)" for q' i ok e
    using that 3(4) pop_ok [of q d p q' i e] pop_none [of q d p q' i e] by (cases ok) auto
  with 3 show ?case by (auto split: option.splits prod.splits)
qed simp

end

interpretation mq: task_queue mq_push mq_pop mq_ch "\<lambda>_. True" mq_capacity
  by unfold_locales
    (auto simp: mq_push_def mq_pop_def Let_def split: if_splits list.splits)

lemma mq_push_ok: "mq_push m i = (m', None) \<Longrightarrow> mq_ch m' = mq_ch m @ [i]"
  by (rule mq.push_ok [OF _ TrueI])

lemma mq_push_room:
  "\<not> mq_closed m \<Longrightarrow> length (mq_ch m) < mq_capacity \<Longrightarrow>
     mq_push m i = (m\<lparr>mq_ch := mq_ch m @ [i]\<rparr>, None)"
  by (simp add: mq_push_def)

lemma set_mq_push: "set (mq_ch (fst (mq_push m i))) \<supseteq> set (mq_ch m)"
  by (auto simp: mq_push_def)

section \<open>The queue of a Redis server\<close>

text \<open>
  What a call of \<open>BLPOP\<close> gives: nothing within its second, an error, or the key and the value.  \<open>rpush\<close>
  and \<open>blpop\<close> are the commands on the queue's key, with whether they went through.
\<close>

datatype blpop_reply = NilReply | ErrReply | Values "string list"

definition rq_push :: "('r \<Rightarrow> string \<Rightarrow> 'r \<times> bool) \<Rightarrow> 'r \<Rightarrow> nat \<Rightarrow> 'r \<times> queue_error option" where
  "rq_push rpush r tid = (let (r', ok) = rpush r (nat_str tid) in (r', if ok then None else Some RedisErr))"

text \<open>\<open>Sscanf\<close> with \<open>%d\<close> into 64 bits: blanks but no line break, then digits; what follows is not read.\<close>

definition scan_id :: "string \<Rightarrow> nat option" where
  "scan_id s = (let ds = takeWhile is_digit (dropWhile (\<lambda>c. is_space c \<and> c \<noteq> CHR 0x0A) s) in if ds = [] then None else parse_uint64 ds)"

text \<open>
  \<open>Pop\<close> skips malformed entries in a loop that may go on; \<open>ctx_done\<close> is whether the context is done
  when the call ends.  The fourth argument only fits the contract's type: there is no choice here.
\<close>

partial_function (option) rq_pop ::
  "('r \<Rightarrow> 'r \<times> blpop_reply) \<Rightarrow> 'r \<Rightarrow> bool \<Rightarrow> bool \<Rightarrow> ('r \<times> nat \<times> bool \<times> queue_error option) option" where
  "rq_pop blpop r ctx_done prefer_ch =
     (case blpop r of
        (r', NilReply) \<Rightarrow> Some (r', 0, False, if ctx_done then Some CtxDone else None)
      | (r', ErrReply) \<Rightarrow> Some (r', 0, False, Some (if ctx_done then CtxDone else RedisErr))
      | (r', Values res) \<Rightarrow>
          if length res < 2 then rq_pop blpop r' ctx_done prefer_ch
          else case scan_id (res ! 1) of
                 None \<Rightarrow> rq_pop blpop r' ctx_done prefer_ch
               | Some tid \<Rightarrow> Some (r', tid, True, None))"

datatype 'r any_queue = InMemory memoryQueue | OnServer 'r

text \<open>\<open>New\<close>: without an address the queue is in memory; with one the server must answer (\<open>connect\<close>).\<close>

definition new_queue :: "(string \<Rightarrow> 'r option) \<Rightarrow> string \<Rightarrow> string + 'r any_queue" where
  "new_queue connect redisAddr =
     (if redisAddr = [] then Inr (InMemory newMemoryQueue)
      else case connect redisAddr of
             None \<Rightarrow> Inl (''redis ping '' @ redisAddr) | Some r \<Rightarrow> Inr (OnServer r))"

lemma scan_id_nat_str: "i < 2 ^ 64 \<Longrightarrow> scan_id (nat_str i) = Some i"
proof -
  assume i: "i < 2 ^ 64"
  obtain c cs where s: "nat_str i = c # cs" by (cases "nat_str i") auto
  have ds: "list_all is_digit (c # cs)" using nat_str_digits [of i] by (simp add: s)
  then have "\<not> is_space c" by (auto simp: is_digit_def is_space_def)
  moreover have "takeWhile is_digit (c # cs) = c # cs"
    using ds by (simp add: list_all_iff takeWhile_eq_all_conv)
  ultimately show "scan_id (nat_str i) = Some i"
    using parse_uint64_nat_str [OF i] by (simp add: scan_id_def s)
qed

text \<open>
  The documented behaviour of the two commands on a list: a push that goes through appends, a pop gives
  the key and the oldest value, and what does not go through changes nothing.
\<close>

locale redis_server =
  fixes rpush :: "'r \<Rightarrow> string \<Rightarrow> 'r \<times> bool"
    and blpop :: "'r \<Rightarrow> 'r \<times> blpop_reply"
    and contents :: "'r \<Rightarrow> string list"
  assumes rpush_ok: "rpush r x = (r', True) \<Longrightarrow> contents r' = contents r @ [x]"
    and rpush_err: "rpush r x = (r', False) \<Longrightarrow> contents r' = contents r"
    and blpop_ok: "blpop r = (r', Values res) \<Longrightarrow> \<exists>key x. res = [key, x] \<and> contents r = x # contents r'"
    and blpop_nil: "blpop r = (r', NilReply) \<Longrightarrow> contents r' = contents r"
    and blpop_err: "blpop r = (r', ErrReply) \<Longrightarrow> contents r' = contents r"
begin

definition tasks :: "'r \<Rightarrow> nat list" where
  "tasks r = List.map_filter scan_id (contents r)"

text \<open>A pop returns, and hands out the first well-formed entry or nothing.\<close>

lemma pop_cases:
  "\<exists>r' i ok e. rq_pop blpop r d p = Some (r', i, ok, e)
     \<and> (if ok then tasks r = i # tasks r' else tasks r' = tasks r)"
proof (induction "length (contents r)" arbitrary: r rule: less_induct)
  case less
  obtain r' reply where b: "blpop r = (r', reply)" by (cases "blpop r")
  show ?case
  proof (cases reply)
    case NilReply
    with b blpop_nil [of r r'] show ?thesis by (auto simp: tasks_def rq_pop.simps [of blpop r])
  next
    case ErrReply
    with b blpop_err [of r r'] show ?thesis by (auto simp: tasks_def rq_pop.simps [of blpop r])
  next
    case (Values res)
    then obtain key x where res: "res = [key, x]" "contents r = x # contents r'"
      using b blpop_ok [of r r' res] by auto
    show ?thesis
    proof (cases "scan_id x")
      case None
      then have "rq_pop blpop r d p = rq_pop blpop r' d p" "tasks r = tasks r'"
        using b Values res by (simp_all add: rq_pop.simps [of blpop r] tasks_def List.map_filter_simps)
      then show ?thesis using less [of r'] res(2) by (simp only: length_Cons lessI)
    next
      case (Some i)
      then have "rq_pop blpop r d p = Some (r', i, True, None)" "tasks r = i # tasks r'"
        using b Values res by (simp_all add: rq_pop.simps [of blpop r] tasks_def List.map_filter_simps)
      then show ?thesis by auto
    qed
  qed
qed

end

sublocale redis_server \<subseteq> fifo_queue "rq_push rpush" "rq_pop blpop" tasks "\<lambda>i. i < 2 ^ 64"
proof unfold_locales
  fix q q' i
  assume "rq_push rpush q i = (q', None)" "i < 2 ^ 64"
  then show "tasks q' = tasks q @ [i]"
    using rpush_ok [of q "nat_str i" q']
    by (simp add: rq_push_def tasks_def List.map_filter_def scan_id_nat_str split: prod.splits if_splits)
next
  fix q q' i err
  assume "rq_push rpush q i = (q', Some err)"
  then show "tasks q' = tasks q"
    using rpush_err [of q "nat_str i" q'] by (simp add: rq_push_def tasks_def split: prod.splits if_splits)
next
  fix q d p q' i e
  show "rq_pop blpop q d p = Some (q', i, True, e) \<Longrightarrow> tasks q = i # tasks q'"
    using pop_cases [of q d p] by auto
next
  fix q d p q' i e
  show "rq_pop blpop q d p = Some (q', i, False, e) \<Longrightarrow> tasks q' = tasks q"
    using pop_cases [of q d p] by auto
next
  fix q d p
  show "rq_pop blpop q d p \<noteq> None" using pop_cases [of q d p] by auto
qed

text \<open>
  A server behind a network that loses calls: the state is the list and, for each coming call, whether it
  goes through (when the script is at its end, every call does).
\<close>

definition goes :: "bool list \<Rightarrow> bool" where
  "goes script = (script = [] \<or> hd script)"

definition list_rpush :: "bool list \<times> string list \<Rightarrow> string \<Rightarrow> (bool list \<times> string list) \<times> bool" where
  "list_rpush r x = (let (script, xs) = r in if goes script then ((tl script, xs @ [x]), True) else ((tl script, xs), False))"

definition list_blpop :: "bool list \<times> string list \<Rightarrow> (bool list \<times> string list) \<times> blpop_reply" where
  "list_blpop r =
     (let (script, xs) = r
      in if \<not> goes script then ((tl script, xs), ErrReply)
         else if xs = [] then ((tl script, []), NilReply)
         else ((tl script, tl xs), Values [''oj:judge:tasks'', hd xs]))"

interpretation redis: redis_server list_rpush list_blpop snd
  by unfold_locales (auto simp: list_rpush_def list_blpop_def Let_def split: prod.splits if_splits list.splits)

text \<open>The queue on the server keeps the order as well, and skips what is not an id.\<close>

lemma redis_queue_fifo:
  "redis.fifo_run q ops = (r, accepted, popped) \<Longrightarrow> list_all (case_sum (\<lambda>i. i < 2 ^ 64) (\<lambda>_. True)) ops \<Longrightarrow>
   redis.tasks q @ accepted = popped @ redis.tasks r"
  by (rule redis.fifo)

lemma malformed_entries_skipped:
  "rq_pop list_blpop ([], [''garbage'', '' 7'', ''8'']) False p = Some (([], [''8'']), 7, True, None)"
  by (simp add: rq_pop.simps [of list_blpop] list_blpop_def goes_def scan_id_def is_digit_def is_space_def parse_uint64_def
      str_val_def digit_val_def)

section \<open>Properties\<close>

text \<open>
  C21. The in-memory queue neither loses, duplicates nor reorders tasks: over any interleaving of pushes and
  pops from any number of clients, with cancelled contexts and a full queue among them, the tasks
  waiting at the start followed by those whose push was acknowledged are the tasks handed out
  followed by those still waiting, and the waiting tasks never exceed the channel's capacity.
\<close>

theorem memory_queue_fifo:
  assumes "mq.fifo_run q ops = (r, accepted, popped)" and "length (mq_ch q) \<le> mq_capacity"
  shows "mq_ch q @ accepted = popped @ mq_ch r \<and> mq_len r \<le> mq_capacity"
proof -
  have "list_all (case_sum (\<lambda>_. True) (\<lambda>_. True)) ops" by (simp add: list_all_iff split: sum.split)
  then show ?thesis using mq.fifo [OF assms(1)] mq.capped [OF assms] by (simp add: mq_len_def)
qed

theorem memory_queue_fifo_witness:
  "mq_ch newMemoryQueue @ [7, 8, 9] = [7, 8] @ mq_ch \<lparr>mq_ch = [9], mq_closed = False\<rparr>
   \<and> mq_len \<lparr>mq_ch = [9], mq_closed = False\<rparr> \<le> mq_capacity"
  by (rule memory_queue_fifo [of _
        "[Inl 7, Inl 8, Inr (False, True), Inr (True, False), Inr (True, True), Inl 9]"])
    (simp_all add: newMemoryQueue_def mq_push_def mq_pop_def mq_capacity_def)

end
