(* ===== verification/Judge_Hub.thy ===== *)
theory Judge_Hub
  imports Judge_Messages Task_Queue "HOL-Library.AList"
begin

text \<open>
  The API side of the judge relay, \<open>backend/internal/judgehub\<close> (\<open>hub.go\<close> and \<open>tasks.go\<close>): daemon
  connections, leases, dispatch, results, the requeue paths and the restart scan.  A hub state holds
  the database, the queue, the connection table, the \<open>inflight\<close> table and the messages published;
  every handler is a function on it.  The step relation at the end interleaves the handlers of all
  goroutines, each atomic, with the task id a dispatch loop has popped but not yet dispatched
  (\<open>h_hand\<close>) as part of the state.
\<close>

section \<open>State\<close>

definition leaseDuration :: duration where
  "leaseDuration = 15 * minute"

record daemonConn =
  dc_info :: JudgeDaemon
  dc_send :: "JudgeTask list"
  dc_active :: int
  dc_done :: bool

datatype ws_payload =
    WsRequeued nat string time
  | WsJudging nat time
  | WsCase int string int int int int
  | WsDaemon string int int
  | WsJudged nat string int int int nat "nat option" nat time
  | WsDirty time
  | PluginEvent nat string

record hub =
  h_db :: db
  h_queue :: memoryQueue
  h_conns :: "(string \<times> nat) list"
  h_inflight :: "(nat \<times> string) list"
  h_conn :: "nat \<Rightarrow> daemonConn"
  h_hand :: "(nat \<times> nat) list"
  h_events :: "(string \<times> ws_payload) list"

record hub_config =
  hc_DaemonSecret :: string
  hc_FetchBase :: string

definition publish :: "string \<Rightarrow> ws_payload \<Rightarrow> hub \<Rightarrow> hub" where
  "publish topic p h = h\<lparr>h_events := h_events h @ [(topic, p)]\<rparr>"

definition submission_topic :: "nat \<Rightarrow> string" where
  "submission_topic i = ''submission:'' @ nat_str i"

definition contest_topic :: "nat \<Rightarrow> string" where
  "contest_topic i = ''contest:'' @ nat_str i"

definition update_submission :: "nat \<Rightarrow> (Submission \<Rightarrow> Submission) \<Rightarrow> hub \<Rightarrow> hub" where
  "update_submission i f h =
     h\<lparr>h_db := (h_db h)\<lparr>db_submissions := tbl_update (\<lambda>s. s_ID s = i) f (db_submissions (h_db h))\<rparr>\<rparr>"

definition update_conn :: "nat \<Rightarrow> (daemonConn \<Rightarrow> daemonConn) \<Rightarrow> hub \<Rightarrow> hub" where
  "update_conn c f h = h\<lparr>h_conn := (h_conn h)(c := f (h_conn h c))\<rparr>"

definition update_daemons :: "(JudgeDaemon \<Rightarrow> bool) \<Rightarrow> (JudgeDaemon \<Rightarrow> JudgeDaemon) \<Rightarrow> hub \<Rightarrow> hub" where
  "update_daemons P f h = h\<lparr>h_db := (h_db h)\<lparr>db_daemons := tbl_update P f (db_daemons (h_db h))\<rparr>\<rparr>"

section \<open>Requeueing\<close>

text \<open>The error of the push is only logged.\<close>

definition hub_push :: "nat \<Rightarrow> hub \<Rightarrow> hub" where
  "hub_push i h = h\<lparr>h_queue := fst (mq_push (h_queue h) i)\<rparr>"

definition requeue :: "time \<Rightarrow> string \<Rightarrow> nat \<Rightarrow> hub \<Rightarrow> hub" where
  "requeue now reason i h =
     publish (submission_topic i) (WsRequeued i reason now)
       (hub_push i (update_submission i (\<lambda>s. s\<lparr>s_Status := SubPending, s_LeaseUntil := None\<rparr>) h))"

definition lease_expired :: "time \<Rightarrow> Submission \<Rightarrow> bool" where
  "lease_expired deadline s \<longleftrightarrow> s_Status s = SubJudging \<and>
     (case s_LeaseUntil s of None \<Rightarrow> False | Some t \<Rightarrow> t < deadline)"

definition requeueExpired :: "env \<Rightarrow> hub \<Rightarrow> hub" where
  "requeueExpired e h =
     (let deadline = env_now e - leaseDuration;
          subs = take 100 (tbl_select (lease_expired deadline) (db_submissions (h_db h)))
      in if \<not> env_dbok e 0 then h
         else fold (\<lambda>s. requeue (env_now e) ''lease expired'' (s_ID s)) subs h)"

text \<open>The restart scan stops at the first push that fails.\<close>

fun push_all :: "nat list \<Rightarrow> hub \<Rightarrow> hub" where
  "push_all [] h = h"
| "push_all (i # is) h =
     (case mq_push (h_queue h) i of
        (q, None) \<Rightarrow> push_all is (h\<lparr>h_queue := q\<rparr>)
      | (_, Some _) \<Rightarrow> h)"

definition RequeuePending :: "env \<Rightarrow> hub \<Rightarrow> hub" where
  "RequeuePending e h =
     (if \<not> env_dbok e 0 then h
      else push_all (map s_ID (tbl_select (\<lambda>s. s_Status s = SubPending) (db_submissions (h_db h)))) h)"

section \<open>Connections\<close>

definition awaitRegister :: "hub_config \<Rightarrow> DaemonMessage option \<Rightarrow> Register option" where
  "awaitRegister cfg msg =
     (case msg of
        Some (RegisterMsg reg) \<Rightarrow>
          (if rg_Token reg \<noteq> hc_DaemonSecret cfg \<or> rg_DaemonName reg = [] then None else Some reg)
      | _ \<Rightarrow> None)"

text \<open>
  \<open>first_or_create\<close> is the ORM's \<open>Where(name).Assign(info).FirstOrCreate(info)\<close>: it answers the row
  as read back into \<open>info\<close> and the new table.  \<open>c\<close> is the identity of the new connection object.
\<close>

definition registerConn ::
  "(JudgeDaemon \<Rightarrow> JudgeDaemon table \<Rightarrow> JudgeDaemon \<times> JudgeDaemon table) \<Rightarrow>
     env \<Rightarrow> Register \<Rightarrow> nat \<Rightarrow> hub \<Rightarrow> hub" where
  "registerConn first_or_create e reg c h =
     (let info = \<lparr>jd_ID = 0, jd_Name = rg_DaemonName reg, jd_Status = DaemonOnline,
                  jd_Capacity = rg_Capacity reg, jd_ActiveTasks = 0,
                  jd_Languages = rg_Languages reg, jd_LastHeartbeat = Some (env_now e),
                  jd_Load1 = [], jd_MemUsedMB = [], jd_MemTotalMB = [], jd_CreatedAt = 0\<rparr>;
          (info, t) = first_or_create info (db_daemons (h_db h));
          h = h\<lparr>h_db := (h_db h)\<lparr>db_daemons := t\<rparr>\<rparr>;
          h = h\<lparr>h_conn := (h_conn h)(c := \<lparr>dc_info = info, dc_send = [], dc_active = 0, dc_done = False\<rparr>)\<rparr>;
          h = (case map_of (h_conns h) (jd_Name info) of
                 Some old \<Rightarrow> update_conn old (\<lambda>d. d\<lparr>dc_done := True\<rparr>) h
               | None \<Rightarrow> h)
      in h\<lparr>h_conns := AList.update (jd_Name info) c (h_conns h)\<rparr>)"

definition orphans :: "string \<Rightarrow> hub \<Rightarrow> nat list" where
  "orphans name h = map fst (filter (\<lambda>(i, owner). owner = name) (h_inflight h))"

text \<open>
  The statements that read the orphaned submissions are the checked ones; the order of the orphans
  is that of the association list, where Go's map has none.
\<close>

fun requeue_orphans :: "env \<Rightarrow> nat \<Rightarrow> nat list \<Rightarrow> hub \<Rightarrow> hub" where
  "requeue_orphans e n [] h = h"
| "requeue_orphans e n (i # is) h =
     requeue_orphans e (Suc n) is
       (case byID s_ID (db_submissions (h_db h)) i of
          None \<Rightarrow> h
        | Some s \<Rightarrow>
            (if env_dbok e n \<and> s_Status s = SubJudging then
               requeue (env_now e) ''daemon disconnected'' i h
             else h))"

definition dropConn :: "env \<Rightarrow> string \<Rightarrow> nat \<Rightarrow> hub \<Rightarrow> hub" where
  "dropConn e name c h =
     (let h = update_conn c (\<lambda>d. d\<lparr>dc_done := True\<rparr>) h;
          h = (if map_of (h_conns h) name = Some c then h\<lparr>h_conns := AList.delete name (h_conns h)\<rparr> else h);
          orphaned = orphans name h;
          h = h\<lparr>h_inflight := filter (\<lambda>(i, owner). owner \<noteq> name) (h_inflight h)\<rparr>;
          h = update_daemons (\<lambda>d. jd_Name d = name)
                (\<lambda>d. d\<lparr>jd_Status := DaemonOffline, jd_ActiveTasks := 0\<rparr>) h
      in requeue_orphans e 0 orphaned h)"

section \<open>Messages from a daemon\<close>

definition handleHeartbeat :: "env \<Rightarrow> nat \<Rightarrow> Heartbeat \<Rightarrow> hub \<Rightarrow> hub" where
  "handleHeartbeat e c hb h =
     (let info = dc_info (h_conn h c)
      in publish ''admin:daemons'' (WsDaemon (jd_Name info) (hb_ActiveTasks hb) (jd_Capacity info))
           (update_daemons (\<lambda>d. jd_ID d = jd_ID info)
              (\<lambda>d. d\<lparr>jd_LastHeartbeat := Some (env_now e), jd_ActiveTasks := hb_ActiveTasks hb,
                      jd_Status := DaemonOnline, jd_Load1 := hb_Load1 hb,
                      jd_MemUsedMB := hb_MemUsedMb hb, jd_MemTotalMB := hb_MemTotalMb hb\<rparr>) h))"

definition handleCaseProgress :: "nat \<Rightarrow> CaseProgress \<Rightarrow> hub \<Rightarrow> hub" where
  "handleCaseProgress c cp h =
     (if map_of (h_inflight h) (pg_SubmissionId cp) \<noteq> Some (jd_Name (dc_info (h_conn h c))) then h
      else publish (submission_topic (pg_SubmissionId cp))
             (WsCase (pg_Index cp) (pg_Status cp) (pg_TimeMs cp) (pg_MemoryKb cp) (pg_Score cp)
                (pg_Total cp)) h)"

definition toModelCases :: "PbCaseResult list \<Rightarrow> CaseResult list" where
  "toModelCases cases =
     map (\<lambda>c. \<lparr>cr_Index = pc_Index c, cr_Status = pc_Status c, cr_TimeMS = pc_TimeMs c,
                cr_MemKB = pc_MemoryKb c, cr_Message = pc_Message c, cr_Score = pc_Score c\<rparr>) cases"

definition compile_text :: "TaskResult \<Rightarrow> string" where
  "compile_text tr =
     (if tr_Error tr \<noteq> [] then
        tr_CompileMessage tr @ CHR 0x0A # ''[judge SE] '' @ tr_Error tr
      else tr_CompileMessage tr)"

definition finalize :: "env \<Rightarrow> TaskResult \<Rightarrow> hub \<Rightarrow> hub" where
  "finalize e tr h =
     (case byID s_ID (db_submissions (h_db h)) (tr_SubmissionId tr) of
        None \<Rightarrow> h
      | Some sub \<Rightarrow>
          (if \<not> env_dbok e 0 \<or> \<not> env_dbok e 1 then h
           else
             let h = update_submission (s_ID sub)
                   (\<lambda>s. s\<lparr>s_Status := tr_Status tr, s_TimeMS := tr_TimeMs tr,
                          s_MemoryKB := tr_MemoryKb tr, s_Score := tr_Score tr,
                          s_CompileMessage := compile_text tr,
                          s_Cases := toModelCases (tr_Cases tr),
                          s_JudgedAt := Some (env_now e), s_LeaseUntil := None\<rparr>) h;
                 h = publish (submission_topic (s_ID sub))
                       (WsJudged (s_ID sub) (tr_Status tr) (tr_TimeMs tr) (tr_MemoryKb tr) (tr_Score tr)
                          (s_ProblemID sub) (s_ContestID sub) (s_UserID sub) (env_now e)) h;
                 h = (case s_ContestID sub of
                        None \<Rightarrow> h
                      | Some c \<Rightarrow> publish (contest_topic c) (WsDirty (env_now e)) h)
             in publish ''plugin'' (PluginEvent (s_ID sub) (tr_Status tr)) h))"

definition handleResult :: "env \<Rightarrow> nat \<Rightarrow> TaskResult \<Rightarrow> hub \<Rightarrow> hub" where
  "handleResult e c tr h =
     (let h = update_conn c (\<lambda>d. d\<lparr>dc_active := dc_active d - 1\<rparr>) h;
          h = h\<lparr>h_inflight := AList.delete (tr_SubmissionId tr) (h_inflight h)\<rparr>
      in finalize e tr h)"

text \<open>\<open>readLoop\<close>: a register message in mid-stream is ignored.\<close>

definition readLoop_step :: "env \<Rightarrow> nat \<Rightarrow> DaemonMessage \<Rightarrow> hub \<Rightarrow> hub" where
  "readLoop_step e c msg h =
     (case msg of
        HeartbeatMsg hb \<Rightarrow> handleHeartbeat e c hb h
      | ResultMsg tr \<Rightarrow> handleResult e c tr h
      | CaseProgressMsg cp \<Rightarrow> handleCaseProgress c cp h
      | RegisterMsg _ \<Rightarrow> h)"

section \<open>Dispatch\<close>

definition case_ref :: "TestCase \<Rightarrow> PbCaseRef" where
  "case_ref tc =
     \<lparr>pr_Index = i32 (tc_CaseIndex tc), pr_InputSha256 = tc_InputSHA tc,
      pr_AnswerSha256 = tc_AnswerSHA tc, pr_InputSize = tc_InputSize tc,
      pr_AnswerSize = tc_AnswerSize tc, pr_Score = i32 (tc_Score tc)\<rparr>"

definition manifest :: "db \<Rightarrow> nat \<Rightarrow> TestCase list" where
  "manifest s pid =
     sort_by (\<lambda>a b. tc_CaseIndex a < tc_CaseIndex b) (tbl_select (\<lambda>t. tc_ProblemID t = pid) (db_cases s))"

text \<open>\<open>None\<close> is any of the errors of \<open>buildTask\<close>; their texts only reach the log.\<close>

definition buildTask :: "env \<Rightarrow> hub_config \<Rightarrow> db \<Rightarrow> nat \<Rightarrow> JudgeTask option" where
  "buildTask e cfg s subID =
     (case (if env_dbok e 0 then byID s_ID (db_submissions s) subID else None) of
        None \<Rightarrow> None
      | Some sub \<Rightarrow>
     (case (if env_dbok e 1 then byID p_ID (db_problems s) (s_ProblemID sub) else None) of
        None \<Rightarrow> None
      | Some prob \<Rightarrow>
          (if \<not> env_dbok e 2 then None
           else case db_files s (s_CodePath sub) of
             None \<Rightarrow> None
           | Some code \<Rightarrow>
               Some \<lparr>jt_SubmissionId = subID, jt_ProblemId = p_ID prob,
                     jt_LanguageId = s_Language sub, jt_Code = code,
                     jt_TimeLimitMs = p_TimeLimitMS prob, jt_MemLimitMb = p_MemLimitMB prob,
                     jt_JudgeMode = p_JudgeMode prob, jt_CheckerSource = p_CheckerSource prob,
                     jt_InteractorSource = p_InteractorSrc prob,
                     jt_FetchBase = hc_FetchBase cfg, jt_FetchToken = hc_DaemonSecret cfg,
                     jt_Cases = map case_ref (manifest s (p_ID prob)),
                     jt_StopOnFail = (s_ContestID sub \<noteq> None \<and> \<not> s_IsPractice sub)\<rparr>)))"

text \<open>
  \<open>sent\<close> is the branch the final \<open>select\<close> takes: the message goes into the send channel, or the stream's
  context or the connection is done and the loop ends.
\<close>

definition dispatchOne :: "env \<Rightarrow> hub_config \<Rightarrow> nat \<Rightarrow> nat \<Rightarrow> bool \<Rightarrow> hub \<Rightarrow> hub \<times> bool" where
  "dispatchOne e cfg c subID sent h =
     (case buildTask e cfg (h_db h) subID of
        None \<Rightarrow> (requeue (env_now e) ''build failed'' subID h, True)
      | Some task \<Rightarrow>
          (let lease = env_now e + leaseDuration
           in if \<not> env_dbok e 3 then (h, True)
              else
                let h = update_submission subID
                      (\<lambda>s. s\<lparr>s_Status := SubJudging, s_LeaseUntil := Some lease\<rparr>) h;
                    h = update_conn c (\<lambda>d. d\<lparr>dc_active := dc_active d + 1\<rparr>) h;
                    h = h\<lparr>h_inflight := AList.update subID (jd_Name (dc_info (h_conn h c))) (h_inflight h)\<rparr>
                in if \<not> sent then (h, False)
                   else (publish (submission_topic subID) (WsJudging subID (env_now e))
                           (update_conn c (\<lambda>d. d\<lparr>dc_send := dc_send d @ [task]\<rparr>) h), True)))"

text \<open>One turn of \<open>dispatchLoop\<close> up to the pop, taken only when the pop answers a task.\<close>

definition dispatch_pop :: "nat \<Rightarrow> hub \<Rightarrow> hub option" where
  "dispatch_pop c h =
     (if dc_done (h_conn h c) \<or> dc_active (h_conn h c) \<ge> jd_Capacity (dc_info (h_conn h c)) then None
      else case mq_pop (h_queue h) False True of
        Some (q, i, True, None) \<Rightarrow> Some (h\<lparr>h_queue := q, h_hand := h_hand h @ [(c, i)]\<rparr>)
      | _ \<Rightarrow> None)"

section \<open>The hub as a transition system\<close>

text \<open>
  The steps of all goroutines that touch the hub.  \<open>submitted\<close> and \<open>rejudged\<close> are the handlers of other
  components that put work in: they store a pending submission and push its id.  \<open>room k\<close> says that
  \<open>k\<close> more pushes succeed.  \<open>restarted\<close> is a new process on the old database.
\<close>

definition room :: "nat \<Rightarrow> hub \<Rightarrow> bool" where
  "room k h \<longleftrightarrow> \<not> mq_closed (h_queue h) \<and> length (mq_ch (h_queue h)) + k \<le> mq_capacity"

definition restarted :: "hub \<Rightarrow> hub" where
  "restarted h = h\<lparr>h_queue := newMemoryQueue, h_conns := [], h_inflight := [], h_hand := []\<rparr>"

definition submitted :: "(nat \<Rightarrow> Submission) \<Rightarrow> hub \<Rightarrow> hub" where
  "submitted mk h =
     (let (sub, t) = tbl_create mk (db_submissions (h_db h))
      in hub_push (s_ID sub) (h\<lparr>h_db := (h_db h)\<lparr>db_submissions := t\<rparr>\<rparr>))"

definition rejudged :: "nat \<Rightarrow> hub \<Rightarrow> hub" where
  "rejudged i h = hub_push i (update_submission i (\<lambda>s. s\<lparr>s_Status := SubPending, s_LeaseUntil := None\<rparr>) h)"

definition take_hand :: "nat \<Rightarrow> nat \<Rightarrow> hub \<Rightarrow> hub" where
  "take_hand c i h = h\<lparr>h_hand := remove1 (c, i) (h_hand h)\<rparr>"

definition final_status :: "string \<Rightarrow> bool" where
  "final_status st \<longleftrightarrow> st \<noteq> SubPending \<and> st \<noteq> SubJudging"

definition final_message :: "DaemonMessage \<Rightarrow> bool" where
  "final_message msg \<longleftrightarrow> (case msg of ResultMsg tr \<Rightarrow> final_status (tr_Status tr) | _ \<Rightarrow> True)"

inductive hub_step ::
  "hub_config \<Rightarrow> (JudgeDaemon \<Rightarrow> JudgeDaemon table \<Rightarrow> JudgeDaemon \<times> JudgeDaemon table) \<Rightarrow>
     hub \<Rightarrow> hub \<Rightarrow> bool"
  for cfg foc where
  step_connect: "awaitRegister cfg msg = Some reg \<Longrightarrow> hub_step cfg foc h (registerConn foc e reg c h)"
| step_submit: "room 1 h \<Longrightarrow> (\<And>i. s_ID (mk i) = i \<and> s_Status (mk i) = SubPending) \<Longrightarrow>
    hub_step cfg foc h (submitted mk h)"
| step_rejudge: "room 1 h \<Longrightarrow> hub_step cfg foc h (rejudged i h)"
| step_pop: "dispatch_pop c h = Some h' \<Longrightarrow> hub_step cfg foc h h'"
| step_dispatch: "(c, i) \<in> set (h_hand h) \<Longrightarrow> room 1 h \<Longrightarrow> env_dbok e 3 \<Longrightarrow>
    hub_step cfg foc h (fst (dispatchOne e cfg c i sent (take_hand c i h)))"
| step_message: "final_message msg \<Longrightarrow> hub_step cfg foc h (readLoop_step e c msg h)"
| step_drop: "room (length (h_inflight h)) h \<Longrightarrow> hub_step cfg foc h (dropConn e name c h)"
| step_scan: "room 100 h \<Longrightarrow> hub_step cfg foc h (requeueExpired e h)"
| step_restart: "env_dbok e 0 \<Longrightarrow> length (rows (db_submissions (h_db h))) \<le> mq_capacity \<Longrightarrow>
    hub_step cfg foc h (RequeuePending e (restarted h))"

definition hub_start :: "db \<Rightarrow> hub" where
  "hub_start s = \<lparr>h_db = s, h_queue = newMemoryQueue, h_conns = [], h_inflight = [],
     h_conn = (\<lambda>_. \<lparr>dc_info = \<lparr>jd_ID = 0, jd_Name = [], jd_Status = DaemonOffline, jd_Capacity = 0,
        jd_ActiveTasks = 0, jd_Languages = [], jd_LastHeartbeat = None, jd_Load1 = [],
        jd_MemUsedMB = [], jd_MemTotalMB = [], jd_CreatedAt = 0\<rparr>,
        dc_send = [], dc_active = 0, dc_done = True\<rparr>),
     h_hand = [], h_events = []\<rparr>"

section \<open>No submission is lost\<close>

abbreviation subs :: "hub \<Rightarrow> Submission list" where
  "subs h \<equiv> rows (db_submissions (h_db h))"

text \<open>The submissions some goroutine will still look at.\<close>

definition waiting :: "hub \<Rightarrow> nat set" where
  "waiting h = set (mq_ch (h_queue h)) \<union> snd ` set (h_hand h)"

text \<open>\<open>hub_inv_but X\<close> is the invariant except for the submissions in \<open>X\<close>, which a handler is working on.\<close>

definition hub_inv_but :: "nat set \<Rightarrow> hub \<Rightarrow> bool" where
  "hub_inv_but X h \<longleftrightarrow>
     (\<forall>s \<in> set (subs h).
        (s_Status s = SubPending \<longrightarrow> s_ID s \<in> waiting h \<union> X) \<and>
        (s_Status s = SubJudging \<longrightarrow> s_LeaseUntil s \<noteq> None))"

lemma hub_inv_but_mono: "hub_inv_but X h \<Longrightarrow> X \<subseteq> Y \<Longrightarrow> hub_inv_but Y h"
  by (auto simp: hub_inv_but_def)

lemma hub_inv_but_frame:
  "hub_inv_but X h \<Longrightarrow> subs h' = subs h \<Longrightarrow> waiting h \<subseteq> waiting h' \<union> X \<Longrightarrow> hub_inv_but X h'"
  by (auto simp: hub_inv_but_def)

lemma room_less: "room n h \<Longrightarrow> m \<le> n \<Longrightarrow> room m h"
  by (simp add: room_def)

lemma hub_push_room:
  "room (Suc k) h \<Longrightarrow> hub_push i h = h\<lparr>h_queue := (h_queue h)\<lparr>mq_ch := mq_ch (h_queue h) @ [i]\<rparr>\<rparr>"
  by (simp add: hub_push_def room_def mq_push_room)

lemma hub_frames:
  "subs (publish t p h) = subs h" "waiting (publish t p h) = waiting h"
  "h_queue (publish t p h) = h_queue h" "h_inflight (publish t p h) = h_inflight h"
  "subs (update_conn c f h) = subs h" "waiting (update_conn c f h) = waiting h"
  "h_queue (update_conn c f h) = h_queue h" "h_inflight (update_conn c f h) = h_inflight h"
  "subs (update_daemons P g h) = subs h" "waiting (update_daemons P g h) = waiting h"
  "h_queue (update_daemons P g h) = h_queue h"
  "waiting (update_submission i k h) = waiting h"
  "h_queue (update_submission i k h) = h_queue h"
  "h_inflight (update_submission i k h) = h_inflight h"
  "room n (publish t p h) = room n h" "room n (update_conn c f h) = room n h"
  "room n (update_submission i k h) = room n h" "room n (update_daemons P g h) = room n h"
  "room n (h\<lparr>h_inflight := ys\<rparr>) = room n h" "room n (h\<lparr>h_conns := zs\<rparr>) = room n h"
  "room n (take_hand c i h) = room n h"
  "waiting (h\<lparr>h_inflight := ys\<rparr>) = waiting h" "waiting (h\<lparr>h_conns := zs\<rparr>) = waiting h"
  by (simp_all add: publish_def update_conn_def update_daemons_def update_submission_def waiting_def
      room_def take_hand_def)

lemma subs_update_submission:
  "subs (update_submission i f h) = map (\<lambda>s. if s_ID s = i then f s else s) (subs h)"
  by (simp add: update_submission_def table_simps)

lemma requeue_inv:
  assumes "hub_inv_but X h" and "room (Suc k) h"
  shows "hub_inv_but (X - {i}) (requeue now r i h)" and "room k (requeue now r i h)"
    and "waiting (requeue now r i h) = insert i (waiting h)"
    and "hub_inv_but (X - {i}) (rejudged i h)"
proof -
  let ?h = "update_submission i (\<lambda>s. s\<lparr>s_Status := SubPending, s_LeaseUntil := None\<rparr>) h"
  have push: "hub_push i ?h = ?h\<lparr>h_queue := (h_queue h)\<lparr>mq_ch := mq_ch (h_queue h) @ [i]\<rparr>\<rparr>"
    using assms(2) by (simp add: hub_push_room [of k] hub_frames)
  then have w: "waiting (hub_push i ?h) = insert i (waiting h)"
    by (auto simp: waiting_def update_submission_def)
  have s: "subs (hub_push i ?h) = subs ?h" by (simp add: push)
  show "hub_inv_but (X - {i}) (rejudged i h)"
    using assms(1) by (auto simp: rejudged_def hub_inv_but_def w s subs_update_submission)
  then show "hub_inv_but (X - {i}) (requeue now r i h)"
    by (simp add: rejudged_def requeue_def hub_inv_but_def hub_frames)
  show "waiting (requeue now r i h) = insert i (waiting h)"
    by (simp add: requeue_def hub_frames w)
  show "room k (requeue now r i h)"
    using assms(2) by (simp add: requeue_def hub_frames push) (simp add: room_def)
qed

lemma requeue_many_inv:
  "hub_inv_but {} h \<Longrightarrow> room (length xs) h \<Longrightarrow>
     hub_inv_but {} (fold (\<lambda>s. requeue now r (s_ID s)) xs h)"
proof (induction xs arbitrary: h)
  case (Cons s xs)
  then show ?case
    using requeue_inv(1,2) [where X = "{}" and k = "length xs" and i = "s_ID s"] by simp
qed simp

lemma requeue_orphans_inv:
  "hub_inv_but {} h \<Longrightarrow> room (length is) h \<Longrightarrow> hub_inv_but {} (requeue_orphans e n is h)"
proof (induction "is" arbitrary: h n)
  case (Cons i "is")
  have "hub_inv_but {} (requeue now r i h)" and "room (length is) (requeue now r i h)" for now r
    using requeue_inv(1,2) [where X = "{}" and k = "length is" and i = i] Cons.prems by simp_all
  moreover have "room (length is) h" using Cons.prems by (auto intro: room_less)
  ultimately show ?case
    using Cons by (simp split: option.split)
qed simp

lemma hub_inv_dropConn:
  assumes "hub_inv_but {} h" and "room (length (h_inflight h)) h"
  shows "hub_inv_but {} (dropConn e name c h)"
proof -
  have "length (orphans name h') \<le> length (h_inflight h')" for h'
    by (simp add: orphans_def)
  then have "room (length (orphans name h')) h" if "h_inflight h' = h_inflight h" for h'
    using that assms(2) by (metis room_less)
  then show ?thesis
    unfolding dropConn_def Let_def
    by (intro requeue_orphans_inv)
      (use assms in \<open>auto simp: hub_frames hub_inv_but_def\<close>)
qed

lemma hub_inv_finalize:
  assumes "hub_inv_but {} h" and "final_status (tr_Status tr)"
  shows "hub_inv_but {} (finalize e tr h)"
  using assms
  by (auto simp: finalize_def Let_def hub_inv_but_def hub_frames subs_update_submission final_status_def
      split: option.split)

lemma hub_inv_message:
  assumes "hub_inv_but {} h" and "final_message msg"
  shows "hub_inv_but {} (readLoop_step e c msg h)"
proof (cases msg)
  case (HeartbeatMsg hb)
  then show ?thesis using assms(1)
    by (simp add: readLoop_step_def handleHeartbeat_def Let_def hub_inv_but_def hub_frames)
next
  case (ResultMsg tr)
  have "hub_inv_but {} (update_conn c f h\<lparr>h_inflight := x\<rparr>)" for f x
    using assms(1) by (simp add: update_conn_def hub_inv_but_def waiting_def)
  then show ?thesis
    using ResultMsg assms(2) hub_inv_finalize
    by (simp add: readLoop_step_def handleResult_def Let_def final_message_def)
next
  case (CaseProgressMsg cp)
  then show ?thesis using assms(1)
    by (simp add: readLoop_step_def handleCaseProgress_def hub_inv_but_def hub_frames)
qed (use assms in \<open>simp add: readLoop_step_def\<close>)

lemma take_hand_inv:
  "hub_inv_but {} h \<Longrightarrow> hub_inv_but {i} (take_hand c i h)"
proof (rule hub_inv_but_frame [OF hub_inv_but_mono])
  show "waiting h \<subseteq> waiting (take_hand c i h) \<union> {i}"
  proof
    fix j assume "j \<in> waiting h"
    then consider "j \<in> set (mq_ch (h_queue h))" | d where "(d, j) \<in> set (h_hand h)"
      by (auto simp: waiting_def)
    then show "j \<in> waiting (take_hand c i h) \<union> {i}"
    proof cases
      case 2
      then have "(d, j) \<in> set (remove1 (c, i) (h_hand h)) \<or> j = i"
        by (metis in_set_remove1 snd_conv)
      then show ?thesis by (auto simp: waiting_def take_hand_def intro: rev_image_eqI)
    qed (simp add: waiting_def take_hand_def)
  qed
qed (auto simp: take_hand_def)

lemma hub_inv_mark_judging:
  "hub_inv_but {i} h \<Longrightarrow>
     hub_inv_but {} (update_submission i (\<lambda>s. s\<lparr>s_Status := SubJudging, s_LeaseUntil := Some t\<rparr>) h)"
  by (auto simp: hub_inv_but_def hub_frames subs_update_submission)

lemma hub_inv_update_conn_etc:
  "hub_inv_but X (publish t p h) = hub_inv_but X h"
  "hub_inv_but X (update_conn c f h) = hub_inv_but X h"
  "hub_inv_but X (h\<lparr>h_inflight := ys\<rparr>) = hub_inv_but X h"
  by (simp_all add: hub_inv_but_def hub_frames)

lemma hub_inv_dispatch:
  assumes "hub_inv_but {} h" and "room 1 h" and "env_dbok e 3"
  shows "hub_inv_but {} (fst (dispatchOne e cfg c i sent (take_hand c i h)))"
proof (cases "buildTask e cfg (h_db (take_hand c i h)) i")
  case None
  then show ?thesis
    using requeue_inv(1) [where X = "{i}" and k = 0 and i = i, OF take_hand_inv [OF assms(1)]] assms(2)
    by (simp add: dispatchOne_def hub_frames)
next
  case (Some task)
  then show ?thesis
    using assms(3) hub_inv_mark_judging [OF take_hand_inv [OF assms(1)]]
    by (simp add: dispatchOne_def Let_def hub_inv_update_conn_etc)
qed

lemma hub_inv_scan: "hub_inv_but {} h \<Longrightarrow> room 100 h \<Longrightarrow> hub_inv_but {} (requeueExpired e h)"
  unfolding requeueExpired_def Let_def
  by (auto intro!: requeue_many_inv elim: room_less)

lemma push_all_room:
  "room (length is) h \<Longrightarrow>
     push_all is h = h\<lparr>h_queue := (h_queue h)\<lparr>mq_ch := mq_ch (h_queue h) @ is\<rparr>\<rparr>"
proof (induction "is" arbitrary: h)
  case (Cons i "is")
  then have "mq_push (h_queue h) i = ((h_queue h)\<lparr>mq_ch := mq_ch (h_queue h) @ [i]\<rparr>, None)"
    by (intro mq_push_room) (auto simp: room_def)
  with Cons show ?case by (simp add: room_def)
qed simp

lemma restart_queue:
  assumes "env_dbok e 0" and "length (subs h) \<le> mq_capacity"
  shows "mq_ch (h_queue (RequeuePending e (restarted h))) =
      map s_ID (filter (\<lambda>s. s_Status s = SubPending) (subs h))"
    and "h_db (RequeuePending e (restarted h)) = h_db h"
proof -
  have "length (filter P (subs h)) \<le> mq_capacity" for P
    using assms(2) by (metis length_filter_le order_trans)
  then show "mq_ch (h_queue (RequeuePending e (restarted h))) =
      map s_ID (filter (\<lambda>s. s_Status s = SubPending) (subs h))"
    and "h_db (RequeuePending e (restarted h)) = h_db h"
    using assms(1)
    by (simp_all add: RequeuePending_def restarted_def newMemoryQueue_def tbl_select_def push_all_room
        room_def)
qed

lemma hub_inv_restart:
  assumes "hub_inv_but {} h" and "env_dbok e 0" and "length (subs h) \<le> mq_capacity"
  shows "hub_inv_but {} (RequeuePending e (restarted h))"
  using assms(1) by (auto simp: hub_inv_but_def waiting_def restart_queue [OF assms(2,3)])

lemma hub_inv_connect: "hub_inv_but {} h \<Longrightarrow> hub_inv_but {} (registerConn foc e reg c h)"
  by (simp add: registerConn_def Let_def hub_inv_but_def waiting_def update_conn_def case_prod_unfold
      split: option.split)

lemma hub_inv_submit:
  assumes "hub_inv_but {} h" and "room 1 h" and "\<And>i. s_ID (mk i) = i \<and> s_Status (mk i) = SubPending"
  shows "hub_inv_but {} (submitted mk h)"
  using assms
  by (auto simp: submitted_def Let_def case_prod_unfold hub_inv_but_def waiting_def table_simps
      hub_push_def mq_push_room room_def)

lemma dispatch_pop_SomeD:
  assumes "dispatch_pop c h = Some h'"
  obtains i ch where "mq_ch (h_queue h) = i # ch"
    and "h' = h\<lparr>h_queue := (h_queue h)\<lparr>mq_ch := ch\<rparr>, h_hand := h_hand h @ [(c, i)]\<rparr>"
  using assms by (auto simp: dispatch_pop_def mq_pop_def Let_def split: if_splits list.splits)

lemma hub_inv_pop: "hub_inv_but {} h \<Longrightarrow> dispatch_pop c h = Some h' \<Longrightarrow> hub_inv_but {} h'"
  by (auto elim!: dispatch_pop_SomeD simp: hub_inv_but_def waiting_def)

lemma hub_inv_step: "hub_step cfg foc h h' \<Longrightarrow> hub_inv_but {} h \<Longrightarrow> hub_inv_but {} h'"
proof (induction rule: hub_step.induct)
  case (step_rejudge h i)
  then show ?case using requeue_inv(4) [where X = "{}" and k = 0] by simp
qed (auto intro: hub_inv_connect hub_inv_submit hub_inv_pop hub_inv_dispatch hub_inv_message
    hub_inv_dropConn hub_inv_scan hub_inv_restart)

lemma hub_inv_reachable:
  assumes "(hub_step cfg foc)\<^sup>*\<^sup>* (hub_start s) h"
    and "list_all (\<lambda>x. final_status (s_Status x)) (rows (db_submissions s))"
  shows "hub_inv_but {} h"
  using assms(1)
proof (induction rule: rtranclp_induct)
  case base
  then show ?case
    using assms(2) by (auto simp: hub_inv_but_def hub_start_def list_all_iff final_status_def)
qed (auto intro: hub_inv_step)

section \<open>Properties\<close>


section \<open>A sample run\<close>

definition sample_problem :: Problem where
  "sample_problem = \<lparr>p_ID = 1, p_Title = ''A'', p_StatementMD = [], p_InputDesc = [], p_OutputDesc = [],
     p_Hint = [], p_Source = [], p_Tags = [], p_Samples = [], p_TimeLimitMS = 1000, p_MemLimitMB = 256,
     p_Visibility = VisibilityPublic, p_JudgeMode = JudgeModeDefault, p_ContestID = None,
     p_ReviewStatus = ''approved'', p_CheckerSource = [], p_InteractorSrc = [], p_CreatedBy = 1,
     p_CreatedAt = 0, p_UpdatedAt = 0\<rparr>"

definition pending_sub :: "nat \<Rightarrow> Submission" where
  "pending_sub i = \<lparr>s_ID = i, s_UserID = 1, s_ProblemID = 1, s_ContestID = Some 1, s_Language = ''c'',
     s_CodePath = ''codes'', s_CodeSize = 2, s_Status = SubPending, s_Score = 0, s_TimeMS = 0,
     s_MemoryKB = 0, s_CompileMessage = [], s_Cases = [], s_CreatedAt = 0, s_JudgedAt = None,
     s_LeaseUntil = None, s_IsPractice = False, s_Cancelled = False\<rparr>"

definition sample_case :: "nat \<Rightarrow> int \<Rightarrow> TestCase" where
  "sample_case i idx = \<lparr>tc_ID = i, tc_ProblemID = 1, tc_CaseIndex = idx, tc_InputSHA = ''a'',
     tc_AnswerSHA = ''b'', tc_InputSize = 1, tc_AnswerSize = 1, tc_Score = 50, tc_CreatedAt = 0\<rparr>"

definition hub_db0 :: db where
  "hub_db0 = empty_db\<lparr>db_problems := \<lparr>rows = [sample_problem], seq = 1\<rparr>,
     db_cases := \<lparr>rows = [sample_case 1 2, sample_case 2 1], seq = 2\<rparr>,
     db_files := (\<lambda>p. if p = ''codes'' then Some ''hi'' else None)\<rparr>"

definition sample_cfg :: hub_config where
  "sample_cfg = \<lparr>hc_DaemonSecret = ''s'', hc_FetchBase = ''http''\<rparr>"

definition hub_env :: env where
  "hub_env = \<lparr>env_now = 5, env_dbok = (\<lambda>_. True), env_rand = []\<rparr>"

definition sample_reg :: Register where
  "sample_reg = \<lparr>rg_DaemonName = ''d'', rg_Token = ''s'', rg_Capacity = 2, rg_Languages = [''c''],
     rg_Version = ''v1''\<rparr>"

definition sample_foc :: "JudgeDaemon \<Rightarrow> JudgeDaemon table \<Rightarrow> JudgeDaemon \<times> JudgeDaemon table" where
  "sample_foc info t = tbl_create (\<lambda>i. info\<lparr>jd_ID := i\<rparr>) t"

definition hub_1 :: hub where
  "hub_1 = registerConn sample_foc hub_env sample_reg 7 (submitted pending_sub (hub_start hub_db0))"

definition hub_2 :: hub where
  "hub_2 = fst (dispatchOne hub_env sample_cfg 7 1 True
     (take_hand 7 1 (the (dispatch_pop 7 hub_1))))"

lemmas hub_sample = hub_1_def hub_2_def hub_start_def hub_db0_def empty_db_def empty_table_def
  sample_reg_def sample_foc_def sample_cfg_def hub_env_def newMemoryQueue_def submitted_def
  tbl_create_def hub_push_def mq_push_def mq_capacity_def registerConn_def update_conn_def
  pending_sub_def

lemma hub_1_pop:
  "dispatch_pop 7 hub_1 = Some (hub_1\<lparr>h_queue := \<lparr>mq_ch = [], mq_closed = False\<rparr>, h_hand := [(7, 1)]\<rparr>)"
  by (simp add: hub_sample dispatch_pop_def mq_pop_def Let_def)

lemma hub_2_eq:
  "hub_2 = fst (dispatchOne hub_env sample_cfg 7 1 True
     (hub_1\<lparr>h_queue := \<lparr>mq_ch = [], mq_closed = False\<rparr>, h_hand := []\<rparr>))"
  by (simp add: hub_2_def hub_1_pop take_hand_def)

lemma hub_1_reachable: "(hub_step sample_cfg sample_foc)\<^sup>*\<^sup>* (hub_start hub_db0) hub_1"
proof -
  let ?step = "hub_step sample_cfg sample_foc" and ?h = "submitted pending_sub (hub_start hub_db0)"
  have "?step (hub_start hub_db0) ?h"
    by (rule step_submit) (simp_all add: room_def hub_start_def newMemoryQueue_def mq_capacity_def
        pending_sub_def)
  moreover have "?step ?h hub_1"
    unfolding hub_1_def
    by (rule step_connect [of _ "Some (RegisterMsg sample_reg)"])
      (simp add: awaitRegister_def sample_reg_def sample_cfg_def)
  ultimately show ?thesis
    by (meson rtranclp.rtrancl_refl rtranclp.rtrancl_into_rtrancl)
qed

lemma hub_2_reachable: "(hub_step sample_cfg sample_foc)\<^sup>*\<^sup>* (hub_start hub_db0) hub_2"
proof -
  let ?step = "hub_step sample_cfg sample_foc"
  have "?step hub_1 (the (dispatch_pop 7 hub_1))"
    by (rule step_pop [of 7]) (simp add: hub_1_pop)
  moreover have "?step (the (dispatch_pop 7 hub_1)) hub_2"
    unfolding hub_2_def
    by (rule step_dispatch) (simp_all add: hub_1_pop room_def mq_capacity_def hub_env_def)
  ultimately show ?thesis
    using hub_1_reachable by (meson rtranclp.rtrancl_into_rtrancl)
qed


section \<open>Leases\<close>

lemma fold_requeue:
  "room (length xs) h \<Longrightarrow>
     subs (fold (\<lambda>s. requeue now r (s_ID s)) xs h) =
       map (\<lambda>s. if s_ID s \<in> s_ID ` set xs then s\<lparr>s_Status := SubPending, s_LeaseUntil := None\<rparr> else s)
         (subs h)
     \<and> mq_ch (h_queue (fold (\<lambda>s. requeue now r (s_ID s)) xs h)) = mq_ch (h_queue h) @ map s_ID xs"
proof (induction xs arbitrary: h)
  case (Cons x xs)
  have push: "hub_push (s_ID x) h' = h'\<lparr>h_queue := (h_queue h)\<lparr>mq_ch := mq_ch (h_queue h) @ [s_ID x]\<rparr>\<rparr>"
    if "h_queue h' = h_queue h" for h'
    using that Cons.prems hub_push_room [of "length xs" h'] by (simp add: room_def)
  have "room (length xs) (requeue now r (s_ID x) h)"
    using Cons.prems by (simp add: requeue_def push hub_frames) (simp add: room_def)
  from Cons.IH [OF this] show ?case
    by (auto simp: requeue_def push hub_frames update_submission_def table_simps)
qed simp

lemma lease_scan:
  assumes "env_dbok e 0" and "tbl_ok s_ID (db_submissions (h_db h))" and "room 100 h"
    and "length (filter (lease_expired (env_now e - leaseDuration)) (subs h)) \<le> 100"
  shows "subs (requeueExpired e h) = map (\<lambda>s. if lease_expired (env_now e - leaseDuration) s
           then s\<lparr>s_Status := SubPending, s_LeaseUntil := None\<rparr> else s) (subs h)"
    and "mq_ch (h_queue (requeueExpired e h)) = mq_ch (h_queue h) @
           map s_ID (filter (lease_expired (env_now e - leaseDuration)) (subs h))"
proof -
  let ?xs = "filter (lease_expired (env_now e - leaseDuration)) (subs h)"
  have fold: "requeueExpired e h = fold (\<lambda>s. requeue (env_now e) ''lease expired'' (s_ID s)) ?xs h"
    using assms(1,4) by (simp add: requeueExpired_def Let_def tbl_select_def)
  have "s_ID s \<in> s_ID ` set ?xs \<longleftrightarrow> lease_expired (env_now e - leaseDuration) s" if "s \<in> set (subs h)" for s
    using that tbl_ok_unique [OF assms(2)] by force
  then show "subs (requeueExpired e h) = map (\<lambda>s. if lease_expired (env_now e - leaseDuration) s
           then s\<lparr>s_Status := SubPending, s_LeaseUntil := None\<rparr> else s) (subs h)"
    and "mq_ch (h_queue (requeueExpired e h)) = mq_ch (h_queue h) @ map s_ID ?xs"
    using fold_requeue [of ?xs h] room_less [OF assms(3,4)] by (auto simp: fold)
qed

text \<open>
  A submission whose daemon died is taken back: one scan turns exactly the judging submissions whose
  lease ran out more than a lease duration ago into pending ones, puts exactly these at the end of
  the queue, and leaves every other submission as it was.
\<close>

theorem lease_scan_exact:
  assumes "env_dbok e 0" and "tbl_ok s_ID (db_submissions (h_db h))" and "room 100 h"
    and "length (filter (lease_expired (env_now e - leaseDuration)) (rows (db_submissions (h_db h)))) \<le> 100"
  shows "rows (db_submissions (h_db (requeueExpired e h))) =
      map (\<lambda>s. if lease_expired (env_now e - leaseDuration) s
               then s\<lparr>s_Status := SubPending, s_LeaseUntil := None\<rparr> else s)
        (rows (db_submissions (h_db h)))
    \<and> mq_ch (h_queue (requeueExpired e h)) = mq_ch (h_queue h) @
        map s_ID (filter (lease_expired (env_now e - leaseDuration)) (rows (db_submissions (h_db h))))"
  using lease_scan [OF assms] by simp

definition expired_hub :: hub where
  "expired_hub = (hub_start empty_db)\<lparr>h_db := empty_db\<lparr>db_submissions :=
     \<lparr>rows = [(pending_sub 1)\<lparr>s_Status := SubJudging, s_LeaseUntil := Some (- leaseDuration)\<rparr>,
              (pending_sub 2)\<lparr>s_Status := SubJudging, s_LeaseUntil := Some 0\<rparr>], seq = 2\<rparr>\<rparr>\<rparr>"

theorem lease_scan_exact_witness:
  "map s_Status (rows (db_submissions (h_db (requeueExpired hub_env expired_hub)))) = [SubPending, SubJudging]
   \<and> mq_ch (h_queue (requeueExpired hub_env expired_hub)) = [1]"
proof -
  have "tbl_ok s_ID (db_submissions (h_db expired_hub))" and "room 100 expired_hub"
    by (simp_all add: expired_hub_def tbl_ok_def room_def hub_start_def newMemoryQueue_def
        mq_capacity_def pending_sub_def)
  with lease_scan_exact [of hub_env expired_hub] show ?thesis
    by (simp add: expired_hub_def lease_expired_def hub_env_def pending_sub_def leaseDuration_def
        minute_def second_def hub_start_def newMemoryQueue_def)
qed

text \<open>
  A lease given at \<open>t\<close> already ends at \<open>t + 15\<close> minutes; the scan waits for another 15 minutes, so the
  submission stays with a dead daemon for half an hour.
\<close>

theorem lease_lasts_thirty_minutes:
  assumes "s_LeaseUntil s = Some (t + leaseDuration)" and "now \<le> t + 30 * minute"
  shows "\<not> lease_expired (now - leaseDuration) s"
  using assms by (simp add: lease_expired_def leaseDuration_def)

section \<open>Dispatch and results\<close>

interpretation case_order: strict_less "\<lambda>a b. tc_CaseIndex a < tc_CaseIndex b"
  by unfold_locales auto

lemma manifest_complete:
  "mset (manifest s pid) = mset (filter (\<lambda>t. tc_ProblemID t = pid) (rows (db_cases s)))"
  by (simp add: manifest_def tbl_select_def)

lemma manifest_sorted: "sorted (map tc_CaseIndex (manifest s pid))"
  using case_order.sorted_sort_by [of "tbl_select (\<lambda>t. tc_ProblemID t = pid) (db_cases s)"]
  by (simp add: manifest_def sorted_map not_less)

text \<open>
  What a daemon is given: when the submission, its problem and its code can be read, a dispatch sends
  one task with the stored code, the limits and mode of the problem and the problem's test cases in
  ascending case order, none missing and none twice; it stops at the first failing case exactly for
  a counted contest attempt; and the submission is then judging under a lease and in the in-flight
  table for that daemon.
\<close>

theorem dispatched_task:
  assumes "env_dbok e = (\<lambda>_. True)"
    and "byID s_ID (db_submissions (h_db h)) i = Some sub"
    and "byID p_ID (db_problems (h_db h)) (s_ProblemID sub) = Some prob"
    and "db_files (h_db h) (s_CodePath sub) = Some code"
    and "h' = fst (dispatchOne e cfg c i True h)"
  shows "\<exists>task cases.
      dc_send (h_conn h' c) = dc_send (h_conn h c) @ [task]
      \<and> jt_SubmissionId task = i \<and> jt_Code task = code \<and> jt_JudgeMode task = p_JudgeMode prob
      \<and> jt_TimeLimitMs task = p_TimeLimitMS prob \<and> jt_MemLimitMb task = p_MemLimitMB prob
      \<and> jt_StopOnFail task = (s_ContestID sub \<noteq> None \<and> \<not> s_IsPractice sub)
      \<and> jt_Cases task = map case_ref cases \<and> sorted (map tc_CaseIndex cases)
      \<and> mset cases = mset (filter (\<lambda>t. tc_ProblemID t = p_ID prob) (rows (db_cases (h_db h))))
      \<and> map_of (h_inflight h') i = Some (jd_Name (dc_info (h_conn h c)))
      \<and> rows (db_submissions (h_db h')) =
          map (\<lambda>s. if s_ID s = i
                   then s\<lparr>s_Status := SubJudging, s_LeaseUntil := Some (env_now e + leaseDuration)\<rparr>
                   else s) (rows (db_submissions (h_db h)))"
proof -
  obtain task where task: "buildTask e cfg (h_db h) i = Some task"
    and fields: "jt_SubmissionId task = i" "jt_Code task = code" "jt_JudgeMode task = p_JudgeMode prob"
      "jt_TimeLimitMs task = p_TimeLimitMS prob" "jt_MemLimitMb task = p_MemLimitMB prob"
      "jt_StopOnFail task = (s_ContestID sub \<noteq> None \<and> \<not> s_IsPractice sub)"
      "jt_Cases task = map case_ref (manifest (h_db h) (p_ID prob))"
    using assms(1-4) by (simp add: buildTask_def)
  have "dc_send (h_conn h' c) = dc_send (h_conn h c) @ [task]"
    and "map_of (h_inflight h') i = Some (jd_Name (dc_info (h_conn h c)))"
    and "rows (db_submissions (h_db h')) =
      map (\<lambda>s. if s_ID s = i
               then s\<lparr>s_Status := SubJudging, s_LeaseUntil := Some (env_now e + leaseDuration)\<rparr>
               else s) (rows (db_submissions (h_db h)))"
    using task assms(1,5)
    by (simp_all add: dispatchOne_def Let_def publish_def update_conn_def update_submission_def
        table_simps update_conv')
  with fields manifest_complete manifest_sorted show ?thesis by blast
qed

theorem dispatched_task_witness:
  "\<exists>task cases. dc_send (h_conn hub_2 7) = [task]
      \<and> jt_Code task = ''hi'' \<and> jt_Cases task = map case_ref cases \<and> sorted (map tc_CaseIndex cases)
      \<and> mset cases = {# sample_case 1 2, sample_case 2 1 #}"
proof -
  from dispatched_task [OF _ _ _ _ hub_2_eq, of "pending_sub 1" sample_problem "''hi''"] show ?thesis
    by (auto simp: hub_sample(1,3-) Let_def byID_def tbl_first_def sample_problem_def sample_case_def)
qed

text \<open>
  A verdict that reaches the server is stored completely: when the submission exists and the database
  works, its row has the daemon's status, score, resource usage and cases in the daemon's order, a
  system error's detail in the compile message, a judging time and no lease, its id has left the
  in-flight table, no other submission changed, and the subscribers of the submission and of its
  contest were told.
\<close>

theorem result_persisted:
  assumes "tbl_ok s_ID (db_submissions (h_db h))" and "sub \<in> set (rows (db_submissions (h_db h)))"
    and "tr_SubmissionId tr = s_ID sub" and "env_dbok e = (\<lambda>_. True)"
    and "h' = handleResult e c tr h"
  shows "byID s_ID (db_submissions (h_db h')) (s_ID sub) =
      Some (sub\<lparr>s_Status := tr_Status tr, s_TimeMS := tr_TimeMs tr, s_MemoryKB := tr_MemoryKb tr,
        s_Score := tr_Score tr, s_CompileMessage := compile_text tr,
        s_Cases := toModelCases (tr_Cases tr), s_JudgedAt := Some (env_now e), s_LeaseUntil := None\<rparr>)
    \<and> filter (\<lambda>s. s_ID s \<noteq> s_ID sub) (rows (db_submissions (h_db h'))) =
        filter (\<lambda>s. s_ID s \<noteq> s_ID sub) (rows (db_submissions (h_db h)))
    \<and> map_of (h_inflight h') (s_ID sub) = None
    \<and> map fst (drop (length (h_events h)) (h_events h')) =
        submission_topic (s_ID sub) #
          (case s_ContestID sub of None \<Rightarrow> [] | Some k \<Rightarrow> [contest_topic k]) @ [''plugin'']"
proof -
  let ?f = "\<lambda>s. s\<lparr>s_Status := tr_Status tr, s_TimeMS := tr_TimeMs tr, s_MemoryKB := tr_MemoryKb tr,
        s_Score := tr_Score tr, s_CompileMessage := compile_text tr,
        s_Cases := toModelCases (tr_Cases tr), s_JudgedAt := Some (env_now e), s_LeaseUntil := None\<rparr>"
  have find: "byID s_ID (db_submissions (h_db h)) (s_ID sub) = Some sub"
    using assms(1,2) by (rule byID_row)
  have db: "db_submissions (h_db h') =
      tbl_update (\<lambda>s. s_ID s = s_ID sub) ?f (db_submissions (h_db h))"
    using assms(3-5) find
    by (simp add: handleResult_def finalize_def Let_def update_conn_def publish_def
        update_submission_def split: option.split)
  have "tbl_ok s_ID (db_submissions (h_db h'))"
    unfolding db by (rule tbl_ok_update [OF assms(1)]) simp
  moreover have "?f sub \<in> set (rows (db_submissions (h_db h')))"
    using assms(2) by (force simp: db table_simps)
  ultimately have "byID s_ID (db_submissions (h_db h')) (s_ID (?f sub)) = Some (?f sub)"
    by (rule byID_row)
  moreover have "filter (\<lambda>s. s_ID s \<noteq> s_ID sub) (rows (db_submissions (h_db h'))) =
      filter (\<lambda>s. s_ID s \<noteq> s_ID sub) (rows (db_submissions (h_db h)))"
  proof -
    have "filter (\<lambda>s. s_ID s \<noteq> s_ID sub) (map (\<lambda>s. if s_ID s = s_ID sub then ?f s else s) xs) =
        filter (\<lambda>s. s_ID s \<noteq> s_ID sub) xs" for xs
      by (induction xs) auto
    then show ?thesis by (simp only: db table_simps)
  qed
  moreover have "map_of (h_inflight h') (s_ID sub) = None"
    and "map fst (drop (length (h_events h)) (h_events h')) =
      submission_topic (s_ID sub) #
        (case s_ContestID sub of None \<Rightarrow> [] | Some k \<Rightarrow> [contest_topic k]) @ [''plugin'']"
    using assms(3-5) find
    by (simp_all add: handleResult_def finalize_def Let_def update_conn_def publish_def
        update_submission_def delete_conv' split: option.split)
  ultimately show ?thesis by simp
qed

definition sample_result :: TaskResult where
  "sample_result = \<lparr>tr_SubmissionId = 1, tr_Status = SubSE, tr_TimeMs = 3, tr_MemoryKb = 4,
     tr_CompileMessage = ''m'', tr_Cases = [], tr_Error = ''disk'', tr_Score = 0\<rparr>"

definition judging_sub :: Submission where
  "judging_sub = (pending_sub 1)\<lparr>s_Status := SubJudging, s_LeaseUntil := Some (5 + leaseDuration)\<rparr>"

theorem result_persisted_witness:
  "map_option s_Status (byID s_ID (db_submissions (h_db
      (handleResult hub_env 7 sample_result hub_2))) 1) = Some SubSE
   \<and> map_of (h_inflight (handleResult hub_env 7 sample_result hub_2)) 1 = None"
proof -
  have sub: "rows (db_submissions (h_db hub_2)) = [judging_sub]" "seq (db_submissions (h_db hub_2)) = 1"
    by (simp_all add: hub_2_eq dispatchOne_def buildTask_def hub_sample(1,3-)
        Let_def byID_def tbl_first_def sample_problem_def update_submission_def publish_def
        table_simps judging_sub_def tbl_update_def)
  then have "tbl_ok s_ID (db_submissions (h_db hub_2))"
    by (simp add: tbl_ok_def judging_sub_def pending_sub_def)
  from result_persisted [OF this, of judging_sub sample_result hub_env _ 7] show ?thesis
    by (simp add: sub) (simp add: sample_result_def judging_sub_def pending_sub_def hub_env_def)
qed

text \<open>
  The database is the source of truth: whatever was queued, in flight or in the hands of a dispatch
  loop when the server died, a new process starts with a queue that holds exactly the pending
  submissions, oldest first, each once.
\<close>

theorem restart_requeues_pending:
  assumes "env_dbok e 0" and "length (rows (db_submissions (h_db h))) \<le> mq_capacity"
    and "tbl_ok s_ID (db_submissions (h_db h))"
  shows "mq_ch (h_queue (RequeuePending e (restarted h))) =
      map s_ID (filter (\<lambda>s. s_Status s = SubPending) (rows (db_submissions (h_db h))))
    \<and> sorted_wrt (<) (mq_ch (h_queue (RequeuePending e (restarted h))))
    \<and> rows (db_submissions (h_db (RequeuePending e (restarted h)))) = rows (db_submissions (h_db h))"
  using assms(3)
  by (simp add: restart_queue [OF assms(1,2)] tbl_ok_def sorted_wrt_map sorted_wrt_filter)

theorem restart_requeues_pending_witness:
  "mq_ch (h_queue (RequeuePending hub_env (restarted
     (hub_start (empty_db\<lparr>db_submissions := \<lparr>rows = [pending_sub 1, judging_sub\<lparr>s_ID := 2\<rparr>, pending_sub 4],
        seq = 4\<rparr>\<rparr>))))) = [1, 4]"
  using restart_requeues_pending [of hub_env "hub_start (empty_db\<lparr>db_submissions :=
      \<lparr>rows = [pending_sub 1, judging_sub\<lparr>s_ID := 2\<rparr>, pending_sub 4], seq = 4\<rparr>\<rparr>)"]
  by (simp add: hub_env_def hub_start_def mq_capacity_def tbl_ok_def pending_sub_def judging_sub_def)

text \<open>
  Case progress is broadcast only for a submission in flight at a daemon of the connection's name;
  a final result is not checked in this way.
\<close>

theorem foreign_progress_dropped:
  assumes "map_of (h_inflight h) (pg_SubmissionId cp) \<noteq> Some (jd_Name (dc_info (h_conn h c)))"
  shows "readLoop_step e c (CaseProgressMsg cp) h = h"
  using assms by (simp add: readLoop_step_def handleCaseProgress_def)

text \<open>
  When the statement that marks a submission as judging fails, the dispatcher drops the popped id:
  the submission stays pending outside the queue until the next restart.
\<close>

theorem mark_judging_failure_drops_task:
  assumes "buildTask e cfg (h_db h) i = Some task" and "\<not> env_dbok e 3"
  shows "dispatchOne e cfg c i sent h = (h, True)"
  using assms by (simp add: dispatchOne_def Let_def)

text \<open>
  A daemon that reconnects under its name before its old stream is dropped loses the tasks of the new
  connection: the clean-up of the old one empties the in-flight table by name and marks the daemon
  offline although the new connection stays registered.
\<close>

theorem stale_drop_hits_successor:
  assumes "map_of (h_conns h) name = Some c'" and "c' \<noteq> c" and "h_inflight h = [(i, name)]"
    and "byID s_ID (db_submissions (h_db h)) i = None"
  shows "h_inflight (dropConn e name c h) = [] \<and> map_of (h_conns (dropConn e name c h)) name = Some c'
    \<and> list_all (\<lambda>d. jd_Name d \<noteq> name \<or> jd_Status d = DaemonOffline)
        (rows (db_daemons (h_db (dropConn e name c h))))"
proof -
  let ?off = "\<lambda>d. d\<lparr>jd_Status := DaemonOffline, jd_ActiveTasks := 0\<rparr>"
  have "dropConn e name c h = update_daemons (\<lambda>d. jd_Name d = name) ?off
      ((update_conn c (\<lambda>d. d\<lparr>dc_done := True\<rparr>) h)\<lparr>h_inflight := []\<rparr>)"
    using assms by (simp add: dropConn_def Let_def orphans_def update_conn_def update_daemons_def)
  then show ?thesis
    unfolding update_daemons_def update_conn_def
    by (simp add: table_simps list.pred_map comp_def assms(1)) (simp add: list_all_iff)
qed

end
