(* ===== verification/Daemon.thy ===== *)
theory Daemon
  imports Judge_Hub Judge_Service
begin

text \<open>
  The judge machine's client, \<open>backend/internal/daemon/daemon.go\<close>: the conversions between wire
  messages and the judge's own types, the handling of one task and the reconnect backoff.  Here the
  two ends of the relay meet: what the hub sends is what the judge works on, what the judge reports
  is what the hub stores, and the judge keeps the promise about statuses the hub's invariant needs.
\<close>

section \<open>Conversions\<close>

definition fromPbCase :: "PbCaseRef \<Rightarrow> JCaseRef" where
  "fromPbCase c =
     \<lparr>jr_Index = pr_Index c, jr_InputSHA = pr_InputSha256 c, jr_AnswerSHA = pr_AnswerSha256 c,
      jr_InputSize = pr_InputSize c, jr_AnswerSize = pr_AnswerSize c, jr_Score = pr_Score c\<rparr>"

definition fromPbTask :: "JudgeTask \<Rightarrow> Task" where
  "fromPbTask t =
     \<lparr>k_SubmissionID = jt_SubmissionId t, k_ProblemID = jt_ProblemId t, k_LanguageID = jt_LanguageId t,
      k_Code = jt_Code t, k_TimeLimitMS = jt_TimeLimitMs t, k_MemLimitMB = jt_MemLimitMb t,
      k_JudgeMode = jt_JudgeMode t, k_CheckerSource = jt_CheckerSource t,
      k_InteractorSource = jt_InteractorSource t, k_Cases = map fromPbCase (jt_Cases t),
      k_StopOnFail = jt_StopOnFail t\<rparr>"

definition toPbCases :: "JCaseResult list \<Rightarrow> PbCaseResult list" where
  "toPbCases cases =
     map (\<lambda>c. \<lparr>pc_Index = i32 (jc_Index c), pc_Status = jc_Status c, pc_TimeMs = jc_TimeMS c,
                pc_MemoryKb = jc_MemKB c, pc_Message = jc_Message c, pc_Score = jc_Score c\<rparr>) cases"

definition case_progress :: "JudgeTask \<Rightarrow> JCaseResult \<Rightarrow> CaseProgress" where
  "case_progress task cr =
     \<lparr>pg_SubmissionId = jt_SubmissionId task, pg_Index = i32 (jc_Index cr), pg_Status = jc_Status cr,
      pg_TimeMs = jc_TimeMS cr, pg_MemoryKb = jc_MemKB cr, pg_Score = jc_Score cr,
      pg_Total = i32 (int (length (jt_Cases task)))\<rparr>"

definition task_result :: "JudgeTask \<Rightarrow> JResult \<Rightarrow> TaskResult" where
  "task_result task res =
     \<lparr>tr_SubmissionId = jt_SubmissionId task, tr_Status = jx_Status res, tr_TimeMs = jx_TimeMS res,
      tr_MemoryKb = jx_MemKB res, tr_CompileMessage = jx_CompileMessage res,
      tr_Cases = toPbCases (jx_Cases res), tr_Error = jx_Error res, tr_Score = jx_Score res\<rparr>"

text \<open>The final message of a task; the progress messages before it are best effort.\<close>

definition runTask :: "host \<Rightarrow> Service \<Rightarrow> nat list \<Rightarrow> JudgeTask \<Rightarrow> fs \<Rightarrow> fs \<times> DaemonMessage" where
  "runTask ho sv order task f =
     (case Run ho sv order (fromPbTask task) f of (f', res) \<Rightarrow> (f', ResultMsg (task_result task res)))"

definition next_backoff :: "duration \<Rightarrow> duration" where
  "next_backoff b = min (b * 2) (30 * second)"

section \<open>The two ends meet\<close>

lemma daemon_reports_final:
  "final_message (snd (runTask (with_sandbox ho m p) sv order task f))"
  using Run_final [of ho m p sv order "fromPbTask task" f]
  by (auto simp: runTask_def final_message_def task_result_def final_run_def final_verdicts_def
      final_status_def split: prod.split)


text \<open>
  Test cases and results survive the wire: for indices and scores that fit 32 bits, the judge works on
  exactly the test cases of the problem with their indices, digests, sizes and scores, and the
  submission row receives exactly the case results the judge computed.
\<close>

theorem relay_roundtrip:
  assumes "list_all (\<lambda>t. \<bar>tc_CaseIndex t\<bar> < 2 ^ 31 \<and> \<bar>tc_Score t\<bar> < 2 ^ 31) tests"
    and "list_all (\<lambda>c. \<bar>jc_Index c\<bar> < 2 ^ 31) results"
  shows "map fromPbCase (map case_ref tests) =
      map (\<lambda>t. \<lparr>jr_Index = tc_CaseIndex t, jr_InputSHA = tc_InputSHA t, jr_AnswerSHA = tc_AnswerSHA t,
                 jr_InputSize = tc_InputSize t, jr_AnswerSize = tc_AnswerSize t, jr_Score = tc_Score t\<rparr>) tests
    \<and> toModelCases (toPbCases results) =
      map (\<lambda>c. \<lparr>cr_Index = jc_Index c, cr_Status = jc_Status c, cr_TimeMS = jc_TimeMS c,
                 cr_MemKB = jc_MemKB c, cr_Message = jc_Message c, cr_Score = jc_Score c\<rparr>) results"
  using assms
  by (auto simp: list_all_iff case_ref_def fromPbCase_def toModelCases_def toPbCases_def i32_fits abs_less_iff)

theorem relay_roundtrip_witness:
  "map jr_Index (map fromPbCase (map case_ref [sample_case 1 2, sample_case 2 1])) = [2, 1]
   \<and> map cr_Score (toModelCases (toPbCases [\<lparr>jc_Index = 3, jc_Status = ''AC'', jc_TimeMS = 1, jc_MemKB = 1,
        jc_Message = [], jc_Score = 7\<rparr>])) = [7]"
  using relay_roundtrip [of "[sample_case 1 2, sample_case 2 1]" "[\<lparr>jc_Index = 3, jc_Status = ''AC'',
      jc_TimeMS = 1, jc_MemKB = 1, jc_Message = [], jc_Score = 7\<rparr>]"]
  by (simp add: sample_case_def)

text \<open>The wait before the n-th reconnect attempt doubles from one second and stays at thirty.\<close>

lemma backoff_closed_form: "(next_backoff ^^ n) second = min (2 ^ n * second) (30 * second)"
proof (induction n)
  case (Suc n)
  then show ?case by (auto simp: next_backoff_def second_def)
qed (simp add: second_def)

end
