(* ===== verification/Contest_Admin.thy ===== *)
theory Contest_Admin
  imports Board_Views Task_Queue Go_Strings
begin

text \<open>
  Managing contests: creation, update and the problem set (\<open>contests.go\<close>); the jury's operations are in
  \<open>Jury\<close>.  A request body is the bound record, or \<open>None\<close> when binding fails.  In loops the checked database statements are numbered
  by a counter passed along.  The server's state for handlers that push tasks is the database with
  the queue.
\<close>

section \<open>Request bodies\<close>

record contestPayload =
  q_Title :: string
  q_Description :: string
  q_Mode :: string
  q_Visibility :: string
  q_StartTime :: time
  q_EndTime :: time
  q_FreezeTime :: "time option"
  q_FreezeEnabled :: "bool option"
  q_NoManualFreeze :: "bool option"
  q_RequireRegistration :: "bool option"
  q_TeamMode :: "bool option"

definition teamModeOption :: "contestPayload \<Rightarrow> Contest \<Rightarrow> bool \<Rightarrow> Contest" where
  "teamModeOption p contest created =
     (case q_TeamMode p of
        Some b \<Rightarrow>
          (let contest = contest\<lparr>c_TeamMode := b\<rparr>
           in if \<not> b then contest\<lparr>c_TeamCapacity := 0\<rparr>
              else if c_TeamCapacity contest = 0 then contest\<lparr>c_TeamCapacity := 3\<rparr>
              else contest)
      | None \<Rightarrow> if created then contest\<lparr>c_TeamMode := False\<rparr> else contest)"

definition freezeOptions :: "contestPayload \<Rightarrow> Contest \<Rightarrow> Contest" where
  "freezeOptions p contest =
     (let contest = (case q_FreezeEnabled p of
            Some b \<Rightarrow>
              (let contest = contest\<lparr>c_FreezeEnabled := b\<rparr>
               in if \<not> b then contest\<lparr>c_FreezeTime := None, c_ManualFrozen := False, c_ManualFrozenAt := None\<rparr>
                  else contest)
          | None \<Rightarrow>
              if c_FreezeTime contest = None \<and> c_ID contest = 0 then contest\<lparr>c_FreezeEnabled := True\<rparr>
              else contest)
      in case q_NoManualFreeze p of
           Some b \<Rightarrow>
             (let contest = contest\<lparr>c_NoManualFreeze := b\<rparr>
              in if b then contest\<lparr>c_ManualFrozen := False, c_ManualFrozenAt := None\<rparr> else contest)
         | None \<Rightarrow> if c_ID contest = 0 then contest\<lparr>c_NoManualFreeze := False\<rparr> else contest)"

definition registrationOption :: "contestPayload \<Rightarrow> Contest \<Rightarrow> bool \<Rightarrow> Contest" where
  "registrationOption p contest created =
     (case q_RequireRegistration p of
        Some b \<Rightarrow> contest\<lparr>c_RequireRegistration := Some b\<rparr>
      | None \<Rightarrow> if created then contest\<lparr>c_RequireRegistration := Some True\<rparr> else contest)"

section \<open>Creating and updating\<close>

text \<open>
  A column with a default gets the default when a row is created with the zero value: the column
  \<open>freeze_enabled\<close> is declared \<open>default:true\<close>.
\<close>

definition orm_default :: "bool \<Rightarrow> bool \<Rightarrow> bool" where
  "orm_default d b = (if b then True else d)"

definition new_contest :: "env \<Rightarrow> contestPayload \<Rightarrow> nat \<Rightarrow> Contest" where
  "new_contest e p uid =
     \<lparr>c_ID = 0, c_Title = q_Title p, c_Description = q_Description p,
      c_Mode = (if q_Mode p = ContestModeIOI then ContestModeIOI else ContestModeACM),
      c_Visibility = orDefault (q_Visibility p) ''public'', c_StartTime = q_StartTime p,
      c_EndTime = q_EndTime p, c_FreezeTime = q_FreezeTime p, c_FreezeEnabled = False,
      c_NoManualFreeze = False, c_ManualFrozen = False, c_ManualFrozenAt = None, c_RevealCount = 0,
      c_RequireRegistration = None, c_TeamMode = False, c_TeamCapacity = 0, c_CreatedBy = uid,
      c_CreatedAt = env_now e\<rparr>"

definition createContest ::
  "env \<Rightarrow> Claims \<Rightarrow> contestPayload option \<Rightarrow> db \<Rightarrow> (db, Contest) handled" where
  "createContest e cl body s =
     (case body of
        None \<Rightarrow> (s, Inl (HTTP 400 ''invalid payload''))
      | Some p \<Rightarrow>
          if q_Title p = [] then (s, Inl (HTTP 400 ''invalid payload''))
          else if \<not> q_StartTime p < q_EndTime p then
            (s, Inl (HTTP 400 ''end_time must be after start_time''))
          else
            let contest = teamModeOption p
                  (registrationOption p (freezeOptions p (new_contest e p (cl_UserID cl))) True) True
            in if \<not> env_dbok e 0 then (s, Inl (HTTP 500 ''create contest failed''))
               else
                 let (row, t) = tbl_create (\<lambda>i. contest\<lparr>c_ID := i,
                       c_FreezeEnabled := orm_default True (c_FreezeEnabled contest)\<rparr>) (db_contests s)
                 in (s\<lparr>db_contests := t\<rparr>, Inr row))"

definition updateContest ::
  "Claims option \<Rightarrow> string \<Rightarrow> contestPayload option \<Rightarrow> db \<Rightarrow> (db, Contest) handled" where
  "updateContest cl idstr body s =
     (case contestByID s idstr of
        None \<Rightarrow> (s, Inl (HTTP 404 ''contest not found''))
      | Some contest \<Rightarrow>
          if \<not> canManageContest cl contest then (s, Inl (HTTP 403 ''not allowed''))
          else case body of
            None \<Rightarrow> (s, Inl (HTTP 400 ''invalid payload''))
          | Some p \<Rightarrow>
              if q_Title p = [] then (s, Inl (HTTP 400 ''invalid payload''))
              else
                let new = contest\<lparr>c_Title := q_Title p, c_Description := q_Description p,
                      c_Visibility := orDefault (q_Visibility p) ''public'',
                      c_StartTime := q_StartTime p, c_EndTime := q_EndTime p,
                      c_FreezeTime := q_FreezeTime p\<rparr>;
                    new = teamModeOption p (registrationOption p (freezeOptions p new) False) False
                in (s\<lparr>db_contests := tbl_update (\<lambda>r. c_ID r = c_ID contest) (\<lambda>_. new) (db_contests s)\<rparr>,
                    Inr new))"

definition listContests :: "Claims option \<Rightarrow> db \<Rightarrow> Contest list" where
  "listContests cl s =
     (let all = (case cl of None \<Rightarrow> False | Some c \<Rightarrow> isSetterRole (cl_Role c))
      in take 100 (sort_by (\<lambda>a b. c_StartTime a > c_StartTime b)
           (tbl_select (\<lambda>c. all \<or> c_Visibility c = ''public'') (db_contests s))))"

record contest_reply =
  cy_contest :: Contest
  cy_problems :: "(string \<times> nat \<times> string \<times> int \<times> int) list"
  cy_notices :: "ContestNotice list"
  cy_is_judge :: bool

definition contest_notices :: "db \<Rightarrow> nat \<Rightarrow> ContestNotice list" where
  "contest_notices s cid =
     take 50 (rev (tbl_select (\<lambda>n. cn_ContestID n = cid) (db_notices s)))"

definition getContest :: "Claims option \<Rightarrow> string \<Rightarrow> db \<Rightarrow> http_error + contest_reply" where
  "getContest cl idstr s =
     (case contestByID s idstr of
        None \<Rightarrow> Inl (HTTP 404 ''contest not found'')
      | Some contest \<Rightarrow>
          if \<not> canViewContest cl contest then Inl (HTTP 404 ''contest not found'')
          else
            Inr \<lparr>cy_contest = contest,
                 cy_problems = List.map_filter
                   (\<lambda>link. map_option
                      (\<lambda>p. (cp_Label link, p_ID p, p_Title p, p_TimeLimitMS p, p_MemLimitMB p))
                      (byID p_ID (db_problems s) (cp_ProblemID link))) (contest_links s contest),
                 cy_notices = contest_notices s (c_ID contest),
                 cy_is_judge = canJudgeContest cl contest\<rparr>)"

section \<open>The problem set\<close>

definition labelFor :: "nat \<Rightarrow> string" where
  "labelFor i = (if i < 26 then [char_of (65 + i)] else CHR ''A'' # nat_str (i - 25))"

text \<open>The files of one directory copied into another; directories are the prefixes of paths.\<close>

definition copyDir :: "string \<Rightarrow> string \<Rightarrow> (string \<Rightarrow> string option) \<Rightarrow> string \<Rightarrow> string option" where
  "copyDir srcDir dstDir files p =
     (let d = dstDir @ ''/''; q = srcDir @ ''/'' @ drop (length d) p
      in if is_prefix d p \<and> files q \<noteq> None then files q else files p)"

definition testdata_dir :: "nat \<Rightarrow> string" where
  "testdata_dir i = ''testdata/'' @ nat_str i"

fun clone_cases :: "env \<Rightarrow> nat \<Rightarrow> nat \<Rightarrow> TestCase list \<Rightarrow> db \<Rightarrow> db option \<times> nat" where
  "clone_cases e n pid [] s = (Some s, n)"
| "clone_cases e n pid (tc # tcs) s =
     (if \<not> env_dbok e n then (None, Suc n)
      else clone_cases e (Suc n) pid tcs
        (s\<lparr>db_cases := snd (tbl_create (\<lambda>i. tc\<lparr>tc_ID := i, tc_ProblemID := pid\<rparr>) (db_cases s))\<rparr>))"

text \<open>
  Inside the transaction: the new problem, or the text of the error, and the next statement number.
  \<open>copy_ok\<close> says whether the files could be copied.
\<close>

definition cloneProblemForContest ::
  "env \<Rightarrow> (nat \<Rightarrow> bool) \<Rightarrow> nat \<Rightarrow> nat \<Rightarrow> nat \<Rightarrow> db \<Rightarrow> db \<times> (string + Problem) \<times> nat" where
  "cloneProblemForContest e copy_ok n srcID contestID s =
     (case (if env_dbok e n then byID p_ID (db_problems s) srcID else None) of
        None \<Rightarrow> (s, Inl (''source problem '' @ nat_str srcID @ '' not found''), n + 1)
      | Some src \<Rightarrow>
          if p_ContestID src \<noteq> None then
            (s, Inl (''problem '' @ nat_str srcID @ '' already belongs to a contest''), n + 1)
          else if \<not> env_dbok e (n + 1) then (s, Inl ''create failed'', n + 2)
          else
            let (clone, t) = tbl_create (\<lambda>i. src\<lparr>p_ID := i, p_ContestID := Some contestID,
                  p_Visibility := VisibilityHidden, p_CreatedAt := env_now e, p_UpdatedAt := env_now e\<rparr>)
                  (db_problems s);
                s = s\<lparr>db_problems := t\<rparr>
            in if \<not> env_dbok e (n + 2) then (s, Inl ''load cases failed'', n + 3)
               else case clone_cases e (n + 3) (p_ID clone)
                      (sort_by (\<lambda>a b. tc_CaseIndex a < tc_CaseIndex b)
                         (tbl_select (\<lambda>t. tc_ProblemID t = srcID) (db_cases s))) s of
                 (None, n) \<Rightarrow> (s, Inl ''create case failed'', n)
               | (Some s, n) \<Rightarrow>
                   if \<not> copy_ok srcID then (s, Inl ''copy testdata failed'', n)
                   else (s\<lparr>db_files := copyDir (testdata_dir srcID) (testdata_dir (p_ID clone)) (db_files s)\<rparr>,
                         Inr clone, n))"

text \<open>The first loop of the transaction: the problem ids to link, in order, or an error.\<close>

fun attach_loop ::
  "env \<Rightarrow> (nat \<Rightarrow> bool) \<Rightarrow> nat \<Rightarrow> nat \<Rightarrow> nat list \<Rightarrow> db \<Rightarrow> db \<times> (string + nat list) \<times> nat" where
  "attach_loop e copy_ok n cid [] s = (s, Inr [], n)"
| "attach_loop e copy_ok n cid (pid # pids) s =
     (case (if env_dbok e n then byID p_ID (db_problems s) pid else None) of
        None \<Rightarrow> (s, Inl (''problem '' @ nat_str pid @ '' not found''), Suc n)
      | Some src \<Rightarrow>
          (case (if p_ContestID src = Some cid then (s, Inr (p_ID src), Suc n)
                 else if p_ContestID src \<noteq> None then
                   (s, Inl (''problem '' @ nat_str pid @ '' belongs to another contest''), Suc n)
                 else case cloneProblemForContest e copy_ok (Suc n) pid cid s of
                   (s, Inl err, n) \<Rightarrow> (s, Inl err, n)
                 | (s, Inr clone, n) \<Rightarrow> (s, Inr (p_ID clone), n)) of
             (s, Inl err, n) \<Rightarrow> (s, Inl err, n)
           | (s, Inr i, n) \<Rightarrow>
               (case attach_loop e copy_ok n cid pids s of
                  (s, Inl err, n) \<Rightarrow> (s, Inl err, n)
                | (s, Inr is, n) \<Rightarrow> (s, Inr (i # is), n))))"

fun link_loop :: "env \<Rightarrow> nat \<Rightarrow> nat \<Rightarrow> nat \<Rightarrow> nat list \<Rightarrow> db \<Rightarrow> db option" where
  "link_loop e n cid pos [] s = Some s"
| "link_loop e n cid pos (pid # pids) s =
     (if \<not> env_dbok e n then None
      else link_loop e (Suc n) cid (Suc pos) pids
        (s\<lparr>db_links := snd (tbl_create
           (\<lambda>i. \<lparr>cp_ID = i, cp_ContestID = cid, cp_ProblemID = pid, cp_Label = labelFor pos,
                  cp_OrderIndex = int pos\<rparr>) (db_links s))\<rparr>))"

text \<open>A failed transaction rolls the tables back but leaves the files that were copied.\<close>

definition rolled_back :: "db \<Rightarrow> db \<Rightarrow> db" where
  "rolled_back s s' = s\<lparr>db_files := db_files s'\<rparr>"

definition setContestProblems ::
  "env \<Rightarrow> (nat \<Rightarrow> bool) \<Rightarrow> Claims option \<Rightarrow> string \<Rightarrow> nat list option \<Rightarrow> db \<Rightarrow> (db, nat) handled" where
  "setContestProblems e copy_ok cl idstr body s =
     (case contestByID s idstr of
        None \<Rightarrow> (s, Inl (HTTP 404 ''contest not found''))
      | Some contest \<Rightarrow>
          if \<not> canManageContest cl contest then (s, Inl (HTTP 403 ''not allowed''))
          else case body of
            None \<Rightarrow> (s, Inl (HTTP 400 ''invalid payload''))
          | Some pids \<Rightarrow>
              if \<not> env_dbok e 0 then (s, Inl (HTTP 500 ''load contest problems failed''))
              else
                let current = tbl_count (\<lambda>l. cp_ContestID l = c_ID contest) (db_links s)
                in case attach_loop e copy_ok 1 (c_ID contest) pids s of
                     (s', Inl err, n) \<Rightarrow> (rolled_back s s', Inl (HTTP 400 err))
                   | (s', Inr is, n) \<Rightarrow>
                       (case link_loop e n (c_ID contest) current is s' of
                          None \<Rightarrow> (rolled_back s s', Inl (HTTP 400 ''link failed''))
                        | Some s'' \<Rightarrow> (s'', Inr (length is))))"

end
