(* ===== verification/Jury.thy ===== *)
theory Jury
  imports Contest_Admin
begin

text \<open>
  The jury's operations on a contest (\<open>jury.go\<close>): cancelling and rejudging submissions, marking users,
  notices, the manual freeze, the reveal and the time window.  All of them pass \<open>judgeGuard\<close> first.
\<close>

section \<open>The guard\<close>

definition judgeGuard :: "Claims option \<Rightarrow> string \<Rightarrow> db \<Rightarrow> http_error + Contest" where
  "judgeGuard cl idstr s =
     (case contestByID s idstr of
        None \<Rightarrow> Inl (HTTP 404 ''contest not found'')
      | Some contest \<Rightarrow>
          if \<not> canJudgeContest cl contest then Inl (HTTP 403 ''jury power required (creator/admin)'')
          else Inr contest)"

text \<open>The operations below are written over the guarded contest.\<close>

definition guarded ::
  "Claims option \<Rightarrow> string \<Rightarrow> (Contest \<Rightarrow> db \<Rightarrow> (db, 'a) handled) \<Rightarrow> db \<Rightarrow> (db, 'a) handled" where
  "guarded cl idstr body s =
     (case judgeGuard cl idstr s of Inl err \<Rightarrow> (s, Inl err) | Inr contest \<Rightarrow> body contest s)"

definition submissionInContest :: "db \<Rightarrow> nat \<Rightarrow> string \<Rightarrow> http_error + Submission" where
  "submissionInContest s contestID sidstr =
     (case paramID sidstr of
        None \<Rightarrow> Inl (HTTP 400 ''invalid submission id'')
      | Some sid \<Rightarrow>
          (case byID s_ID (db_submissions s) sid of
             None \<Rightarrow> Inl (HTTP 404 ''submission not found'')
           | Some sub \<Rightarrow>
               if s_ContestID sub \<noteq> Some contestID then Inl (HTTP 404 ''submission not in this contest'')
               else Inr sub))"

section \<open>Cancelling\<close>

text \<open>
  \<open>body\<close> is the new value of the flag.  When the submission is not found a second error body follows the
  first in the program; the status is the first one's.
\<close>

definition setContestSubmissionCancel ::
  "env \<Rightarrow> Claims option \<Rightarrow> string \<Rightarrow> string \<Rightarrow> bool option \<Rightarrow> db \<Rightarrow> (db, Submission) handled" where
  "setContestSubmissionCancel e cl idstr sidstr body =
     guarded cl idstr (\<lambda>contest s.
       case submissionInContest s (c_ID contest) sidstr of
         Inl err \<Rightarrow> (s, Inl err)
       | Inr sub \<Rightarrow>
           (case body of
              None \<Rightarrow> (s, Inl (HTTP 400 ''invalid payload''))
            | Some b \<Rightarrow>
                if \<not> env_dbok e 0 then (s, Inl (HTTP 500 ''update failed''))
                else (s\<lparr>db_submissions :=
                        tbl_update (\<lambda>r. s_ID r = s_ID sub) (\<lambda>r. r\<lparr>s_Cancelled := b\<rparr>) (db_submissions s)\<rparr>,
                      Inr (sub\<lparr>s_Cancelled := b\<rparr>))))"

definition cancelUserProblem ::
  "env \<Rightarrow> Claims option \<Rightarrow> string \<Rightarrow> string \<Rightarrow> string \<Rightarrow> bool option \<Rightarrow> db \<Rightarrow> (db, unit) handled" where
  "cancelUserProblem e cl idstr uidstr pidstr body =
     guarded cl idstr (\<lambda>contest s.
       case (paramID uidstr, paramID pidstr) of
         (Some uid, Some pid) \<Rightarrow>
           (case body of
              None \<Rightarrow> (s, Inl (HTTP 400 ''invalid payload''))
            | Some b \<Rightarrow>
                if \<not> env_dbok e 0 then (s, Inl (HTTP 500 ''update failed''))
                else (s\<lparr>db_submissions :=
                        tbl_update (\<lambda>r. s_ContestID r = Some (c_ID contest) \<and> s_UserID r = uid
                                      \<and> s_ProblemID r = pid)
                          (\<lambda>r. r\<lparr>s_Cancelled := b\<rparr>) (db_submissions s)\<rparr>, Inr ()))
       | _ \<Rightarrow> (s, Inl (HTTP 400 ''invalid params'')))"

section \<open>Rejudging\<close>

record server =
  srv_db :: db
  srv_queue :: memoryQueue

definition reset_verdict :: "Submission \<Rightarrow> Submission" where
  "reset_verdict r = r\<lparr>s_Status := SubPending, s_JudgedAt := None, s_LeaseUntil := None, s_Cases := [],
     s_CompileMessage := []\<rparr>"

text \<open>A submission whose update or push fails is left out of the count.\<close>

fun requeueSubmissions :: "env \<Rightarrow> nat \<Rightarrow> nat list \<Rightarrow> server \<Rightarrow> server \<times> nat" where
  "requeueSubmissions e n [] sv = (sv, 0)"
| "requeueSubmissions e n (i # is) sv =
     (if \<not> env_dbok e n then requeueSubmissions e (Suc n) is sv
      else
        let s = srv_db sv;
            s = s\<lparr>db_submissions := tbl_update (\<lambda>r. s_ID r = i) reset_verdict (db_submissions s)\<rparr>;
            (q, err) = mq_push (srv_queue sv) i;
            (sv, k) = requeueSubmissions e (Suc n) is (sv\<lparr>srv_db := s, srv_queue := q\<rparr>)
        in (sv, if err = None then Suc k else k))"

definition rejudgeContestProblem ::
  "env \<Rightarrow> Claims option \<Rightarrow> string \<Rightarrow> string \<Rightarrow> server \<Rightarrow> (server, nat) handled" where
  "rejudgeContestProblem e cl idstr pidstr sv =
     (case judgeGuard cl idstr (srv_db sv) of
        Inl err \<Rightarrow> (sv, Inl err)
      | Inr contest \<Rightarrow>
          (case paramID pidstr of
             None \<Rightarrow> (sv, Inl (HTTP 400 ''invalid params''))
           | Some pid \<Rightarrow>
               if \<not> env_dbok e 0 then (sv, Inl (HTTP 500 ''query failed''))
               else
                 let subs = tbl_select (\<lambda>r. s_ContestID r = Some (c_ID contest) \<and> s_ProblemID r = pid
                              \<and> \<not> s_Cancelled r) (db_submissions (srv_db sv));
                     (sv, n) = requeueSubmissions e 1 (map s_ID subs) sv
                 in (sv, Inr n)))"

definition rejudgeContestSubmission ::
  "env \<Rightarrow> Claims option \<Rightarrow> string \<Rightarrow> string \<Rightarrow> server \<Rightarrow> (server, unit) handled" where
  "rejudgeContestSubmission e cl idstr sidstr sv =
     (case judgeGuard cl idstr (srv_db sv) of
        Inl err \<Rightarrow> (sv, Inl err)
      | Inr contest \<Rightarrow>
          (case submissionInContest (srv_db sv) (c_ID contest) sidstr of
             Inl err \<Rightarrow> (sv, Inl err)
           | Inr sub \<Rightarrow>
               if s_Cancelled sub then (sv, Inl (HTTP 400 ''submission is cancelled; restore it first''))
               else (fst (requeueSubmissions e 0 [s_ID sub] sv), Inr ())))"

section \<open>Flags\<close>

text \<open>
  \<open>Where(text).Assign(values).FirstOrCreate(flag)\<close>: a condition given as text selects, but gives no
  values to a row that is created; \<open>assign\<close> sets the fields that are not zero.  The answer is the row
  and whether the statements succeed (a created row must not repeat a contest and user).
\<close>

definition flag_for :: "nat \<Rightarrow> nat \<Rightarrow> ContestUserFlag \<Rightarrow> bool" where
  "flag_for cid uid f \<longleftrightarrow> f_ContestID f = cid \<and> f_UserID f = uid"

definition upsert_flag ::
  "env \<Rightarrow> nat \<Rightarrow> nat \<Rightarrow> ContestUserFlag \<Rightarrow> (ContestUserFlag \<Rightarrow> ContestUserFlag) \<Rightarrow> db \<Rightarrow> db \<times> ContestUserFlag option" where
  "upsert_flag e cid uid dest set_all s =
     (case tbl_first (flag_for cid uid) (db_flags s) of
        Some f \<Rightarrow>
          (s\<lparr>db_flags := tbl_update (\<lambda>r. f_ID r = f_ID f)
               (\<lambda>r. (set_all r)\<lparr>f_UpdatedAt := env_now e\<rparr>) (db_flags s)\<rparr>,
           Some ((set_all f)\<lparr>f_UpdatedAt := env_now e\<rparr>))
      | None \<Rightarrow>
          if tbl_count (flag_for (f_ContestID dest) (f_UserID dest)) (db_flags s) > 0 then (s, None)
          else
            let (f, t) = tbl_create (\<lambda>i. (set_all dest)\<lparr>f_ID := i, f_UpdatedAt := env_now e\<rparr>) (db_flags s)
            in (s\<lparr>db_flags := t\<rparr>, Some f))"

definition blank_flag :: "nat \<Rightarrow> nat \<Rightarrow> ContestUserFlag" where
  "blank_flag cid uid = \<lparr>f_ID = 0, f_ContestID = cid, f_UserID = uid, f_Starred = False, f_Cheated = False,
     f_UpdatedAt = 0\<rparr>"

definition setUserFlags ::
  "env \<Rightarrow> Claims option \<Rightarrow> string \<Rightarrow> string \<Rightarrow> (bool \<times> bool) option \<Rightarrow> db \<Rightarrow> (db, ContestUserFlag) handled" where
  "setUserFlags e cl idstr uidstr body =
     guarded cl idstr (\<lambda>contest s.
       case paramID uidstr of
         None \<Rightarrow> (s, Inl (HTTP 400 ''invalid user id''))
       | Some uid \<Rightarrow>
           (case body of
              None \<Rightarrow> (s, Inl (HTTP 400 ''invalid payload''))
            | Some (starred, cheated) \<Rightarrow>
                if \<not> env_dbok e 0 then (s, Inl (HTTP 500 ''update flags failed''))
                else
                  (case upsert_flag e (c_ID contest) uid (blank_flag (c_ID contest) uid)
                          (\<lambda>f. f\<lparr>f_Starred := starred \<or> f_Starred f, f_Cheated := cheated \<or> f_Cheated f\<rparr>) s of
                     (s, None) \<Rightarrow> (s, Inl (HTTP 500 ''update flags failed''))
                   | (s, Some f) \<Rightarrow>
                       if \<not> env_dbok e 1 then (s, Inl (HTTP 500 ''update flags failed''))
                       else
                         let put = (\<lambda>r. r\<lparr>f_Starred := starred, f_Cheated := cheated, f_UpdatedAt := env_now e\<rparr>)
                         in (s\<lparr>db_flags := tbl_update (\<lambda>r. f_ID r = f_ID f) put (db_flags s)\<rparr>, Inr (put f)))))"

definition flag_name :: "db \<Rightarrow> nat \<Rightarrow> string" where
  "flag_name s uid =
     (case byID u_ID (db_users s) uid of
        None \<Rightarrow> []
      | Some u \<Rightarrow> if u_Nickname u = [] then u_Username u else u_Nickname u)"

definition listFlags :: "Claims option \<Rightarrow> string \<Rightarrow> db \<Rightarrow> http_error + (ContestUserFlag \<times> string) list" where
  "listFlags cl idstr s =
     (case judgeGuard cl idstr s of
        Inl err \<Rightarrow> Inl err
      | Inr contest \<Rightarrow>
          Inr (map (\<lambda>f. (f, flag_name s (f_UserID f)))
            (sort_by (\<lambda>a b. f_UserID a < f_UserID b)
              (tbl_select (\<lambda>f. f_ContestID f = c_ID contest) (db_flags s)))))"

definition user_summary :: "User \<Rightarrow> nat \<times> string \<times> string" where
  "user_summary u = (u_ID u, u_Username u, u_Nickname u)"

definition listParticipants :: "Claims option \<Rightarrow> string \<Rightarrow> db \<Rightarrow> http_error + (nat \<times> string \<times> string) list" where
  "listParticipants cl idstr s =
     (case judgeGuard cl idstr s of
        Inl err \<Rightarrow> Inl err
      | Inr contest \<Rightarrow>
          (let ids = map s_UserID (tbl_select (\<lambda>r. s_ContestID r = Some (c_ID contest)) (db_submissions s))
           in Inr (map user_summary
                (tbl_select (\<lambda>u. u_ID u \<in> set ids) (db_users s)))))"

text \<open>
  \<open>like v pat\<close> is the \<open>LIKE\<close> operator of the database, which decides about wildcards and letter case.
\<close>

definition searchContestUsers ::
  "(string \<Rightarrow> string \<Rightarrow> bool) \<Rightarrow> Claims option \<Rightarrow> string \<Rightarrow> string \<Rightarrow> db \<Rightarrow>
    http_error + (nat \<times> string \<times> string) list" where
  "searchContestUsers like cl idstr query s =
     (case judgeGuard cl idstr s of
        Inl err \<Rightarrow> Inl err
      | Inr contest \<Rightarrow>
          (let q = trim_space query;
               pat = ''%'' @ q @ ''%'';
               by_name = (\<lambda>u. like (u_Username u) pat \<or> like (u_Nickname u) pat)
           in Inr (map user_summary (take 20
                (if q = [] then rev (rows (db_users s))
                 else case atoi q of
                   Some i \<Rightarrow>
                     if i > 0 then tbl_select (\<lambda>u. int (u_ID u) = i \<or> by_name u) (db_users s)
                     else tbl_select by_name (db_users s)
                 | None \<Rightarrow> tbl_select by_name (db_users s))))))"

section \<open>Notices\<close>

definition listNotices :: "Claims option \<Rightarrow> string \<Rightarrow> db \<Rightarrow> http_error + ContestNotice list" where
  "listNotices cl idstr s =
     (case contestByID s idstr of
        None \<Rightarrow> Inl (HTTP 404 ''contest not found'')
      | Some contest \<Rightarrow>
          if \<not> canViewContest cl contest then Inl (HTTP 404 ''contest not found'')
          else Inr (contest_notices s (c_ID contest)))"

definition createNotice ::
  "env \<Rightarrow> Claims option \<Rightarrow> string \<Rightarrow> string option \<Rightarrow> db \<Rightarrow> (db, ContestNotice) handled" where
  "createNotice e cl idstr body =
     guarded cl idstr (\<lambda>contest s.
       case body of
         None \<Rightarrow> (s, Inl (HTTP 400 ''invalid payload''))
       | Some content \<Rightarrow>
           if content = [] then (s, Inl (HTTP 400 ''invalid payload''))
           else if \<not> env_dbok e 0 then (s, Inl (HTTP 500 ''create notice failed''))
           else
             let (n, t) = tbl_create (\<lambda>i. \<lparr>cn_ID = i, cn_ContestID = c_ID contest, cn_Content = content,
                   cn_CreatedAt = env_now e\<rparr>) (db_notices s)
             in (s\<lparr>db_notices := t\<rparr>, Inr n))"

definition deleteNotice :: "Claims option \<Rightarrow> string \<Rightarrow> string \<Rightarrow> db \<Rightarrow> (db, unit) handled" where
  "deleteNotice cl idstr nidstr =
     guarded cl idstr (\<lambda>contest s.
       case paramID nidstr of
         None \<Rightarrow> (s, Inl (HTTP 400 ''invalid notice id''))
       | Some nid \<Rightarrow>
           (s\<lparr>db_notices := tbl_delete (\<lambda>n. cn_ID n = nid \<and> cn_ContestID n = c_ID contest) (db_notices s)\<rparr>,
            Inr ()))"

section \<open>Freeze, reveal, time\<close>

definition update_contest :: "nat \<Rightarrow> (Contest \<Rightarrow> Contest) \<Rightarrow> db \<Rightarrow> db" where
  "update_contest cid f s = s\<lparr>db_contests := tbl_update (\<lambda>r. c_ID r = cid) f (db_contests s)\<rparr>"

definition setContestFreeze ::
  "env \<Rightarrow> Claims option \<Rightarrow> string \<Rightarrow> bool option \<Rightarrow> db \<Rightarrow> (db, bool) handled" where
  "setContestFreeze e cl idstr body =
     guarded cl idstr (\<lambda>contest s.
       case body of
         None \<Rightarrow> (s, Inl (HTTP 400 ''invalid payload''))
       | Some frozen \<Rightarrow>
           if c_NoManualFreeze contest then
             (s, Inl (HTTP 400 ''manual freezing was disabled when the contest was created''))
           else if \<not> env_dbok e 0 then (s, Inl (HTTP 500 ''update failed''))
           else (update_contest (c_ID contest) (\<lambda>c. c\<lparr>c_ManualFrozen := frozen,
                   c_ManualFrozenAt := (if frozen then Some (env_now e) else None)\<rparr>) s, Inr frozen))"

definition clampInt :: "int \<Rightarrow> int \<Rightarrow> int \<Rightarrow> int" where
  "clampInt v lo hi = (if v < lo then lo else if v > hi then hi else v)"

definition setContestReveal ::
  "env \<Rightarrow> Claims option \<Rightarrow> string \<Rightarrow> int option \<Rightarrow> db \<Rightarrow> (db, int) handled" where
  "setContestReveal e cl idstr body =
     guarded cl idstr (\<lambda>contest s.
       case body of
         None \<Rightarrow> (s, Inl (HTTP 400 ''invalid payload''))
       | Some k \<Rightarrow>
           (let k = clampInt k 0 500
            in if \<not> env_dbok e 0 then (s, Inl (HTTP 500 ''update failed''))
               else (update_contest (c_ID contest) (\<lambda>c. c\<lparr>c_RevealCount := k\<rparr>) s, Inr k)))"

definition setContestTime ::
  "env \<Rightarrow> Claims option \<Rightarrow> string \<Rightarrow> (time \<times> time) option \<Rightarrow> db \<Rightarrow> (db, Contest) handled" where
  "setContestTime e cl idstr body =
     guarded cl idstr (\<lambda>contest s.
       case body of
         None \<Rightarrow> (s, Inl (HTTP 400 ''invalid payload''))
       | Some (start, stop) \<Rightarrow>
           if \<not> start < stop then (s, Inl (HTTP 400 ''end_time must be after start_time''))
           else if \<not> env_dbok e 0 then (s, Inl (HTTP 500 ''update failed''))
           else (update_contest (c_ID contest) (\<lambda>c. c\<lparr>c_StartTime := start, c_EndTime := stop\<rparr>) s,
                 Inr (contest\<lparr>c_StartTime := start, c_EndTime := stop\<rparr>)))"

end
