(* ===== verification/Registration.thy ===== *)
theory Registration
  imports Jury
begin

text \<open>
  Contest registration (\<open>registration.go\<close>, \<open>user_reg_edit.go\<close>): registering alone or as a team,
  withdrawing, editing, the jury's tools, and the star a registration puts on the standings.  The
  invariant \<open>regs_unique\<close> is the unique index of the table (one entry per contest and user).
\<close>

section \<open>Views\<close>

abbreviation TeamOfficial :: string where "TeamOfficial \<equiv> ''official''"
abbreviation TeamStarred :: string where "TeamStarred \<equiv> ''starred''"

record registrationView =
  rv_ID :: nat
  rv_ContestID :: nat
  rv_UserID :: nat
  rv_Username :: string
  rv_TeamName :: string
  rv_TeamType :: string
  rv_CreatedAt :: time

definition registration_view :: "db \<Rightarrow> ContestRegistration \<Rightarrow> registrationView" where
  "registration_view s r =
     \<lparr>rv_ID = r_ID r, rv_ContestID = r_ContestID r, rv_UserID = r_UserID r,
      rv_Username = (case byID u_ID (db_users s) (r_UserID r) of
          None \<Rightarrow> []
        | Some user \<Rightarrow> if u_Nickname user = [] then u_Username user else u_Nickname user),
      rv_TeamName = r_TeamName r, rv_TeamType = r_TeamType r, rv_CreatedAt = r_CreatedAt r\<rparr>"

definition reg_for :: "nat \<Rightarrow> nat \<Rightarrow> ContestRegistration \<Rightarrow> bool" where
  "reg_for cid uid r \<longleftrightarrow> r_ContestID r = cid \<and> r_UserID r = uid"

section \<open>Inserting an entry\<close>

text \<open>
  \<open>create_reg\<close> is the insertion with the unique index: the error says whether the index was violated.
  The fields of \<open>reg\<close> other than the key and the time are the caller's.
\<close>

definition new_reg :: "nat \<Rightarrow> nat \<Rightarrow> string \<Rightarrow> string \<Rightarrow> nat \<Rightarrow> ContestRegistration" where
  "new_reg cid uid name ty tid = \<lparr>r_ID = 0, r_ContestID = cid, r_UserID = uid, r_TeamName = name,
     r_TeamType = ty, r_TeamID = tid, r_CreatedAt = 0\<rparr>"

definition create_reg ::
  "env \<Rightarrow> nat \<Rightarrow> ContestRegistration \<Rightarrow> db \<Rightarrow> db \<times> (bool + ContestRegistration)" where
  "create_reg e n reg s =
     (if tbl_count (reg_for (r_ContestID reg) (r_UserID reg)) (db_regs s) > 0 then (s, Inl True)
      else if \<not> env_dbok e n then (s, Inl False)
      else
        let (row, t) = tbl_create (\<lambda>i. reg\<lparr>r_ID := i, r_CreatedAt := env_now e\<rparr>) (db_regs s)
        in (s\<lparr>db_regs := t\<rparr>, Inr row))"

text \<open>
  The star: the flag of the contest and user is found or created and its \<open>starred\<close> column set.  The
  destination of the team and individual registration names the contest and user.
\<close>

definition set_starred :: "bool \<Rightarrow> env \<Rightarrow> nat \<Rightarrow> db \<Rightarrow> db" where
  "set_starred b e fid s = s\<lparr>db_flags :=
     tbl_update (\<lambda>r. f_ID r = fid) (\<lambda>r. r\<lparr>f_Starred := b, f_UpdatedAt := env_now e\<rparr>) (db_flags s)\<rparr>"

definition star_entry :: "env \<Rightarrow> nat \<Rightarrow> nat \<Rightarrow> db \<Rightarrow> db" where
  "star_entry e cid uid s =
     (case upsert_flag e cid uid (blank_flag cid uid) (\<lambda>f. f\<lparr>f_Starred := True\<rparr>) s of
        (s, Some flag) \<Rightarrow> set_starred True e (f_ID flag) s
      | (s, None) \<Rightarrow> s)"

section \<open>Registering\<close>

record registerReq =
  rq_TeamName :: string
  rq_TeamType :: string
  rq_TeamID :: nat

datatype registered =
    Entry registrationView
  | AlreadyTeam nat
  | TeamEntry nat nat

text \<open>
  The body of the transaction; a statement that fails makes it answer the error.  Each member takes
  up to three statements.
\<close>

fun enroll_members ::
  "env \<Rightarrow> nat \<Rightarrow> Contest \<Rightarrow> Team \<Rightarrow> string \<Rightarrow> TeamMember list \<Rightarrow> db \<Rightarrow> db \<times> bool option" where
  "enroll_members e n contest team ty [] s = (s, None)"
| "enroll_members e n contest team ty (m # ms) s =
     (case create_reg e n (new_reg (c_ID contest) (tm_UserID m) (t_Name team) ty (t_ID team)) s of
        (s, Inl uniq) \<Rightarrow> (s, Some uniq)
      | (s, Inr reg) \<Rightarrow>
          if ty = TeamStarred then
            if \<not> env_dbok e (n + 1) \<or> \<not> env_dbok e (n + 2) then (s, Some False)
            else enroll_members e (n + 3) contest team ty ms (star_entry e (c_ID contest) (tm_UserID m) s)
          else enroll_members e (n + 3) contest team ty ms s)"

definition team_members_of :: "db \<Rightarrow> nat \<Rightarrow> TeamMember list" where
  "team_members_of s tid = tbl_select (\<lambda>m. tm_TeamID m = tid) (db_members s)"

definition register_team ::
  "env \<Rightarrow> Claims \<Rightarrow> Contest \<Rightarrow> registerReq \<Rightarrow> db \<Rightarrow> (db, registered) handled" where
  "register_team e cl contest req s =
     (if rq_TeamID req = 0 then (s, Inl (HTTP 400 ''a team contest needs team_id''))
      else case byID t_ID (db_teams s) (rq_TeamID req) of
        None \<Rightarrow> (s, Inl (HTTP 404 ''team not found''))
      | Some team \<Rightarrow>
          if t_CaptainID team \<noteq> cl_UserID cl then (s, Inl (HTTP 403 ''only the captain may register''))
          else if tbl_count (\<lambda>r. r_ContestID r = c_ID contest \<and> r_TeamID r = rq_TeamID req) (db_regs s) > 0
          then (s, Inr (AlreadyTeam (rq_TeamID req)))
          else
            let members = team_members_of s (t_ID team)
            in if members = [] then (s, Inl (HTTP 400 ''the team has no members''))
               else if c_TeamCapacity contest > 0 \<and> int (length members) > c_TeamCapacity contest then
                 (s, Inl (HTTP 400 (''team larger than the contest limit ('' @ int_str (c_TeamCapacity contest) @ '')'')))
               else case enroll_members e 1 contest team (rq_TeamType req) members s of
                 (s', Some True) \<Rightarrow> (s, Inl (HTTP 400 ''a member registered individually''))
               | (s', Some False) \<Rightarrow> (s, Inl (HTTP 500 ''register failed''))
               | (s', None) \<Rightarrow>
                   if \<not> env_dbok e 0 then (s, Inl (HTTP 500 ''register failed''))
                   else (s', Inr (TeamEntry (t_ID team) (length members))))"

text \<open>
  The individual entry is checked and then inserted; between the two another request may have
  registered the same user, which is why the insertion is a step of its own.
\<close>

definition insert_entry ::
  "env \<Rightarrow> Claims \<Rightarrow> Contest \<Rightarrow> registerReq \<Rightarrow> db \<Rightarrow> (db, registered) handled" where
  "insert_entry e cl contest req s =
     (case create_reg e 0 (new_reg (c_ID contest) (cl_UserID cl) (rq_TeamName req) (rq_TeamType req) 0) s of
        (s, Inl uniq) \<Rightarrow>
          (case tbl_first (reg_for (c_ID contest) (cl_UserID cl)) (db_regs s) of
             Some existing \<Rightarrow> (s, Inr (Entry (registration_view s existing)))
           | None \<Rightarrow> (s, Inl (HTTP 500 ''register failed'')))
      | (s, Inr reg) \<Rightarrow>
          (if rq_TeamType req = TeamStarred then star_entry e (c_ID contest) (cl_UserID cl) s else s,
           Inr (Entry (registration_view s reg))))"

definition registerContest ::
  "env \<Rightarrow> Claims \<Rightarrow> string \<Rightarrow> registerReq option \<Rightarrow> db \<Rightarrow> (db, registered) handled" where
  "registerContest e cl idstr body s =
     (case contestByID s idstr of
        None \<Rightarrow> (s, Inl (HTTP 404 ''contest not found''))
      | Some contest \<Rightarrow>
          if env_now e > c_EndTime contest then (s, Inl (HTTP 400 ''the contest has ended''))
          else case body of
            None \<Rightarrow> (s, Inl (HTTP 400 ''invalid payload''))
          | Some req \<Rightarrow>
              if rq_TeamType req = [] then (s, Inl (HTTP 400 ''invalid payload''))
              else if rq_TeamType req \<noteq> TeamOfficial \<and> rq_TeamType req \<noteq> TeamStarred then
                (s, Inl (HTTP 400 ''team_type must be official or starred''))
              else if c_TeamMode contest then register_team e cl contest req s
              else case tbl_first (reg_for (c_ID contest) (cl_UserID cl)) (db_regs s) of
                Some existing \<Rightarrow> (s, Inr (Entry (registration_view s existing)))
              | None \<Rightarrow> insert_entry e cl contest req s)"

definition myRegistration :: "Claims \<Rightarrow> string \<Rightarrow> db \<Rightarrow> http_error + registrationView option" where
  "myRegistration cl idstr s =
     (case contestByID s idstr of
        None \<Rightarrow> Inl (HTTP 404 ''contest not found'')
      | Some contest \<Rightarrow>
          Inr (map_option (registration_view s)
            (tbl_first (reg_for (c_ID contest) (cl_UserID cl)) (db_regs s))))"

definition listRegistrations :: "Claims option \<Rightarrow> string \<Rightarrow> db \<Rightarrow> http_error + registrationView list" where
  "listRegistrations cl idstr s =
     (case judgeGuard cl idstr s of
        Inl err \<Rightarrow> Inl err
      | Inr contest \<Rightarrow>
          Inr (map (registration_view s) (tbl_select (\<lambda>r. r_ContestID r = c_ID contest) (db_regs s))))"

definition registrationRequired :: "Contest \<Rightarrow> bool" where
  "registrationRequired contest \<longleftrightarrow> c_RequireRegistration contest = Some True"

section \<open>Withdrawing and editing\<close>

definition cancelRegistration :: "env \<Rightarrow> Claims \<Rightarrow> string \<Rightarrow> db \<Rightarrow> (db, unit) handled" where
  "cancelRegistration e cl idstr s =
     (case contestByID s idstr of
        None \<Rightarrow> (s, Inl (HTTP 404 ''contest not found''))
      | Some contest \<Rightarrow>
          if env_now e > c_EndTime contest then (s, Inl (HTTP 400 ''the contest has ended''))
          else case tbl_first (reg_for (c_ID contest) (cl_UserID cl)) (db_regs s) of
            None \<Rightarrow> (s, Inl (HTTP 404 ''you are not registered''))
          | Some reg \<Rightarrow>
              if \<not> env_dbok e 0 then (s, Inl (HTTP 500 ''cancel failed''))
              else (s\<lparr>db_regs := tbl_delete (\<lambda>r. r_ID r = r_ID reg) (db_regs s),
                      db_flags := tbl_update (\<lambda>f. flag_for (c_ID contest) (cl_UserID cl) f \<and> \<not> f_Cheated f)
                        (\<lambda>f. f\<lparr>f_Starred := False, f_UpdatedAt := env_now e\<rparr>) (db_flags s)\<rparr>, Inr ()))"

definition editRegistration ::
  "env \<Rightarrow> Claims \<Rightarrow> string \<Rightarrow> string option \<Rightarrow> db \<Rightarrow> (db, registrationView) handled" where
  "editRegistration e cl idstr body s =
     (case contestByID s idstr of
        None \<Rightarrow> (s, Inl (HTTP 404 ''contest not found''))
      | Some contest \<Rightarrow>
          if env_now e > c_EndTime contest then (s, Inl (HTTP 400 ''the contest has ended''))
          else case tbl_first (reg_for (c_ID contest) (cl_UserID cl)) (db_regs s) of
            None \<Rightarrow> (s, Inl (HTTP 404 ''you are not registered''))
          | Some reg \<Rightarrow>
              (case body of
                 None \<Rightarrow> (s, Inl (HTTP 400 ''invalid payload''))
               | Some name \<Rightarrow>
                   if \<not> env_dbok e 0 then (s, Inl (HTTP 500 ''update failed''))
                   else (s\<lparr>db_regs := tbl_update (\<lambda>r. r_ID r = r_ID reg) (\<lambda>r. r\<lparr>r_TeamName := name\<rparr>)
                            (db_regs s)\<rparr>,
                         Inr (registration_view s (reg\<lparr>r_TeamName := name\<rparr>)))))"

section \<open>The jury's tools\<close>

text \<open>
  The destination of \<open>syncStarFlag\<close> is empty, so a flag it creates has no contest and no user.  The
  answer says whether both statements succeed.
\<close>

definition syncStarFlag :: "env \<Rightarrow> nat \<Rightarrow> nat \<Rightarrow> nat \<Rightarrow> bool \<Rightarrow> db \<Rightarrow> db \<times> bool" where
  "syncStarFlag e n cid uid starred s =
     (if \<not> env_dbok e n then (s, False)
      else case upsert_flag e cid uid (blank_flag 0 0)
                  (\<lambda>f. if starred then f\<lparr>f_Starred := True\<rparr> else f) s of
        (s, None) \<Rightarrow> (s, False)
      | (s, Some flag) \<Rightarrow>
          if \<not> env_dbok e (n + 1) then (s, False)
          else (set_starred starred e (f_ID flag) s, True))"

definition adminEditRegistration ::
  "env \<Rightarrow> Claims option \<Rightarrow> string \<Rightarrow> string \<Rightarrow> (string \<times> string) option \<Rightarrow> db \<Rightarrow> (db, registrationView) handled" where
  "adminEditRegistration e cl idstr uidstr body =
     guarded cl idstr (\<lambda>contest s.
       case paramID uidstr of
         None \<Rightarrow> (s, Inl (HTTP 400 ''invalid user id''))
       | Some uid \<Rightarrow>
           (case tbl_first (reg_for (c_ID contest) uid) (db_regs s) of
              None \<Rightarrow> (s, Inl (HTTP 404 ''registration not found''))
            | Some reg \<Rightarrow>
                (case body of
                   None \<Rightarrow> (s, Inl (HTTP 400 ''invalid payload''))
                 | Some (name, ty) \<Rightarrow>
                     if ty = [] then (s, Inl (HTTP 400 ''invalid payload''))
                     else if ty \<noteq> TeamOfficial \<and> ty \<noteq> TeamStarred then
                       (s, Inl (HTTP 400 ''team_type must be official or starred''))
                     else if \<not> env_dbok e 0 then (s, Inl (HTTP 500 ''update failed''))
                     else
                       let s = s\<lparr>db_regs := tbl_update (\<lambda>r. r_ID r = r_ID reg)
                             (\<lambda>r. r\<lparr>r_TeamName := name, r_TeamType := ty\<rparr>) (db_regs s)\<rparr>
                       in case syncStarFlag e 1 (c_ID contest) uid (ty = TeamStarred) s of
                            (s, False) \<Rightarrow> (s, Inl (HTTP 500 ''update failed''))
                          | (s, True) \<Rightarrow>
                              (s, Inr (registration_view s (reg\<lparr>r_TeamName := name, r_TeamType := ty\<rparr>))))))"

definition adminDeleteRegistration ::
  "env \<Rightarrow> Claims option \<Rightarrow> string \<Rightarrow> string \<Rightarrow> db \<Rightarrow> (db, unit) handled" where
  "adminDeleteRegistration e cl idstr uidstr =
     guarded cl idstr (\<lambda>contest s.
       case paramID uidstr of
         None \<Rightarrow> (s, Inl (HTTP 400 ''invalid user id''))
       | Some uid \<Rightarrow>
           if \<not> env_dbok e 0 then (s, Inl (HTTP 500 ''delete failed''))
           else (fst (syncStarFlag e 1 (c_ID contest) uid False
                   (s\<lparr>db_regs := tbl_delete (reg_for (c_ID contest) uid) (db_regs s)\<rparr>)), Inr ()))"


section \<open>One entry per contest and user\<close>

definition reg_key :: "ContestRegistration \<Rightarrow> nat \<times> nat" where
  "reg_key r = (r_ContestID r, r_UserID r)"

definition regs_unique :: "db \<Rightarrow> bool" where
  "regs_unique s \<longleftrightarrow> distinct (map reg_key (rows (db_regs s)))"

lemma reg_for_key: "reg_for cid uid r \<longleftrightarrow> reg_key r = (cid, uid)"
  by (simp add: reg_for_def reg_key_def)

lemma regs_unique_flags [simp]:
  "regs_unique (s\<lparr>db_flags := t\<rparr>) = regs_unique s"
  "db_regs (set_starred b e fid s) = db_regs s"
  by (simp_all add: regs_unique_def set_starred_def)

lemma upsert_flag_frame: "db_regs (fst (upsert_flag e cid uid dest f s)) = db_regs s"
  by (simp add: upsert_flag_def Let_def tbl_create_def split: option.splits)

lemma star_entry_regs [simp]: "db_regs (star_entry e cid uid s) = db_regs s"
  using upsert_flag_frame [of e cid uid "blank_flag cid uid" "\<lambda>f. f\<lparr>f_Starred := True\<rparr>" s]
  by (auto simp: star_entry_def split: prod.splits option.splits)

lemma syncStarFlag_regs: "db_regs (fst (syncStarFlag e n cid uid b s)) = db_regs s"
  using upsert_flag_frame [of e cid uid "blank_flag 0 0" "\<lambda>f. if b then f\<lparr>f_Starred := True\<rparr> else f" s]
  by (auto simp: syncStarFlag_def split: prod.splits option.splits)

text \<open>An insertion appends an entry for a key that had none, or leaves the database as it was.\<close>

lemma create_reg_cases:
  "create_reg e n reg s = (s', Inl u) \<Longrightarrow> s' = s"
  "create_reg e n reg s = (s', Inr row) \<Longrightarrow>
     row = reg\<lparr>r_ID := Suc (seq (db_regs s)), r_CreatedAt := env_now e\<rparr>
     \<and> s' = s\<lparr>db_regs := \<lparr>rows = rows (db_regs s) @ [row], seq = Suc (seq (db_regs s))\<rparr>\<rparr>
     \<and> reg_key reg \<notin> set (map reg_key (rows (db_regs s)))"
  by (auto simp: create_reg_def tbl_create_def tbl_count_zero reg_for_def reg_key_def
      split: if_splits)

lemma create_reg_unique: "regs_unique s \<Longrightarrow> regs_unique (fst (create_reg e n reg s))"
proof -
  assume u: "regs_unique s"
  obtain s' r where c: "create_reg e n reg s = (s', r)" by (rule prod.exhaust)
  show ?thesis
  proof (cases r)
    case (Inl b)
    with c create_reg_cases(1) [of e n reg s s' b] u show ?thesis by simp
  next
    case (Inr row)
    with c create_reg_cases(2) [of e n reg s s' row] u show ?thesis
      by (auto simp: regs_unique_def reg_key_def)
  qed
qed

lemma enroll_unique:
  "regs_unique s \<Longrightarrow> regs_unique (fst (enroll_members e n contest team ty ms s))"
proof (induction ms arbitrary: n s)
  case Nil
  then show ?case by simp
next
  case (Cons m ms)
  let ?reg = "new_reg (c_ID contest) (tm_UserID m) (t_Name team) ty (t_ID team)"
  obtain s' r where c: "create_reg e n ?reg s = (s', r)" by (rule prod.exhaust)
  have u: "regs_unique s'" using create_reg_unique [OF Cons.prems, of e n ?reg] c by simp
  then have "regs_unique (star_entry e (c_ID contest) (tm_UserID m) s')"
    by (simp add: regs_unique_def)
  with u c Cons.IH show ?case by (auto split: sum.splits)
qed

lemma insert_entry_unique: "regs_unique s \<Longrightarrow> regs_unique (fst (insert_entry e cl contest req s))"
proof -
  assume u: "regs_unique s"
  let ?reg = "new_reg (c_ID contest) (cl_UserID cl) (rq_TeamName req) (rq_TeamType req) 0"
  obtain s' r where c: "create_reg e 0 ?reg s = (s', r)" by (rule prod.exhaust)
  have "regs_unique s'" using create_reg_unique [OF u, of e 0 ?reg] c by simp
  then have "regs_unique s'" and "regs_unique (star_entry e (c_ID contest) (cl_UserID cl) s')"
    by (simp_all add: regs_unique_def)
  with c show ?thesis by (auto simp: insert_entry_def split: sum.splits option.splits)
qed

lemma register_team_unique: "regs_unique s \<Longrightarrow> regs_unique (fst (register_team e cl contest req s))"
proof -
  assume u: "regs_unique s"
  have "regs_unique s'" if "enroll_members e 1 contest team ty ms s = (s', r)" for team ty ms s' r
    using enroll_unique [OF u, of e 1 contest team ty ms] that by simp
  with u show ?thesis
    by (auto simp: register_team_def Let_def split: option.splits prod.splits bool.splits)
qed

lemma registerContest_unique: "regs_unique s \<Longrightarrow> regs_unique (fst (registerContest e cl idstr body s))"
  by (simp add: registerContest_def register_team_unique insert_entry_unique split: option.splits)

lemma regs_unique_update:
  assumes "\<And>r. reg_key (f r) = reg_key r" and "regs_unique s"
  shows "regs_unique (s\<lparr>db_regs := tbl_update P f (db_regs s)\<rparr>)"
proof -
  have "map reg_key (map (\<lambda>r. if P r then f r else r) (rows (db_regs s))) = map reg_key (rows (db_regs s))"
    using assms(1) by auto
  with assms(2) show ?thesis by (simp add: regs_unique_def table_simps del: map_map)
qed

lemma regs_unique_delete: "regs_unique s \<Longrightarrow> regs_unique (s\<lparr>db_regs := tbl_delete P (db_regs s)\<rparr>)"
  by (simp add: regs_unique_def table_simps distinct_map_filter)

lemma cancelRegistration_unique: "regs_unique s \<Longrightarrow> regs_unique (fst (cancelRegistration e cl idstr s))"
  using regs_unique_delete [of s]
  by (auto simp: cancelRegistration_def regs_unique_def split: option.splits)

lemma editRegistration_unique: "regs_unique s \<Longrightarrow> regs_unique (fst (editRegistration e cl idstr body s))"
  by (auto simp: editRegistration_def reg_key_def intro!: regs_unique_update split: option.splits)

lemma adminEdit_unique:
  "regs_unique s \<Longrightarrow> regs_unique (fst (adminEditRegistration e cl idstr uidstr body s))"
proof -
  assume u: "regs_unique s"
  have "regs_unique s'"
    if "syncStarFlag e 1 cid uid b
          (s\<lparr>db_regs := tbl_update (\<lambda>r. r_ID r = i) (\<lambda>r. r\<lparr>r_TeamName := name, r_TeamType := ty\<rparr>) (db_regs s)\<rparr>)
        = (s', ok)" for cid uid b i name ty s' ok
    using syncStarFlag_regs [of e 1 cid uid b "s\<lparr>db_regs := tbl_update (\<lambda>r. r_ID r = i)
        (\<lambda>r. r\<lparr>r_TeamName := name, r_TeamType := ty\<rparr>) (db_regs s)\<rparr>"] that
      regs_unique_update [OF _ u, of "\<lambda>r. r\<lparr>r_TeamName := name, r_TeamType := ty\<rparr>" "\<lambda>r. r_ID r = i"]
    by (simp add: regs_unique_def reg_key_def)
  with u show ?thesis
    by (auto simp: adminEditRegistration_def guarded_def Let_def
        split: option.splits sum.splits prod.splits bool.splits)
qed

lemma adminDelete_unique:
  "regs_unique s \<Longrightarrow> regs_unique (fst (adminDeleteRegistration e cl idstr uidstr s))"
  using regs_unique_delete [of s]
  by (auto simp: adminDeleteRegistration_def guarded_def regs_unique_def syncStarFlag_regs
      split: option.splits sum.splits)


inductive reg_step :: "db \<Rightarrow> db \<Rightarrow> bool" where
  register: "reg_step s (fst (registerContest e cl idstr body s))"
| insert_late: "reg_step s (fst (insert_entry e cl contest req s))"
| cancel: "reg_step s (fst (cancelRegistration e cl idstr s))"
| edit: "reg_step s (fst (editRegistration e cl idstr name s))"
| admin_edit: "reg_step s (fst (adminEditRegistration e jcl idstr uidstr entry s))"
| admin_delete: "reg_step s (fst (adminDeleteRegistration e jcl idstr uidstr s))"

lemma reg_step_unique: "reg_step s s' \<Longrightarrow> regs_unique s \<Longrightarrow> regs_unique s'"
  by (induction rule: reg_step.induct)
    (simp_all add: registerContest_unique insert_entry_unique cancelRegistration_unique
      editRegistration_unique adminEdit_unique adminDelete_unique)


text \<open>Two insertions of the same user, as after a race of two requests.\<close>

definition sample_req :: registerReq where
  "sample_req = \<lparr>rq_TeamName = ''solo'', rq_TeamType = TeamStarred, rq_TeamID = 0\<rparr>"

definition sample_user :: Claims where
  "sample_user = \<lparr>cl_UserID = 5, cl_Username = ''eve'', cl_Role = RoleUser\<rparr>"

definition raced_db :: db where
  "raced_db =
     fst (insert_entry (sample_env 0) sample_user sample_contest sample_req
       (fst (insert_entry (sample_env 0) sample_user sample_contest sample_req empty_db)))"

lemmas enroll_eval = create_reg_def tbl_create_def tbl_count_def reg_for_def new_reg_def
  star_entry_def upsert_flag_def blank_flag_def tbl_first_def flag_for_def set_starred_def

lemma raced_keys: "map reg_key (rows (db_regs raced_db)) = [(1, 5)]"
  by (simp add: raced_db_def insert_entry_def enroll_eval sample_env_def sample_req_def empty_db_def
      empty_table_def reg_key_def sample_contest_def sample_user_def)


section \<open>Registering a team\<close>

definition starred_in :: "db \<Rightarrow> nat \<Rightarrow> nat \<Rightarrow> bool" where
  "starred_in s cid uid \<longleftrightarrow> list_ex (\<lambda>f. flag_for cid uid f \<and> f_Starred f) (rows (db_flags s))"

lemma starring_rows:
  assumes "f \<in> set (rows (db_flags s))" and "flag_for c u f" and "f_Starred f \<or> P f"
  shows "starred_in (s\<lparr>db_flags := tbl_update P (\<lambda>f. f\<lparr>f_Starred := True, f_UpdatedAt := t\<rparr>) (db_flags s)\<rparr>) c u"
proof -
  let ?g = "\<lambda>f. if P f then f\<lparr>f_Starred := True, f_UpdatedAt := t\<rparr> else f"
  have mem: "?g f \<in> set (map ?g (rows (db_flags s)))" unfolding set_map using assms(1) by (rule imageI)
  have own: "flag_for c u (?g f) \<and> f_Starred (?g f)" using assms(2,3) by (auto simp: flag_for_def)
  have new: "rows (db_flags (s\<lparr>db_flags := tbl_update P (\<lambda>f. f\<lparr>f_Starred := True, f_UpdatedAt := t\<rparr>)
      (db_flags s)\<rparr>)) = map ?g (rows (db_flags s))" by (simp add: table_simps)
  show ?thesis unfolding starred_in_def list_ex_iff new using own mem by (rule bexI [where x = "?g f"])
qed

lemma starring_keeps:
  assumes "starred_in s c u"
  shows "starred_in (s\<lparr>db_flags := tbl_update P (\<lambda>f. f\<lparr>f_Starred := True, f_UpdatedAt := t\<rparr>) (db_flags s)\<rparr>) c u"
proof -
  from assms obtain f where "f \<in> set (rows (db_flags s))" and "flag_for c u f" and "f_Starred f"
    by (auto simp: starred_in_def list_ex_iff)
  then show ?thesis by (intro starring_rows disjI1)
qed

text \<open>Starring an entry always finds or creates its flag, and leaves the stars of the others.\<close>

lemma upsert_own_flag:
  obtains s' f where
    "upsert_flag e cid uid (blank_flag cid uid) (\<lambda>f. f\<lparr>f_Starred := True\<rparr>) s = (s', Some f)"
    "f \<in> set (rows (db_flags s'))" "flag_for cid uid f"
    "\<And>c u. starred_in s c u \<Longrightarrow> starred_in s' c u"
proof (cases "tbl_first (flag_for cid uid) (db_flags s)")
  case None
  let ?f = "(blank_flag cid uid)\<lparr>f_Starred := True, f_ID := Suc (seq (db_flags s)), f_UpdatedAt := env_now e\<rparr>"
  have "tbl_count (flag_for cid uid) (db_flags s) = 0"
    using None by (simp add: tbl_first_None tbl_count_zero)
  with None have "upsert_flag e cid uid (blank_flag cid uid) (\<lambda>f. f\<lparr>f_Starred := True\<rparr>) s =
      (s\<lparr>db_flags := \<lparr>rows = rows (db_flags s) @ [?f], seq = Suc (seq (db_flags s))\<rparr>\<rparr>, Some ?f)"
    by (simp add: upsert_flag_def blank_flag_def tbl_create_def)
  then show ?thesis
    by (rule that) (auto simp: flag_for_def blank_flag_def starred_in_def)
next
  case (Some f)
  let ?g = "\<lambda>f. f\<lparr>f_Starred := True, f_UpdatedAt := env_now e\<rparr>"
  have f: "f \<in> set (rows (db_flags s))" "flag_for cid uid f"
    using tbl_first_SomeD [OF Some] by auto
  have "upsert_flag e cid uid (blank_flag cid uid) (\<lambda>f. f\<lparr>f_Starred := True\<rparr>) s =
      (s\<lparr>db_flags := tbl_update (\<lambda>r. f_ID r = f_ID f) ?g (db_flags s)\<rparr>, Some (?g f))"
    using Some by (simp add: upsert_flag_def)
  then show ?thesis
  proof (rule that)
    show "?g f \<in> set (rows (db_flags (s\<lparr>db_flags := tbl_update (\<lambda>r. f_ID r = f_ID f) ?g (db_flags s)\<rparr>)))"
      using f(1) by (auto simp: table_simps)
    show "flag_for cid uid (?g f)" using f(2) by (simp add: flag_for_def)
  qed (rule starring_keeps)
qed

lemma star_entry_stars:
  "starred_in (star_entry e cid uid s) cid uid"
  "starred_in s c u \<Longrightarrow> starred_in (star_entry e cid uid s) c u"
proof -
  obtain s' f where u: "upsert_flag e cid uid (blank_flag cid uid) (\<lambda>f. f\<lparr>f_Starred := True\<rparr>) s = (s', Some f)"
    and f: "f \<in> set (rows (db_flags s'))" "flag_for cid uid f"
    and keep: "\<And>c u. starred_in s c u \<Longrightarrow> starred_in s' c u"
    by (rule upsert_own_flag [of e cid uid s]) blast
  from u have star: "star_entry e cid uid s = set_starred True e (f_ID f) s'"
    by (simp add: star_entry_def)
  show "starred_in (star_entry e cid uid s) cid uid"
    unfolding star set_starred_def using f by (rule starring_rows) simp
  assume "starred_in s c u"
  then show "starred_in (star_entry e cid uid s) c u"
    unfolding star set_starred_def by (intro starring_keeps keep)
qed

text \<open>What a completed transaction did.\<close>

definition entered :: "Contest \<Rightarrow> Team \<Rightarrow> string \<Rightarrow> TeamMember list \<Rightarrow> db \<Rightarrow> db \<Rightarrow> bool" where
  "entered contest team ty ms s s' \<longleftrightarrow>
     (\<exists>new. rows (db_regs s') = rows (db_regs s) @ new
        \<and> list_all2 (\<lambda>m r. reg_key r = (c_ID contest, tm_UserID m) \<and> r_TeamID r = t_ID team
             \<and> r_TeamName r = t_Name team \<and> r_TeamType r = ty) ms new)
     \<and> (ty = TeamStarred \<longrightarrow> list_all (\<lambda>m. starred_in s' (c_ID contest) (tm_UserID m)) ms)
     \<and> list_all (\<lambda>m. (c_ID contest, tm_UserID m) \<notin> set (map reg_key (rows (db_regs s)))) ms"

lemma starred_in_regs: "starred_in (s\<lparr>db_regs := t\<rparr>) c u = starred_in s c u"
  by (simp add: starred_in_def)

lemma enroll_entered:
  assumes "enroll_members e n contest team ty ms s = (s', None)"
  shows "entered contest team ty ms s s' \<and> (\<forall>c u. starred_in s c u \<longrightarrow> starred_in s' c u)"
  using assms
proof (induction ms arbitrary: n s)
  case Nil
  then show ?case by (simp add: entered_def)
next
  case (Cons m ms)
  let ?reg = "new_reg (c_ID contest) (tm_UserID m) (t_Name team) ty (t_ID team)"
  obtain s1 r where c: "create_reg e n ?reg s = (s1, r)" by (rule prod.exhaust)
  with Cons.prems obtain row where r: "r = Inr row" by (cases r) auto
  from create_reg_cases(2) [of e n ?reg s s1 row] c r have
    row: "reg_key row = (c_ID contest, tm_UserID m)" "r_TeamID row = t_ID team"
      "r_TeamName row = t_Name team" "r_TeamType row = ty" and
    s1: "rows (db_regs s1) = rows (db_regs s) @ [row]" "\<And>c u. starred_in s1 c u = starred_in s c u" and
    fresh: "(c_ID contest, tm_UserID m) \<notin> set (map reg_key (rows (db_regs s)))"
    by (auto simp: reg_key_def new_reg_def starred_in_regs)
  define s2 where "s2 = (if ty = TeamStarred then star_entry e (c_ID contest) (tm_UserID m) s1 else s1)"
  have rest: "enroll_members e (n + 3) contest team ty ms s2 = (s', None)"
    using Cons.prems c r by (auto simp: s2_def split: if_splits)
  have regs2: "rows (db_regs s2) = rows (db_regs s) @ [row]" by (simp add: s2_def s1)
  have stars2: "starred_in s c u \<Longrightarrow> starred_in s2 c u" for c u
    by (simp add: s2_def s1 star_entry_stars)
  have own2: "ty = TeamStarred \<Longrightarrow> starred_in s2 (c_ID contest) (tm_UserID m)"
    by (simp add: s2_def star_entry_stars)
  from Cons.IH [OF rest] obtain new where
    new: "rows (db_regs s') = rows (db_regs s2) @ new" and
    all2: "list_all2 (\<lambda>m r. reg_key r = (c_ID contest, tm_UserID m) \<and> r_TeamID r = t_ID team
             \<and> r_TeamName r = t_Name team \<and> r_TeamType r = ty) ms new" and
    stars: "ty = TeamStarred \<longrightarrow> list_all (\<lambda>m. starred_in s' (c_ID contest) (tm_UserID m)) ms" and
    none: "list_all (\<lambda>m. (c_ID contest, tm_UserID m) \<notin> set (map reg_key (rows (db_regs s2)))) ms" and
    keep: "\<And>c u. starred_in s2 c u \<Longrightarrow> starred_in s' c u"
    by (auto simp: entered_def)
  have "entered contest team ty (m # ms) s s'"
    unfolding entered_def
    using new all2 stars none keep row fresh own2 regs2
    by (intro conjI exI [of _ "row # new"]) (auto simp: list_all_iff)
  with keep stars2 show ?case by blast
qed

text \<open>
  C29. Registering a team is all or nothing.  An accepted registration adds exactly one entry per
  member, in order, tied to the team, for members none of whom was registered, within the contest's
  size limit, and stars every one of them when the team is starred; any other answer leaves the
  database as it was, so no half team ever competes.
\<close>

theorem team_registration_atomic:
  assumes "register_team e cl contest req s = (s', answer)"
  shows "(case answer of
      Inr (TeamEntry tid k) \<Rightarrow>
        (\<exists>team. byID t_ID (db_teams s) tid = Some team \<and> t_CaptainID team = cl_UserID cl
           \<and> k = length (team_members_of s tid) \<and> 0 < k
           \<and> (c_TeamCapacity contest > 0 \<longrightarrow> int k \<le> c_TeamCapacity contest)
           \<and> entered contest team (rq_TeamType req) (team_members_of s tid) s s')
    | Inr (Entry v) \<Rightarrow> False
    | _ \<Rightarrow> s' = s)"
proof (cases answer)
  case (Inl err)
  with assms show ?thesis
    by (auto simp: register_team_def Let_def split: option.splits if_splits prod.splits bool.splits)
next
  case (Inr a)
  show ?thesis
  proof (cases a)
    case (TeamEntry tid k)
    with assms Inr obtain team where t: "byID t_ID (db_teams s) (rq_TeamID req) = Some team"
      "tid = t_ID team" "t_CaptainID team = cl_UserID cl" "k = length (team_members_of s tid)"
      "team_members_of s tid \<noteq> []" "\<not> (c_TeamCapacity contest > 0 \<and> int k > c_TeamCapacity contest)"
      and enroll: "enroll_members e 1 contest team (rq_TeamType req) (team_members_of s tid) s = (s', None)"
      by (auto simp: register_team_def Let_def split: option.splits if_splits prod.splits bool.splits)
    have "rq_TeamID req = tid" using t(1,2) by (auto dest: byID_SomeD)
    with t enroll_entered [OF enroll] Inr TeamEntry show ?thesis by auto
  qed (use assms Inr in \<open>auto simp: register_team_def Let_def
      split: option.splits if_splits prod.splits bool.splits\<close>)
qed


definition sample_team :: Team where
  "sample_team = \<lparr>t_ID = 1, t_Name = ''duo'', t_Bio = [], t_Capacity = 3, t_CaptainID = 5,
     t_InviteCode = ''AAAA'', t_CreatedAt = 0\<rparr>"

definition sample_member :: "nat \<Rightarrow> nat \<Rightarrow> TeamMember" where
  "sample_member i uid = \<lparr>tm_ID = i, tm_TeamID = 1, tm_UserID = uid, tm_JoinedAt = 0\<rparr>"

definition duo_db :: db where
  "duo_db = empty_db\<lparr>db_teams := \<lparr>rows = [sample_team], seq = 1\<rparr>,
     db_members := \<lparr>rows = [sample_member 1 5, sample_member 2 6], seq = 2\<rparr>\<rparr>"

lemma duo_members: "team_members_of duo_db 1 = [sample_member 1 5, sample_member 2 6]"
  by (simp add: team_members_of_def duo_db_def tbl_select_def sample_member_def)

theorem team_registration_atomic_witness:
  "\<exists>s'. register_team (sample_env 0) sample_user sample_contest
       \<lparr>rq_TeamName = [], rq_TeamType = TeamStarred, rq_TeamID = 1\<rparr> duo_db = (s', Inr (TeamEntry 1 2))
     \<and> entered sample_contest sample_team TeamStarred (team_members_of duo_db 1) duo_db s'"
proof -
  let ?req = "\<lparr>rq_TeamName = [], rq_TeamType = TeamStarred, rq_TeamID = 1\<rparr>"
  obtain s' answer where run: "register_team (sample_env 0) sample_user sample_contest ?req duo_db = (s', answer)"
    by (rule prod.exhaust)
  have team: "byID t_ID (db_teams duo_db) 1 = Some sample_team"
    by (simp add: byID_def duo_db_def tbl_first_def sample_team_def)
  have "snd (enroll_members (sample_env 0) 1 sample_contest sample_team TeamStarred
      [sample_member 1 5, sample_member 2 6] duo_db) = None"
    by (simp add: enroll_eval duo_db_def empty_db_def empty_table_def sample_env_def sample_contest_def
        sample_team_def sample_member_def)
  then obtain s'' where "enroll_members (sample_env 0) 1 sample_contest sample_team TeamStarred
      [sample_member 1 5, sample_member 2 6] duo_db = (s'', None)" by (metis surjective_pairing)
  moreover have "rows (db_regs duo_db) = []" by (simp add: duo_db_def empty_db_def empty_table_def)
  ultimately have "snd (register_team (sample_env 0) sample_user sample_contest ?req duo_db) = Inr (TeamEntry 1 2)"
    using team by (simp add: register_team_def Let_def duo_members sample_user_def sample_team_def tbl_count_def
        sample_contest_def sample_env_def del: One_nat_def)
  then have "answer = Inr (TeamEntry 1 2)" using run by simp
  with run team_registration_atomic [OF run] team show ?thesis by auto
qed

section \<open>The jury's star\<close>

text \<open>
  When the contestant has no flag yet, the jury's edit creates a flag that belongs to no contest and no
  user: the star never reaches the standings.  The next such edit violates the unique index and fails.
\<close>

lemma star_sync_misses_contestant:
  assumes "env_dbok e n" and "env_dbok e (n + 1)" and "0 < cid"
    and "tbl_first (flag_for cid uid) (db_flags s) = None"
    and "tbl_first (flag_for 0 0) (db_flags s) = None"
  shows "\<exists>s1. syncStarFlag e n cid uid True s = (s1, True) \<and> \<not> starred_in s1 cid uid
           \<and> starred_in s1 0 0 \<and> syncStarFlag e n cid uid True s1 = (s1, False)"
proof -
  let ?f = "(blank_flag 0 0)\<lparr>f_Starred := True, f_ID := Suc (seq (db_flags s)), f_UpdatedAt := env_now e\<rparr>"
  define s0 where
    "s0 = s\<lparr>db_flags := (db_flags s)\<lparr>rows := rows (db_flags s) @ [?f], seq := Suc (seq (db_flags s))\<rparr>\<rparr>"
  define s1 where "s1 = set_starred True e (f_ID ?f) s0"
  have none: "\<forall>r \<in> set (rows (db_flags s)). \<not> flag_for cid uid r \<and> \<not> flag_for 0 0 r"
    using assms(4,5) by (auto simp: tbl_first_None)
  then have zero: "tbl_count (flag_for 0 0) (db_flags s) = 0" by (simp add: tbl_count_zero)
  then have sync: "syncStarFlag e n cid uid True s = (s1, True)"
    using assms by (simp add: syncStarFlag_def upsert_flag_def s1_def s0_def blank_flag_def tbl_create_def)
  have own: "\<forall>r \<in> set (rows (db_flags s1)). \<not> flag_for cid uid r"
    using none assms(3) by (auto simp: s1_def s0_def set_starred_def table_simps flag_for_def blank_flag_def)
  have "?f \<in> set (rows (db_flags s0))" and "flag_for 0 0 ?f"
    by (simp_all add: s0_def flag_for_def blank_flag_def)
  then have star: "starred_in s1 0 0"
    unfolding s1_def set_starred_def by (rule starring_rows) simp
  then have "tbl_count (flag_for 0 0) (db_flags s1) > 0"
    by (auto simp: tbl_count_pos starred_in_def list_ex_iff)
  moreover have "tbl_first (flag_for cid uid) (db_flags s1) = None" using own by (simp add: tbl_first_None)
  ultimately have "syncStarFlag e n cid uid True s1 = (s1, False)"
    using assms(1) by (simp add: syncStarFlag_def upsert_flag_def blank_flag_def)
  with sync star own show ?thesis by (auto simp: starred_in_def list_ex_iff)
qed

end
