(* ===== verification/Problems.thy ===== *)
theory Problems
  imports Registration
begin

text \<open>
  The problem bank: \<open>problems.go\<close>, the review of user problems (\<open>user_problems.go\<close>) and copying and
  exporting (\<open>problem_extra.go\<close>).  Every route of these handlers requires a login, so the caller is a
  \<open>Claims\<close>.
\<close>

section \<open>Query parameters\<close>

text \<open>
  \<open>strconv.Atoi\<close> with its error ignored: 0 on a text that is no number, the nearest bound on one that
  is too large.  Go's \<open>int\<close> arithmetic wraps around; an \<open>OFFSET\<close> that is not positive is left out.
\<close>

definition atoi_or_zero :: "string \<Rightarrow> int" where
  "atoi_or_zero s =
     (let neg = s \<noteq> [] \<and> hd s = CHR ''-'';
          ds = (if s \<noteq> [] \<and> (hd s = CHR ''-'' \<or> hd s = CHR ''+'') then tl s else s)
      in if ds = [] \<or> \<not> list_all is_digit ds then 0
         else if neg then max (- (2 ^ 63)) (- int (str_val ds)) else min (2 ^ 63 - 1) (int (str_val ds)))"

definition pageParams :: "string option \<Rightarrow> string option \<Rightarrow> int \<times> int" where
  "pageParams page_q size_q =
     (let page = atoi_or_zero (case page_q of None \<Rightarrow> ''1'' | Some v \<Rightarrow> v);
          sz = atoi_or_zero (case size_q of None \<Rightarrow> ''20'' | Some v \<Rightarrow> v);
          page = (if page < 1 then 1 else page);
          sz = (if sz < 1 \<or> sz > 100 then 20 else sz)
      in (page, sz))"

definition page_of :: "int \<times> int \<Rightarrow> 'a list \<Rightarrow> 'a list" where
  "page_of ps xs = (case ps of (page, sz) \<Rightarrow> take (nat sz) (drop (nat (wrap_int ((page - 1) * sz))) xs))"

section \<open>The payload\<close>

record problemPayload =
  pp_Title :: string
  pp_StatementMD :: string
  pp_InputDesc :: string
  pp_OutputDesc :: string
  pp_Hint :: string
  pp_Source :: string
  pp_Tags :: "string list"
  pp_Samples :: "Sample list"
  pp_TimeLimitMS :: int
  pp_MemLimitMB :: int
  pp_Visibility :: string
  pp_JudgeMode :: string
  pp_CheckerSource :: string
  pp_InteractorSource :: string
  pp_ContestID :: "nat option"

definition normalize_payload :: "problemPayload \<Rightarrow> problemPayload option" where
  "normalize_payload p =
     (if trim_space (pp_Title p) = [] then None
      else
        let p = (if pp_TimeLimitMS p \<le> 0 then p\<lparr>pp_TimeLimitMS := 1000\<rparr> else p);
            p = (if pp_MemLimitMB p \<le> 0 then p\<lparr>pp_MemLimitMB := 256\<rparr> else p);
            p = (if pp_Visibility p \<in> {VisibilityHidden, VisibilityMembers, VisibilityPublic} then p
                 else p\<lparr>pp_Visibility := VisibilityMembers\<rparr>);
            p = (if pp_JudgeMode p \<in> {JudgeModeDefault, JudgeModeSPJ, JudgeModeInteractive} then p
                 else p\<lparr>pp_JudgeMode := JudgeModeDefault\<rparr>)
        in Some p)"

definition toModel :: "problemPayload \<Rightarrow> Problem \<Rightarrow> Problem" where
  "toModel p prob = prob\<lparr>p_Title := pp_Title p, p_StatementMD := pp_StatementMD p,
     p_InputDesc := pp_InputDesc p, p_OutputDesc := pp_OutputDesc p, p_Hint := pp_Hint p,
     p_Source := pp_Source p, p_Tags := pp_Tags p, p_Samples := pp_Samples p,
     p_TimeLimitMS := pp_TimeLimitMS p, p_MemLimitMB := pp_MemLimitMB p,
     p_Visibility := pp_Visibility p, p_JudgeMode := pp_JudgeMode p,
     p_CheckerSource := pp_CheckerSource p, p_InteractorSrc := pp_InteractorSource p\<rparr>"

definition blank_problem :: Problem where
  "blank_problem = \<lparr>p_ID = 0, p_Title = [], p_StatementMD = [], p_InputDesc = [], p_OutputDesc = [],
     p_Hint = [], p_Source = [], p_Tags = [], p_Samples = [], p_TimeLimitMS = 0, p_MemLimitMB = 0,
     p_Visibility = [], p_JudgeMode = [], p_ContestID = None, p_ReviewStatus = [], p_CheckerSource = [],
     p_InteractorSrc = [], p_CreatedBy = 0, p_CreatedAt = 0, p_UpdatedAt = 0\<rparr>"

abbreviation ReviewDraft :: string where "ReviewDraft \<equiv> ''draft''"
abbreviation ReviewPending :: string where "ReviewPending \<equiv> ''pending''"
abbreviation ReviewApproved :: string where "ReviewApproved \<equiv> ''approved''"
abbreviation ReviewRejected :: string where "ReviewRejected \<equiv> ''rejected''"

text \<open>Creating a row: the column \<open>review_status\<close> defaults to approved when it is empty.\<close>

definition create_problem :: "env \<Rightarrow> Problem \<Rightarrow> db \<Rightarrow> db \<times> Problem" where
  "create_problem e prob s =
     (let (row, t) = tbl_create (\<lambda>i. prob\<lparr>p_ID := i, p_ReviewStatus := orDefault (p_ReviewStatus prob) ReviewApproved,
            p_CreatedAt := env_now e, p_UpdatedAt := env_now e\<rparr>) (db_problems s)
      in (s\<lparr>db_problems := t\<rparr>, row))"

lemma create_problem_simps [simp]:
  "p_ID (snd (create_problem e prob s)) = Suc (seq (db_problems s))"
  "db_cases (fst (create_problem e prob s)) = db_cases s"
  "db_files (fst (create_problem e prob s)) = db_files s"
  "seq (db_problems (fst (create_problem e prob s))) = Suc (seq (db_problems s))"
  "rows (db_problems (fst (create_problem e prob s))) = rows (db_problems s) @ [snd (create_problem e prob s)]"
  by (simp_all add: create_problem_def table_simps split_beta Let_def)

lemma created_problem_simps:
  "p_ReviewStatus (snd (create_problem e prob s)) = orDefault (p_ReviewStatus prob) ReviewApproved"
  "p_Visibility (snd (create_problem e prob s)) = p_Visibility prob"
  "p_CreatedBy (snd (create_problem e prob s)) = p_CreatedBy prob"
  "p_ContestID (snd (create_problem e prob s)) = p_ContestID prob"
  by (simp_all add: create_problem_def tbl_create_def Let_def)

definition save_problem :: "env \<Rightarrow> Problem \<Rightarrow> db \<Rightarrow> db" where
  "save_problem e prob s =
     s\<lparr>db_problems := tbl_update (\<lambda>r. p_ID r = p_ID prob) (\<lambda>_. prob\<lparr>p_UpdatedAt := env_now e\<rparr>) (db_problems s)\<rparr>"

section \<open>Who sees and who manages a problem\<close>

definition canManageProblem :: "Claims \<Rightarrow> db \<Rightarrow> Problem \<Rightarrow> bool" where
  "canManageProblem cl s prob =
     (if isSetterRole (cl_Role cl) then True
      else if p_CreatedBy prob = cl_UserID cl then True
      else case p_ContestID prob of
        None \<Rightarrow> False
      | Some cid \<Rightarrow>
          (case byID c_ID (db_contests s) cid of
             None \<Rightarrow> False
           | Some contest \<Rightarrow> canManageContest (Some cl) contest))"

definition canSeeProblem :: "env \<Rightarrow> Claims \<Rightarrow> db \<Rightarrow> Problem \<Rightarrow> bool" where
  "canSeeProblem e cl s prob =
     (case p_ContestID prob of
        Some cid \<Rightarrow>
          if canManageProblem cl s prob then True
          else (case byID c_ID (db_contests s) cid of
                  None \<Rightarrow> False
                | Some contest \<Rightarrow> canViewContest (Some cl) contest \<and> \<not> env_now e < c_StartTime contest)
      | None \<Rightarrow>
          if p_Visibility prob \<noteq> VisibilityHidden then True
          else if p_CreatedBy prob = cl_UserID cl
               \<and> p_ReviewStatus prob \<in> {ReviewPending, ReviewRejected, ReviewDraft} then True
          else canManageProblem cl s prob)"

section \<open>Listing and reading\<close>

definition visibleProblemScope :: "Claims \<Rightarrow> Problem \<Rightarrow> bool" where
  "visibleProblemScope cl prob \<longleftrightarrow> isSetterRole (cl_Role cl) \<or> p_Visibility prob \<noteq> VisibilityHidden"

text \<open>
  The column \<open>tags\<close> holds the JSON text of the tags, as \<open>encoding/json\<close> writes ASCII strings; \<open>like\<close>
  is the operator of the database.
\<close>

definition hex_digit :: "nat \<Rightarrow> char" where
  "hex_digit d = (if d < 10 then char_of (48 + d) else char_of (87 + d))"

definition json_char :: "char \<Rightarrow> string" where
  "json_char c =
     (if c = CHR 0x22 \<or> c = CHR 0x5C then [CHR 0x5C, c]
      else if c = CHR 0x08 then [CHR 0x5C, CHR ''b'']
      else if c = CHR 0x0C then [CHR 0x5C, CHR ''f'']
      else if c = CHR 0x0A then [CHR 0x5C, CHR ''n'']
      else if c = CHR 0x0D then [CHR 0x5C, CHR ''r'']
      else if c = CHR 0x09 then [CHR 0x5C, CHR ''t'']
      else if (of_char c :: nat) < 32 \<or> c = CHR ''<'' \<or> c = CHR ''>'' \<or> c = CHR 0x26 then
        [CHR 0x5C, CHR ''u'', CHR ''0'', CHR ''0'', hex_digit (of_char c div 16), hex_digit (of_char c mod 16)]
      else [c])"

definition json_string :: "string \<Rightarrow> string" where
  "json_string s = [CHR 0x22] @ concat (map json_char s) @ [CHR 0x22]"

fun json_strings :: "string list \<Rightarrow> string" where
  "json_strings [] = ''[]''"
| "json_strings (s # ss) = ''['' @ json_string s @ concat (map (\<lambda>t. CHR '','' # json_string t) ss) @ '']''"

definition listProblems ::
  "(string \<Rightarrow> string \<Rightarrow> bool) \<Rightarrow> Claims \<Rightarrow> string \<Rightarrow> string \<Rightarrow> string option \<Rightarrow> string option \<Rightarrow> db \<Rightarrow>
    nat \<times> Problem list" where
  "listProblems like cl kw tag page_q size_q s =
     (let all = tbl_select (\<lambda>p. visibleProblemScope cl p \<and> p_ContestID p = None
            \<and> (kw \<noteq> [] \<longrightarrow> like (p_Title p) (''%'' @ kw @ ''%''))
            \<and> (tag \<noteq> [] \<longrightarrow> like (json_strings (p_Tags p)) (''%'' @ [CHR 0x22] @ tag @ [CHR 0x22] @ ''%'')))
            (db_problems s)
      in (length all, page_of (pageParams page_q size_q) all))"

record problem_reply =
  py_problem :: Problem
  py_samples :: "Sample list"
  py_case_count :: nat
  py_can_manage :: bool
  py_sources :: "(string \<times> string) option"

text \<open>The JSON of a problem leaves out the two sources; they are answered to managers only.\<close>

definition getProblem :: "env \<Rightarrow> Claims \<Rightarrow> string \<Rightarrow> db \<Rightarrow> http_error + problem_reply" where
  "getProblem e cl idstr s =
     (case problemByID s idstr of
        None \<Rightarrow> Inl (HTTP 404 ''problem not found'')
      | Some prob \<Rightarrow>
          if \<not> canSeeProblem e cl s prob then Inl (HTTP 404 ''problem not found'')
          else Inr \<lparr>py_problem = prob\<lparr>p_CheckerSource := [], p_InteractorSrc := []\<rparr>,
                    py_samples = p_Samples prob,
                    py_case_count = tbl_count (\<lambda>t. tc_ProblemID t = p_ID prob) (db_cases s),
                    py_can_manage = canManageProblem cl s prob,
                    py_sources = (if canManageProblem cl s prob
                                  then Some (p_CheckerSource prob, p_InteractorSrc prob) else None)\<rparr>)"

section \<open>Creating, updating, deleting\<close>

definition createProblem :: "env \<Rightarrow> Claims \<Rightarrow> problemPayload option \<Rightarrow> db \<Rightarrow> (db, Problem) handled" where
  "createProblem e cl body s =
     (case (case body of None \<Rightarrow> None | Some p \<Rightarrow> normalize_payload p) of
        None \<Rightarrow> (s, Inl (HTTP 400 ''invalid payload''))
      | Some p \<Rightarrow>
          (case (case pp_ContestID p of
                   None \<Rightarrow> Inr p
                 | Some cid \<Rightarrow>
                     (case byID c_ID (db_contests s) cid of
                        None \<Rightarrow> Inl (HTTP 404 ''contest not found'')
                      | Some contest \<Rightarrow>
                          if \<not> canManageContest (Some cl) contest then Inl (HTTP 403 ''not allowed'')
                          else Inr (p\<lparr>pp_Visibility := VisibilityHidden\<rparr>))) of
             Inl err \<Rightarrow> (s, Inl err)
           | Inr p \<Rightarrow>
               if \<not> env_dbok e 0 then (s, Inl (HTTP 500 ''create problem failed''))
               else
                 let (s, row) = create_problem e
                       ((toModel p blank_problem)\<lparr>p_ContestID := pp_ContestID p, p_CreatedBy := cl_UserID cl\<rparr>) s
                 in (s, Inr row)))"

definition updateProblem ::
  "env \<Rightarrow> Claims \<Rightarrow> string \<Rightarrow> problemPayload option \<Rightarrow> db \<Rightarrow> (db, Problem) handled" where
  "updateProblem e cl idstr body s =
     (case problemByID s idstr of
        None \<Rightarrow> (s, Inl (HTTP 404 ''problem not found''))
      | Some prob \<Rightarrow>
          if \<not> canManageProblem cl s prob then (s, Inl (HTTP 403 ''not allowed''))
          else case (case body of None \<Rightarrow> None | Some p \<Rightarrow> normalize_payload p) of
            None \<Rightarrow> (s, Inl (HTTP 400 ''invalid payload''))
          | Some p \<Rightarrow>
              if \<not> env_dbok e 0 then (s, Inl (HTTP 500 ''update failed''))
              else (save_problem e (toModel p prob) s, Inr (toModel p prob)))"

text \<open>
  The outcome of the transaction is ignored: the files go and the answer is 200 even when the rows
  stay.  \<open>remove_all d\<close> deletes the directory \<open>d\<close> with everything in it.
\<close>

definition remove_all :: "string \<Rightarrow> (string \<Rightarrow> string option) \<Rightarrow> string \<Rightarrow> string option" where
  "remove_all d files p = (if is_prefix (d @ ''/'') p then None else files p)"

definition deleteProblem :: "env \<Rightarrow> Claims \<Rightarrow> string \<Rightarrow> db \<Rightarrow> (db, unit) handled" where
  "deleteProblem e cl idstr s =
     (case problemByID s idstr of
        None \<Rightarrow> (s, Inl (HTTP 404 ''problem not found''))
      | Some prob \<Rightarrow>
          if \<not> canManageProblem cl s prob then (s, Inl (HTTP 403 ''not allowed''))
          else
            let s = (if env_dbok e 0
                     then s\<lparr>db_cases := tbl_delete (\<lambda>t. tc_ProblemID t = p_ID prob) (db_cases s),
                            db_problems := tbl_delete (\<lambda>r. p_ID r = p_ID prob) (db_problems s)\<rparr>
                     else s)
            in (s\<lparr>db_files := remove_all (testdata_dir (p_ID prob)) (db_files s)\<rparr>, Inr ()))"


section \<open>Test data rows\<close>

definition listTestdata :: "Claims \<Rightarrow> string \<Rightarrow> db \<Rightarrow> http_error + TestCase list" where
  "listTestdata cl idstr s =
     (case problemByID s idstr of
        None \<Rightarrow> Inl (HTTP 404 ''problem not found'')
      | Some prob \<Rightarrow>
          if \<not> canManageProblem cl s prob then Inl (HTTP 403 ''not allowed'')
          else Inr (sort_by (\<lambda>a b. tc_CaseIndex a < tc_CaseIndex b)
                 (tbl_select (\<lambda>t. tc_ProblemID t = p_ID prob) (db_cases s))))"

definition remove_case_files :: "nat \<Rightarrow> int \<Rightarrow> (string \<Rightarrow> string option) \<Rightarrow> string \<Rightarrow> string option" where
  "remove_case_files pid idx files =
     files(testdata_dir pid @ ''/'' @ int_str idx @ ''.in'' := None,
           testdata_dir pid @ ''/'' @ int_str idx @ ''.out'' := None)"

definition deleteTestdata :: "env \<Rightarrow> Claims \<Rightarrow> string \<Rightarrow> string \<Rightarrow> db \<Rightarrow> (db, unit) handled" where
  "deleteTestdata e cl idstr caseidstr s =
     (case problemByID s idstr of
        None \<Rightarrow> (s, Inl (HTTP 404 ''problem not found''))
      | Some prob \<Rightarrow>
          if \<not> canManageProblem cl s prob then (s, Inl (HTTP 403 ''not allowed''))
          else case paramID caseidstr of
            None \<Rightarrow> (s, Inl (HTTP 400 ''invalid case id''))
          | Some caseID \<Rightarrow>
              (case byID tc_ID (db_cases s) caseID of
                 None \<Rightarrow> (s, Inl (HTTP 404 ''test case not found''))
               | Some tc \<Rightarrow>
                   if tc_ProblemID tc \<noteq> p_ID prob then (s, Inl (HTTP 404 ''test case not found''))
                   else if \<not> env_dbok e 0 then (s, Inl (HTTP 500 ''delete test case failed''))
                   else (s\<lparr>db_cases := tbl_delete (\<lambda>r. tc_ID r = tc_ID tc) (db_cases s),
                           db_files := remove_case_files (p_ID prob) (tc_CaseIndex tc) (db_files s)\<rparr>, Inr ())))"

section \<open>The review of user problems\<close>

definition createUserProblem :: "env \<Rightarrow> Claims \<Rightarrow> problemPayload option \<Rightarrow> db \<Rightarrow> (db, Problem) handled" where
  "createUserProblem e cl body s =
     (case (case body of None \<Rightarrow> None | Some p \<Rightarrow> normalize_payload p) of
        None \<Rightarrow> (s, Inl (HTTP 400 ''invalid payload''))
      | Some p \<Rightarrow>
          if \<not> env_dbok e 0 then (s, Inl (HTTP 500 ''create failed''))
          else
            let (s, row) = create_problem e ((toModel p blank_problem)\<lparr>p_CreatedBy := cl_UserID cl,
                  p_Visibility := VisibilityHidden, p_ReviewStatus := ReviewPending\<rparr>) s
            in (s, Inr row))"

definition myProblems :: "Claims \<Rightarrow> db \<Rightarrow> (Problem \<times> nat) list" where
  "myProblems cl s =
     map (\<lambda>p. (p, tbl_count (\<lambda>t. tc_ProblemID t = p_ID p) (db_cases s)))
       (take 100 (rev (tbl_select (\<lambda>p. p_CreatedBy p = cl_UserID cl \<and> p_ContestID p = None) (db_problems s))))"

text \<open>
  The body is read twice: as a request to resubmit only (\<open>None\<close> when that binding fails) and as a
  payload.
\<close>

definition set_review :: "env \<Rightarrow> nat \<Rightarrow> (Problem \<Rightarrow> Problem) \<Rightarrow> db \<Rightarrow> db" where
  "set_review e pid f s =
     s\<lparr>db_problems := tbl_update (\<lambda>r. p_ID r = pid) (\<lambda>r. (f r)\<lparr>p_UpdatedAt := env_now e\<rparr>) (db_problems s)\<rparr>"

definition updateMyProblem ::
  "env \<Rightarrow> Claims \<Rightarrow> string \<Rightarrow> bool option \<Rightarrow> problemPayload option \<Rightarrow> db \<Rightarrow> (db, Problem) handled" where
  "updateMyProblem e cl idstr resubmit body s =
     (case paramID idstr of
        None \<Rightarrow> (s, Inl (HTTP 400 ''invalid problem id''))
      | Some pid \<Rightarrow>
          (case byID p_ID (db_problems s) pid of
             None \<Rightarrow> (s, Inl (HTTP 404 ''problem not found''))
           | Some prob \<Rightarrow>
               if p_CreatedBy prob \<noteq> cl_UserID cl then (s, Inl (HTTP 403 ''not your problem''))
               else if p_ReviewStatus prob = ReviewApproved then
                 (s, Inl (HTTP 400 ''a public problem is edited in the bank''))
               else if resubmit = Some True then
                 if p_ReviewStatus prob = ReviewRejected then
                   if \<not> env_dbok e 0 then (s, Inl (HTTP 500 ''resubmit failed''))
                   else (set_review e pid (\<lambda>r. r\<lparr>p_ReviewStatus := ReviewPending\<rparr>) s,
                         Inr (prob\<lparr>p_ReviewStatus := ReviewPending\<rparr>))
                 else (s, Inr prob)
               else case (case body of None \<Rightarrow> None | Some p \<Rightarrow> normalize_payload p) of
                 None \<Rightarrow> (s, Inl (HTTP 400 ''invalid payload''))
               | Some p \<Rightarrow>
                   let new = (toModel p prob)\<lparr>p_Visibility := VisibilityHidden\<rparr>;
                       new = (if p_ReviewStatus new = ReviewRejected
                              then new\<lparr>p_ReviewStatus := ReviewPending\<rparr> else new)
                   in if \<not> env_dbok e 0 then (s, Inl (HTTP 500 ''save failed''))
                      else (save_problem e new s, Inr new)))"

definition reviewProblem :: "env \<Rightarrow> string \<Rightarrow> string option \<Rightarrow> db \<Rightarrow> (db, Problem) handled" where
  "reviewProblem e idstr body s =
     (case paramID idstr of
        None \<Rightarrow> (s, Inl (HTTP 400 ''invalid problem id''))
      | Some pid \<Rightarrow>
          (case byID p_ID (db_problems s) pid of
             None \<Rightarrow> (s, Inl (HTTP 404 ''problem not found''))
           | Some prob \<Rightarrow>
               (case body of
                  None \<Rightarrow> (s, Inl (HTTP 400 ''invalid payload''))
                | Some action \<Rightarrow>
                    if action = [] then (s, Inl (HTTP 400 ''invalid payload''))
                    else if action = ''approve'' then
                      let f = (\<lambda>r. r\<lparr>p_ReviewStatus := ReviewApproved, p_Visibility := VisibilityMembers\<rparr>)
                      in if \<not> env_dbok e 0 then (s, Inl (HTTP 500 ''approve failed''))
                         else (set_review e pid f s, Inr (f prob))
                    else if action = ''reject'' then
                      let f = (\<lambda>r. r\<lparr>p_ReviewStatus := ReviewRejected\<rparr>)
                      in if \<not> env_dbok e 0 then (s, Inl (HTTP 500 ''reject failed''))
                         else (set_review e pid f s, Inr (f prob))
                    else (s, Inl (HTTP 400 ''action must be approve or reject'')))))"

definition pendingProblems :: "db \<Rightarrow> Problem list" where
  "pendingProblems s = take 100 (tbl_select (\<lambda>p. p_ReviewStatus p = ReviewPending) (db_problems s))"

section \<open>Copying and exporting\<close>

text \<open>Errors of the later statements are ignored; \<open>copy_ok\<close> says whether the files could be copied.\<close>

definition copyProblem :: "env \<Rightarrow> bool \<Rightarrow> Claims \<Rightarrow> string \<Rightarrow> db \<Rightarrow> (db, Problem) handled" where
  "copyProblem e copy_ok cl idstr s =
     (case problemByID s idstr of
        None \<Rightarrow> (s, Inl (HTTP 404 ''problem not found''))
      | Some src \<Rightarrow>
          if \<not> canManageProblem cl s src then (s, Inl (HTTP 404 ''problem not found''))
          else if \<not> env_dbok e 0 then (s, Inl (HTTP 500 ''copy failed''))
          else
            let (s, clone) = create_problem e (src\<lparr>p_Title := p_Title src @ '' (copy)'',
                  p_CreatedBy := cl_UserID cl, p_ContestID := None\<rparr>) s;
                s = fold (\<lambda>tc s. s\<lparr>db_cases := snd (tbl_create
                        (\<lambda>i. tc\<lparr>tc_ID := i, tc_ProblemID := p_ID clone\<rparr>) (db_cases s))\<rparr>)
                      (tbl_select (\<lambda>t. tc_ProblemID t = p_ID src) (db_cases s)) s;
                s = (if copy_ok then s\<lparr>db_files :=
                       copyDir (testdata_dir (p_ID src)) (testdata_dir (p_ID clone)) (db_files s)\<rparr> else s)
            in (s, Inr clone))"

text \<open>
  The archive as its entries in order.  \<open>names\<close> are the regular files of the test data directory.
\<close>

definition sample_entries :: "Sample list \<Rightarrow> (string \<times> string) list" where
  "sample_entries sms = concat (map (\<lambda>(i, sm).
     [(''testdata/'' @ nat_str (i + 1) @ ''.in'', sm_Input sm),
      (''testdata/'' @ nat_str (i + 1) @ ''.out'', sm_Output sm)]) (List.enumerate 0 sms))"

definition newline :: string where
  "newline = [CHR 0x0A]"

definition export_meta :: "Problem \<Rightarrow> string" where
  "export_meta prob = ''id='' @ nat_str (p_ID prob) @ newline @ ''title='' @ p_Title prob @ newline
     @ ''time_limit_ms='' @ int_str (p_TimeLimitMS prob) @ newline
     @ ''mem_limit_mb='' @ int_str (p_MemLimitMB prob) @ newline
     @ ''judge_mode='' @ p_JudgeMode prob @ newline"

definition exportProblem ::
  "env \<Rightarrow> string list \<Rightarrow> Claims \<Rightarrow> string \<Rightarrow> string \<Rightarrow> db \<Rightarrow> http_error + (string \<times> string) list" where
  "exportProblem e names cl idstr shared_q s =
     (case problemByID s idstr of
        None \<Rightarrow> Inl (HTTP 404 ''problem not found'')
      | Some prob \<Rightarrow>
          if \<not> canSeeProblem e cl s prob then Inl (HTTP 404 ''problem not found'')
          else if \<not> canManageProblem cl s prob then Inl (HTTP 403 ''not allowed'')
          else
            let shared = (shared_q = ''1'')
            in Inr ([(''statement.md'', p_StatementMD prob), (''meta.txt'', export_meta prob)]
                 @ (if shared then []
                    else (if p_CheckerSource prob \<noteq> [] then [(''checker.cpp'', p_CheckerSource prob)] else [])
                       @ (if p_InteractorSrc prob \<noteq> [] then [(''interactor.cpp'', p_InteractorSrc prob)] else []))
                 @ (if shared then sample_entries (p_Samples prob)
                    else map (\<lambda>n. (''testdata/'' @ n,
                           case db_files s (testdata_dir (p_ID prob) @ ''/'' @ n) of None \<Rightarrow> [] | Some raw \<Rightarrow> raw))
                         names)))"


section \<open>Authors cannot publish\<close>

text \<open>What any logged-in user can do to the bank without a setter's role.\<close>

inductive author_step :: "db \<Rightarrow> db \<Rightarrow> bool" where
  author_create: "author_step s (fst (createUserProblem e cl body s))"
| author_update: "author_step s (fst (updateMyProblem e cl idstr resubmit body s))"

text \<open>
  \<open>vetted s r\<close>: the row \<open>r\<close> was approved in \<open>s\<close>, unchanged; or it is only visible because it was in \<open>s\<close>,
  with the same content.
\<close>

definition vetted :: "db \<Rightarrow> Problem \<Rightarrow> bool" where
  "vetted s r \<longleftrightarrow>
     (p_ReviewStatus r = ReviewApproved \<longrightarrow> r \<in> set (rows (db_problems s)))
     \<and> (p_Visibility r \<noteq> VisibilityHidden \<longrightarrow>
          list_ex (\<lambda>r0. r = r0\<lparr>p_ReviewStatus := p_ReviewStatus r, p_UpdatedAt := p_UpdatedAt r\<rparr>)
            (rows (db_problems s)))"

lemma vetted_row: "r \<in> set (rows (db_problems s)) \<Longrightarrow> vetted s r"
  by (auto simp: vetted_def list_ex_iff intro!: bexI [of _ r])

lemma vetted_private:
  "p_ReviewStatus r \<noteq> ReviewApproved \<Longrightarrow> p_Visibility r = VisibilityHidden \<Longrightarrow> vetted s r"
  by (simp add: vetted_def)

lemma vetted_status:
  assumes "vetted s r" and "st \<noteq> ReviewApproved"
  shows "vetted s (r\<lparr>p_ReviewStatus := st, p_UpdatedAt := u\<rparr>)"
proof -
  have "\<exists>r0 \<in> set (rows (db_problems s)).
      r\<lparr>p_ReviewStatus := st, p_UpdatedAt := u\<rparr> = r0\<lparr>p_ReviewStatus := st, p_UpdatedAt := u\<rparr>"
    if "p_Visibility r \<noteq> VisibilityHidden"
  proof -
    from assms(1) that obtain r0 where r0: "r0 \<in> set (rows (db_problems s))"
      "r = r0\<lparr>p_ReviewStatus := p_ReviewStatus r, p_UpdatedAt := p_UpdatedAt r\<rparr>"
      by (auto simp: vetted_def list_ex_iff)
    from r0(2) have "r\<lparr>p_ReviewStatus := st, p_UpdatedAt := u\<rparr>
        = (r0\<lparr>p_ReviewStatus := p_ReviewStatus r, p_UpdatedAt := p_UpdatedAt r\<rparr>)\<lparr>p_ReviewStatus := st, p_UpdatedAt := u\<rparr>"
      by (rule arg_cong)
    then have "r\<lparr>p_ReviewStatus := st, p_UpdatedAt := u\<rparr> = r0\<lparr>p_ReviewStatus := st, p_UpdatedAt := u\<rparr>" by simp
    with r0(1) show ?thesis by blast
  qed
  with assms(2) show ?thesis by (simp add: vetted_def list_ex_iff)
qed

definition bank_vetted :: "db \<Rightarrow> db \<Rightarrow> bool" where
  "bank_vetted s0 s \<longleftrightarrow> tbl_ok p_ID (db_problems s) \<and> list_all (vetted s0) (rows (db_problems s))"

lemma bank_vetted_update:
  assumes "bank_vetted s0 s" and "prob \<in> set (rows (db_problems s))" and "\<And>r. p_ID (f r) = p_ID r"
    and "vetted s0 (f prob)"
  shows "bank_vetted s0 (s\<lparr>db_problems := tbl_update (\<lambda>r. p_ID r = p_ID prob) f (db_problems s)\<rparr>)"
proof -
  have ok: "tbl_ok p_ID (db_problems s)" using assms(1) by (simp add: bank_vetted_def)
  have "r = prob" if "r \<in> set (rows (db_problems s))" and "p_ID r = p_ID prob" for r
    using tbl_ok_unique [OF ok that(1) assms(2) that(2)] .
  with assms ok show ?thesis
    by (auto simp: bank_vetted_def table_simps list_all_iff intro!: tbl_ok_update)
qed

lemma bank_vetted_create:
  assumes "bank_vetted s0 s" and "p_Visibility prob = VisibilityHidden" and "p_ReviewStatus prob = ReviewPending"
  shows "bank_vetted s0 (fst (create_problem e prob s))"
proof -
  let ?mk = "\<lambda>i. prob\<lparr>p_ID := i, p_ReviewStatus := ReviewPending, p_CreatedAt := env_now e, p_UpdatedAt := env_now e\<rparr>"
  have "tbl_ok p_ID (snd (tbl_create ?mk (db_problems s)))"
    using assms(1) by (intro tbl_ok_create) (simp_all add: bank_vetted_def)
  moreover have "vetted s0 (?mk i)" for i using assms(2) by (intro vetted_private) simp_all
  ultimately show ?thesis
    using assms by (simp add: bank_vetted_def create_problem_def tbl_create_def orDefault_def Let_def)
qed

lemma author_create_vetted: "bank_vetted s0 s \<Longrightarrow> bank_vetted s0 (fst (createUserProblem e cl body s))"
proof -
  assume s: "bank_vetted s0 s"
  have "bank_vetted s0 s'" if "create_problem e ((toModel p blank_problem)\<lparr>p_CreatedBy := cl_UserID cl,
        p_Visibility := VisibilityHidden, p_ReviewStatus := ReviewPending\<rparr>) s = (s', row)" for p s' row
  proof -
    have "bank_vetted s0 (fst (create_problem e ((toModel p blank_problem)\<lparr>p_CreatedBy := cl_UserID cl,
        p_Visibility := VisibilityHidden, p_ReviewStatus := ReviewPending\<rparr>) s))"
      by (rule bank_vetted_create [OF s]) simp_all
    with that show ?thesis by simp
  qed
  with s show ?thesis by (simp add: createUserProblem_def split: option.splits prod.splits)
qed

lemma author_update_vetted:
  assumes "bank_vetted s0 s"
  shows "bank_vetted s0 (fst (updateMyProblem e cl idstr resubmit body s))"
proof -
  have resubmit: "bank_vetted s0 (set_review e pid (\<lambda>r. r\<lparr>p_ReviewStatus := ReviewPending\<rparr>) s)"
    if "byID p_ID (db_problems s) pid = Some prob" for pid prob
  proof -
    from byID_SomeD [OF that] have prob: "prob \<in> set (rows (db_problems s))" "pid = p_ID prob" by auto
    with assms have "vetted s0 prob" by (simp add: bank_vetted_def list_all_iff)
    then have v: "vetted s0 (prob\<lparr>p_ReviewStatus := ReviewPending, p_UpdatedAt := env_now e\<rparr>)"
      by (rule vetted_status) simp
    show ?thesis unfolding set_review_def prob(2)
      by (rule bank_vetted_update [OF assms prob(1)]) (simp_all add: v)
  qed
  have save: "bank_vetted s0 (save_problem e new s)"
    if "byID p_ID (db_problems s) pid = Some prob" and "p_ID new = p_ID prob"
      and "p_Visibility new = VisibilityHidden" and "p_ReviewStatus new \<noteq> ReviewApproved" for pid prob new
  proof -
    have f: "tbl_update (\<lambda>r. p_ID r = p_ID prob) (\<lambda>_. new\<lparr>p_UpdatedAt := env_now e\<rparr>) t
      = tbl_update (\<lambda>r. p_ID r = p_ID prob) (\<lambda>r. new\<lparr>p_ID := p_ID r, p_UpdatedAt := env_now e\<rparr>) t" for t
      using that(2) by (auto simp: tbl_update_def)
    have v: "vetted s0 (new\<lparr>p_ID := p_ID prob, p_UpdatedAt := env_now e\<rparr>)"
      using that(3,4) by (intro vetted_private) simp_all
    show ?thesis unfolding save_problem_def that(2) f
      by (rule bank_vetted_update [OF assms]) (use byID_SomeD [OF that(1)] v in simp_all)
  qed
  show ?thesis
  proof (cases "paramID idstr")
    case (Some pid)
    show ?thesis
    proof (cases "byID p_ID (db_problems s) pid")
      case (Some prob)
      from \<open>paramID idstr = Some pid\<close> Some assms resubmit [OF Some] save [OF Some] show ?thesis
        by (auto simp: updateMyProblem_def Let_def toModel_def split: option.splits)
    qed (use assms \<open>paramID idstr = Some pid\<close> in \<open>simp add: updateMyProblem_def\<close>)
  qed (use assms in \<open>simp add: updateMyProblem_def\<close>)
qed

lemma author_step_vetted: "author_step s s' \<Longrightarrow> bank_vetted s0 s \<Longrightarrow> bank_vetted s0 s'"
  by (induction rule: author_step.induct) (simp_all add: author_create_vetted author_update_vetted)


definition sample_payload :: problemPayload where
  "sample_payload = \<lparr>pp_Title = ''mine'', pp_StatementMD = ''easy'', pp_InputDesc = [], pp_OutputDesc = [],
     pp_Hint = [], pp_Source = [], pp_Tags = [], pp_Samples = [], pp_TimeLimitMS = 0, pp_MemLimitMB = 0,
     pp_Visibility = VisibilityPublic, pp_JudgeMode = [], pp_CheckerSource = [], pp_InteractorSource = [],
     pp_ContestID = None\<rparr>"

definition authored_db :: db where
  "authored_db = fst (createUserProblem (sample_env 0) sample_user (Some sample_payload) empty_db)"


text \<open>Rejecting a problem that was approved leaves it visible in the bank.\<close>

lemma reject_keeps_visible:
  assumes "reviewProblem e idstr (Some ''reject'') s = (s', Inr r)"
  shows "p_ReviewStatus r = ReviewRejected \<and> (\<exists>prob \<in> set (rows (db_problems s)). p_Visibility r = p_Visibility prob)"
  using assms by (auto simp: reviewProblem_def Let_def split: option.splits if_splits dest: byID_SomeD)


text \<open>
  The copy a contest makes of a bank problem keeps the author and the review status: the copy of an
  unreviewed problem cannot be submitted to, but its author can still edit it in the running contest.
\<close>

lemma contest_copy_keeps_review:
  assumes "cloneProblemForContest e copy_ok n srcID cid s = (s', Inr clone, n')"
  shows "\<exists>src. byID p_ID (db_problems s) srcID = Some src \<and> p_CreatedBy clone = p_CreatedBy src
    \<and> p_ReviewStatus clone = p_ReviewStatus src \<and> p_ContestID clone = Some cid"
  using assms by (auto simp: cloneProblemForContest_def tbl_create_def Let_def
      split: option.splits if_splits prod.splits)

end
