(* ===== verification/Submissions.thy ===== *)
theory Submissions
  imports Problems Rate_Limits Daemon Judge_Verdicts
begin

text \<open>
  Submissions (\<open>submissions.go\<close>): accepting a submission with every check of \<open>createSubmission\<close> and
  \<open>checkContestContext\<close>, and reading submissions back behind the freeze mask.  The section on the gate
  states declaratively who may submit what and when; an accepted submission is the step \<open>submitted\<close>
  of the judge hub.
\<close>

section \<open>Accepting a submission\<close>

record createSubmissionReq =
  sq_ProblemID :: nat
  sq_ContestID :: "nat option"
  sq_Language :: string
  sq_Code :: string

record submit_server = server +
  srv_submits :: submitLimiter
  srv_langs :: registry

definition maxCodeSize :: nat where
  "maxCodeSize = 262144"

text \<open>The answer of the check: whether the attempt is practice, and the error if there is one.\<close>

definition checkContestContext :: "env \<Rightarrow> Claims \<Rightarrow> nat option \<Rightarrow> nat \<Rightarrow> db \<Rightarrow> string + bool" where
  "checkContestContext e cl contestID problemID s =
     (case contestID of
        None \<Rightarrow> Inr False
      | Some cid \<Rightarrow>
          (case byID c_ID (db_contests s) cid of
             None \<Rightarrow> Inl ''contest not found''
           | Some contest \<Rightarrow>
               if env_now e < c_StartTime contest then Inl ''contest has not started''
               else
                 let practice = env_now e > c_EndTime contest
                 in if tbl_count (\<lambda>l. cp_ContestID l = cid \<and> cp_ProblemID l = problemID) (db_links s) = 0 then
                      Inl ''problem not in this contest''
                    else if \<not> practice \<and> registrationRequired contest
                        \<and> tbl_count (reg_for cid (cl_UserID cl)) (db_regs s) = 0 then
                      Inl ''register on the contest page first''
                    else Inr practice))"

definition codes_path :: "nat \<Rightarrow> string" where
  "codes_path i = ''codes/'' @ nat_str i"

definition new_submission :: "env \<Rightarrow> Claims \<Rightarrow> createSubmissionReq \<Rightarrow> nat \<Rightarrow> bool \<Rightarrow> nat \<Rightarrow> Submission" where
  "new_submission e cl req pid practice i =
     \<lparr>s_ID = i, s_UserID = cl_UserID cl, s_ProblemID = pid, s_ContestID = sq_ContestID req,
      s_Language = sq_Language req, s_CodePath = [], s_CodeSize = int (length (sq_Code req)),
      s_Status = SubPending, s_Score = 0, s_TimeMS = 0, s_MemoryKB = 0, s_CompileMessage = [],
      s_Cases = [], s_CreatedAt = env_now e, s_JudgedAt = None, s_LeaseUntil = None,
      s_IsPractice = practice, s_Cancelled = False\<rparr>"

text \<open>
  \<open>fs_ok\<close> says whether the code file could be written.  The row is created before the code is stored
  and the task pushed; a failure of either leaves it behind.
\<close>

definition store_submission ::
  "env \<Rightarrow> bool \<Rightarrow> (nat \<Rightarrow> Submission) \<Rightarrow> string \<Rightarrow> 'a server_scheme \<Rightarrow> ('a server_scheme, Submission) handled" where
  "store_submission e fs_ok mk code sv =
     (if \<not> env_dbok e 0 then (sv, Inl (HTTP 500 ''create submission failed''))
      else
        let s = srv_db sv;
            (sub, t) = tbl_create mk (db_submissions s);
            s = s\<lparr>db_submissions := t\<rparr>
        in if \<not> fs_ok then (sv\<lparr>srv_db := s\<rparr>, Inl (HTTP 500 ''store code failed''))
           else
             let path = codes_path (s_ID sub);
                 s = s\<lparr>db_files := (db_files s)(path := Some code)\<rparr>;
                 sub = sub\<lparr>s_CodePath := path\<rparr>;
                 s = s\<lparr>db_submissions :=
                       tbl_update (\<lambda>r. s_ID r = s_ID sub) (\<lambda>r. r\<lparr>s_CodePath := path\<rparr>) (db_submissions s)\<rparr>;
                 (q, err) = mq_push (srv_queue sv) (s_ID sub);
                 sv = sv\<lparr>srv_db := s, srv_queue := q\<rparr>
             in if err \<noteq> None then (sv, Inl (HTTP 500 ''enqueue judge task failed''))
                else (sv, Inr sub))"

definition createSubmission ::
  "env \<Rightarrow> bool \<Rightarrow> Claims \<Rightarrow> createSubmissionReq option \<Rightarrow> submit_server \<Rightarrow> (submit_server, Submission) handled" where
  "createSubmission e fs_ok cl body sv =
     (let (lim, ok) = submit_allow (srv_submits sv) (cl_UserID cl) (env_now e);
          sv = sv\<lparr>srv_submits := lim\<rparr>;
          s = srv_db sv
      in if \<not> ok then (sv, Inl (HTTP 429 ''submission rate limit exceeded, wait a moment''))
         else case body of
           None \<Rightarrow> (sv, Inl (HTTP 400 ''invalid request''))
         | Some req \<Rightarrow>
             if sq_ProblemID req = 0 \<or> sq_Language req = [] \<or> sq_Code req = [] then
               (sv, Inl (HTTP 400 ''invalid request''))
             else if length (sq_Code req) > maxCodeSize then (sv, Inl (HTTP 400 ''code too large''))
             else case reg_get (srv_langs sv) (sq_Language req) of
               Inl err \<Rightarrow> (sv, Inl (HTTP 400 err))
             | Inr lang \<Rightarrow>
                 (case byID p_ID (db_problems s) (sq_ProblemID req) of
                    None \<Rightarrow> (sv, Inl (HTTP 404 ''problem not found''))
                  | Some prob \<Rightarrow>
                      if \<not> canSeeProblem e cl s prob then (sv, Inl (HTTP 404 ''problem not found''))
                      else if p_ReviewStatus prob \<noteq> ReviewApproved
                          \<and> \<not> (p_CreatedBy prob = cl_UserID cl \<and> p_ReviewStatus prob = ReviewDraft) then
                        (sv, Inl (HTTP 400 ''the problem has not passed review''))
                      else if p_ContestID prob \<noteq> None \<and> sq_ContestID req \<noteq> p_ContestID prob then
                        (sv, Inl (HTTP 400 ''submit to this problem from its contest page''))
                      else (case checkContestContext e cl (sq_ContestID req) (p_ID prob) s of
                              Inl err \<Rightarrow> (sv, Inl (HTTP 400 err))
                            | Inr practice \<Rightarrow>
                                store_submission e fs_ok (new_submission e cl req (p_ID prob) practice)
                                  (sq_Code req) sv)))"

section \<open>Reading submissions\<close>

text \<open>
  What a request brings: the caller, the clock, the query.  \<open>judge_view\<close> is the query parameter that
  lifts the mask for the jury.
\<close>

definition maskSubmission :: "env \<Rightarrow> Claims \<Rightarrow> string \<Rightarrow> db \<Rightarrow> Submission \<Rightarrow> bool" where
  "maskSubmission e cl judge_view s sub =
     (case s_ContestID sub of
        None \<Rightarrow> False
      | Some cid \<Rightarrow>
          if s_IsPractice sub then False
          else case byID c_ID (db_contests s) cid of
            None \<Rightarrow> False
          | Some contest \<Rightarrow>
              (let fp = freezePoint contest (env_now e)
               in if \<not> after_freeze fp (s_CreatedAt sub) then False
                  else if judge_view = ''1'' \<and> canJudgeContest (Some cl) contest then False
                  else True))"

record submission_view =
  vw_ID :: nat
  vw_UserID :: nat
  vw_ProblemID :: nat
  vw_ContestID :: "nat option"
  vw_Language :: string
  vw_CodeSize :: int
  vw_Status :: string
  vw_Score :: int
  vw_TimeMS :: int
  vw_MemoryKB :: int
  vw_CompileMessage :: string
  vw_Cases :: "CaseResult list"
  vw_CreatedAt :: time
  vw_JudgedAt :: "time option"
  vw_Code :: "string option"
  vw_Masked :: bool

definition applyFreezeMask :: "submission_view \<Rightarrow> submission_view" where
  "applyFreezeMask v = v\<lparr>vw_Status := ''SUBMITTED'', vw_Cases := [], vw_CompileMessage := [],
     vw_JudgedAt := None, vw_TimeMS := 0, vw_MemoryKB := 0\<rparr>"

definition canViewCode :: "env \<Rightarrow> Claims \<Rightarrow> db \<Rightarrow> Submission \<Rightarrow> bool" where
  "canViewCode e cl s sub =
     (if isAdminRole (cl_Role cl) \<or> cl_UserID cl = s_UserID sub then True
      else case s_ContestID sub of
        None \<Rightarrow> False
      | Some cid \<Rightarrow>
          (case byID c_ID (db_contests s) cid of
             None \<Rightarrow> False
           | Some contest \<Rightarrow> env_now e > c_EndTime contest))"

definition submissionView :: "Claims \<Rightarrow> db \<Rightarrow> Submission \<Rightarrow> bool \<Rightarrow> submission_view" where
  "submissionView cl s sub withCode =
     \<lparr>vw_ID = s_ID sub, vw_UserID = s_UserID sub, vw_ProblemID = s_ProblemID sub,
      vw_ContestID = s_ContestID sub, vw_Language = s_Language sub, vw_CodeSize = s_CodeSize sub,
      vw_Status = s_Status sub, vw_Score = s_Score sub, vw_TimeMS = s_TimeMS sub,
      vw_MemoryKB = s_MemoryKB sub, vw_CompileMessage = s_CompileMessage sub, vw_Cases = s_Cases sub,
      vw_CreatedAt = s_CreatedAt sub, vw_JudgedAt = s_JudgedAt sub,
      vw_Code = (if withCode then db_files s (s_CodePath sub) else None),
      vw_Masked = (\<not> withCode \<and> cl_UserID cl \<noteq> s_UserID sub)\<rparr>"

definition masked_view :: "env \<Rightarrow> Claims \<Rightarrow> string \<Rightarrow> db \<Rightarrow> bool \<Rightarrow> Submission \<Rightarrow> submission_view" where
  "masked_view e cl judge_view s full sub =
     (let view = submissionView cl s sub full
      in if maskSubmission e cl judge_view s sub then applyFreezeMask view else view)"

definition getSubmission ::
  "env \<Rightarrow> Claims \<Rightarrow> string \<Rightarrow> string \<Rightarrow> db \<Rightarrow> http_error + submission_view" where
  "getSubmission e cl judge_view idstr s =
     (case submissionByID s idstr of
        None \<Rightarrow> Inl (HTTP 404 ''submission not found'')
      | Some sub \<Rightarrow> Inr (masked_view e cl judge_view s (canViewCode e cl s sub) sub))"

text \<open>
  The filters compare numeric columns with the text of the query; \<open>num\<close> is how the database reads such
  a text (\<open>None\<close> when it is no number).  The handler itself reads it with \<open>strconv.ParseUint\<close>.
\<close>

record submissions_query =
  lq_mine :: string
  lq_problem :: string
  lq_contest :: string
  lq_status :: string
  lq_user :: string
  lq_page :: "string option"
  lq_size :: "string option"
  lq_judge_view :: string

definition own_feed_only :: "env \<Rightarrow> Claims \<Rightarrow> string \<Rightarrow> db \<Rightarrow> bool" where
  "own_feed_only e cl v s =
     (case parse_uint64 v of
        None \<Rightarrow> False
      | Some cid \<Rightarrow>
          (case byID c_ID (db_contests s) cid of
             None \<Rightarrow> False
           | Some contest \<Rightarrow> env_now e < c_EndTime contest \<and> \<not> canManageContest (Some cl) contest))"

definition listed :: "env \<Rightarrow> (string \<Rightarrow> nat option) \<Rightarrow> Claims \<Rightarrow> submissions_query \<Rightarrow> db \<Rightarrow> Submission \<Rightarrow> bool" where
  "listed e num cl q s r \<longleftrightarrow>
     (lq_mine q = ''1'' \<or> lq_mine q = ''true'' \<longrightarrow> s_UserID r = cl_UserID cl)
     \<and> (lq_problem q \<noteq> [] \<longrightarrow> num (lq_problem q) = Some (s_ProblemID r))
     \<and> (lq_contest q \<noteq> [] \<longrightarrow>
          s_ContestID r \<noteq> None \<and> num (lq_contest q) = s_ContestID r
          \<and> (own_feed_only e cl (lq_contest q) s \<longrightarrow> s_UserID r = cl_UserID cl))
     \<and> (lq_status q \<noteq> [] \<longrightarrow> s_Status r = lq_status q)
     \<and> (lq_user q \<noteq> [] \<and> isAdminRole (cl_Role cl) \<longrightarrow> num (lq_user q) = Some (s_UserID r))"

definition listSubmissions ::
  "env \<Rightarrow> (string \<Rightarrow> nat option) \<Rightarrow> Claims \<Rightarrow> submissions_query \<Rightarrow> db \<Rightarrow> nat \<times> submission_view list" where
  "listSubmissions e num cl q s =
     (let all = tbl_select (listed e num cl q s) (db_submissions s)
      in (length all,
          map (masked_view e cl (lq_judge_view q) s False)
            (page_of (pageParams (lq_page q) (lq_size q)) (rev all))))"

fun tally :: "string list \<Rightarrow> (string \<times> nat) list" where
  "tally [] = []"
| "tally (st # sts) = (let m = tally sts in AList.update st (case map_of m st of None \<Rightarrow> 1 | Some n \<Rightarrow> Suc n) m)"

definition myStats :: "Claims \<Rightarrow> db \<Rightarrow> (string \<times> nat) list \<times> nat" where
  "myStats cl s =
     (let mine = tbl_select (\<lambda>r. s_UserID r = cl_UserID cl) (db_submissions s)
      in (tally (map s_Status mine),
          length (remdups (map s_ProblemID (filter (\<lambda>r. s_Status r = SubAC) mine)))))"


section \<open>The gate\<close>

text \<open>
  Who may submit what, and whether the attempt counts: the problem is visible to the caller and has
  passed review (or is the caller's own draft), an exclusive problem is submitted inside its contest,
  and a contest has started, contains the problem and, while it runs, knows the caller if it asks for
  registrations.
\<close>

definition contest_allows :: "env \<Rightarrow> Claims \<Rightarrow> db \<Rightarrow> nat \<Rightarrow> nat option \<Rightarrow> bool \<Rightarrow> bool" where
  "contest_allows e cl s pid contestID practice \<longleftrightarrow>
     (case contestID of
        None \<Rightarrow> \<not> practice
      | Some cid \<Rightarrow>
          (case byID c_ID (db_contests s) cid of
             None \<Rightarrow> False
           | Some contest \<Rightarrow>
               c_StartTime contest \<le> env_now e
               \<and> practice = (c_EndTime contest < env_now e)
               \<and> list_ex (\<lambda>l. cp_ContestID l = cid \<and> cp_ProblemID l = pid) (rows (db_links s))
               \<and> (practice \<or> c_RequireRegistration contest \<noteq> Some True
                  \<or> list_ex (\<lambda>r. r_ContestID r = cid \<and> r_UserID r = cl_UserID cl) (rows (db_regs s)))))"

definition may_submit :: "env \<Rightarrow> Claims \<Rightarrow> db \<Rightarrow> createSubmissionReq \<Rightarrow> bool \<Rightarrow> bool" where
  "may_submit e cl s req practice \<longleftrightarrow>
     (case byID p_ID (db_problems s) (sq_ProblemID req) of
        None \<Rightarrow> False
      | Some prob \<Rightarrow>
          canSeeProblem e cl s prob
          \<and> (p_ReviewStatus prob = ReviewApproved
             \<or> (p_ReviewStatus prob = ReviewDraft \<and> p_CreatedBy prob = cl_UserID cl))
          \<and> (p_ContestID prob = None \<or> p_ContestID prob = sq_ContestID req)
          \<and> contest_allows e cl s (p_ID prob) (sq_ContestID req) practice)"

lemma checkContestContext_allows:
  "(case checkContestContext e cl cid pid s of
      Inl err \<Rightarrow> \<forall>practice. \<not> contest_allows e cl s pid cid practice
    | Inr practice \<Rightarrow> \<forall>b. contest_allows e cl s pid cid b \<longleftrightarrow> b = practice)"
proof (cases cid)
  case None
  then show ?thesis by (simp add: checkContestContext_def contest_allows_def)
next
  case (Some i)
  show ?thesis
  proof (cases "byID c_ID (db_contests s) i")
    case None
    with Some show ?thesis by (simp add: checkContestContext_def contest_allows_def)
  next
    case (Some c)
    have reg: "reg_for i (cl_UserID cl) = (\<lambda>r. r_ContestID r = i \<and> r_UserID r = cl_UserID cl)"
      by (simp add: reg_for_def fun_eq_iff)
    show ?thesis
      using \<open>cid = Some i\<close> Some
      by (auto simp: checkContestContext_def contest_allows_def Let_def registrationRequired_def
          tbl_count_ex reg not_less split: sum.splits)
  qed
qed

text \<open>What accepting a submission does.\<close>

definition accepted ::
  "env \<Rightarrow> Claims \<Rightarrow> createSubmissionReq \<Rightarrow> Submission \<Rightarrow> 'a server_scheme \<Rightarrow> 'b server_scheme \<Rightarrow> bool" where
  "accepted e cl req sub sv sv' \<longleftrightarrow>
     (let s = srv_db sv; i = Suc (seq (db_submissions s))
      in sub = (new_submission e cl req (sq_ProblemID req) (s_IsPractice sub) i)\<lparr>s_CodePath := codes_path i\<rparr>
         \<and> srv_db sv' = s\<lparr>db_submissions := (db_submissions s)\<lparr>rows := rows (db_submissions s) @ [sub], seq := i\<rparr>,
                        db_files := (db_files s)(codes_path i := Some (sq_Code req))\<rparr>
         \<and> srv_queue sv' = (srv_queue sv)\<lparr>mq_ch := mq_ch (srv_queue sv) @ [i]\<rparr>)"

definition has_room :: "memoryQueue \<Rightarrow> bool" where
  "has_room m \<longleftrightarrow> \<not> mq_closed m \<and> length (mq_ch m) < mq_capacity"

lemma update_new_row:
  assumes "tbl_ok key t" and "key r = Suc (seq t)"
  shows "tbl_update (\<lambda>x. key x = Suc (seq t)) f (t\<lparr>rows := rows t @ [r], seq := n\<rparr>)
    = t\<lparr>rows := rows t @ [f r], seq := n\<rparr>"
proof -
  have "map (\<lambda>x. if key x = Suc (seq t) then f x else x) (rows t) = rows t"
    using assms(1) by (intro map_idI) (auto simp: tbl_ok_def list_all_iff)
  with assms(2) show ?thesis by (simp add: tbl_update_def)
qed

lemma store_submission_ok:
  assumes "env_dbok e 0" and "has_room (srv_queue sv)" and "tbl_ok s_ID (db_submissions (srv_db sv))"
  shows "\<exists>sv' sub. store_submission e True (new_submission e cl req (sq_ProblemID req) practice) (sq_Code req) sv
      = (sv', Inr sub) \<and> accepted e cl req sub sv sv' \<and> s_IsPractice sub = practice"
proof -
  define s where "s = srv_db sv"
  define i where "i = Suc (seq (db_submissions s))"
  define mk where "mk = new_submission e cl req (sq_ProblemID req) practice"
  define sub where "sub = (mk i)\<lparr>s_CodePath := codes_path i\<rparr>"
  have i: "s_ID (mk i) = i" "s_IsPractice (mk i) = practice" by (simp_all add: mk_def new_submission_def)
  have up: "tbl_update (\<lambda>r. s_ID r = i) (\<lambda>r. r\<lparr>s_CodePath := codes_path i\<rparr>)
      ((db_submissions s)\<lparr>rows := rows (db_submissions s) @ [mk i], seq := i\<rparr>)
    = (db_submissions s)\<lparr>rows := rows (db_submissions s) @ [sub], seq := i\<rparr>"
    using update_new_row [of s_ID "db_submissions s" "mk i"] assms(3) i
    by (simp add: s_def i_def sub_def)
  define sv' where "sv' = sv\<lparr>srv_db := s\<lparr>db_submissions := (db_submissions s)\<lparr>rows := rows (db_submissions s) @ [sub], seq := i\<rparr>,
                        db_files := (db_files s)(codes_path i := Some (sq_Code req))\<rparr>,
       srv_queue := (srv_queue sv)\<lparr>mq_ch := mq_ch (srv_queue sv) @ [i]\<rparr>\<rparr>"
  have "store_submission e True mk (sq_Code req) sv = (sv', Inr sub)"
    using assms(1,2) up i
    by (simp add: store_submission_def tbl_create_def Let_def s_def [symmetric] i_def [symmetric] sub_def
        sv'_def mq_push_def has_room_def)
  moreover have "accepted e cl req sub sv sv'"
    by (simp add: accepted_def Let_def s_def [symmetric] i_def [symmetric] sub_def sv'_def mk_def i
        new_submission_def)
  moreover have "s_IsPractice sub = practice" by (simp add: sub_def i)
  ultimately show ?thesis by (simp add: mk_def)
qed

definition well_formed :: "registry \<Rightarrow> createSubmissionReq \<Rightarrow> bool" where
  "well_formed langs req \<longleftrightarrow> sq_ProblemID req \<noteq> 0 \<and> sq_Language req \<noteq> [] \<and> sq_Code req \<noteq> []
     \<and> length (sq_Code req) \<le> maxCodeSize \<and> (\<exists>lang. reg_get langs (sq_Language req) = Inr lang)"

lemma createSubmission_cases:
  assumes "snd (submit_allow (srv_submits sv) (cl_UserID cl) (env_now e))"
    and "well_formed (srv_langs sv) req"
    and "env_dbok e 0" and "has_room (srv_queue sv)" and "tbl_ok s_ID (db_submissions (srv_db sv))"
    and "createSubmission e True cl (Some req) sv = (sv', answer)"
  shows "(case answer of
      Inr sub \<Rightarrow> may_submit e cl (srv_db sv) req (s_IsPractice sub) \<and> accepted e cl req sub sv sv'
    | Inl err \<Rightarrow> \<not> may_submit e cl (srv_db sv) req True \<and> \<not> may_submit e cl (srv_db sv) req False
        \<and> srv_db sv' = srv_db sv \<and> srv_queue sv' = srv_queue sv)"
proof -
  define s where "s = srv_db sv"
  obtain lim ok where lim: "submit_allow (srv_submits sv) (cl_UserID cl) (env_now e) = (lim, ok)"
    by (rule prod.exhaust)
  define sv1 where "sv1 = sv\<lparr>srv_submits := lim\<rparr>"
  from assms(2) obtain lang where wf: "sq_ProblemID req \<noteq> 0" "sq_Language req \<noteq> []" "sq_Code req \<noteq> []"
      "\<not> length (sq_Code req) > maxCodeSize" "reg_get (srv_langs sv) (sq_Language req) = Inr lang"
    by (auto simp: well_formed_def)
  note run = assms(6) [unfolded createSubmission_def Let_def lim prod.case, folded sv1_def]
  have sv1: "srv_db sv1 = s" "srv_queue sv1 = srv_queue sv" "srv_langs sv1 = srv_langs sv"
    by (simp_all add: sv1_def s_def)
  have ok: ok using assms(1) lim by simp
  show ?thesis
  proof (cases "byID p_ID (db_problems s) (sq_ProblemID req)")
    case None
    with run wf ok sv1 show ?thesis by (auto simp: may_submit_def s_def)
  next
    case (Some prob)
    then have pid: "p_ID prob = sq_ProblemID req" by (auto dest: byID_SomeD)
    let ?adm = "canSeeProblem e cl s prob
          \<and> (p_ReviewStatus prob = ReviewApproved
             \<or> (p_ReviewStatus prob = ReviewDraft \<and> p_CreatedBy prob = cl_UserID cl))
          \<and> (p_ContestID prob = None \<or> p_ContestID prob = sq_ContestID req)"
    have may: "may_submit e cl s req b \<longleftrightarrow> ?adm \<and> contest_allows e cl s (p_ID prob) (sq_ContestID req) b" for b
      using Some by (simp add: may_submit_def)
    note ctx = checkContestContext_allows [where e = e and cl = cl and cid = "sq_ContestID req" and pid = "p_ID prob" and s = s]
    show ?thesis
    proof (cases "?adm \<and> (\<exists>pr. checkContestContext e cl (sq_ContestID req) (p_ID prob) s = Inr pr)")
      case True
      then obtain pr where pr: "checkContestContext e cl (sq_ContestID req) (p_ID prob) s = Inr pr" by blast
      from True have adm: ?adm by blast
      from run wf ok sv1 Some adm pr
      have store: "store_submission e True (new_submission e cl req (p_ID prob) pr) (sq_Code req) sv1 = (sv', answer)"
        by auto
      from store_submission_ok [of e sv1 cl req pr] assms(3-5) sv1 obtain sv2 sub where
        "store_submission e True (new_submission e cl req (sq_ProblemID req) pr) (sq_Code req) sv1 = (sv2, Inr sub)"
        "accepted e cl req sub sv1 sv2" "s_IsPractice sub = pr"
        by (auto simp: s_def)
      with store pid have "answer = Inr sub" "accepted e cl req sub sv1 sv'" "s_IsPractice sub = pr" by auto
      moreover have "may_submit e cl s req pr" using may adm ctx pr by simp
      ultimately show ?thesis by (simp add: accepted_def Let_def s_def sv1)
    next
      case False
      have "\<exists>err. answer = Inl err \<and> sv' = sv1"
        using run wf ok sv1 Some False by (auto split: if_splits sum.splits)
      moreover have "\<not> may_submit e cl s req b" for b
        using False may ctx by (auto split: sum.splits)
      ultimately show ?thesis by (auto simp: s_def [symmetric] sv1)
    qed
  qed
qed



definition sample_submit_server :: submit_server where
  "sample_submit_server = \<lparr>srv_db = empty_db\<lparr>db_problems := \<lparr>rows = [sample_problem], seq = 7\<rparr>\<rparr>,
     srv_queue = newMemoryQueue, srv_submits = newSubmitLimiter, srv_langs = [sample_lang]\<rparr>"

definition sample_submit_req :: createSubmissionReq where
  "sample_submit_req = \<lparr>sq_ProblemID = p_ID sample_problem, sq_ContestID = None,
     sq_Language = l_ID sample_lang, sq_Code = ''int main(){}''\<rparr>"

lemma sample_submit_ready:
  "snd (submit_allow (srv_submits sample_submit_server) (cl_UserID sample_user) (env_now (sample_env 0)))"
  "well_formed (srv_langs sample_submit_server) sample_submit_req"
  "env_dbok (sample_env 0) 0" "has_room (srv_queue sample_submit_server)"
  "tbl_ok s_ID (db_submissions (srv_db sample_submit_server))"
  "may_submit (sample_env 0) sample_user (srv_db sample_submit_server) sample_submit_req False"
  by (simp_all add: sample_submit_server_def submit_allow_def newSubmitLimiter_def hits_of_def
      well_formed_def sample_submit_req_def sample_problem_def sample_lang_def maxCodeSize_def
      reg_get_def sample_env_def has_room_def newMemoryQueue_def mq_capacity_def empty_db_def
      empty_table_def tbl_ok_def may_submit_def byID_def tbl_first_def contest_allows_def
      canSeeProblem_def)


lemma submission_gate_holds_sample:
  "\<exists>sv' sub. createSubmission (sample_env 0) True sample_user (Some sample_submit_req) sample_submit_server
       = (sv', Inr sub)
     \<and> accepted (sample_env 0) sample_user sample_submit_req sub sample_submit_server sv'"
proof -
  obtain sv' answer where run: "createSubmission (sample_env 0) True sample_user (Some sample_submit_req)
      sample_submit_server = (sv', answer)" by (rule prod.exhaust)
  from createSubmission_cases [OF sample_submit_ready(1-5) run] sample_submit_ready(6) run
  show ?thesis by (cases answer) auto
qed

text \<open>
  C31. An accepted submission enters the judge's relay: for a hub on the same database (with the code
  already on disk) and queue, the new row and its queued task are one of the hub's own steps, so what
  holds of all reachable hubs, in particular that no submission is lost, holds of it.
\<close>

theorem accepted_submission_is_hub_step:
  assumes "snd (submit_allow (srv_submits sv) (cl_UserID cl) (env_now e))"
    and "well_formed (srv_langs sv) req"
    and "env_dbok e 0" and "has_room (srv_queue sv)" and "tbl_ok s_ID (db_submissions (srv_db sv))"
    and "createSubmission e True cl (Some req) sv = (sv', Inr sub)"
    and "h_db h = (srv_db sv)\<lparr>db_files := db_files (srv_db sv')\<rparr>" and "h_queue h = srv_queue sv"
  shows "hub_step cfg foc h (h\<lparr>h_db := srv_db sv', h_queue := srv_queue sv'\<rparr>)"
proof -
  define i where "i = Suc (seq (db_submissions (srv_db sv)))"
  define mk where "mk = (\<lambda>i. (new_submission e cl req (sq_ProblemID req) (s_IsPractice sub) i)\<lparr>s_CodePath := codes_path i\<rparr>)"
  from createSubmission_cases [OF assms(1-6)]
  have acc: "accepted e cl req sub sv sv'" by simp
  then have sub: "sub = mk i" and db: "srv_db sv' = (srv_db sv)\<lparr>db_submissions :=
        (db_submissions (srv_db sv))\<lparr>rows := rows (db_submissions (srv_db sv)) @ [mk i], seq := i\<rparr>,
        db_files := db_files (srv_db sv')\<rparr>"
    and queue: "srv_queue sv' = (srv_queue sv)\<lparr>mq_ch := mq_ch (srv_queue sv) @ [i]\<rparr>"
    by (simp_all add: accepted_def Let_def mk_def i_def)
  have "s_ID (mk i) = i" by (simp add: mk_def new_submission_def)
  then have "submitted mk h = h\<lparr>h_db := srv_db sv', h_queue := srv_queue sv'\<rparr>"
    using assms(4,7,8)
    by (subst db) (simp add: submitted_def tbl_create_def hub_push_def mq_push_def has_room_def queue i_def)
  moreover have "hub_step cfg foc h (submitted mk h)"
    using assms(4,8) by (intro hub_step.step_submit) (auto simp: room_def has_room_def mk_def new_submission_def)
  ultimately show ?thesis by simp
qed

theorem accepted_submission_is_hub_step_witness:
  "\<forall>cfg foc. \<exists>h h'. hub_step cfg foc h h' \<and> h_queue h = newMemoryQueue \<and> mq_ch (h_queue h') = [1]"
proof (intro allI)
  fix cfg foc
  obtain sv' sub where run: "createSubmission (sample_env 0) True sample_user (Some sample_submit_req)
      sample_submit_server = (sv', Inr sub)"
    and acc: "accepted (sample_env 0) sample_user sample_submit_req sub sample_submit_server sv'"
    using submission_gate_holds_sample by blast
  let ?h = "(hub_start ((srv_db sample_submit_server)\<lparr>db_files := db_files (srv_db sv')\<rparr>))"
  have "h_db ?h = (srv_db sample_submit_server)\<lparr>db_files := db_files (srv_db sv')\<rparr>"
    and "h_queue ?h = srv_queue sample_submit_server"
    by (simp_all add: hub_start_def sample_submit_server_def)
  from accepted_submission_is_hub_step [OF sample_submit_ready(1-5) run this]
  have "hub_step cfg foc ?h (?h\<lparr>h_db := srv_db sv', h_queue := srv_queue sv'\<rparr>)" .
  moreover have "mq_ch (srv_queue sv') = [1]"
    using acc by (simp add: accepted_def Let_def sample_submit_server_def newMemoryQueue_def empty_db_def
        empty_table_def)
  ultimately show "\<exists>h h'. hub_step cfg foc h h' \<and> h_queue h = newMemoryQueue \<and> mq_ch (h_queue h') = [1]"
    by (intro exI [of _ ?h] exI [of _ "?h\<lparr>h_db := srv_db sv', h_queue := srv_queue sv'\<rparr>"])
      (simp add: hub_start_def)
qed


text \<open>
  A submission whose code cannot be stored is refused with an error, but its pending row stays and no
  task is queued: nothing judges it until the relay restarts.
\<close>

lemma store_failure_leaves_pending:
  assumes "env_dbok e 0" and "store_submission e False mk code sv = (sv', answer)"
  shows "answer = Inl (HTTP 500 ''store code failed'') \<and> srv_queue sv' = srv_queue sv
    \<and> rows (db_submissions (srv_db sv'))
        = rows (db_submissions (srv_db sv)) @ [mk (Suc (seq (db_submissions (srv_db sv))))]"
  using assms by (auto simp: store_submission_def tbl_create_def Let_def)

section \<open>The mask\<close>

definition hidden_variant :: "env \<Rightarrow> Claims \<Rightarrow> string \<Rightarrow> db \<Rightarrow> Submission \<Rightarrow> Submission \<Rightarrow> bool" where
  "hidden_variant e cl jv s a b \<longleftrightarrow> b = a \<or> (maskSubmission e cl jv s a
     \<and> s_ID b = s_ID a \<and> s_UserID b = s_UserID a \<and> s_ProblemID b = s_ProblemID a
     \<and> s_ContestID b = s_ContestID a \<and> s_Language b = s_Language a \<and> s_CodePath b = s_CodePath a
     \<and> s_CodeSize b = s_CodeSize a \<and> s_Score b = s_Score a \<and> s_CreatedAt b = s_CreatedAt a
     \<and> s_IsPractice b = s_IsPractice a \<and> s_Cancelled b = s_Cancelled a)"

lemma hidden_variant_fields:
  assumes "hidden_variant e cl jv s a b"
  shows "s_ID b = s_ID a" "s_UserID b = s_UserID a" "s_ProblemID b = s_ProblemID a"
    "s_ContestID b = s_ContestID a" "s_CodePath b = s_CodePath a" "s_Score b = s_Score a"
    "s_IsPractice b = s_IsPractice a" "s_CreatedAt b = s_CreatedAt a" "s_Language b = s_Language a"
    "s_CodeSize b = s_CodeSize a"
  using assms by (auto simp: hidden_variant_def)

lemma masked_view_subs: "masked_view e cl jv (s\<lparr>db_submissions := t\<rparr>) = masked_view e cl jv s"
  by (simp add: fun_eq_iff masked_view_def submissionView_def maskSubmission_def split: option.splits)

lemma masked_view_variant:
  assumes "hidden_variant e cl jv s a b"
  shows "masked_view e cl jv s full b = masked_view e cl jv s full a"
proof (cases "b = a")
  case False
  note f = hidden_variant_fields [OF assms]
  from False assms have a: "maskSubmission e cl jv s a" by (auto simp: hidden_variant_def)
  have "maskSubmission e cl jv s b = maskSubmission e cl jv s a" unfolding maskSubmission_def f ..
  with a have b: "maskSubmission e cl jv s b" by simp
  show ?thesis using a b f by (simp add: masked_view_def applyFreezeMask_def submissionView_def)
qed simp

lemma list_all2_find:
  assumes "list_all2 R xs ys" and "\<And>x y. R x y \<Longrightarrow> P x = P y"
  shows "rel_option R (find P xs) (find P ys)"
  using assms(1) by (induction rule: list_all2_induct) (auto simp: assms(2))

lemma list_all2_page: "list_all2 R xs ys \<Longrightarrow> list_all2 R (page_of ps xs) (page_of ps ys)"
  by (cases ps) (simp add: page_of_def list_all2_takeI list_all2_dropI)

lemma list_all2_map_eq: "list_all2 R xs ys \<Longrightarrow> (\<And>x y. R x y \<Longrightarrow> f y = f x) \<Longrightarrow> map f ys = map f xs"
  by (induction rule: list_all2_induct) auto



definition plain_query :: submissions_query where
  "plain_query = \<lparr>lq_mine = [], lq_problem = [], lq_contest = [], lq_status = [], lq_user = [],
     lq_page = None, lq_size = None, lq_judge_view = []\<rparr>"

definition other_user :: Claims where
  "other_user = \<lparr>cl_UserID = 6, cl_Username = ''mal'', cl_Role = RoleUser\<rparr>"

lemma sample_masked:
  "maskSubmission (sample_env (55 * minute)) cl [] (sample_db v) (sample_sub 5 SubWA (50 * minute))"
  by (simp add: maskSubmission_def sample_sub_def sample_db_def byID_def tbl_first_def sample_contest_def
      freezePoint_def sample_env_def after_freeze_def minute_def second_def)


text \<open>
  The exceptions are real.  Filtering by status answers from the stored verdict, so the frozen verdict of
  any contestant can be asked for; the mask leaves the score; and the own-feed rule of a running contest
  only applies when the feed is filtered by that contest in the form \<open>ParseUint\<close> reads.
\<close>

lemma status_filter_reveals_verdict:
  "fst (listSubmissions (sample_env (55 * minute)) num other_user (plain_query\<lparr>lq_status := SubAC\<rparr>) (sample_db SubAC)) = 1"
  "fst (listSubmissions (sample_env (55 * minute)) num other_user (plain_query\<lparr>lq_status := SubAC\<rparr>) (sample_db SubWA)) = 0"
  by (simp_all add: listSubmissions_def tbl_select_def listed_def plain_query_def sample_db_def sample_sub_def
      Let_def)

lemma mask_keeps_score: "vw_Score (applyFreezeMask v) = vw_Score v"
  by (simp add: applyFreezeMask_def)

lemma unfiltered_feed_shows_others:
  "own_feed_only (sample_env (30 * minute)) other_user ''1'' (sample_db SubAC)"
  "vw_Status (hd (snd (listSubmissions (sample_env (30 * minute)) num other_user plain_query
      ((sample_db SubAC)\<lparr>db_submissions := \<lparr>rows = [sample_sub 5 SubAC (20 * minute)], seq = 1\<rparr>\<rparr>)))) = SubAC"
proof -
  have "parse_uint64 ''1'' = Some 1" by (simp add: parse_uint64_def str_val_def is_digit_def digit_val_def)
  then show "own_feed_only (sample_env (30 * minute)) other_user ''1'' (sample_db SubAC)"
    by (simp add: own_feed_only_def sample_db_def byID_def tbl_first_def sample_contest_def sample_env_def
        minute_def second_def canManageContest_def other_user_def isAdminRole_def isSetterRole_def)
  show "vw_Status (hd (snd (listSubmissions (sample_env (30 * minute)) num other_user plain_query
      ((sample_db SubAC)\<lparr>db_submissions := \<lparr>rows = [sample_sub 5 SubAC (20 * minute)], seq = 1\<rparr>\<rparr>)))) = SubAC"
    by (simp add: listSubmissions_def tbl_select_def listed_def plain_query_def sample_db_def sample_sub_def
        page_of_def pageParams_def atoi_or_zero_def wrap_int_def masked_view_def submissionView_def
        maskSubmission_def byID_def tbl_first_def sample_contest_def freezePoint_def sample_env_def
        after_freeze_def minute_def second_def is_digit_def str_val_def digit_val_def Let_def)
qed

end
