(* ===== verification/Solutions.thy ===== *)
theory Solutions
  imports Problems
begin

text \<open>
  The solution area of a problem: its unlock gate (\<open>solution_gate.go\<close>) and its floors
  (\<open>solutions.go\<close>).  The invariant \<open>floors_ok\<close> keeps every reply in the thread of its problem.
\<close>

section \<open>The gate\<close>

definition problemContest :: "db \<Rightarrow> Problem \<Rightarrow> Contest option" where
  "problemContest s prob =
     (case p_ContestID prob of None \<Rightarrow> None | Some cid \<Rightarrow> contestByIDValue s cid)"

definition solutionUnlocked :: "env \<Rightarrow> Claims \<Rightarrow> db \<Rightarrow> Problem \<Rightarrow> bool" where
  "solutionUnlocked e cl s prob =
     (if isAdminRole (cl_Role cl) then True
      else if p_CreatedBy prob = cl_UserID cl then True
      else if (case problemContest s prob of None \<Rightarrow> False | Some contest \<Rightarrow> canJudgeContest (Some cl) contest)
        then True
      else if (case problemContest s prob of
                 None \<Rightarrow> False
               | Some contest \<Rightarrow> env_now e > c_StartTime contest \<and> env_now e < c_EndTime contest) then False
      else tbl_count (\<lambda>r. s_UserID r = cl_UserID cl \<and> s_ProblemID r = p_ID prob) (db_submissions s) > 0)"

definition solutionGuard :: "env \<Rightarrow> Claims \<Rightarrow> string \<Rightarrow> db \<Rightarrow> http_error + Problem" where
  "solutionGuard e cl idstr s =
     (case problemByID s idstr of
        None \<Rightarrow> Inl (HTTP 404 ''problem not found'')
      | Some prob \<Rightarrow>
          if \<not> canSeeProblem e cl s prob then Inl (HTTP 404 ''problem not found'')
          else if \<not> solutionUnlocked e cl s prob then Inl (HTTP 403 ''the solution area is locked'')
          else Inr prob)"

section \<open>The floors\<close>

record solutionView =
  sv_sol :: ProblemSolution
  sv_Username :: string

definition solutionRows :: "db \<Rightarrow> Problem \<Rightarrow> solutionView list" where
  "solutionRows s prob =
     map (\<lambda>sol. \<lparr>sv_sol = sol, sv_Username = flag_name s (ps_UserID sol)\<rparr>)
       (sort_by (\<lambda>a b. (ps_IsOfficial a \<and> \<not> ps_IsOfficial b)
            \<or> (ps_IsOfficial a = ps_IsOfficial b \<and> ps_ID a < ps_ID b))
         (tbl_select (\<lambda>x. ps_ProblemID x = p_ID prob) (db_solutions s)))"

definition listSolutions :: "env \<Rightarrow> Claims \<Rightarrow> string \<Rightarrow> db \<Rightarrow> http_error + solutionView list" where
  "listSolutions e cl idstr s =
     (case solutionGuard e cl idstr s of Inl err \<Rightarrow> Inl err | Inr prob \<Rightarrow> Inr (solutionRows s prob))"

record solutionReq =
  lr_Title :: string
  lr_BodyMD :: string
  lr_ParentID :: "nat option"

definition maxSolution :: nat where
  "maxSolution = 65536"

definition createSolution ::
  "env \<Rightarrow> Claims \<Rightarrow> string \<Rightarrow> solutionReq option \<Rightarrow> db \<Rightarrow> (db, nat) handled" where
  "createSolution e cl idstr body s =
     (case solutionGuard e cl idstr s of
        Inl err \<Rightarrow> (s, Inl err)
      | Inr prob \<Rightarrow>
          (case body of
             None \<Rightarrow> (s, Inl (HTTP 400 ''invalid payload''))
           | Some req \<Rightarrow>
               if lr_BodyMD req = [] \<or> length (lr_BodyMD req) > maxSolution then
                 (s, Inl (HTTP 400 ''invalid payload''))
               else if (case lr_ParentID req of
                          None \<Rightarrow> False
                        | Some i \<Rightarrow>
                            (case byID ps_ID (db_solutions s) i of
                               None \<Rightarrow> True
                             | Some parent \<Rightarrow> ps_ProblemID parent \<noteq> p_ID prob)) then
                 (s, Inl (HTTP 400 ''invalid parent''))
               else if \<not> env_dbok e 0 then (s, Inl (HTTP 500 ''create failed''))
               else
                 let (row, t) = tbl_create (\<lambda>i. \<lparr>ps_ID = i, ps_ProblemID = p_ID prob,
                       ps_UserID = cl_UserID cl, ps_ParentID = lr_ParentID req, ps_Title = lr_Title req,
                       ps_BodyMD = lr_BodyMD req, ps_IsOfficial = False, ps_CreatedAt = env_now e,
                       ps_UpdatedAt = env_now e\<rparr>) (db_solutions s)
                 in (s\<lparr>db_solutions := t\<rparr>, Inr (ps_ID row))))"

definition isProblemAuthor :: "Claims \<Rightarrow> db \<Rightarrow> nat \<Rightarrow> bool" where
  "isProblemAuthor cl s problemID =
     (case byID p_ID (db_problems s) problemID of None \<Rightarrow> False | Some prob \<Rightarrow> canManageProblem cl s prob)"

definition canModerateSolution :: "Claims \<Rightarrow> db \<Rightarrow> ProblemSolution \<Rightarrow> bool" where
  "canModerateSolution cl s sol =
     (if isAdminRole (cl_Role cl) then True
      else if (case byID p_ID (db_problems s) (ps_ProblemID sol) of
                 None \<Rightarrow> False
               | Some prob \<Rightarrow> canManageProblem cl s prob) then True
      else ps_UserID sol = cl_UserID cl)"

record solutionUpdate =
  lu_Title :: "string option"
  lu_BodyMD :: string
  lu_IsOfficial :: "bool option"

definition updateSolution ::
  "env \<Rightarrow> Claims \<Rightarrow> string \<Rightarrow> solutionUpdate option \<Rightarrow> db \<Rightarrow> (db, ProblemSolution) handled" where
  "updateSolution e cl sidstr body s =
     (case paramID sidstr of
        None \<Rightarrow> (s, Inl (HTTP 400 ''invalid solution id''))
      | Some sid \<Rightarrow>
          (case byID ps_ID (db_solutions s) sid of
             None \<Rightarrow> (s, Inl (HTTP 404 ''solution not found''))
           | Some sol \<Rightarrow>
               if ps_UserID sol \<noteq> cl_UserID cl \<and> \<not> canModerateSolution cl s sol then
                 (s, Inl (HTTP 403 ''not allowed''))
               else case body of
                 None \<Rightarrow> (s, Inl (HTTP 400 ''invalid payload''))
               | Some req \<Rightarrow>
                   let f = (\<lambda>r. r\<lparr>ps_BodyMD := lu_BodyMD req,
                         ps_Title := (case lu_Title req of None \<Rightarrow> ps_Title r | Some v \<Rightarrow> v),
                         ps_IsOfficial := (case lu_IsOfficial req of
                            None \<Rightarrow> ps_IsOfficial r
                          | Some v \<Rightarrow>
                              if isAdminRole (cl_Role cl) \<or> isProblemAuthor cl s (ps_ProblemID sol) then v
                              else ps_IsOfficial r),
                         ps_UpdatedAt := env_now e\<rparr>)
                   in if \<not> env_dbok e 0 then (s, Inl (HTTP 500 ''update failed''))
                      else (s\<lparr>db_solutions := tbl_update (\<lambda>r. ps_ID r = ps_ID sol) f (db_solutions s)\<rparr>,
                            Inr (f sol))))"

definition deleteSolution :: "env \<Rightarrow> Claims \<Rightarrow> string \<Rightarrow> db \<Rightarrow> (db, unit) handled" where
  "deleteSolution e cl sidstr s =
     (case paramID sidstr of
        None \<Rightarrow> (s, Inl (HTTP 400 ''invalid solution id''))
      | Some sid \<Rightarrow>
          (case byID ps_ID (db_solutions s) sid of
             None \<Rightarrow> (s, Inl (HTTP 404 ''solution not found''))
           | Some sol \<Rightarrow>
               if \<not> canModerateSolution cl s sol then (s, Inl (HTTP 403 ''not allowed''))
               else if \<not> env_dbok e 0 then (s, Inl (HTTP 500 ''delete failed''))
               else (s\<lparr>db_solutions := tbl_delete (\<lambda>r. ps_ID r = ps_ID sol) (db_solutions s)\<rparr>, Inr ())))"


section \<open>Who reads and posts\<close>

definition running :: "env \<Rightarrow> db \<Rightarrow> Problem \<Rightarrow> bool" where
  "running e s prob \<longleftrightarrow> (case problemContest s prob of
      None \<Rightarrow> False
    | Some contest \<Rightarrow> c_StartTime contest < env_now e \<and> env_now e < c_EndTime contest)"

definition exempt :: "Claims \<Rightarrow> db \<Rightarrow> Problem \<Rightarrow> bool" where
  "exempt cl s prob \<longleftrightarrow> isAdminRole (cl_Role cl) \<or> p_CreatedBy prob = cl_UserID cl
     \<or> (case problemContest s prob of None \<Rightarrow> False | Some contest \<Rightarrow> c_CreatedBy contest = cl_UserID cl)"

definition may_discuss :: "env \<Rightarrow> Claims \<Rightarrow> db \<Rightarrow> Problem \<Rightarrow> bool" where
  "may_discuss e cl s prob \<longleftrightarrow> canSeeProblem e cl s prob
     \<and> (exempt cl s prob \<or> (\<not> running e s prob
        \<and> list_ex (\<lambda>r. s_UserID r = cl_UserID cl \<and> s_ProblemID r = p_ID prob) (rows (db_submissions s))))"

lemma guard_discuss:
  assumes "problemByID s idstr = Some prob"
  shows "(\<exists>r. solutionGuard e cl idstr s = Inr r) \<longleftrightarrow> may_discuss e cl s prob"
    "solutionGuard e cl idstr s = Inr r \<Longrightarrow> r = prob"
  using assms
  by (auto simp: solutionGuard_def solutionUnlocked_def may_discuss_def exempt_def running_def tbl_count_ex
      canJudgeContest_def split: option.splits if_splits)

text \<open>
  The solution area opens to exactly the right readers and writers: those who may see the problem and
  are its author, an administrator or the jury of its contest, and those who have submitted to it, the
  latter never while its contest is running.  Everyone else is refused by both endpoints and changes
  nothing; an accepted post adds one floor, in the thread of the problem, by its author, not official.
\<close>

theorem solution_area_gate:
  assumes "problemByID s idstr = Some prob" and "createSolution e cl idstr body s = (s', answer)"
  shows "((\<exists>v. listSolutions e cl idstr s = Inr v) \<longleftrightarrow> may_discuss e cl s prob)
    \<and> (case answer of
         Inl err \<Rightarrow> s' = s
       | Inr i \<Rightarrow> may_discuss e cl s prob \<and>
           (\<exists>sol. s' = s\<lparr>db_solutions := (db_solutions s)\<lparr>rows := rows (db_solutions s) @ [sol], seq := i\<rparr>\<rparr>
              \<and> ps_ID sol = i \<and> ps_ProblemID sol = p_ID prob \<and> ps_UserID sol = cl_UserID cl
              \<and> \<not> ps_IsOfficial sol
              \<and> (case ps_ParentID sol of None \<Rightarrow> True
                 | Some q \<Rightarrow> list_ex (\<lambda>x. ps_ID x = q \<and> ps_ProblemID x = p_ID prob) (rows (db_solutions s)))))"
proof (cases "solutionGuard e cl idstr s")
  case (Inl err)
  with guard_discuss(1) [OF assms(1), of e cl] assms(2) show ?thesis
    by (auto simp: listSolutions_def createSolution_def)
next
  case (Inr r)
  with guard_discuss [OF assms(1), of e cl] have may: "may_discuss e cl s prob" and r: "r = prob" by auto
  have parent: "list_ex (\<lambda>x. ps_ID x = q \<and> ps_ProblemID x = pid) (rows (db_solutions s))"
    if "byID ps_ID (db_solutions s) q = Some x" and "ps_ProblemID x = pid" for q x pid
    using byID_SomeD [OF that(1)] that(2) by (auto simp: list_ex_iff)
  show ?thesis
  proof (cases answer)
    case (Inl err)
    with assms(2) Inr have "s' = s"
      by (auto simp: createSolution_def tbl_create_def split: option.splits if_splits)
    with Inr may Inl show ?thesis by (simp add: listSolutions_def)
  next
    case (Inr i)
    with assms(2) \<open>solutionGuard e cl idstr s = Inr r\<close> r parent
    have "\<exists>sol. s' = s\<lparr>db_solutions := (db_solutions s)\<lparr>rows := rows (db_solutions s) @ [sol], seq := i\<rparr>\<rparr>
              \<and> ps_ID sol = i \<and> ps_ProblemID sol = p_ID prob \<and> ps_UserID sol = cl_UserID cl
              \<and> \<not> ps_IsOfficial sol
              \<and> (case ps_ParentID sol of None \<Rightarrow> True
                 | Some q \<Rightarrow> list_ex (\<lambda>x. ps_ID x = q \<and> ps_ProblemID x = p_ID prob) (rows (db_solutions s)))"
      by (auto simp: createSolution_def tbl_create_def Let_def split: option.splits if_splits)
    with \<open>solutionGuard e cl idstr s = Inr r\<close> may Inr show ?thesis by (simp add: listSolutions_def)
  qed
qed

section \<open>Threads\<close>

text \<open>
  Every reply belongs to the problem of the floor it answers and is younger, so threads are finite
  trees inside one problem; a removed floor leaves its replies without a parent, never with another's.
\<close>

definition reply_ok :: "ProblemSolution list \<Rightarrow> ProblemSolution \<Rightarrow> bool" where
  "reply_ok fl x \<longleftrightarrow> (case ps_ParentID x of None \<Rightarrow> True
     | Some q \<Rightarrow> q < ps_ID x \<and> list_all (\<lambda>y. ps_ID y = q \<longrightarrow> ps_ProblemID y = ps_ProblemID x) fl)"

definition floors_ok :: "db \<Rightarrow> bool" where
  "floors_ok s \<longleftrightarrow> tbl_ok ps_ID (db_solutions s)
     \<and> list_all (reply_ok (rows (db_solutions s))) (rows (db_solutions s))"

lemma floors_create:
  assumes "floors_ok s" and "i = Suc (seq (db_solutions s))" and "ps_ID sol = i"
    and "case ps_ParentID sol of None \<Rightarrow> True
      | Some q \<Rightarrow> \<exists>x \<in> set (rows (db_solutions s)). ps_ID x = q \<and> ps_ProblemID x = ps_ProblemID sol"
  shows "floors_ok (s\<lparr>db_solutions := (db_solutions s)\<lparr>rows := rows (db_solutions s) @ [sol], seq := i\<rparr>\<rparr>)"
proof -
  have ok: "tbl_ok ps_ID (db_solutions s)" using assms(1) by (simp add: floors_ok_def)
  have le: "ps_ID x \<le> seq (db_solutions s)" if "x \<in> set (rows (db_solutions s))" for x
    using ok that by (auto simp: tbl_ok_def list_all_iff)
  have old: "reply_ok (rows (db_solutions s) @ [sol]) x" if "x \<in> set (rows (db_solutions s))" for x
  proof -
    have "reply_ok (rows (db_solutions s)) x" using assms(1) that by (auto simp: floors_ok_def list_all_iff)
    then show ?thesis using le [OF that] assms(2,3) by (auto simp: reply_ok_def split: option.splits)
  qed
  have new: "reply_ok (rows (db_solutions s) @ [sol]) sol"
  proof (cases "ps_ParentID sol")
    case (Some q)
    with assms(4) obtain x where x: "x \<in> set (rows (db_solutions s))" "ps_ID x = q" "ps_ProblemID x = ps_ProblemID sol"
      by auto
    have "ps_ProblemID y = ps_ProblemID sol" if "y \<in> set (rows (db_solutions s))" "ps_ID y = q" for y
      using tbl_ok_unique [OF ok that(1) x(1)] that(2) x(2,3) by simp
    with le [OF x(1)] Some x(2) assms(2,3) show ?thesis by (auto simp: reply_ok_def list_all_iff)
  qed (simp add: reply_ok_def)
  have "tbl_ok ps_ID ((db_solutions s)\<lparr>rows := rows (db_solutions s) @ [sol], seq := i\<rparr>)"
    using ok le assms(2,3) by (fastforce simp: tbl_ok_def sorted_wrt_append list_all_iff)
  with old new show ?thesis by (simp add: floors_ok_def list_all_iff)
qed

lemma createSolution_floors: "floors_ok s \<Longrightarrow> floors_ok (fst (createSolution e cl idstr body s))"
  by (auto simp: createSolution_def tbl_create_def Let_def split: sum.splits option.splits if_splits
      intro!: floors_create bexI dest!: byID_SomeD)

lemma updateSolution_floors: "floors_ok s \<Longrightarrow> floors_ok (fst (updateSolution e cl sidstr body s))"
proof -
  assume s: "floors_ok s"
  have "floors_ok (s\<lparr>db_solutions := tbl_update P f (db_solutions s)\<rparr>)"
    if "\<And>r. ps_ID (f r) = ps_ID r \<and> ps_ProblemID (f r) = ps_ProblemID r \<and> ps_ParentID (f r) = ps_ParentID r" for P f
  proof -
    have "tbl_ok ps_ID (tbl_update P f (db_solutions s))"
      using s that by (intro tbl_ok_update) (simp_all add: floors_ok_def)
    then show ?thesis using s that by (auto simp: floors_ok_def table_simps list_all_iff reply_ok_def split: option.splits)
  qed
  then show ?thesis using s by (simp add: updateSolution_def Let_def split: option.splits)
qed

lemma deleteSolution_floors: "floors_ok s \<Longrightarrow> floors_ok (fst (deleteSolution e cl sidstr s))"
  by (auto simp: deleteSolution_def floors_ok_def table_simps list_all_iff reply_ok_def
      split: option.splits intro!: tbl_ok_delete)


inductive floor_step :: "db \<Rightarrow> db \<Rightarrow> bool" where
  floor_post: "floor_step s (fst (createSolution e cl idstr body s))"
| floor_edit: "floor_step s (fst (updateSolution e cl sidstr change s))"
| floor_delete: "floor_step s (fst (deleteSolution e cl sidstr s))"

lemma floor_step_ok: "floor_step s s' \<Longrightarrow> floors_ok s \<Longrightarrow> floors_ok s'"
  by (induction rule: floor_step.induct)
    (simp_all add: createSolution_floors updateSolution_floors deleteSolution_floors)

lemma threads_stay_in_problem: "floor_step\<^sup>*\<^sup>* s s' \<Longrightarrow> floors_ok s \<Longrightarrow> floors_ok s'"
  by (induction rule: rtranclp_induct) (simp_all add: floor_step_ok)

definition solved_db :: db where
  "solved_db = empty_db\<lparr>db_problems := \<lparr>rows = [blank_problem\<lparr>p_ID := 7, p_Visibility := VisibilityPublic\<rparr>], seq = 7\<rparr>,
     db_submissions := \<lparr>rows = [sample_sub 5 SubWA 0], seq = 1\<rparr>\<rparr>"

theorem solution_area_gate_witness:
  "\<exists>s' i. createSolution (sample_env 0) sample_user (nat_str 7) (Some \<lparr>lr_Title = [], lr_BodyMD = ''dp'', lr_ParentID = None\<rparr>)
       solved_db = (s', Inr i) \<and> (\<exists>v. listSolutions (sample_env 0) sample_user (nat_str 7) solved_db = Inr v)"
proof -
  let ?p = "blank_problem\<lparr>p_ID := 7, p_Visibility := VisibilityPublic\<rparr>"
  let ?body = "Some \<lparr>lr_Title = [], lr_BodyMD = ''dp'', lr_ParentID = None\<rparr>"
  have prob: "problemByID solved_db (nat_str 7) = Some ?p"
    using paramID_accepts [of 7] by (simp add: problemByID_def solved_db_def byID_def tbl_first_def)
  obtain s' answer where run: "createSolution (sample_env 0) sample_user (nat_str 7) ?body solved_db = (s', answer)"
    by (rule prod.exhaust)
  have "may_discuss (sample_env 0) sample_user solved_db ?p"
    by (simp add: may_discuss_def canSeeProblem_def running_def problemContest_def blank_problem_def
        solved_db_def sample_sub_def sample_user_def)
  with guard_discuss [OF prob, of "sample_env 0" sample_user]
  have "solutionGuard (sample_env 0) sample_user (nat_str 7) solved_db = Inr ?p" by blast
  then have "\<exists>i. answer = Inr i"
    using run by (auto simp: createSolution_def sample_env_def maxSolution_def tbl_create_def)
  with solution_area_gate [OF prob run] run \<open>may_discuss (sample_env 0) sample_user solved_db ?p\<close>
  show ?thesis by auto
qed

end
