(* ===== verification/Problem_Lists.thy ===== *)
theory Problem_Lists
  imports Problems
begin

text \<open>
  Training lists of problems (\<open>problem_lists.go\<close>): creating, replacing and deleting a list, and reading
  it with the caller's progress.  Each write is one transaction; its statements are numbered from 0.
\<close>

definition canEditList :: "Claims \<Rightarrow> ProblemList \<Rightarrow> bool" where
  "canEditList cl l \<longleftrightarrow> isSetterRole (cl_Role cl) \<or> pl_CreatedBy l = cl_UserID cl"

definition listLists :: "db \<Rightarrow> (ProblemList \<times> nat) list" where
  "listLists s = map (\<lambda>l. (l, tbl_count (\<lambda>i. pi_ListID i = pl_ID l) (db_items s)))
     (take 200 (rev (rows (db_lists s))))"

record saveListReq =
  ls_Title :: string
  ls_Description :: string
  ls_ProblemIDs :: "nat list"
  ls_Notes :: "(nat \<times> string) list"

fun insert_items :: "env \<Rightarrow> nat \<Rightarrow> nat \<Rightarrow> nat \<Rightarrow> (nat \<times> string) list \<Rightarrow> nat list \<Rightarrow> db \<Rightarrow> db option" where
  "insert_items e n lid i notes [] s = Some s"
| "insert_items e n lid i notes (pid # pids) s =
     (if \<not> env_dbok e n then None
      else insert_items e (Suc n) lid (Suc i) notes pids
        (s\<lparr>db_items := snd (tbl_create (\<lambda>k. \<lparr>pi_ID = k, pi_ListID = lid, pi_ProblemID = pid,
             pi_OrderIndex = int i, pi_Note = (case map_of notes pid of None \<Rightarrow> [] | Some v \<Rightarrow> v)\<rparr>)
             (db_items s))\<rparr>))"

definition replaceItems :: "env \<Rightarrow> nat \<Rightarrow> nat \<Rightarrow> saveListReq \<Rightarrow> db \<Rightarrow> db option" where
  "replaceItems e n lid req s =
     (if \<not> env_dbok e n then None
      else insert_items e (Suc n) lid 0 (ls_Notes req) (ls_ProblemIDs req)
        (s\<lparr>db_items := tbl_delete (\<lambda>i. pi_ListID i = lid) (db_items s)\<rparr>))"

definition createList :: "env \<Rightarrow> Claims \<Rightarrow> saveListReq option \<Rightarrow> db \<Rightarrow> (db, ProblemList) handled" where
  "createList e cl body s =
     (case body of
        None \<Rightarrow> (s, Inl (HTTP 400 ''invalid payload''))
      | Some req \<Rightarrow>
          if ls_Title req = [] then (s, Inl (HTTP 400 ''invalid payload''))
          else if \<not> env_dbok e 0 then (s, Inl (HTTP 500 ''create failed''))
          else
            let (l, t) = tbl_create (\<lambda>i. \<lparr>pl_ID = i, pl_Title = ls_Title req,
                  pl_Description = ls_Description req, pl_CreatedBy = cl_UserID cl,
                  pl_CreatedAt = env_now e, pl_UpdatedAt = env_now e\<rparr>) (db_lists s)
            in case replaceItems e 1 (pl_ID l) req (s\<lparr>db_lists := t\<rparr>) of
                 None \<Rightarrow> (s, Inl (HTTP 500 ''create failed''))
               | Some s' \<Rightarrow> (s', Inr l))"

definition list_guard :: "Claims \<Rightarrow> string \<Rightarrow> db \<Rightarrow> http_error + ProblemList" where
  "list_guard cl idstr s =
     (case paramID idstr of
        None \<Rightarrow> Inl (HTTP 400 ''invalid list id'')
      | Some i \<Rightarrow>
          (case byID pl_ID (db_lists s) i of
             None \<Rightarrow> Inl (HTTP 404 ''list not found'')
           | Some l \<Rightarrow> if \<not> canEditList cl l then Inl (HTTP 403 ''not allowed'') else Inr l))"

definition updateList ::
  "env \<Rightarrow> Claims \<Rightarrow> string \<Rightarrow> saveListReq option \<Rightarrow> db \<Rightarrow> (db, ProblemList) handled" where
  "updateList e cl idstr body s =
     (case list_guard cl idstr s of
        Inl err \<Rightarrow> (s, Inl err)
      | Inr l \<Rightarrow>
          (case body of
             None \<Rightarrow> (s, Inl (HTTP 400 ''invalid payload''))
           | Some req \<Rightarrow>
               if ls_Title req = [] then (s, Inl (HTTP 400 ''invalid payload''))
               else if \<not> env_dbok e 0 then (s, Inl (HTTP 500 ''update failed''))
               else
                 let f = (\<lambda>r. r\<lparr>pl_Title := ls_Title req, pl_Description := ls_Description req,
                       pl_UpdatedAt := env_now e\<rparr>)
                 in case replaceItems e 1 (pl_ID l) req
                        (s\<lparr>db_lists := tbl_update (\<lambda>r. pl_ID r = pl_ID l) f (db_lists s)\<rparr>) of
                      None \<Rightarrow> (s, Inl (HTTP 500 ''update failed''))
                    | Some s' \<Rightarrow> (s', Inr (f l))))"

definition deleteList :: "env \<Rightarrow> Claims \<Rightarrow> string \<Rightarrow> db \<Rightarrow> (db, unit) handled" where
  "deleteList e cl idstr s =
     (case list_guard cl idstr s of
        Inl err \<Rightarrow> (s, Inl err)
      | Inr l \<Rightarrow>
          if \<not> env_dbok e 0 \<or> \<not> env_dbok e 1 then (s, Inl (HTTP 500 ''delete failed''))
          else (s\<lparr>db_items := tbl_delete (\<lambda>i. pi_ListID i = pl_ID l) (db_items s),
                  db_lists := tbl_delete (\<lambda>r. pl_ID r = pl_ID l) (db_lists s)\<rparr>, Inr ()))"

datatype progress = Todo | Tried | Ac

definition listProgress :: "Claims \<Rightarrow> db \<Rightarrow> nat \<Rightarrow> progress" where
  "listProgress cl s problemID =
     (if tbl_count (\<lambda>r. s_UserID r = cl_UserID cl \<and> s_ProblemID r = problemID \<and> s_Status r = SubAC
            \<and> \<not> s_Cancelled r) (db_submissions s) > 0 then Ac
      else if tbl_count (\<lambda>r. s_UserID r = cl_UserID cl \<and> s_ProblemID r = problemID \<and> \<not> s_Cancelled r)
            (db_submissions s) > 0 then Tried
      else Todo)"

record listItemView =
  iv_Item :: ProblemListItem
  iv_Brief :: "nat \<times> string \<times> int \<times> int \<times> string"
  iv_Progress :: progress

definition problem_brief :: "Problem \<Rightarrow> nat \<times> string \<times> int \<times> int \<times> string" where
  "problem_brief p = (p_ID p, p_Title p, p_TimeLimitMS p, p_MemLimitMB p, p_Visibility p)"

definition item_view :: "env \<Rightarrow> Claims \<Rightarrow> db \<Rightarrow> ProblemListItem \<Rightarrow> listItemView option" where
  "item_view e cl s it =
     (case byID p_ID (db_problems s) (pi_ProblemID it) of
        None \<Rightarrow> None
      | Some prob \<Rightarrow>
          if \<not> canSeeProblem e cl s prob then None
          else Some \<lparr>iv_Item = it, iv_Brief = problem_brief prob,
                     iv_Progress = listProgress cl s (p_ID prob)\<rparr>)"

definition getList ::
  "env \<Rightarrow> Claims \<Rightarrow> string \<Rightarrow> db \<Rightarrow> http_error + ProblemList \<times> listItemView list \<times> bool" where
  "getList e cl idstr s =
     (case paramID idstr of
        None \<Rightarrow> Inl (HTTP 400 ''invalid list id'')
      | Some i \<Rightarrow>
          (case byID pl_ID (db_lists s) i of
             None \<Rightarrow> Inl (HTTP 404 ''list not found'')
           | Some l \<Rightarrow>
               Inr (l, List.map_filter (item_view e cl s)
                      (sort_by (\<lambda>a b. pi_OrderIndex a < pi_OrderIndex b)
                         (tbl_select (\<lambda>x. pi_ListID x = i) (db_items s))),
                    canEditList cl l)))"

section \<open>A saved list is read back in order\<close>

lemma insert_items_rows:
  assumes "insert_items e n lid i notes pids s = Some s'"
  shows "\<exists>new. s' = s\<lparr>db_items := (db_items s)\<lparr>rows := rows (db_items s) @ new, seq := seq (db_items s) + length pids\<rparr>\<rparr>
    \<and> map pi_ProblemID new = pids \<and> map pi_OrderIndex new = map int [i..<i + length pids]
    \<and> list_all (\<lambda>x. pi_ListID x = lid) new"
  using assms
proof (induction pids arbitrary: n i s)
  case Nil
  then show ?case by simp
next
  case (Cons pid pids)
  let ?x = "\<lparr>pi_ID = Suc (seq (db_items s)), pi_ListID = lid, pi_ProblemID = pid, pi_OrderIndex = int i,
      pi_Note = (case map_of notes pid of None \<Rightarrow> [] | Some v \<Rightarrow> v)\<rparr>"
  let ?s = "s\<lparr>db_items := (db_items s)\<lparr>rows := rows (db_items s) @ [?x], seq := Suc (seq (db_items s))\<rparr>\<rparr>"
  from Cons.prems have "insert_items e (Suc n) lid (Suc i) notes pids ?s = Some s'"
    by (simp add: tbl_create_def Let_def split: if_splits)
  from Cons.IH [OF this] obtain new where
    "s' = ?s\<lparr>db_items := (db_items ?s)\<lparr>rows := rows (db_items ?s) @ new, seq := seq (db_items ?s) + length pids\<rparr>\<rparr>"
    "map pi_ProblemID new = pids" "map pi_OrderIndex new = map int [Suc i..<Suc i + length pids]"
    "list_all (\<lambda>x. pi_ListID x = lid) new" by blast
  then show ?case by (intro exI [of _ "?x # new"]) (simp add: upt_rec)
qed

lemma sorted_by_order:
  assumes "map pi_OrderIndex xs = map int [i..<j]"
  shows "sort_by (\<lambda>a b. pi_OrderIndex a < pi_OrderIndex b) xs = xs"
proof (rule sort_by_id)
  have "sorted_wrt (\<lambda>x y. \<not> y < x) (map pi_OrderIndex xs)"
    unfolding assms by (simp add: sorted_wrt_map sorted_wrt_iff_nth_less)
  then show "sorted_wrt (\<lambda>x y. \<not> pi_OrderIndex y < pi_OrderIndex x) xs" by (simp add: sorted_wrt_map)
qed

text \<open>The items of a list after it was saved are its problems in the order given.\<close>

definition list_items :: "db \<Rightarrow> nat \<Rightarrow> nat list" where
  "list_items s lid = map pi_ProblemID (sort_by (\<lambda>a b. pi_OrderIndex a < pi_OrderIndex b)
     (tbl_select (\<lambda>x. pi_ListID x = lid) (db_items s)))"

lemma replaceItems_items:
  assumes "replaceItems e n lid req s = Some s'"
  shows "list_items s' lid = ls_ProblemIDs req"
    and "l \<noteq> lid \<Longrightarrow> list_items s' l = list_items s l"
proof -
  let ?s = "s\<lparr>db_items := tbl_delete (\<lambda>i. pi_ListID i = lid) (db_items s)\<rparr>"
  from assms have "insert_items e (Suc n) lid 0 (ls_Notes req) (ls_ProblemIDs req) ?s = Some s'"
    by (simp add: replaceItems_def split: if_splits)
  from insert_items_rows [OF this] obtain new where
    s': "rows (db_items s') = filter (\<lambda>x. pi_ListID x \<noteq> lid) (rows (db_items s)) @ new"
    and new: "map pi_ProblemID new = ls_ProblemIDs req"
      "map pi_OrderIndex new = map int [0..<length (ls_ProblemIDs req)]" "list_all (\<lambda>x. pi_ListID x = lid) new"
    by (auto simp: tbl_delete_def)
  have "filter (\<lambda>x. pi_ListID x = lid) (rows (db_items s')) = new"
    using new(3) by (simp add: s' filter_empty_conv list_all_iff)
  with sorted_by_order [OF new(2)] new(1) show "list_items s' lid = ls_ProblemIDs req"
    by (simp add: list_items_def tbl_select_def)
  assume "l \<noteq> lid"
  then have "filter (\<lambda>x. pi_ListID x = l) (rows (db_items s')) = filter (\<lambda>x. pi_ListID x = l) (rows (db_items s))"
    using new(3) by (auto simp: s' filter_empty_conv list_all_iff intro: filter_cong)
  then show "list_items s' l = list_items s l" by (simp add: list_items_def tbl_select_def)
qed

text \<open>Saving a list is a round trip and leaves every other list alone; a failed save changes nothing.\<close>

lemma updateList_roundtrip:
  assumes "updateList e cl idstr (Some req) s = (s', answer)"
  shows "case answer of Inl err \<Rightarrow> s' = s
    | Inr l \<Rightarrow> list_items s' (pl_ID l) = ls_ProblemIDs req
        \<and> (\<forall>i. i \<noteq> pl_ID l \<longrightarrow> list_items s' i = list_items s i)"
proof (cases answer)
  case (Inr l)
  with assms obtain l0 where guard: "list_guard cl idstr s = Inr l0"
    by (cases "list_guard cl idstr s") (auto simp: updateList_def)
  let ?f = "\<lambda>r. r\<lparr>pl_Title := ls_Title req, pl_Description := ls_Description req, pl_UpdatedAt := env_now e\<rparr>"
  from assms Inr guard have l: "l = ?f l0" and
    run: "replaceItems e 1 (pl_ID l0) req (s\<lparr>db_lists := tbl_update (\<lambda>r. pl_ID r = pl_ID l0) ?f (db_lists s)\<rparr>) = Some s'"
    by (simp_all add: updateList_def Let_def split: if_splits option.splits)
  from replaceItems_items [OF run] l Inr show ?thesis by (auto simp: list_items_def)
qed (use assms in \<open>auto simp: updateList_def Let_def split: sum.splits if_splits option.splits\<close>)

end
