(* ===== verification/Teams.thy ===== *)
theory Teams
  imports Registration
begin

text \<open>
  Training teams (\<open>teams.go\<close>): creation, membership by invite code or by the captain, captaincy, notices,
  shared lists and the team board.  \<open>teams_ok\<close> is the invariant of the team and member tables.
\<close>

section \<open>Views\<close>

datatype team_role = Captain | Member | NoRole

record teamMemberView =
  mv_UserID :: nat
  mv_Username :: string
  mv_Nickname :: string
  mv_IsCaptain :: bool

definition user_names :: "db \<Rightarrow> nat \<Rightarrow> string \<times> string" where
  "user_names s uid = (case byID u_ID (db_users s) uid of
      None \<Rightarrow> ([], []) | Some u \<Rightarrow> (u_Username u, u_Nickname u))"

definition teamMembers :: "db \<Rightarrow> nat \<Rightarrow> teamMemberView list" where
  "teamMembers s teamID =
     (let captain = (case byID t_ID (db_teams s) teamID of None \<Rightarrow> 0 | Some team \<Rightarrow> t_CaptainID team)
      in map (\<lambda>m. \<lparr>mv_UserID = tm_UserID m, mv_Username = fst (user_names s (tm_UserID m)),
               mv_Nickname = snd (user_names s (tm_UserID m)), mv_IsCaptain = (tm_UserID m = captain)\<rparr>)
           (team_members_of s teamID))"

definition member_of :: "db \<Rightarrow> nat \<Rightarrow> nat \<Rightarrow> bool" where
  "member_of s tid uid \<longleftrightarrow> tbl_count (\<lambda>m. tm_TeamID m = tid \<and> tm_UserID m = uid) (db_members s) > 0"

definition teamRole :: "db \<Rightarrow> Team \<Rightarrow> nat \<Rightarrow> team_role" where
  "teamRole s team uid =
     (if t_CaptainID team = uid then Captain
      else if member_of s (t_ID team) uid then Member
      else NoRole)"

definition member_count :: "db \<Rightarrow> nat \<Rightarrow> nat" where
  "member_count s tid = tbl_count (\<lambda>m. tm_TeamID m = tid) (db_members s)"

record teamView =
  tv_Team :: Team
  tv_MemberCount :: nat
  tv_Captain :: string
  tv_Role :: team_role

definition listTeams :: "Claims \<Rightarrow> db \<Rightarrow> teamView list" where
  "listTeams cl s =
     map (\<lambda>t. \<lparr>tv_Team = t, tv_MemberCount = member_count s (t_ID t), tv_Captain = flag_name s (t_CaptainID t),
              tv_Role = teamRole s t (cl_UserID cl)\<rparr>)
       (take 200 (rev (rows (db_teams s))))"

record team_page =
  tg_View :: teamView
  tg_Members :: "teamMemberView list"
  tg_Notices :: "TeamNotice list"
  tg_Lists :: "(nat \<times> string \<times> string \<times> nat) list"

definition getTeam :: "Claims \<Rightarrow> string \<Rightarrow> db \<Rightarrow> http_error + team_page" where
  "getTeam cl idstr s =
     (case paramID idstr of
        None \<Rightarrow> Inl (HTTP 400 ''invalid team id'')
      | Some i \<Rightarrow>
          (case byID t_ID (db_teams s) i of
             None \<Rightarrow> Inl (HTTP 404 ''team not found'')
           | Some team \<Rightarrow>
               Inr \<lparr>tg_View = \<lparr>tv_Team = team, tv_MemberCount = member_count s (t_ID team), tv_Captain = [],
                      tv_Role = teamRole s team (cl_UserID cl)\<rparr>,
                    tg_Members = teamMembers s (t_ID team),
                    tg_Notices = take 50 (rev (tbl_select (\<lambda>n. tn_TeamID n = t_ID team) (db_team_notices s))),
                    tg_Lists = List.map_filter (\<lambda>sh. map_option
                        (\<lambda>l. (pl_ID l, pl_Title l, pl_Description l,
                              tbl_count (\<lambda>i. pi_ListID i = pl_ID l) (db_items s)))
                        (byID pl_ID (db_lists s) (tl_ListID sh)))
                      (rev (tbl_select (\<lambda>x. tl_TeamID x = t_ID team) (db_team_lists s)))\<rparr>))"

section \<open>Creating\<close>

record createTeamReq =
  tq_Name :: string
  tq_Bio :: string
  tq_Capacity :: int

definition clamp_capacity :: "int \<Rightarrow> int" where
  "clamp_capacity c = (let c = (if c \<le> 0 then 3 else c) in if c > 5 then 5 else c)"

text \<open>The column \<open>joined_at\<close> is never set: it holds Go's zero time.\<close>

definition create_member :: "nat \<Rightarrow> nat \<Rightarrow> db \<Rightarrow> db" where
  "create_member tid uid s = s\<lparr>db_members := snd (tbl_create
     (\<lambda>i. \<lparr>tm_ID = i, tm_TeamID = tid, tm_UserID = uid, tm_JoinedAt = zero_time\<rparr>) (db_members s))\<rparr>"

definition team_taken :: "db \<Rightarrow> string \<Rightarrow> string \<Rightarrow> bool" where
  "team_taken s name code \<longleftrightarrow>
     tbl_count (\<lambda>t. t_Name t = name \<or> t_InviteCode t = code) (db_teams s) > 0"

definition createTeam :: "env \<Rightarrow> Claims \<Rightarrow> createTeamReq option \<Rightarrow> db \<Rightarrow> (db, teamView) handled" where
  "createTeam e cl body s =
     (case body of
        None \<Rightarrow> (s, Inl (HTTP 400 ''invalid payload''))
      | Some req \<Rightarrow>
          if tq_Name req = [] then (s, Inl (HTTP 400 ''invalid payload''))
          else if team_taken s (tq_Name req) (env_rand e) then (s, Inl (HTTP 400 ''the team name exists''))
          else if \<not> env_dbok e 0 \<or> \<not> env_dbok e 1 then (s, Inl (HTTP 500 ''create failed''))
          else
            let (team, t) = tbl_create (\<lambda>i. \<lparr>t_ID = i, t_Name = tq_Name req, t_Bio = tq_Bio req,
                  t_Capacity = clamp_capacity (tq_Capacity req), t_CaptainID = cl_UserID cl,
                  t_InviteCode = env_rand e, t_CreatedAt = env_now e\<rparr>) (db_teams s)
            in (create_member (t_ID team) (cl_UserID cl) (s\<lparr>db_teams := t\<rparr>),
                Inr \<lparr>tv_Team = team, tv_MemberCount = 1, tv_Captain = [], tv_Role = Captain\<rparr>))"

section \<open>Membership\<close>

text \<open>
  Joining looks first and inserts then; the insertion is a step of its own, as another request may run
  in between.  It fails when the user is a member already.
\<close>

definition join_insert :: "env \<Rightarrow> nat \<Rightarrow> nat \<Rightarrow> string \<Rightarrow> db \<Rightarrow> (db, unit) handled" where
  "join_insert e tid uid err s =
     (if member_of s tid uid \<or> \<not> env_dbok e 0 then (s, Inl (HTTP 500 err))
      else (create_member tid uid s, Inr ()))"

definition team_full :: "db \<Rightarrow> Team \<Rightarrow> bool" where
  "team_full s team \<longleftrightarrow> int (member_count s (t_ID team)) \<ge> t_Capacity team"

definition full_error :: "Team \<Rightarrow> http_error" where
  "full_error team = HTTP 400 (''the team is full (at most '' @ int_str (t_Capacity team) @ '')'')"

definition joinTeam :: "env \<Rightarrow> Claims \<Rightarrow> string \<Rightarrow> db \<Rightarrow> (db, nat) handled" where
  "joinTeam e cl code s =
     (case tbl_first (\<lambda>t. t_InviteCode t = code) (db_teams s) of
        None \<Rightarrow> (s, Inl (HTTP 404 ''invalid invite code''))
      | Some team \<Rightarrow>
          if teamRole s team (cl_UserID cl) \<noteq> NoRole then (s, Inr (t_ID team))
          else if team_full s team then (s, Inl (full_error team))
          else (case join_insert e (t_ID team) (cl_UserID cl) ''join failed'' s of
                  (s, Inl err) \<Rightarrow> (s, Inl err)
                | (s, Inr u) \<Rightarrow> (s, Inr (t_ID team))))"

definition teamGuard :: "Claims \<Rightarrow> string \<Rightarrow> db \<Rightarrow> http_error + Team" where
  "teamGuard cl idstr s =
     (case paramID idstr of
        None \<Rightarrow> Inl (HTTP 400 ''invalid team id'')
      | Some i \<Rightarrow>
          (case byID t_ID (db_teams s) i of
             None \<Rightarrow> Inl (HTTP 404 ''team not found'')
           | Some team \<Rightarrow>
               if t_CaptainID team \<noteq> cl_UserID cl then Inl (HTTP 403 ''only the captain may do this'')
               else Inr team))"

definition pullMember :: "env \<Rightarrow> Claims \<Rightarrow> string \<Rightarrow> string \<Rightarrow> db \<Rightarrow> (db, unit) handled" where
  "pullMember e cl idstr uidstr s =
     (case teamGuard cl idstr s of
        Inl err \<Rightarrow> (s, Inl err)
      | Inr team \<Rightarrow>
          (case paramID uidstr of
             None \<Rightarrow> (s, Inl (HTTP 400 ''invalid user id''))
           | Some uid \<Rightarrow>
               if byID u_ID (db_users s) uid = None then (s, Inl (HTTP 404 ''user not found''))
               else if teamRole s team uid \<noteq> NoRole then (s, Inl (HTTP 400 ''the user is in the team''))
               else if team_full s team then (s, Inl (full_error team))
               else join_insert e (t_ID team) uid ''add failed'' s))"

definition delete_member :: "nat \<Rightarrow> nat \<Rightarrow> db \<Rightarrow> db" where
  "delete_member tid uid s =
     s\<lparr>db_members := tbl_delete (\<lambda>m. tm_TeamID m = tid \<and> tm_UserID m = uid) (db_members s)\<rparr>"

definition kickMember :: "env \<Rightarrow> Claims \<Rightarrow> string \<Rightarrow> string \<Rightarrow> db \<Rightarrow> (db, unit) handled" where
  "kickMember e cl idstr uidstr s =
     (case teamGuard cl idstr s of
        Inl err \<Rightarrow> (s, Inl err)
      | Inr team \<Rightarrow>
          (case paramID uidstr of
             None \<Rightarrow> (s, Inl (HTTP 400 ''invalid user id''))
           | Some uid \<Rightarrow>
               if uid = cl_UserID cl then (s, Inl (HTTP 400 ''the captain cannot be removed''))
               else if \<not> env_dbok e 0 then (s, Inl (HTTP 500 ''remove failed''))
               else (delete_member (t_ID team) uid s, Inr ())))"

text \<open>The last member's leaving removes the team; the answer says whether it was removed.\<close>

definition delete_team :: "nat \<Rightarrow> db \<Rightarrow> db" where
  "delete_team tid s = s\<lparr>
     db_members := tbl_delete (\<lambda>m. tm_TeamID m = tid) (db_members s),
     db_team_notices := tbl_delete (\<lambda>n. tn_TeamID n = tid) (db_team_notices s),
     db_team_lists := tbl_delete (\<lambda>l. tl_TeamID l = tid) (db_team_lists s),
     db_teams := tbl_delete (\<lambda>t. t_ID t = tid) (db_teams s)\<rparr>"

definition leaveTeam :: "env \<Rightarrow> Claims \<Rightarrow> string \<Rightarrow> db \<Rightarrow> (db, bool) handled" where
  "leaveTeam e cl idstr s =
     (case paramID idstr of
        None \<Rightarrow> (s, Inl (HTTP 400 ''invalid team id''))
      | Some i \<Rightarrow>
          (case byID t_ID (db_teams s) i of
             None \<Rightarrow> (s, Inl (HTTP 404 ''team not found''))
           | Some team \<Rightarrow>
               if t_CaptainID team = cl_UserID cl then
                 if member_count s (t_ID team) \<le> 1 then (delete_team (t_ID team) s, Inr True)
                 else (s, Inl (HTTP 400 ''transfer the captaincy first''))
               else if \<not> env_dbok e 0 then (s, Inl (HTTP 500 ''leave failed''))
               else (delete_member (t_ID team) (cl_UserID cl) s, Inr False)))"

definition update_team :: "nat \<Rightarrow> (Team \<Rightarrow> Team) \<Rightarrow> db \<Rightarrow> db" where
  "update_team tid f s = s\<lparr>db_teams := tbl_update (\<lambda>t. t_ID t = tid) f (db_teams s)\<rparr>"

definition transferCaptain :: "env \<Rightarrow> Claims \<Rightarrow> string \<Rightarrow> string \<Rightarrow> db \<Rightarrow> (db, unit) handled" where
  "transferCaptain e cl idstr uidstr s =
     (case teamGuard cl idstr s of
        Inl err \<Rightarrow> (s, Inl err)
      | Inr team \<Rightarrow>
          (case paramID uidstr of
             None \<Rightarrow> (s, Inl (HTTP 400 ''invalid user id''))
           | Some uid \<Rightarrow>
               if teamRole s team uid = NoRole then (s, Inl (HTTP 400 ''the user is not a member''))
               else if \<not> env_dbok e 0 then (s, Inl (HTTP 500 ''transfer failed''))
               else (update_team (t_ID team) (\<lambda>t. t\<lparr>t_CaptainID := uid\<rparr>) s, Inr ())))"

definition regenerateInvite :: "env \<Rightarrow> Claims \<Rightarrow> string \<Rightarrow> db \<Rightarrow> (db, string) handled" where
  "regenerateInvite e cl idstr s =
     (case teamGuard cl idstr s of
        Inl err \<Rightarrow> (s, Inl err)
      | Inr team \<Rightarrow>
          if tbl_count (\<lambda>t. t_ID t \<noteq> t_ID team \<and> t_InviteCode t = env_rand e) (db_teams s) > 0
             \<or> \<not> env_dbok e 0 then (s, Inl (HTTP 500 ''update failed''))
          else (update_team (t_ID team) (\<lambda>t. t\<lparr>t_InviteCode := env_rand e\<rparr>) s, Inr (env_rand e)))"


section \<open>Notices and shared lists\<close>

definition createTeamNotice ::
  "env \<Rightarrow> Claims \<Rightarrow> string \<Rightarrow> string option \<Rightarrow> db \<Rightarrow> (db, TeamNotice) handled" where
  "createTeamNotice e cl idstr body s =
     (case teamGuard cl idstr s of
        Inl err \<Rightarrow> (s, Inl err)
      | Inr team \<Rightarrow>
          (case body of
             None \<Rightarrow> (s, Inl (HTTP 400 ''invalid payload''))
           | Some content \<Rightarrow>
               if content = [] then (s, Inl (HTTP 400 ''invalid payload''))
               else if \<not> env_dbok e 0 then (s, Inl (HTTP 500 ''create failed''))
               else
                 let (n, t) = tbl_create (\<lambda>i. \<lparr>tn_ID = i, tn_TeamID = t_ID team, tn_UserID = cl_UserID cl,
                       tn_Content = content, tn_CreatedAt = env_now e\<rparr>) (db_team_notices s)
                 in (s\<lparr>db_team_notices := t\<rparr>, Inr n)))"

definition deleteTeamNotice :: "env \<Rightarrow> Claims \<Rightarrow> string \<Rightarrow> string \<Rightarrow> db \<Rightarrow> (db, unit) handled" where
  "deleteTeamNotice e cl idstr nidstr s =
     (case teamGuard cl idstr s of
        Inl err \<Rightarrow> (s, Inl err)
      | Inr team \<Rightarrow>
          (case paramID nidstr of
             None \<Rightarrow> (s, Inl (HTTP 400 ''invalid notice id''))
           | Some nid \<Rightarrow>
               if \<not> env_dbok e 0 then (s, Inl (HTTP 500 ''delete failed''))
               else (s\<lparr>db_team_notices :=
                       tbl_delete (\<lambda>n. tn_ID n = nid \<and> tn_TeamID n = t_ID team) (db_team_notices s)\<rparr>, Inr ())))"

definition shareList :: "env \<Rightarrow> Claims \<Rightarrow> string \<Rightarrow> nat option \<Rightarrow> db \<Rightarrow> (db, unit) handled" where
  "shareList e cl idstr body s =
     (case teamGuard cl idstr s of
        Inl err \<Rightarrow> (s, Inl err)
      | Inr team \<Rightarrow>
          (case body of
             None \<Rightarrow> (s, Inl (HTTP 400 ''invalid payload''))
           | Some lid \<Rightarrow>
               if lid = 0 then (s, Inl (HTTP 400 ''invalid payload''))
               else if byID pl_ID (db_lists s) lid = None then (s, Inl (HTTP 404 ''list not found''))
               else if \<not> env_dbok e 0 then (s, Inl (HTTP 500 ''share failed''))
               else if tbl_count (\<lambda>x. tl_TeamID x = t_ID team \<and> tl_ListID x = lid) (db_team_lists s) > 0
               then (s, Inr ())
               else (s\<lparr>db_team_lists := snd (tbl_create (\<lambda>i. \<lparr>tl_ID = i, tl_TeamID = t_ID team, tl_ListID = lid,
                       tl_CreatedAt = env_now e\<rparr>) (db_team_lists s))\<rparr>, Inr ())))"

definition unshareList :: "env \<Rightarrow> Claims \<Rightarrow> string \<Rightarrow> string \<Rightarrow> db \<Rightarrow> (db, unit) handled" where
  "unshareList e cl idstr lidstr s =
     (case teamGuard cl idstr s of
        Inl err \<Rightarrow> (s, Inl err)
      | Inr team \<Rightarrow>
          (case paramID lidstr of
             None \<Rightarrow> (s, Inl (HTTP 400 ''invalid list id''))
           | Some lid \<Rightarrow>
               if \<not> env_dbok e 0 then (s, Inl (HTTP 500 ''unshare failed''))
               else (s\<lparr>db_team_lists :=
                       tbl_delete (\<lambda>x. tl_TeamID x = t_ID team \<and> tl_ListID x = lid) (db_team_lists s)\<rparr>, Inr ())))"

section \<open>The team board\<close>

text \<open>
  \<open>Distinct\<close> without columns before a \<open>Count\<close> counts rows, and the rows are distinct: the board counts
  submissions.  \<open>board_before a b\<close> is the condition under which the two rows \<open>b\<close> (at \<open>i\<close>) and \<open>a\<close> (at
  \<open>j > i\<close>) are exchanged.
\<close>

record boardRow =
  br_UserID :: nat
  br_Username :: string
  br_Nickname :: string
  br_AC :: nat
  br_Tried :: nat

definition board_row :: "db \<Rightarrow> nat list option \<Rightarrow> TeamMember \<Rightarrow> boardRow" where
  "board_row s pids m =
     (let scope = (\<lambda>r. s_UserID r = tm_UserID m \<and> \<not> s_Cancelled r
            \<and> (case pids of None \<Rightarrow> True | Some ps \<Rightarrow> s_ProblemID r \<in> set ps))
      in \<lparr>br_UserID = tm_UserID m, br_Username = fst (user_names s (tm_UserID m)),
          br_Nickname = snd (user_names s (tm_UserID m)),
          br_AC = tbl_count (\<lambda>r. scope r \<and> s_Status r = SubAC) (db_submissions s),
          br_Tried = tbl_count scope (db_submissions s)\<rparr>)"

definition board_before :: "boardRow \<Rightarrow> boardRow \<Rightarrow> bool" where
  "board_before b a \<longleftrightarrow> br_AC a < br_AC b
     \<or> (br_AC a = br_AC b \<and> (br_Tried a < br_Tried b \<or> (br_Tried a = br_Tried b \<and> br_UserID a > br_UserID b)))"

text \<open>
  The two loops: the inner one carries the row at position \<open>i\<close> along the rest and exchanges it with
  every row that should precede it.
\<close>

fun exchange_pass :: "boardRow \<Rightarrow> boardRow list \<Rightarrow> boardRow \<times> boardRow list" where
  "exchange_pass a [] = (a, [])"
| "exchange_pass a (b # bs) =
     (if board_before b a then let (x, rest) = exchange_pass b bs in (x, a # rest)
      else let (x, rest) = exchange_pass a bs in (x, b # rest))"

lemma exchange_pass_mset: "exchange_pass a bs = (x, rest) \<Longrightarrow> add_mset x (mset rest) = add_mset a (mset bs)"
  by (induction bs arbitrary: a x rest) (auto split: if_splits prod.splits simp: add_mset_commute)

lemma exchange_pass_length: "exchange_pass a bs = (x, rest) \<Longrightarrow> length rest = length bs"
proof -
  assume "exchange_pass a bs = (x, rest)"
  from arg_cong [OF exchange_pass_mset [OF this], of size] show ?thesis by simp
qed

function exchange_sort :: "boardRow list \<Rightarrow> boardRow list" where
  "exchange_sort [] = []"
| "exchange_sort (a # bs) = (let p = exchange_pass a bs in fst p # exchange_sort (snd p))"
  by pat_completeness auto
termination
  by (relation "measure length") (simp_all add: exchange_pass_length [OF surjective_pairing])

definition teamBoard :: "string \<Rightarrow> db \<Rightarrow> http_error + boardRow list" where
  "teamBoard idstr s =
     (case paramID idstr of
        None \<Rightarrow> Inl (HTTP 400 ''invalid team id'')
      | Some i \<Rightarrow>
          (case byID t_ID (db_teams s) i of
             None \<Rightarrow> Inl (HTTP 404 ''team not found'')
           | Some team \<Rightarrow>
               (let shares = map tl_ListID (tbl_select (\<lambda>x. tl_TeamID x = t_ID team) (db_team_lists s));
                    pids = (if shares = [] then None
                            else Some (remdups (map pi_ProblemID
                                   (tbl_select (\<lambda>x. pi_ListID x \<in> set shares) (db_items s)))))
                in Inr (exchange_sort (map (board_row s pids) (team_members_of s (t_ID team)))))))"

section \<open>The board is sorted\<close>

interpretation board: keyed_less board_before br_UserID
  by unfold_locales (auto simp: board_before_def)

lemma exchange_pass_least:
  "exchange_pass a bs = (x, rest) \<Longrightarrow> \<not> board_before a x \<and> list_all (\<lambda>y. \<not> board_before y x) rest"
proof (induction bs arbitrary: a x rest)
  case Nil
  then show ?case by (auto simp: board_before_def)
next
  case (Cons b bs)
  show ?case
  proof (cases "board_before b a")
    case True
    with Cons.prems obtain rest' where r: "exchange_pass b bs = (x, rest')" "rest = a # rest'"
      by (auto split: prod.splits)
    from Cons.IH [OF r(1)] True r(2) show ?thesis
      using board.negtrans [of b x a] board.asym by (auto dest: board.asym board.negtrans)
  next
    case False
    with Cons.prems obtain rest' where r: "exchange_pass a bs = (x, rest')" "rest = b # rest'"
      by (auto split: prod.splits)
    from Cons.IH [OF r(1)] False r(2) show ?thesis by (auto dest: board.negtrans)
  qed
qed

lemma exchange_sort_sorted:
  "sorted_wrt (\<lambda>x y. \<not> board_before y x) (exchange_sort rs) \<and> mset (exchange_sort rs) = mset rs"
proof (induction rs rule: exchange_sort.induct)
  case (2 a bs)
  obtain x rest where p: "exchange_pass a bs = (x, rest)" by (rule prod.exhaust)
  from 2 p have ih: "sorted_wrt (\<lambda>x y. \<not> board_before y x) (exchange_sort rest)"
    "mset (exchange_sort rest) = mset rest" by auto
  from ih(2) have "set (exchange_sort rest) = set rest" by (metis set_mset_mset)
  with exchange_pass_least [OF p] ih exchange_pass_mset [OF p] p show ?case by (simp add: list_all_iff)
qed simp

text \<open>
  The exchange sort of the team board computes the one order its comparison allows: most accepted
  first, then most tried, then the smaller user id.  It equals sorting by that comparison, whatever the
  order of the member rows, and never loses or repeats a member.
\<close>

theorem team_board_sorted:
  assumes "distinct (map br_UserID rs)" and "mset ms = mset rs"
  shows "exchange_sort ms = sort_by board_before rs
    \<and> sorted_wrt (\<lambda>x y. board_before x y) (exchange_sort ms) \<and> mset (exchange_sort ms) = mset rs"
proof -
  have sort: "exchange_sort ms = sort_by board_before rs"
    using exchange_sort_sorted [of ms] assms by (intro board.sort_by_unique) auto
  have "distinct (map br_UserID (exchange_sort ms))"
    using assms exchange_sort_sorted [of ms] by (metis mset_eq_imp_distinct_iff mset_map)
  with exchange_sort_sorted [of ms] have "sorted_wrt (\<lambda>x y. board_before x y) (exchange_sort ms)"
    using board.tie_key by (elim conjE sorted_wrt_distinct_key [where key = br_UserID]) blast+
  with sort exchange_sort_sorted [of ms] assms(2) show ?thesis by simp
qed

definition sample_row :: "nat \<Rightarrow> nat \<Rightarrow> nat \<Rightarrow> boardRow" where
  "sample_row uid ac tried = \<lparr>br_UserID = uid, br_Username = [], br_Nickname = [], br_AC = ac, br_Tried = tried\<rparr>"

theorem team_board_sorted_witness:
  "exchange_sort [sample_row 1 0 4, sample_row 2 3 3, sample_row 3 0 4]
     = [sample_row 2 3 3, sample_row 1 0 4, sample_row 3 0 4]"
proof -
  let ?rs = "[sample_row 1 0 4, sample_row 2 3 3, sample_row 3 0 4]"
  have "distinct (map br_UserID ?rs)" by (simp add: sample_row_def)
  from team_board_sorted [OF this refl] show ?thesis by (simp add: board_before_def sample_row_def)
qed


section \<open>The invariant of teams\<close>

definition members :: "db \<Rightarrow> nat \<Rightarrow> nat list" where
  "members s tid = map tm_UserID (team_members_of s tid)"

definition team_ok :: "db \<Rightarrow> Team \<Rightarrow> bool" where
  "team_ok s t \<longleftrightarrow> 1 \<le> t_Capacity t \<and> t_Capacity t \<le> 5
     \<and> t_CaptainID t \<in> set (members s (t_ID t)) \<and> distinct (members s (t_ID t))
     \<and> int (length (members s (t_ID t))) \<le> t_Capacity t"

definition teams_ok :: "db \<Rightarrow> bool" where
  "teams_ok s \<longleftrightarrow> tbl_ok t_ID (db_teams s)
     \<and> distinct (map t_Name (rows (db_teams s))) \<and> distinct (map t_InviteCode (rows (db_teams s)))
     \<and> list_all (team_ok s) (rows (db_teams s))
     \<and> list_all (\<lambda>m. tm_TeamID m \<in> set (map t_ID (rows (db_teams s)))) (rows (db_members s))"

lemma member_of_members: "member_of s tid uid \<longleftrightarrow> uid \<in> set (members s tid)"
  by (auto simp: member_of_def tbl_count_pos members_def team_members_of_def tbl_select_def)

lemma member_count_members: "member_count s tid = length (members s tid)"
  by (simp add: member_count_def tbl_count_def members_def team_members_of_def tbl_select_def)

lemma members_create: "members (create_member tid uid s) t = members s t @ (if t = tid then [uid] else [])"
  by (simp add: members_def create_member_def team_members_of_def tbl_select_def table_simps)

lemma members_delete:
  "members (delete_member tid uid s) t = (if t = tid then filter (\<lambda>u. u \<noteq> uid) (members s t) else members s t)"
proof -
  have "map tm_UserID (filter (\<lambda>m. tm_TeamID m = t) (filter (\<lambda>m. \<not> (tm_TeamID m = tid \<and> tm_UserID m = uid)) ms))
      = (if t = tid then filter (\<lambda>u. u \<noteq> uid) (map tm_UserID (filter (\<lambda>m. tm_TeamID m = t) ms))
         else map tm_UserID (filter (\<lambda>m. tm_TeamID m = t) ms))" for ms
    by (induction ms) auto
  moreover have "rows (db_members (delete_member tid uid s))
      = filter (\<lambda>m. \<not> (tm_TeamID m = tid \<and> tm_UserID m = uid)) (rows (db_members s))"
    by (simp add: delete_member_def table_simps)
  ultimately show ?thesis by (simp only: members_def team_members_of_def tbl_select_def)
qed

lemma db_teams_members [simp]:
  "db_teams (create_member tid uid s) = db_teams s" "db_teams (delete_member tid uid s) = db_teams s"
  by (simp_all add: create_member_def delete_member_def)

lemma teams_ok_frame [simp]:
  "teams_ok (s\<lparr>db_team_notices := n\<rparr>) = teams_ok s" "teams_ok (s\<lparr>db_team_lists := l\<rparr>) = teams_ok s"
  by (simp_all add: teams_ok_def team_ok_def [abs_def] members_def team_members_of_def)

lemma teams_okD:
  assumes "teams_ok s" and "byID t_ID (db_teams s) i = Some team"
  shows "team \<in> set (rows (db_teams s))" "t_ID team = i" "team_ok s team"
  using assms by (auto simp: teams_ok_def list_all_iff dest: byID_SomeD)

lemma team_ok_cong: "members s' (t_ID t) = members s (t_ID t) \<Longrightarrow> team_ok s' t = team_ok s t"
  by (simp add: team_ok_def)

lemma add_member_ok:
  assumes "teams_ok s" and "team \<in> set (rows (db_teams s))" and "uid \<notin> set (members s (t_ID team))"
    and "\<not> team_full s team"
  shows "teams_ok (create_member (t_ID team) uid s)"
proof -
  have one: "t = team" if "t \<in> set (rows (db_teams s))" "t_ID t = t_ID team" for t
    using assms(1,2) that tbl_ok_unique by (metis teams_ok_def)
  have "team_ok (create_member (t_ID team) uid s) t" if "t \<in> set (rows (db_teams s))" for t
  proof -
    have "team_ok s t" using assms(1) that by (simp add: teams_ok_def list_all_iff)
    then show ?thesis
      using assms(3,4) one [OF that]
      by (auto simp: team_ok_def members_create team_full_def member_count_members)
  qed
  then show ?thesis
    using assms(1,2) by (simp add: teams_ok_def list_all_iff) (auto simp: create_member_def table_simps)
qed

lemma remove_member_ok:
  assumes "teams_ok s" and "team \<in> set (rows (db_teams s))" and "uid \<noteq> t_CaptainID team"
  shows "teams_ok (delete_member (t_ID team) uid s)"
proof -
  have one: "t = team" if "t \<in> set (rows (db_teams s))" "t_ID t = t_ID team" for t
    using assms(1,2) that tbl_ok_unique by (metis teams_ok_def)
  have "team_ok (delete_member (t_ID team) uid s) t" if "t \<in> set (rows (db_teams s))" for t
  proof -
    have "team_ok s t" using assms(1) that by (simp add: teams_ok_def list_all_iff)
    then show ?thesis
      using assms(3) one [OF that]
      by (auto simp: team_ok_def members_delete
          intro: order_trans [where y = "int (length (members s (t_ID team)))"])
  qed
  then show ?thesis
    using assms(1,2) by (simp add: teams_ok_def list_all_iff) (auto simp: delete_member_def table_simps)
qed

lemma change_team_ok:
  assumes "teams_ok s" and "team \<in> set (rows (db_teams s))"
    and "\<And>t. t_ID (f t) = t_ID t \<and> t_Name (f t) = t_Name t \<and> t_Capacity (f t) = t_Capacity t"
    and "t_CaptainID (f team) \<in> set (members s (t_ID team))"
    and "distinct (map t_InviteCode (rows (tbl_update (\<lambda>t. t_ID t = t_ID team) f (db_teams s))))"
  shows "teams_ok (update_team (t_ID team) f s)"
proof -
  let ?g = "\<lambda>t. if t_ID t = t_ID team then f t else t"
  have one: "t = team" if "t \<in> set (rows (db_teams s))" "t_ID t = t_ID team" for t
    using assms(1,2) that tbl_ok_unique by (metis teams_ok_def)
  have mem: "members (update_team (t_ID team) f s) = members s"
    by (simp add: fun_eq_iff members_def team_members_of_def update_team_def)
  have "team_ok (update_team (t_ID team) f s) (?g t)" if "t \<in> set (rows (db_teams s))" for t
  proof -
    have "team_ok s t" using assms(1) that by (simp add: teams_ok_def list_all_iff)
    then show ?thesis using assms(3,4) one [OF that] by (auto simp: team_ok_def mem)
  qed
  then have each: "list_all (team_ok (update_team (t_ID team) f s)) (map ?g (rows (db_teams s)))"
    unfolding list_all_iff set_map by (intro ballI, elim imageE, simp only:)
  have ok: "tbl_ok t_ID (tbl_update (\<lambda>t. t_ID t = t_ID team) f (db_teams s))"
    using assms(1,3) by (intro tbl_ok_update) (auto simp: teams_ok_def)
  have names: "map t_Name (map ?g xs) = map t_Name xs" and ids: "map t_ID (map ?g xs) = map t_ID xs" for xs
    using assms(3) by (induction xs) auto
  have rows: "db_teams (update_team (t_ID team) f s) = tbl_update (\<lambda>t. t_ID t = t_ID team) f (db_teams s)"
    "db_members (update_team (t_ID team) f s) = db_members s" by (simp_all add: update_team_def)
  show ?thesis
    using assms(1,5) ok each unfolding teams_ok_def rows rows_tbl_update names ids by blast
qed

lemma remove_team_ok:
  assumes "teams_ok s"
  shows "teams_ok (delete_team tid s)"
proof -
  have mem: "members (delete_team tid s) t = (if t = tid then [] else members s t)" for t
    by (auto simp: members_def team_members_of_def delete_team_def tbl_select_def table_simps filter_empty_conv
        intro!: arg_cong [where f = "map tm_UserID"] filter_cong)
  have rows: "rows (db_teams (delete_team tid s)) = filter (\<lambda>t. t_ID t \<noteq> tid) (rows (db_teams s))"
    "rows (db_members (delete_team tid s)) = filter (\<lambda>m. tm_TeamID m \<noteq> tid) (rows (db_members s))"
    by (simp_all add: delete_team_def table_simps)
  have "tbl_ok t_ID (db_teams (delete_team tid s))"
    using assms unfolding delete_team_def by (simp add: teams_ok_def tbl_ok_delete)
  moreover have "team_ok (delete_team tid s) t" if "t \<in> set (rows (db_teams s))" "t_ID t \<noteq> tid" for t
    using assms that team_ok_cong [of "delete_team tid s" t s] by (simp add: mem teams_ok_def list_all_iff)
  ultimately show ?thesis
    using assms by (auto simp: teams_ok_def rows list_all_iff distinct_map_filter)
qed

lemma new_team_ok:
  assumes "teams_ok s" and "\<not> team_taken s (t_Name team) (t_InviteCode team)" and "t_ID team = Suc (seq (db_teams s))"
    and "1 \<le> t_Capacity team \<and> t_Capacity team \<le> 5"
  shows "teams_ok (create_member (t_ID team) (t_CaptainID team)
    (s\<lparr>db_teams := (db_teams s)\<lparr>rows := rows (db_teams s) @ [team], seq := t_ID team\<rparr>\<rparr>))" (is "teams_ok ?s'")
proof -
  have old: "t_ID t \<le> seq (db_teams s)" if "t \<in> set (rows (db_teams s))" for t
    using assms(1) that by (auto simp: teams_ok_def tbl_ok_def list_all_iff)
  have mem: "members ?s' t = members s t @ (if t = t_ID team then [t_CaptainID team] else [])" for t
    unfolding members_create by (simp add: members_def team_members_of_def)
  have none: "members s (t_ID team) = []"
    using assms(1,3) old by (fastforce simp: members_def team_members_of_def tbl_select_def filter_empty_conv
        teams_ok_def list_all_iff)
  have "team_ok ?s' t" if "t \<in> set (rows (db_teams s))" for t
  proof -
    have "t_ID t \<noteq> t_ID team" using assms(3) old [OF that] by simp
    then have "members ?s' (t_ID t) = members s (t_ID t)" by (simp add: mem)
    moreover have "team_ok s t" using assms(1) that by (simp add: teams_ok_def list_all_iff)
    ultimately show ?thesis using team_ok_cong by blast
  qed
  moreover have "team_ok ?s' team" using assms(4) none by (simp add: team_ok_def mem)
  moreover have "tbl_ok t_ID ((db_teams s)\<lparr>rows := rows (db_teams s) @ [team], seq := t_ID team\<rparr>)"
    using assms(1,3) old by (fastforce simp: teams_ok_def tbl_ok_def sorted_wrt_append list_all_iff)
  ultimately show ?thesis
    using assms(1,2) by (simp add: teams_ok_def list_all_iff team_taken_def tbl_count_zero)
      (auto simp: create_member_def table_simps)
qed


text \<open>Every operation of the handlers keeps the invariant.\<close>

lemma clamp_capacity_range: "1 \<le> clamp_capacity c \<and> clamp_capacity c \<le> 5"
  by (simp add: clamp_capacity_def)

lemma createTeam_ok: "teams_ok s \<Longrightarrow> teams_ok (fst (createTeam e cl body s))"
proof -
  assume s: "teams_ok s"
  have "teams_ok (create_member (Suc (seq (db_teams s))) (cl_UserID cl)
    (s\<lparr>db_teams := (db_teams s)\<lparr>rows := rows (db_teams s) @ [team], seq := Suc (seq (db_teams s))\<rparr>\<rparr>))"
    if "team = \<lparr>t_ID = Suc (seq (db_teams s)), t_Name = n, t_Bio = b, t_Capacity = clamp_capacity c,
          t_CaptainID = cl_UserID cl, t_InviteCode = code, t_CreatedAt = w\<rparr>" "\<not> team_taken s n code" for team n b c code w
    using new_team_ok [OF s, of team] that clamp_capacity_range by simp
  with s show ?thesis by (simp add: createTeam_def tbl_create_def Let_def split: option.splits)
qed

lemma join_insert_ok:
  assumes "teams_ok s" and "team \<in> set (rows (db_teams s))" and "\<not> team_full s team"
  shows "teams_ok (fst (join_insert e (t_ID team) uid err s))"
  using assms add_member_ok [OF assms(1,2) _ assms(3), of uid] by (simp add: join_insert_def member_of_members)

lemma joinTeam_ok: "teams_ok s \<Longrightarrow> teams_ok (fst (joinTeam e cl code s))"
proof -
  assume s: "teams_ok s"
  have "teams_ok s'" if "tbl_first (\<lambda>t. t_InviteCode t = code) (db_teams s) = Some team" "\<not> team_full s team"
    "join_insert e (t_ID team) (cl_UserID cl) err s = (s', r)" for team err s' r
    using join_insert_ok [OF s _ that(2)] tbl_first_SomeD [OF that(1)] that(3) by (metis fst_conv)
  with s show ?thesis by (auto simp: joinTeam_def split: option.splits prod.splits sum.splits)
qed

lemma teamGuardD:
  "teamGuard cl idstr s = Inr team \<Longrightarrow> team \<in> set (rows (db_teams s)) \<and> t_CaptainID team = cl_UserID cl"
  by (auto simp: teamGuard_def split: option.splits if_splits dest: byID_SomeD)

lemma pullMember_ok: "teams_ok s \<Longrightarrow> teams_ok (fst (pullMember e cl idstr uidstr s))"
  by (auto simp: pullMember_def split: sum.splits option.splits dest!: teamGuardD intro: join_insert_ok)

lemma kickMember_ok: "teams_ok s \<Longrightarrow> teams_ok (fst (kickMember e cl idstr uidstr s))"
  by (auto simp: kickMember_def split: sum.splits option.splits dest!: teamGuardD intro: remove_member_ok)

lemma leaveTeam_ok: "teams_ok s \<Longrightarrow> teams_ok (fst (leaveTeam e cl idstr s))"
  by (auto simp: leaveTeam_def split: option.splits dest!: byID_SomeD intro: remove_team_ok remove_member_ok)

lemma transferCaptain_ok: "teams_ok s \<Longrightarrow> teams_ok (fst (transferCaptain e cl idstr uidstr s))"
proof -
  assume s: "teams_ok s"
  have "teams_ok (update_team (t_ID team) (\<lambda>t. t\<lparr>t_CaptainID := uid\<rparr>) s)"
    if "teamGuard cl idstr s = Inr team" "teamRole s team uid \<noteq> NoRole" for team uid
  proof (rule change_team_ok [OF s])
    show team: "team \<in> set (rows (db_teams s))" using teamGuardD [OF that(1)] by simp
    show "t_CaptainID (team\<lparr>t_CaptainID := uid\<rparr>) \<in> set (members s (t_ID team))"
      using that(2) s team by (auto simp: teamRole_def member_of_members teams_ok_def list_all_iff team_ok_def
          split: if_splits)
    have codes: "map t_InviteCode (map (\<lambda>t. if t_ID t = t_ID team then t\<lparr>t_CaptainID := uid\<rparr> else t) xs)
        = map t_InviteCode xs" for xs by (induction xs) auto
    show "distinct (map t_InviteCode (rows (tbl_update (\<lambda>t. t_ID t = t_ID team)
        (\<lambda>t. t\<lparr>t_CaptainID := uid\<rparr>) (db_teams s))))"
      unfolding rows_tbl_update codes using s by (simp only: teams_ok_def)
  qed simp
  with s show ?thesis by (simp add: transferCaptain_def split: sum.splits option.splits)
qed

lemma regenerateInvite_ok: "teams_ok s \<Longrightarrow> teams_ok (fst (regenerateInvite e cl idstr s))"
proof -
  assume s: "teams_ok s"
  have distinct: "distinct (map t_InviteCode (map (\<lambda>t. if t_ID t = i then t\<lparr>t_InviteCode := code\<rparr> else t) xs))"
    if "distinct (map t_InviteCode xs)" "distinct (map t_ID xs)" "\<forall>t \<in> set xs. t_ID t \<noteq> i \<longrightarrow> t_InviteCode t \<noteq> code"
    for xs i code
  proof -
    have codes: "map t_InviteCode (map (\<lambda>t. if t_ID t = i then t\<lparr>t_InviteCode := code\<rparr> else t) xs)
        = map (\<lambda>t. if t_ID t = i then code else t_InviteCode t) xs" by (induction xs) auto
    have "inj_on (\<lambda>t. if t_ID t = i then code else t_InviteCode t) (set xs)"
      using that by (intro inj_onI) (auto simp: distinct_map inj_on_def split: if_splits)
    then show ?thesis unfolding codes using that(1) by (simp add: distinct_map)
  qed
  have "teams_ok (update_team (t_ID team) (\<lambda>t. t\<lparr>t_InviteCode := code\<rparr>) s)"
    if "teamGuard cl idstr s = Inr team"
      "tbl_count (\<lambda>t. t_ID t \<noteq> t_ID team \<and> t_InviteCode t = code) (db_teams s) = 0" for team code
  proof (rule change_team_ok [OF s])
    show team: "team \<in> set (rows (db_teams s))" using teamGuardD [OF that(1)] by simp
    show "t_CaptainID (team\<lparr>t_InviteCode := code\<rparr>) \<in> set (members s (t_ID team))"
      using s team by (auto simp: teams_ok_def list_all_iff team_ok_def)
    show "distinct (map t_InviteCode (rows (tbl_update (\<lambda>t. t_ID t = t_ID team)
        (\<lambda>t. t\<lparr>t_InviteCode := code\<rparr>) (db_teams s))))"
      unfolding rows_tbl_update using s that(2)
      by (intro distinct) (auto simp: teams_ok_def tbl_ok_distinct tbl_count_zero)
  qed simp
  with s show ?thesis by (auto simp: regenerateInvite_def split: sum.splits)
qed

inductive team_step :: "db \<Rightarrow> db \<Rightarrow> bool" where
  "team_step s (fst (createTeam e cl req s))"
| "team_step s (fst (joinTeam e cl code s))"
| "team_step s (fst (pullMember e cl idstr uidstr s))"
| "team_step s (fst (kickMember e cl idstr uidstr s))"
| "team_step s (fst (leaveTeam e cl idstr s))"
| "team_step s (fst (transferCaptain e cl idstr uidstr s))"
| "team_step s (fst (regenerateInvite e cl idstr s))"
| "team_step s (fst (createTeamNotice e cl idstr content s))"
| "team_step s (fst (deleteTeamNotice e cl idstr nidstr s))"
| "team_step s (fst (shareList e cl idstr lid s))"
| "team_step s (fst (unshareList e cl idstr lidstr s))"

lemma team_notes_ok:
  assumes "teams_ok s"
  shows "teams_ok (fst (createTeamNotice e cl idstr content s))" "teams_ok (fst (deleteTeamNotice e cl idstr nidstr s))"
    "teams_ok (fst (shareList e cl idstr lid s))" "teams_ok (fst (unshareList e cl idstr lidstr s))"
  using assms
  by (simp_all add: createTeamNotice_def deleteTeamNotice_def shareList_def unshareList_def tbl_create_def Let_def
      split: sum.splits option.splits)

lemma team_step_ok: "team_step s s' \<Longrightarrow> teams_ok s \<Longrightarrow> teams_ok s'"
  by (induction rule: team_step.induct)
    (simp_all add: createTeam_ok joinTeam_ok pullMember_ok kickMember_ok leaveTeam_ok transferCaptain_ok
      regenerateInvite_ok team_notes_ok)

text \<open>
  C34. Teams stay well formed.  After any sequence of the team operations (each handler running as a whole)
  every team has its captain among its members, no member twice, a capacity between 1 and 5 and never more
  members than that; names and invite codes are unique, and no membership outlives its team.
\<close>

theorem teams_stay_well_formed:
  assumes "team_step\<^sup>*\<^sup>* s s'" and "teams_ok s"
  shows "teams_ok s'"
  using assms by (induction rule: rtranclp_induct) (simp_all add: team_step_ok)

definition formed_db :: db where
  "formed_db = fst (createTeam (sample_env 0) sample_user
     (Some \<lparr>tq_Name = ''duo'', tq_Bio = [], tq_Capacity = 9\<rparr>) empty_db)"

theorem teams_stay_well_formed_witness:
  "teams_ok formed_db \<and> members formed_db 1 = [5] \<and> map t_Capacity (rows (db_teams formed_db)) = [5]"
proof (intro conjI)
  have step: "team_step\<^sup>*\<^sup>* empty_db formed_db"
    unfolding formed_db_def by (blast intro: team_step.intros)
  have start: "teams_ok empty_db"
    by (simp add: teams_ok_def empty_db_def empty_table_def tbl_ok_def)
  show "teams_ok formed_db" by (rule teams_stay_well_formed [OF step start])
  show "members formed_db 1 = [5]" and "map t_Capacity (rows (db_teams formed_db)) = [5]"
    by (simp_all add: formed_db_def createTeam_def team_taken_def tbl_count_def sample_env_def tbl_create_def
        empty_db_def empty_table_def members_create create_member_def clamp_capacity_def sample_user_def
        members_def team_members_of_def tbl_select_def)
qed

text \<open>
  The capacity depends on the handlers not overlapping: two requests that both looked before either
  inserted take a team over it.
\<close>

lemma concurrent_joins_overfill:
  assumes "team_ok s team" and "int (member_count s (t_ID team)) = t_Capacity team - 1"
    and "env_dbok e 0" and "u \<noteq> v" and "\<not> member_of s (t_ID team) u" and "\<not> member_of s (t_ID team) v"
  shows "\<not> team_full s team
    \<and> \<not> team_ok (fst (join_insert e (t_ID team) v err (fst (join_insert e (t_ID team) u err s)))) team"
  using assms
  by (simp add: team_full_def member_count_members member_of_members join_insert_def members_create team_ok_def)

end
