(* ===== verification/Public_Api.thy ===== *)
theory Public_Api
  imports Submissions
begin

text \<open>
  Statistics pages and the public interface: the profile of a user (\<open>profile.go\<close>), keys of the public
  interface, its gate and its read endpoints (\<open>public_api.go\<close>, \<open>public_cph.go\<close>).

  A calendar day is a number; \<open>day t\<close> is the day of an instant in the time zone of the server, an
  argument, and \<open>AddDate\<close> moves by days.  The hash of a key is an argument as well.
\<close>

section \<open>Days of activity\<close>

record dailyBucket =
  db_Date :: int
  db_Submissions :: int
  db_AC :: int

definition bucket_of :: "(int \<times> dailyBucket) list \<Rightarrow> int \<Rightarrow> dailyBucket" where
  "bucket_of daily d = (case map_of daily d of None \<Rightarrow> \<lparr>db_Date = d, db_Submissions = 0, db_AC = 0\<rparr> | Some b \<Rightarrow> b)"

definition bump :: "int \<Rightarrow> (dailyBucket \<Rightarrow> dailyBucket) \<Rightarrow> (int \<times> dailyBucket) list \<Rightarrow> (int \<times> dailyBucket) list" where
  "bump d f daily = AList.update d (f (bucket_of daily d)) daily"

definition one_submission :: "dailyBucket \<Rightarrow> dailyBucket" where
  "one_submission b = b\<lparr>db_Submissions := db_Submissions b + 1\<rparr>"

definition one_ac :: "dailyBucket \<Rightarrow> dailyBucket" where
  "one_ac b = b\<lparr>db_AC := db_AC b + 1\<rparr>"

text \<open>The last \<open>days\<close> days up to today, the oldest first, without gaps.\<close>

definition seriesSince :: "int \<Rightarrow> nat \<Rightarrow> (int \<times> dailyBucket) list \<Rightarrow> dailyBucket list" where
  "seriesSince today days daily = map (\<lambda>i. bucket_of daily (today - int i)) (rev [0..<days])"

section \<open>The profile\<close>

record tagStat =
  ts_Tag :: string
  ts_Solved :: nat
  ts_Attempted :: nat

text \<open>
  One tag of one problem.  The tags of all attempted problems are counted in a Go map, whose iteration
  order is an argument of the final sort.
\<close>

definition count_tag :: "bool \<Rightarrow> string \<Rightarrow> (string \<times> tagStat) list \<Rightarrow> (string \<times> tagStat) list" where
  "count_tag solved tag stats =
     (let st = (case map_of stats tag of None \<Rightarrow> \<lparr>ts_Tag = tag, ts_Solved = 0, ts_Attempted = 0\<rparr> | Some st \<Rightarrow> st);
          st = (if solved then st\<lparr>ts_Solved := ts_Solved st + 1\<rparr> else st)
      in AList.update tag (st\<lparr>ts_Attempted := ts_Attempted st + 1\<rparr>) stats)"

definition tagStatsFor :: "(tagStat list \<Rightarrow> tagStat list) \<Rightarrow> db \<Rightarrow> nat list \<Rightarrow> nat list \<Rightarrow> tagStat list" where
  "tagStatsFor order s tried acProblems =
     (if tried = [] then []
      else
        let problems = tbl_select (\<lambda>p. p_ID p \<in> set tried) (db_problems s);
            stats = foldl (\<lambda>m p. foldl (\<lambda>m tag. count_tag (p_ID p \<in> set acProblems) tag m) m (p_Tags p)) [] problems
        in sort_by (\<lambda>a b. ts_Solved a > ts_Solved b) (order (map snd stats)))"

text \<open>The sets of the program are lists without repetition.\<close>

record profile_counts =
  pc_status :: "(string \<times> nat) list"
  pc_ac :: "nat list"
  pc_tried :: "nat list"
  pc_daily :: "(int \<times> dailyBucket) list"

definition count_status :: "string \<Rightarrow> (string \<times> nat) list \<Rightarrow> (string \<times> nat) list" where
  "count_status st m = AList.update st (case map_of m st of None \<Rightarrow> 1 | Some n \<Rightarrow> Suc n) m"

definition profile_step :: "(time \<Rightarrow> int) \<Rightarrow> profile_counts \<Rightarrow> Submission \<Rightarrow> profile_counts" where
  "profile_step day pc sub =
     (let pc = pc\<lparr>pc_tried := List.insert (s_ProblemID sub) (pc_tried pc),
                  pc_status := count_status (s_Status sub) (pc_status pc)\<rparr>;
          pc = (if s_Status sub = SubAC
                then pc\<lparr>pc_ac := List.insert (s_ProblemID sub) (pc_ac pc),
                        pc_daily := bump (day (s_CreatedAt sub)) one_ac (pc_daily pc)\<rparr>
                else pc)
      in pc\<lparr>pc_daily := bump (day (s_CreatedAt sub)) one_submission (pc_daily pc)\<rparr>)"

text \<open>The records of external practice sites the profile overlays; \<open>er_At\<close> is in seconds.\<close>

record ExternalRecord =
  er_ID :: nat
  er_UserID :: nat
  er_Platform :: string
  er_ExternalID :: string
  er_ProblemID :: string
  er_ProblemName :: string
  er_Verdict :: string
  er_Language :: string
  er_At :: int
  er_FetchedAt :: time

record platformBucket =
  pf_Date :: int
  pf_Submissions :: int
  pf_AC :: int
  pf_ByPlatform :: "(string \<times> nat \<times> nat) list"

definition empty_platform :: "int \<Rightarrow> platformBucket" where
  "empty_platform d = \<lparr>pf_Date = d, pf_Submissions = 0, pf_AC = 0, pf_ByPlatform = []\<rparr>"

definition platform_step ::
  "(time \<Rightarrow> int) \<Rightarrow> (int \<times> platformBucket) list \<Rightarrow> ExternalRecord \<Rightarrow> (int \<times> platformBucket) list" where
  "platform_step day daily r =
     (let d = day (er_At r * second);
          b = (case map_of daily d of None \<Rightarrow> empty_platform d | Some b \<Rightarrow> b);
          (n, ac) = (case map_of (pf_ByPlatform b) (er_Platform r) of None \<Rightarrow> (0, 0) | Some st \<Rightarrow> st)
      in AList.update d (b\<lparr>pf_ByPlatform := AList.update (er_Platform r)
           (Suc n, if er_Verdict r = ''AC'' then Suc ac else ac) (pf_ByPlatform b)\<rparr>) daily)"

definition seriesPlatformSince :: "int \<Rightarrow> nat \<Rightarrow> (int \<times> platformBucket) list \<Rightarrow> platformBucket list" where
  "seriesPlatformSince today days daily =
     map (\<lambda>i. case map_of daily (today - int i) of None \<Rightarrow> empty_platform (today - int i) | Some b \<Rightarrow> b)
       (rev [0..<days])"

definition externalPlatformActivity ::
  "(time \<Rightarrow> int) \<Rightarrow> time \<Rightarrow> ExternalRecord list \<Rightarrow> nat \<Rightarrow> platformBucket list" where
  "externalPlatformActivity day now ext uid =
     (let records = filter (\<lambda>r. er_UserID r = uid) ext
      in if records = [] then []
         else seriesPlatformSince (day now) 365 (foldl (platform_step day) [] records))"

record userProfile_reply =
  pr_User :: "nat \<times> string \<times> string \<times> string \<times> time"
  pr_ByStatus :: "(string \<times> nat) list"
  pr_ACProblems :: nat
  pr_TriedProblems :: nat
  pr_Activity :: "dailyBucket list"
  pr_Trend :: "dailyBucket list"
  pr_Tags :: "tagStat list"
  pr_Platforms :: "platformBucket list"

definition userProfile ::
  "(time \<Rightarrow> int) \<Rightarrow> (tagStat list \<Rightarrow> tagStat list) \<Rightarrow> ExternalRecord list \<Rightarrow> env \<Rightarrow> string \<Rightarrow> db \<Rightarrow>
    http_error + userProfile_reply" where
  "userProfile day order ext e idstr s =
     (case paramID idstr of
        None \<Rightarrow> Inl (HTTP 400 ''invalid user id'')
      | Some uid \<Rightarrow>
          (case byID u_ID (db_users s) uid of
             None \<Rightarrow> Inl (HTTP 404 ''user not found'')
           | Some user \<Rightarrow>
               if \<not> env_dbok e 0 then Inl (HTTP 500 ''query failed'')
               else
                 let mine = tbl_select (\<lambda>r. s_UserID r = uid) (db_submissions s);
                     pc = foldl (profile_step day) \<lparr>pc_status = [], pc_ac = [], pc_tried = [], pc_daily = []\<rparr> mine
                 in Inr \<lparr>pr_User = (u_ID user, u_Username user, u_Nickname user, u_Role user, u_CreatedAt user),
                        pr_ByStatus = pc_status pc, pr_ACProblems = length (pc_ac pc),
                        pr_TriedProblems = length (pc_tried pc),
                        pr_Activity = seriesSince (day (env_now e)) 365 (pc_daily pc),
                        pr_Trend = seriesSince (day (env_now e)) 30 (pc_daily pc),
                        pr_Tags = tagStatsFor order s (pc_tried pc) (pc_ac pc),
                        pr_Platforms = externalPlatformActivity day (env_now e) ext uid\<rparr>))"

definition searchUsers :: "(string \<Rightarrow> string \<Rightarrow> bool) \<Rightarrow> string \<Rightarrow> db \<Rightarrow> (nat \<times> string \<times> string) list" where
  "searchUsers like query s =
     (let q = trim_space query;
          pat = ''%'' @ q @ ''%'';
          by_name = (\<lambda>u. like (u_Username u) pat \<or> like (u_Nickname u) pat)
      in map user_summary (take 20
           (if q = [] then rev (rows (db_users s))
            else case atoi q of
              Some i \<Rightarrow> if i > 0 then tbl_select (\<lambda>u. int (u_ID u) = i \<or> by_name u) (db_users s)
                       else tbl_select by_name (db_users s)
            | None \<Rightarrow> tbl_select by_name (db_users s))))"

section \<open>Keys of the public interface\<close>

record ApiKeyRecord =
  ak_ID :: nat
  ak_Name :: string
  ak_KeyHash :: string
  ak_Prefix :: string
  ak_Revoked :: bool
  ak_CreatedBy :: nat
  ak_CreatedAt :: time
  ak_LastUsed :: "time option"

record apiKeyLimiter =
  al_hits :: "(string \<times> time list) list"
  al_window :: duration
  al_allowed :: int

definition newAPIKeyLimiter :: apiKeyLimiter where
  "newAPIKeyLimiter = \<lparr>al_hits = [], al_window = minute, al_allowed = 60\<rparr>"

definition api_allow :: "apiKeyLimiter \<Rightarrow> string \<Rightarrow> time \<Rightarrow> apiKeyLimiter \<times> bool" where
  "api_allow l key now =
     (let recent = filter (\<lambda>t. time_sub now t < al_window l) (hits_of (al_hits l) key);
          l = l\<lparr>al_hits := AList.update key recent (al_hits l)\<rparr>
      in if int (length recent) \<ge> al_allowed l then (l, False)
         else (l\<lparr>al_hits := AList.update key (hits_of (al_hits l) key @ [now]) (al_hits l)\<rparr>, True))"

record publicAuth =
  pa_Anonymous :: bool
  pa_KeyID :: nat

definition keyBucket :: "publicAuth \<Rightarrow> string" where
  "keyBucket a = (if pa_KeyID a > 0 then ''k'' @ nat_str (pa_KeyID a) else ''anon'')"

record public_state =
  pu_keys :: "ApiKeyRecord table"
  pu_limiter :: apiKeyLimiter

text \<open>\<open>header\<close> and \<open>query\<close> are \<open>X-API-Key\<close> and \<open>api_key\<close> of the request, empty when absent.\<close>

definition publicAPIAuth ::
  "(string \<Rightarrow> string) \<Rightarrow> env \<Rightarrow> string \<Rightarrow> string \<Rightarrow> public_state \<Rightarrow> (public_state, publicAuth) handled" where
  "publicAPIAuth sha e header query ps =
     (let raw = (if header = [] then query else header);
          limit = (\<lambda>ps a. case api_allow (pu_limiter ps) (keyBucket a) (env_now e) of
             (l, True) \<Rightarrow> (ps\<lparr>pu_limiter := l\<rparr>, Inr a)
           | (l, False) \<Rightarrow> (ps\<lparr>pu_limiter := l\<rparr>, Inl (HTTP 429 ''at most 60 requests per minute'')))
      in if raw = [] then limit ps \<lparr>pa_Anonymous = True, pa_KeyID = 0\<rparr>
         else case tbl_first (\<lambda>k. ak_KeyHash k = sha raw) (pu_keys ps) of
           None \<Rightarrow> (ps, Inl (HTTP 401 ''invalid or revoked API key''))
         | Some rec \<Rightarrow>
             if ak_Revoked rec then (ps, Inl (HTTP 401 ''invalid or revoked API key''))
             else limit (ps\<lparr>pu_keys := tbl_update (\<lambda>k. ak_ID k = ak_ID rec)
                    (\<lambda>k. k\<lparr>ak_LastUsed := Some (env_now e)\<rparr>) (pu_keys ps)\<rparr>)
                  \<lparr>pa_Anonymous = False, pa_KeyID = ak_ID rec\<rparr>)"

definition requireAPIKey :: "publicAuth \<Rightarrow> bool" where
  "requireAPIKey a \<longleftrightarrow> pa_KeyID a \<noteq> 0"

text \<open>The random part of a key is \<open>env_rand\<close>, 32 hexadecimal digits.\<close>

definition generateAPIKey :: "(string \<Rightarrow> string) \<Rightarrow> env \<Rightarrow> string \<times> string" where
  "generateAPIKey sha e = (let raw = ''ojk_'' @ env_rand e in (raw, sha raw))"

definition createAPIKey ::
  "(string \<Rightarrow> string) \<Rightarrow> env \<Rightarrow> Claims \<Rightarrow> string option \<Rightarrow> public_state \<Rightarrow> (public_state, nat \<times> string) handled" where
  "createAPIKey sha e cl body ps =
     (case body of
        None \<Rightarrow> (ps, Inl (HTTP 400 ''invalid request''))
      | Some name \<Rightarrow>
          if name = [] then (ps, Inl (HTTP 400 ''invalid request''))
          else
            let (raw, h) = generateAPIKey sha e
            in if tbl_count (\<lambda>k. ak_KeyHash k = h) (pu_keys ps) > 0 \<or> \<not> env_dbok e 0 then
                 (ps, Inl (HTTP 500 ''create failed''))
               else
                 let (rec, t) = tbl_create (\<lambda>i. \<lparr>ak_ID = i, ak_Name = name, ak_KeyHash = h, ak_Prefix = [],
                       ak_Revoked = False, ak_CreatedBy = cl_UserID cl, ak_CreatedAt = env_now e,
                       ak_LastUsed = None\<rparr>) (pu_keys ps);
                     ps = ps\<lparr>pu_keys := t\<rparr>
                 in if \<not> env_dbok e 1 then (ps, Inl (HTTP 500 ''update prefix failed''))
                    else (ps\<lparr>pu_keys := tbl_update (\<lambda>k. ak_ID k = ak_ID rec)
                           (\<lambda>k. k\<lparr>ak_Prefix := take 10 raw\<rparr>) (pu_keys ps)\<rparr>, Inr (ak_ID rec, raw)))"

definition listAPIKeys :: "public_state \<Rightarrow> ApiKeyRecord list" where
  "listAPIKeys ps = take 200 (rev (rows (pu_keys ps)))"

definition revokeAPIKey :: "env \<Rightarrow> string \<Rightarrow> public_state \<Rightarrow> (public_state, unit) handled" where
  "revokeAPIKey e idstr ps =
     (case paramID idstr of
        None \<Rightarrow> (ps, Inl (HTTP 400 ''invalid id''))
      | Some i \<Rightarrow>
          if \<not> env_dbok e 0 then (ps, Inl (HTTP 500 ''revoke failed''))
          else (ps\<lparr>pu_keys := tbl_update (\<lambda>k. ak_ID k = i) (\<lambda>k. k\<lparr>ak_Revoked := True\<rparr>) (pu_keys ps)\<rparr>, Inr ()))"

section \<open>Public read endpoints\<close>

text \<open>The parameter of the summary is an id or a name.\<close>

definition public_user :: "string \<Rightarrow> db \<Rightarrow> User option" where
  "public_user param s =
     (case parse_uint64 param of
        Some uid \<Rightarrow> if uid > 0 then byID u_ID (db_users s) uid
                    else tbl_first (\<lambda>u. u_Username u = param) (db_users s)
      | None \<Rightarrow> tbl_first (\<lambda>u. u_Username u = param) (db_users s))"

text \<open>The program keeps the freeze point of every contest it has looked up; the cache changes no answer.\<close>

definition public_frozen :: "env \<Rightarrow> db \<Rightarrow> Submission \<Rightarrow> bool" where
  "public_frozen e s sub =
     (case s_ContestID sub of
        None \<Rightarrow> False
      | Some cid \<Rightarrow>
          if s_IsPractice sub then False
          else (case byID c_ID (db_contests s) cid of
                  None \<Rightarrow> False
                | Some contest \<Rightarrow> after_freeze (freezePoint contest (env_now e)) (s_CreatedAt sub)))"

record summary_counts =
  sm_status :: "(string \<times> nat) list"
  sm_tried :: "nat list"
  sm_daily :: "(int \<times> dailyBucket) list"
  sm_first :: "(nat \<times> time) list"

definition summary_step :: "(time \<Rightarrow> int) \<Rightarrow> env \<Rightarrow> db \<Rightarrow> summary_counts \<Rightarrow> Submission \<Rightarrow> summary_counts" where
  "summary_step day e s sc sub =
     (let sc = sc\<lparr>sm_daily := bump (day (s_CreatedAt sub)) one_submission (sm_daily sc)\<rparr>
      in if public_frozen e s sub then sc
         else
           let sc = sc\<lparr>sm_tried := List.insert (s_ProblemID sub) (sm_tried sc),
                       sm_status := count_status (s_Status sub) (sm_status sc)\<rparr>
           in if s_Status sub = SubAC \<and> map_of (sm_first sc) (s_ProblemID sub) = None
              then sc\<lparr>sm_first := AList.update (s_ProblemID sub) (s_CreatedAt sub) (sm_first sc)\<rparr>
              else sc)"

text \<open>The recent first acceptances, the newest first, at most 20: problem, submission, time, language, instant.\<close>

definition recent_ac ::
  "env \<Rightarrow> db \<Rightarrow> (nat \<times> time) list \<Rightarrow> Submission list \<Rightarrow> (nat \<times> nat \<times> int \<times> string \<times> time) list" where
  "recent_ac e s first mine =
     take 20 (map (\<lambda>r. (s_ProblemID r, s_ID r, s_TimeMS r, s_Language r, s_CreatedAt r))
       (filter (\<lambda>r. \<not> public_frozen e s r \<and> s_Status r = SubAC
            \<and> map_of first (s_ProblemID r) = Some (s_CreatedAt r)) (rev mine)))"

record public_summary =
  ps_User :: "nat \<times> string \<times> string"
  ps_ByStatus :: "(string \<times> nat) list"
  ps_ACProblems :: nat
  ps_TriedProblems :: nat
  ps_RecentAC :: "(nat \<times> nat \<times> int \<times> string \<times> time) list"
  ps_Activity :: "dailyBucket list"

definition publicUserSummary ::
  "(time \<Rightarrow> int) \<Rightarrow> env \<Rightarrow> string \<Rightarrow> db \<Rightarrow> http_error + public_summary" where
  "publicUserSummary day e param s =
     (case public_user param s of
        None \<Rightarrow> Inl (HTTP 404 ''user not found'')
      | Some user \<Rightarrow>
          if \<not> env_dbok e 0 then Inl (HTTP 500 ''query failed'')
          else
            let mine = sort_by (\<lambda>a b. s_CreatedAt a < s_CreatedAt b)
                  (tbl_select (\<lambda>r. s_UserID r = u_ID user) (db_submissions s));
                sc = foldl (summary_step day e s) \<lparr>sm_status = [], sm_tried = [], sm_daily = [], sm_first = []\<rparr> mine
            in Inr \<lparr>ps_User = user_summary user, ps_ByStatus = sm_status sc,
                   ps_ACProblems = length (sm_first sc), ps_TriedProblems = length (sm_tried sc),
                   ps_RecentAC = recent_ac e s (sm_first sc) mine,
                   ps_Activity = seriesSince (day (env_now e)) 365 (sm_daily sc)\<rparr>)"

record public_problem =
  pq_ID :: nat
  pq_Title :: string
  pq_TimeLimitMS :: int
  pq_MemLimitMB :: int
  pq_JudgeMode :: string
  pq_Tags :: "string list"
  pq_SampleCount :: nat

definition publicProblems ::
  "(string \<Rightarrow> string \<Rightarrow> bool) \<Rightarrow> string \<Rightarrow> string option \<Rightarrow> string option \<Rightarrow> db \<Rightarrow> nat \<times> public_problem list" where
  "publicProblems like kw page_q size_q s =
     (let all = tbl_select (\<lambda>p. p_ContestID p = None \<and> p_Visibility p \<noteq> VisibilityHidden
            \<and> (kw \<noteq> [] \<longrightarrow> like (p_Title p) (''%'' @ kw @ ''%''))) (db_problems s);
          (page, sz) = pageParams page_q size_q;
          sz = (if sz > 100 then 100 else sz)
      in (length all,
          map (\<lambda>p. \<lparr>pq_ID = p_ID p, pq_Title = p_Title p, pq_TimeLimitMS = p_TimeLimitMS p,
                   pq_MemLimitMB = p_MemLimitMB p, pq_JudgeMode = p_JudgeMode p, pq_Tags = p_Tags p,
                   pq_SampleCount = length (p_Samples p)\<rparr>) (page_of (page, sz) all)))"

definition publicVisibleProblem :: "publicAuth \<Rightarrow> string \<Rightarrow> db \<Rightarrow> http_error + Problem" where
  "publicVisibleProblem a idstr s =
     (if \<not> requireAPIKey a then Inl (HTTP 401 ''this endpoint needs an API key'')
      else case paramID idstr of
        None \<Rightarrow> Inl (HTTP 400 ''invalid id'')
      | Some i \<Rightarrow>
          (case byID p_ID (db_problems s) i of
             None \<Rightarrow> Inl (HTTP 404 ''problem not found'')
           | Some prob \<Rightarrow>
               if p_ContestID prob \<noteq> None \<or> p_Visibility prob = VisibilityHidden
               then Inl (HTTP 404 ''problem not found'') else Inr prob))"

definition publicProblemSamples ::
  "publicAuth \<Rightarrow> string \<Rightarrow> db \<Rightarrow> http_error + nat \<times> string \<times> int \<times> int \<times> Sample list" where
  "publicProblemSamples a idstr s =
     map_sum (\<lambda>err. err) (\<lambda>p. (p_ID p, p_Title p, p_TimeLimitMS p, p_MemLimitMB p, p_Samples p))
       (publicVisibleProblem a idstr s)"

record cphProblem =
  cq_Name :: string
  cq_Group :: string
  cq_URL :: string
  cq_Interactive :: bool
  cq_MemoryLimit :: int
  cq_TimeLimit :: int
  cq_Tests :: "(string \<times> string) list"

definition publicBaseURL :: "bool \<Rightarrow> string \<Rightarrow> string" where
  "publicBaseURL tls host = (if tls then ''https'' else ''http'') @ ''://'' @ host"

definition publicProblemCph ::
  "bool \<Rightarrow> string \<Rightarrow> publicAuth \<Rightarrow> string \<Rightarrow> db \<Rightarrow> http_error + cphProblem" where
  "publicProblemCph tls host a idstr s =
     map_sum (\<lambda>err. err) (\<lambda>p. \<lparr>cq_Name = p_Title p, cq_Group = ''YSNB OJ'',
         cq_URL = publicBaseURL tls host @ ''/problems/'' @ nat_str (p_ID p), cq_Interactive = False,
         cq_MemoryLimit = p_MemLimitMB p, cq_TimeLimit = p_TimeLimitMS p,
         cq_Tests = map (\<lambda>sm. (sm_Input sm, sm_Output sm)) (p_Samples p)\<rparr>)
       (publicVisibleProblem a idstr s)"

section \<open>The limiter\<close>

definition api_inv :: "apiKeyLimiter \<Rightarrow> bool" where
  "api_inv l \<longleftrightarrow> al_window l = minute \<and> al_allowed l = 60"

interpretation api: sliding_window api_allow "\<lambda>l. hits_of (al_hits l)" api_inv minute 60
  by unfold_locales
    (auto simp: api_allow_def api_inv_def Let_def minute_in_range time_sub_less_iff [OF minute_in_range(1,2)])

section \<open>The summary keeps the freeze\<close>

text \<open>Two submissions that differ at most in what the judge found out about a frozen attempt.\<close>

definition frozen_variant :: "env \<Rightarrow> db \<Rightarrow> Submission \<Rightarrow> Submission \<Rightarrow> bool" where
  "frozen_variant e s a b \<longleftrightarrow> b = a \<or> (public_frozen e s a
     \<and> s_ID b = s_ID a \<and> s_UserID b = s_UserID a \<and> s_ContestID b = s_ContestID a
     \<and> s_CreatedAt b = s_CreatedAt a \<and> s_IsPractice b = s_IsPractice a)"

lemma frozen_variant_fields:
  assumes "frozen_variant e s a b"
  shows "s_UserID b = s_UserID a" "s_CreatedAt b = s_CreatedAt a" "public_frozen e s b = public_frozen e s a"
  using assms by (auto simp: frozen_variant_def public_frozen_def split: option.splits)

lemma list_all2_insert_by:
  assumes "list_all2 R xs ys" and "R x y" and "\<And>a b c d. R a b \<Longrightarrow> R c d \<Longrightarrow> lt a c = lt b d"
  shows "list_all2 R (insert_by lt x xs) (insert_by lt y ys)"
  using assms(1) by (induction rule: list_all2_induct) (use assms(2,3) in auto)

lemma list_all2_sort_by:
  assumes "list_all2 R xs ys" and "\<And>a b c d. R a b \<Longrightarrow> R c d \<Longrightarrow> lt a c = lt b d"
  shows "list_all2 R (sort_by lt xs) (sort_by lt ys)"
  using assms(1) by (induction rule: list_all2_induct) (simp_all add: list_all2_insert_by assms(2))

lemma summary_step_variant:
  "frozen_variant e s a b \<Longrightarrow> summary_step day e s sc b = summary_step day e s sc a"
proof (cases "b = a")
  case False
  assume "frozen_variant e s a b"
  note f = frozen_variant_fields [OF this]
  from False \<open>frozen_variant e s a b\<close> have "public_frozen e s a" by (simp add: frozen_variant_def)
  with f show ?thesis by (simp add: summary_step_def)
qed simp

lemma summary_fold_variant:
  assumes "list_all2 (frozen_variant e s) xs ys"
  shows "foldl (summary_step day e s) sc ys = foldl (summary_step day e s) sc xs"
  using assms by (induction arbitrary: sc rule: list_all2_induct) (simp_all add: summary_step_variant)

lemma list_all2_filter_map:
  assumes "list_all2 R xs ys" and "\<And>x y. R x y \<Longrightarrow> P x = P y" and "\<And>x y. R x y \<Longrightarrow> P x \<Longrightarrow> f x = f y"
  shows "map f (filter P xs) = map f (filter P ys)"
  using assms(1)
proof (induction rule: list_all2_induct)
  case (Cons x xs y ys)
  from Cons.IH assms(2,3) [OF Cons.hyps(1)] show ?case by (simp add: list.map)
qed simp

lemma recent_ac_variant:
  assumes "list_all2 (frozen_variant e s) xs ys"
  shows "recent_ac e s first ys = recent_ac e s first xs"
proof -
  let ?P = "\<lambda>r. \<not> public_frozen e s r \<and> s_Status r = SubAC \<and> map_of first (s_ProblemID r) = Some (s_CreatedAt r)"
  let ?f = "\<lambda>r. (s_ProblemID r, s_ID r, s_TimeMS r, s_Language r, s_CreatedAt r)"
  have rev: "list_all2 (frozen_variant e s) (rev xs) (rev ys)" using assms by (simp only: list_all2_rev)
  have same: "?P x = ?P y" if "frozen_variant e s x y" for x y
    using that frozen_variant_fields(3) [OF that] by (auto simp: frozen_variant_def)
  have equal: "?f x = ?f y" if "frozen_variant e s x y" and "?P x" for x y
    using that by (auto simp: frozen_variant_def)
  have "map ?f (filter ?P (rev xs)) = map ?f (filter ?P (rev ys))"
    by (rule list_all2_filter_map [OF rev]) (rule same equal; assumption)+
  then show ?thesis by (simp only: recent_ac_def)
qed

lemma public_frozen_subs: "public_frozen e (s\<lparr>db_submissions := t\<rparr>) = public_frozen e s"
  by (simp add: fun_eq_iff public_frozen_def split: option.splits)

lemma summary_step_subs: "summary_step day e (s\<lparr>db_submissions := t\<rparr>) = summary_step day e s"
  by (simp add: fun_eq_iff summary_step_def public_frozen_subs)

text \<open>
  C38. The public summary of a user, open to anyone, keeps the freeze: while a contest is frozen its
  answer does not depend on the problem, the verdict, the score or the figures of any attempt made
  after the freeze point, however the rest of the user's submissions look.
\<close>

theorem public_summary_hides_frozen:
  assumes "list_all2 (frozen_variant e s) (rows (db_submissions s)) (rows t)"
  shows "publicUserSummary day e param (s\<lparr>db_submissions := t\<rparr>) = publicUserSummary day e param s"
proof -
  have sorted: "list_all2 (frozen_variant e s)
      (sort_by (\<lambda>a b. s_CreatedAt a < s_CreatedAt b) (tbl_select (\<lambda>r. s_UserID r = uid) (db_submissions s)))
      (sort_by (\<lambda>a b. s_CreatedAt a < s_CreatedAt b) (tbl_select (\<lambda>r. s_UserID r = uid) t))" for uid
    unfolding tbl_select_def
    by (intro list_all2_sort_by list_all2_filter assms) (simp_all add: frozen_variant_fields)
  note fold = summary_fold_variant [OF sorted] and recent = recent_ac_variant [OF sorted]
  have user: "public_user param (s\<lparr>db_submissions := t\<rparr>) = public_user param s"
    by (simp add: public_user_def split: option.split)
  have ac: "recent_ac e (s\<lparr>db_submissions := t\<rparr>) = recent_ac e s"
    by (simp add: fun_eq_iff recent_ac_def public_frozen_subs)
  show ?thesis
    by (simp add: publicUserSummary_def user ac summary_step_subs fold recent Let_def split: option.split)
qed

definition with_ann :: "db \<Rightarrow> db" where
  "with_ann s = s\<lparr>db_users := \<lparr>rows = [\<lparr>u_ID = 5, u_Username = ''ann'', u_PasswordHash = [], u_Nickname = [],
     u_Role = RoleUser, u_StudentNo = [], u_Banned = False, u_CreatedAt = 0, u_LastLoginAt = None\<rparr>], seq = 5\<rparr>\<rparr>"

lemma sample_frozen:
  "public_frozen (sample_env (55 * minute)) (with_ann (sample_db v)) (sample_sub 5 SubWA (50 * minute))"
  by (simp add: public_frozen_def sample_sub_def sample_db_def with_ann_def byID_def tbl_first_def
      sample_contest_def freezePoint_def sample_env_def after_freeze_def minute_def second_def)

theorem public_summary_hides_frozen_witness:
  "\<forall>day. \<not> isl (publicUserSummary day (sample_env (55 * minute)) ''ann'' (with_ann (sample_db SubAC)))
   \<and> publicUserSummary day (sample_env (55 * minute)) ''ann'' (with_ann (sample_db SubAC))
     = publicUserSummary day (sample_env (55 * minute)) ''ann'' (with_ann (sample_db SubWA))"
proof (intro allI conjI)
  fix day
  let ?t = "\<lparr>rows = [sample_sub 5 SubAC (50 * minute)], seq = 1\<rparr> :: Submission table"
  have name: "parse_uint64 ''ann'' = None" by (simp add: parse_uint64_def is_digit_def)
  show "\<not> isl (publicUserSummary day (sample_env (55 * minute)) ''ann'' (with_ann (sample_db SubAC)))"
    by (simp add: publicUserSummary_def public_user_def name with_ann_def tbl_first_def sample_env_def Let_def)
  have "list_all2 (frozen_variant (sample_env (55 * minute)) (with_ann (sample_db SubWA)))
      (rows (db_submissions (with_ann (sample_db SubWA)))) (rows ?t)"
    using sample_frozen [of SubWA]
    by (simp add: frozen_variant_def sample_db_def with_ann_def) (simp add: sample_sub_def)
  moreover have "with_ann (sample_db SubAC) = (with_ann (sample_db SubWA))\<lparr>db_submissions := ?t\<rparr>"
    by (simp add: sample_db_def with_ann_def)
  ultimately show "publicUserSummary day (sample_env (55 * minute)) ''ann'' (with_ann (sample_db SubAC))
      = publicUserSummary day (sample_env (55 * minute)) ''ann'' (with_ann (sample_db SubWA))"
    using public_summary_hides_frozen [of "sample_env (55 * minute)" "with_ann (sample_db SubWA)" ?t day "''ann''"]
    by simp
qed

text \<open>
  The profile for members has no such rule: while the contest is frozen it counts the very verdict
  the board, the feed and the public summary hide.
\<close>

lemma profile_reveals_frozen_verdict:
  "map_sum (\<lambda>err. err) pr_ByStatus
     (userProfile day order [] (sample_env (55 * minute)) (nat_str 5) (with_ann (sample_db v))) = Inr [(v, 1)]"
proof -
  have "paramID (nat_str 5) = Some 5" by (rule paramID_accepts) simp_all
  then show ?thesis
    by (simp add: userProfile_def with_ann_def sample_db_def sample_env_def byID_def tbl_first_def tbl_select_def
        sample_sub_def profile_step_def count_status_def Let_def)
qed

text \<open>
  The keyed endpoints give out a problem only to a key that exists, is not revoked and has not used up its
  budget, and only a problem of the bank that is not hidden.
\<close>

lemma keyed_problem_gate:
  assumes "publicAPIAuth sha e header query ps = (ps', Inr a)" and "publicVisibleProblem a idstr s = Inr prob"
  shows "(\<exists>k \<in> set (rows (pu_keys ps)). ak_ID k = pa_KeyID a \<and> \<not> ak_Revoked k
      \<and> ak_KeyHash k = sha (if header = [] then query else header))
    \<and> prob \<in> set (rows (db_problems s)) \<and> p_ContestID prob = None \<and> p_Visibility prob \<noteq> VisibilityHidden"
proof -
  have "pa_KeyID a \<noteq> 0" using assms(2) by (auto simp: publicVisibleProblem_def requireAPIKey_def split: if_splits)
  with assms show ?thesis
    by (auto simp: publicAPIAuth_def publicVisibleProblem_def Let_def
        dest!: tbl_first_SomeD byID_SomeD split: if_splits option.splits prod.splits bool.splits)
qed

end
