(* ===== verification/Accounts.thy ===== *)
theory Accounts
  imports Problems
begin

text \<open>
  Accounts: login, registration by invitation, import and the administration of users
  (\<open>auth_users.go\<close>, \<open>csv.go\<close>, \<open>user_reg_edit.go\<close>), the super-admin tier (\<open>super_admin.go\<close>) and the
  first administrator (\<open>cmd/api/main.go\<close>).  \<open>accounts_ok\<close> is the invariant of the user and invitation
  tables, kept by every operation.

  The password hash and the token are made by libraries: \<open>hash\<close> (which may fail), \<open>check\<close> and \<open>issue\<close> are
  arguments.  A returned user is the row; its password hash is not part of the answer.
\<close>

section \<open>Login and registration\<close>

text \<open>
  GORM refuses an update without a condition, and it has none for a model whose key is 0: the
  error of the update at login is ignored, and nothing is written for the account with id 0.
\<close>

definition patch_user :: "nat \<Rightarrow> (User \<Rightarrow> User) \<Rightarrow> db \<Rightarrow> db" where
  "patch_user uid f s = s\<lparr>db_users := tbl_update (\<lambda>u. u_ID u = uid) f (db_users s)\<rparr>"

record loginReq =
  lg_Username :: string
  lg_Password :: string

definition login ::
  "(string \<Rightarrow> string \<Rightarrow> bool) \<Rightarrow> (User \<Rightarrow> string option) \<Rightarrow> env \<Rightarrow> loginReq option \<Rightarrow> db \<Rightarrow>
    (db, string \<times> User) handled" where
  "login check issue e body s =
     (case body of
        None \<Rightarrow> (s, Inl (HTTP 400 ''invalid request''))
      | Some req \<Rightarrow>
          if lg_Username req = [] \<or> lg_Password req = [] then (s, Inl (HTTP 400 ''invalid request''))
          else case tbl_first (\<lambda>u. u_Username u = lg_Username req) (db_users s) of
            None \<Rightarrow> (s, Inl (HTTP 401 ''wrong username or password''))
          | Some user \<Rightarrow>
              if u_Banned user then (s, Inl (HTTP 403 ''the account is banned''))
              else if \<not> check (u_PasswordHash user) (lg_Password req) then
                (s, Inl (HTTP 401 ''wrong username or password''))
              else
                let touch = (\<lambda>u. u\<lparr>u_LastLoginAt := Some (env_now e)\<rparr>);
                    s = (if u_ID user = 0 then s else patch_user (u_ID user) touch s)
                in case issue (touch user) of
                     None \<Rightarrow> (s, Inl (HTTP 500 ''issue token failed''))
                   | Some token \<Rightarrow> (s, Inr (token, touch user)))"

record registerUserReq =
  rq_Username :: string
  rq_Password :: string
  rq_Nickname :: string
  rq_StudentNo :: string
  rq_InviteCode :: string

definition forbidden_name :: "string \<Rightarrow> bool" where
  "forbidden_name name \<longleftrightarrow> list_ex (\<lambda>c. c \<in> {CHR '' '', CHR 0x09, CHR ''/'', CHR ''@''}) name"

definition username_taken :: "string \<Rightarrow> db \<Rightarrow> bool" where
  "username_taken name s \<longleftrightarrow> tbl_count (\<lambda>u. u_Username u = name) (db_users s) > 0"

definition create_user :: "env \<Rightarrow> string \<Rightarrow> string \<Rightarrow> string \<Rightarrow> string \<Rightarrow> db \<Rightarrow> db" where
  "create_user e name h nick student s = s\<lparr>db_users := snd (tbl_create
     (\<lambda>i. \<lparr>u_ID = i, u_Username = name, u_PasswordHash = h, u_Nickname = nick, u_Role = RoleUser,
           u_StudentNo = student, u_Banned = False, u_CreatedAt = env_now e, u_LastLoginAt = None\<rparr>)
     (db_users s))\<rparr>"

text \<open>
  Registration looks at the code first and spends it later, in the transaction that creates the user:
  \<open>register_commit\<close> is a step of its own, as another request may run in between.
\<close>

definition register_check :: "env \<Rightarrow> registerUserReq \<Rightarrow> db \<Rightarrow> http_error + InvitationCode" where
  "register_check e req s =
     (case tbl_first (\<lambda>c. ic_Code c = rq_InviteCode req) (db_codes s) of
        None \<Rightarrow> Inl (HTTP 400 ''invalid invite code'')
      | Some code \<Rightarrow>
          if ic_UsedCount code \<ge> ic_MaxUses code
             \<or> (case ic_ExpiresAt code of None \<Rightarrow> False | Some t \<Rightarrow> t < env_now e) then
            Inl (HTTP 400 ''invite code exhausted or expired'')
          else if forbidden_name (rq_Username req) then
            Inl (HTTP 400 ''username contains forbidden characters'')
          else Inr code)"

definition spend_code :: "nat \<Rightarrow> db \<Rightarrow> db" where
  "spend_code cid s = s\<lparr>db_codes :=
     tbl_update (\<lambda>c. ic_ID c = cid) (\<lambda>c. c\<lparr>ic_UsedCount := ic_UsedCount c + 1\<rparr>) (db_codes s)\<rparr>"

definition register_commit ::
  "env \<Rightarrow> registerUserReq \<Rightarrow> string \<Rightarrow> nat \<Rightarrow> db \<Rightarrow> (db, unit) handled" where
  "register_commit e req h cid s =
     (if username_taken (rq_Username req) s then (s, Inl (HTTP 400 ''username already taken''))
      else if \<not> env_dbok e 0 \<or> \<not> env_dbok e 1 then (s, Inl (HTTP 500 ''register failed''))
      else (spend_code cid (create_user e (rq_Username req) h (rq_Nickname req) (rq_StudentNo req) s),
            Inr ()))"

definition register ::
  "(string \<Rightarrow> string + string) \<Rightarrow> env \<Rightarrow> registerUserReq option \<Rightarrow> db \<Rightarrow> (db, unit) handled" where
  "register hash e body s =
     (case body of
        None \<Rightarrow> (s, Inl (HTTP 400 ''invalid request''))
      | Some req \<Rightarrow>
          (case register_check e req s of
             Inl err \<Rightarrow> (s, Inl err)
           | Inr code \<Rightarrow>
               (case hash (rq_Password req) of
                  Inl err \<Rightarrow> (s, Inl (HTTP 500 ''hash password failed''))
                | Inr h \<Rightarrow> register_commit e req h (ic_ID code) s)))"

definition me :: "Claims option \<Rightarrow> db \<Rightarrow> http_error + User" where
  "me cl s =
     (case cl of
        None \<Rightarrow> Inl (HTTP 401 ''login required'')
      | Some cl \<Rightarrow>
          (case byID u_ID (db_users s) (cl_UserID cl) of
             None \<Rightarrow> Inl (HTTP 404 ''user not found'') | Some user \<Rightarrow> Inr user))"

section \<open>Listing and import\<close>

definition listUsers :: "(string \<Rightarrow> string \<Rightarrow> bool) \<Rightarrow> string \<Rightarrow> db \<Rightarrow> User list" where
  "listUsers like kw s = take 500 (tbl_select (\<lambda>u. kw \<noteq> [] \<longrightarrow>
     like (u_Username u) (''%'' @ kw @ ''%'') \<or> like (u_StudentNo u) (''%'' @ kw @ ''%'')) (db_users s))"

record importUserRow =
  ir_Username :: string
  ir_StudentNo :: string
  ir_Nickname :: string
  ir_Password :: string
  ir_Err :: string

text \<open>What \<open>csv.Reader\<close> returns call by call, up to the end of the file; \<open>rnd\<close> is the supply of random codes.\<close>

datatype csv_read = CsvRecord "string list" | CsvError string

definition csvRowToUser :: "string \<Rightarrow> string list \<Rightarrow> importUserRow" where
  "csvRowToUser rand_pw cols =
     (let trim = (\<lambda>i. if i < length cols then trim_space (cols ! i) else []);
          row = \<lparr>ir_Username = trim 0, ir_StudentNo = trim 1, ir_Nickname = trim 2,
                 ir_Password = trim 3, ir_Err = []\<rparr>
      in if ir_Username row = [] then row\<lparr>ir_Err := ''empty username''\<rparr>
         else if ir_Password row = [] then row\<lparr>ir_Password := rand_pw\<rparr>
         else row)"

fun parseUserCSV :: "(nat \<Rightarrow> string) \<Rightarrow> nat \<Rightarrow> csv_read list \<Rightarrow> importUserRow list" where
  "parseUserCSV rnd 0 reads = []"
| "parseUserCSV rnd (Suc n) [] = []"
| "parseUserCSV rnd (Suc n) (CsvError err # reads) =
     [\<lparr>ir_Username = [], ir_StudentNo = [], ir_Nickname = [], ir_Password = [], ir_Err = ''csv parse: '' @ err\<rparr>]"
| "parseUserCSV rnd (Suc n) (CsvRecord cols # reads) =
     (if length cols = 1 \<and> trim_space (hd cols) = [] then parseUserCSV rnd n reads
      else csvRowToUser (rnd (Suc n)) cols # parseUserCSV rnd n reads)"

definition createUserRow ::
  "(string \<Rightarrow> string + string) \<Rightarrow> env \<Rightarrow> nat \<Rightarrow> importUserRow \<Rightarrow> db \<Rightarrow> db \<times> string option" where
  "createUserRow hash e n row s =
     (case hash (ir_Password row) of
        Inl err \<Rightarrow> (s, Some err)
      | Inr h \<Rightarrow>
          if username_taken (ir_Username row) s then
            (s, Some (''username '' @ ir_Username row @ '' already exists''))
          else if \<not> env_dbok e n then (s, Some ''create failed'')
          else (create_user e (ir_Username row) h (ir_Nickname row) (ir_StudentNo row) s, None))"

fun import_rows ::
  "(string \<Rightarrow> string + string) \<Rightarrow> env \<Rightarrow> nat \<Rightarrow> importUserRow list \<Rightarrow> db \<Rightarrow> db \<times> importUserRow list \<times> nat" where
  "import_rows hash e n [] s = (s, [], 0)"
| "import_rows hash e n (row # rest) s =
     (if ir_Err row \<noteq> [] then
        let (s, results, created) = import_rows hash e n rest s in (s, row # results, created)
      else case createUserRow hash e n row s of
        (s, Some err) \<Rightarrow>
          let (s, results, created) = import_rows hash e (Suc n) rest s
          in (s, row\<lparr>ir_Err := err\<rparr> # results, created)
      | (s, None) \<Rightarrow>
          let (s, results, created) = import_rows hash e (Suc n) rest s
          in (s, row # results, Suc created))"

text \<open>The uploaded file: missing, not to be opened, or read.\<close>

datatype csv_upload = NoFile | Unreadable | Upload "csv_read list"

definition importUsers ::
  "(string \<Rightarrow> string + string) \<Rightarrow> (nat \<Rightarrow> string) \<Rightarrow> env \<Rightarrow> csv_upload \<Rightarrow> db \<Rightarrow>
    (db, importUserRow list \<times> nat) handled" where
  "importUsers hash rnd e up s =
     (case up of
        NoFile \<Rightarrow> (s, Inl (HTTP 400 ''missing file field''))
      | Unreadable \<Rightarrow> (s, Inl (HTTP 400 ''open file failed''))
      | Upload reads \<Rightarrow>
          let (s, results, created) = import_rows hash e 0 (parseUserCSV rnd 5000 reads) s
          in (s, Inr (results, created)))"

section \<open>Invitation codes\<close>

record inviteCodeReq =
  iq_MaxUses :: int
  iq_ExpiresInHours :: int

text \<open>The expiry adds a 64-bit number of nanoseconds to the time; the body may be missing or malformed.\<close>

definition createInviteCode :: "env \<Rightarrow> Claims \<Rightarrow> inviteCodeReq \<Rightarrow> db \<Rightarrow> (db, InvitationCode) handled" where
  "createInviteCode e cl req s =
     (let uses = (if iq_MaxUses req \<le> 0 then 1 else iq_MaxUses req);
          expires = (if iq_ExpiresInHours req > 0
                     then Some (env_now e + wrap_int (iq_ExpiresInHours req * (60 * minute))) else None)
      in if tbl_count (\<lambda>c. ic_Code c = env_rand e) (db_codes s) > 0 \<or> \<not> env_dbok e 0 then
           (s, Inl (HTTP 500 ''create invite code failed''))
         else
           let (code, t) = tbl_create (\<lambda>i. \<lparr>ic_ID = i, ic_Code = env_rand e, ic_MaxUses = uses,
                 ic_UsedCount = 0, ic_ExpiresAt = expires, ic_CreatedBy = cl_UserID cl,
                 ic_CreatedAt = env_now e\<rparr>) (db_codes s)
           in (s\<lparr>db_codes := t\<rparr>, Inr code))"

definition listInviteCodes :: "db \<Rightarrow> InvitationCode list" where
  "listInviteCodes s = take 200 (rev (rows (db_codes s)))"

definition deleteInviteCode :: "string \<Rightarrow> db \<Rightarrow> (db, unit) handled" where
  "deleteInviteCode idstr s =
     (case paramID idstr of
        None \<Rightarrow> (s, Inl (HTTP 400 ''invalid invite code id''))
      | Some i \<Rightarrow> (s\<lparr>db_codes := tbl_delete (\<lambda>c. ic_ID c = i) (db_codes s)\<rparr>, Inr ()))"

section \<open>Administration\<close>

text \<open>The steps every operation on another user starts with.\<close>

definition target_user :: "string \<Rightarrow> db \<Rightarrow> http_error + User" where
  "target_user idstr s =
     (case paramID idstr of
        None \<Rightarrow> Inl (HTTP 400 ''invalid user id'')
      | Some i \<Rightarrow>
          (case byID u_ID (db_users s) i of
             None \<Rightarrow> Inl (HTTP 404 ''user not found'') | Some user \<Rightarrow> Inr user))"

definition setUserRole :: "env \<Rightarrow> Claims \<Rightarrow> string \<Rightarrow> string option \<Rightarrow> db \<Rightarrow> (db, User) handled" where
  "setUserRole e cl idstr body s =
     (case paramID idstr of
        None \<Rightarrow> (s, Inl (HTTP 400 ''invalid user id''))
      | Some i \<Rightarrow>
          if cl_UserID cl = i then (s, Inl (HTTP 400 ''cannot change your own role''))
          else case body of
            None \<Rightarrow> (s, Inl (HTTP 400 ''invalid request''))
          | Some role \<Rightarrow>
              if role = [] then (s, Inl (HTTP 400 ''invalid request''))
              else if role \<notin> {RoleSetter, RoleUser} then
                (s, Inl (HTTP 400 ''only a super admin grants or revokes admin''))
              else (case byID u_ID (db_users s) i of
                None \<Rightarrow> (s, Inl (HTTP 404 ''user not found''))
              | Some user \<Rightarrow>
                  if IsSuperAdmin (u_Role user) \<or> u_Role user = RoleAdmin then
                    (s, Inl (HTTP 403 ''only a super admin grants or revokes admin''))
                  else if \<not> env_dbok e 0 then (s, Inl (HTTP 500 ''update role failed''))
                  else (patch_user i (\<lambda>u. u\<lparr>u_Role := role\<rparr>) s, Inr (user\<lparr>u_Role := role\<rparr>))))"

definition other_supers :: "nat \<Rightarrow> db \<Rightarrow> nat" where
  "other_supers uid s = tbl_count (\<lambda>u. u_Role u = RoleSuperAdmin \<and> u_ID u \<noteq> uid) (db_users s)"

definition succession :: "nat \<Rightarrow> db \<Rightarrow> db" where
  "succession uid s = s\<lparr>db_users := tbl_update (\<lambda>u. u_Role u = RoleSuperAdmin \<and> u_ID u \<noteq> uid)
     (\<lambda>u. u\<lparr>u_Role := RoleAdmin\<rparr>) (db_users s)\<rparr>"

text \<open>
  Promotion is two statements: the succession and the update of the role, numbers 0 and 1 of the
  checked statements; otherwise the update is number 0.
\<close>

definition setSuperRole :: "env \<Rightarrow> Claims \<Rightarrow> string \<Rightarrow> string option \<Rightarrow> db \<Rightarrow> (db, User) handled" where
  "setSuperRole e cl idstr body s =
     (case paramID idstr of
        None \<Rightarrow> (s, Inl (HTTP 400 ''invalid user id''))
      | Some i \<Rightarrow>
          if cl_UserID cl = i then (s, Inl (HTTP 400 ''cannot change your own role''))
          else case body of
            None \<Rightarrow> (s, Inl (HTTP 400 ''invalid request''))
          | Some role \<Rightarrow>
              if role = [] then (s, Inl (HTTP 400 ''invalid request''))
              else if role \<notin> {RoleSuperAdmin, RoleAdmin, RoleSetter, RoleUser} then
                (s, Inl (HTTP 400 ''invalid role''))
              else (case byID u_ID (db_users s) i of
                None \<Rightarrow> (s, Inl (HTTP 404 ''user not found''))
              | Some user \<Rightarrow>
                  if IsSuperAdmin (u_Role user) \<and> \<not> IsSuperAdmin role \<and> other_supers i s = 0 then
                    (s, Inl (HTTP 400 ''a super admin must remain''))
                  else
                    let promote = (role = RoleSuperAdmin \<and> \<not> IsSuperAdmin (u_Role user))
                    in if promote \<and> \<not> env_dbok e 0 then (s, Inl (HTTP 500 ''succession failed''))
                       else
                         let s = (if promote then succession i s else s)
                         in if \<not> env_dbok e (if promote then 1 else 0) then
                              (s, Inl (HTTP 500 ''update role failed''))
                            else (patch_user i (\<lambda>u. u\<lparr>u_Role := role\<rparr>) s, Inr (user\<lparr>u_Role := role\<rparr>))))"

definition banHandler ::
  "(User \<Rightarrow> bool) \<Rightarrow> env \<Rightarrow> Claims \<Rightarrow> string \<Rightarrow> bool option \<Rightarrow> db \<Rightarrow> (db, bool) handled" where
  "banHandler mayBan e cl idstr body s =
     (case paramID idstr of
        None \<Rightarrow> (s, Inl (HTTP 400 ''invalid user id''))
      | Some i \<Rightarrow>
          if cl_UserID cl = i then (s, Inl (HTTP 400 ''cannot ban yourself''))
          else case body of
            None \<Rightarrow> (s, Inl (HTTP 400 ''invalid request''))
          | Some banned \<Rightarrow>
              (case byID u_ID (db_users s) i of
                 None \<Rightarrow> (s, Inl (HTTP 404 ''user not found''))
               | Some user \<Rightarrow>
                   if \<not> mayBan user then (s, Inl (HTTP 403 ''not allowed to ban this user''))
                   else if \<not> env_dbok e 0 then (s, Inl (HTTP 500 ''update failed''))
                   else (patch_user i (\<lambda>u. u\<lparr>u_Banned := banned\<rparr>) s, Inr banned)))"

definition setUserBan :: "env \<Rightarrow> Claims \<Rightarrow> string \<Rightarrow> bool option \<Rightarrow> db \<Rightarrow> (db, bool) handled" where
  "setUserBan = banHandler (\<lambda>target. u_Role target = RoleUser \<or> u_Role target = RoleSetter)"

definition superSetUserBan :: "env \<Rightarrow> Claims \<Rightarrow> string \<Rightarrow> bool option \<Rightarrow> db \<Rightarrow> (db, bool) handled" where
  "superSetUserBan = banHandler (\<lambda>target. \<not> IsSuperAdmin (u_Role target))"

definition updateUser :: "env \<Rightarrow> string \<Rightarrow> (string \<times> string) option \<Rightarrow> db \<Rightarrow> (db, User) handled" where
  "updateUser e idstr body s =
     (case target_user idstr s of
        Inl err \<Rightarrow> (s, Inl err)
      | Inr user \<Rightarrow>
          (case body of
             None \<Rightarrow> (s, Inl (HTTP 400 ''invalid payload''))
           | Some (student, nick) \<Rightarrow>
               let f = (\<lambda>u. u\<lparr>u_StudentNo := student, u_Nickname := nick\<rparr>)
               in if \<not> env_dbok e 0 then (s, Inl (HTTP 500 ''update failed''))
                  else (patch_user (u_ID user) f s, Inr (f user))))"

text \<open>
  \<open>pw\<close> is the password the body decodes to, empty when it names none.  The outcome of its validation,
  a length between 6 and 64, is ignored.
\<close>

definition resetUserPassword ::
  "(string \<Rightarrow> string + string) \<Rightarrow> env \<Rightarrow> string \<Rightarrow> string \<Rightarrow> db \<Rightarrow> (db, string) handled" where
  "resetUserPassword hash e idstr pw s =
     (case paramID idstr of
        None \<Rightarrow> (s, Inl (HTTP 400 ''invalid user id''))
      | Some i \<Rightarrow>
          let new = (if pw = [] then env_rand e else pw)
          in case hash new of
               Inl err \<Rightarrow> (s, Inl (HTTP 500 ''hash failed''))
             | Inr h \<Rightarrow>
                 (case byID u_ID (db_users s) i of
                    None \<Rightarrow> (s, Inl (HTTP 404 ''user not found''))
                  | Some user \<Rightarrow>
                      if \<not> env_dbok e 0 then (s, Inl (HTTP 500 ''update failed''))
                      else (patch_user i (\<lambda>u. u\<lparr>u_PasswordHash := h\<rparr>) s, Inr new)))"

text \<open>
  The first administrator, from the environment of the process, gets the id 0; the sequence of ids
  is not advanced, and the column \<open>created_at\<close> stays empty.
\<close>

definition bootstrapAdmin ::
  "(string \<Rightarrow> string + string) \<Rightarrow> env \<Rightarrow> string \<Rightarrow> string \<Rightarrow> db \<Rightarrow> db \<times> string option" where
  "bootstrapAdmin hash e username password s =
     (if length (rows (db_users s)) > 0 then (s, None)
      else if username = [] \<or> password = [] then (s, None)
      else case hash password of
        Inl err \<Rightarrow> (s, Some err)
      | Inr h \<Rightarrow>
          if \<not> env_dbok e 0 then (s, Some ''bootstrap admin'')
          else (s\<lparr>db_users := (db_users s)\<lparr>rows :=
                  [\<lparr>u_ID = 0, u_Username = username, u_PasswordHash = h, u_Nickname = ''Admin'',
                    u_Role = RoleSuperAdmin, u_StudentNo = [], u_Banned = False, u_CreatedAt = zero_time,
                    u_LastLoginAt = None\<rparr>]\<rparr>\<rparr>, None))"


lemma users_of_patch: "db_users (patch_user i f s) = tbl_update (\<lambda>u. u_ID u = i) f (db_users s)"
  by (simp add: patch_user_def)

section \<open>The invariant of the accounts\<close>

text \<open>
  Ids and names are unique, at most one user is super admin, and no invitation is used more often than
  it allows.
\<close>

definition super_count :: "db \<Rightarrow> nat" where
  "super_count s = tbl_count (\<lambda>u. u_Role u = RoleSuperAdmin) (db_users s)"

definition users_ok :: "User table \<Rightarrow> bool" where
  "users_ok t \<longleftrightarrow> distinct (map u_ID (rows t)) \<and> list_all (\<lambda>u. u_ID u \<le> seq t) (rows t)
     \<and> distinct (map u_Username (rows t))"

definition codes_ok :: "InvitationCode table \<Rightarrow> bool" where
  "codes_ok t \<longleftrightarrow> tbl_ok ic_ID t \<and> distinct (map ic_Code (rows t))
     \<and> list_all (\<lambda>c. ic_UsedCount c \<le> ic_MaxUses c) (rows t)"

definition accounts_ok :: "db \<Rightarrow> bool" where
  "accounts_ok s \<longleftrightarrow> users_ok (db_users s) \<and> codes_ok (db_codes s) \<and> super_count s \<le> 1"

lemma tbl_count_update:
  assumes "\<And>u. P u \<Longrightarrow> Q (f u) \<longleftrightarrow> Q u"
  shows "tbl_count Q (tbl_update P f t) = tbl_count Q t"
proof -
  have "filter Q (map (\<lambda>r. if P r then f r else r) xs) = map (\<lambda>r. if P r then f r else r) (filter Q xs)" for xs
    using assms by (induction xs) auto
  then show ?thesis by (simp add: tbl_count_def rows_tbl_update)
qed

lemma tbl_update_cong:
  assumes "\<And>u. u \<in> set (rows t) \<Longrightarrow> P u \<longleftrightarrow> Q u"
  shows "tbl_update P f t = tbl_update Q f t"
proof -
  have "map (\<lambda>r. if P r then f r else r) (rows t) = map (\<lambda>r. if Q r then f r else r) (rows t)"
    using assms by (intro map_cong) simp_all
  then show ?thesis by (simp only: tbl_update_def)
qed

lemma tbl_count_create:
  "tbl_count Q (snd (tbl_create mk t)) = tbl_count Q t + (if Q (mk (Suc (seq t))) then 1 else 0)"
  by (simp add: tbl_count_def rows_tbl_create)

lemma users_ok_update:
  assumes "users_ok t" and "\<And>u. u_ID (f u) = u_ID u \<and> u_Username (f u) = u_Username u"
  shows "users_ok (tbl_update P f t)"
proof -
  have "map u_ID (rows (tbl_update P f t)) = map u_ID (rows t)"
    and "map u_Username (rows (tbl_update P f t)) = map u_Username (rows t)"
    using assms(2) by (auto simp: rows_tbl_update)
  with assms show ?thesis
    by (auto simp: users_ok_def table_simps list_all_iff simp del: map_map)
qed

lemma same_id: "users_ok t \<Longrightarrow> u \<in> set (rows t) \<Longrightarrow> v \<in> set (rows t) \<Longrightarrow> u_ID u = u_ID v \<Longrightarrow> u = v"
  by (auto simp: users_ok_def distinct_map inj_on_def)

text \<open>An update that keeps ids, names and roles changes nothing the invariant speaks of.\<close>

definition harmless :: "(User \<Rightarrow> User) \<Rightarrow> bool" where
  "harmless f \<longleftrightarrow> (\<forall>u. u_ID (f u) = u_ID u \<and> u_Username (f u) = u_Username u \<and> u_Role (f u) = u_Role u)"

lemma patch_harmless:
  assumes "harmless f"
  shows "(accounts_ok s \<longrightarrow> accounts_ok (patch_user i f s)) \<and> super_count (patch_user i f s) = super_count s"
proof -
  have "super_count (patch_user i f s) = super_count s"
    unfolding super_count_def patch_user_def
    using assms by (simp add: harmless_def tbl_count_update)
  with assms users_ok_update [of "db_users s" f] show ?thesis
    by (auto simp: accounts_ok_def patch_user_def harmless_def)
qed

lemma create_user_ok:
  assumes "accounts_ok s" and "\<not> username_taken name s"
  shows "accounts_ok (create_user e name h nick student s)
    \<and> super_count (create_user e name h nick student s) = super_count s"
proof -
  have "name \<notin> u_Username ` set (rows (db_users s))"
    using assms(2) by (auto simp: username_taken_def tbl_count_def filter_empty_conv)
  moreover have "Suc (seq (db_users s)) \<notin> u_ID ` set (rows (db_users s))"
    using assms(1) by (auto simp: accounts_ok_def users_ok_def list_all_iff)
  ultimately have "users_ok (db_users (create_user e name h nick student s))"
    using assms(1) by (auto simp: create_user_def accounts_ok_def users_ok_def table_simps list_all_iff)
  moreover have "super_count (create_user e name h nick student s) = super_count s"
    by (simp add: super_count_def create_user_def tbl_count_create)
  ultimately show ?thesis
    using assms(1) by (simp add: accounts_ok_def create_user_def)
qed

lemma spend_code_ok:
  assumes "accounts_ok s" and "code \<in> set (rows (db_codes s))" and "ic_UsedCount code < ic_MaxUses code"
  shows "accounts_ok (spend_code (ic_ID code) s) \<and> super_count (spend_code (ic_ID code) s) = super_count s"
proof -
  let ?f = "\<lambda>c. c\<lparr>ic_UsedCount := ic_UsedCount c + 1\<rparr>"
  let ?t = "tbl_update (\<lambda>c. ic_ID c = ic_ID code) ?f (db_codes s)"
  have codes: "tbl_ok ic_ID (db_codes s)" "distinct (map ic_Code (rows (db_codes s)))"
    "list_all (\<lambda>c. ic_UsedCount c \<le> ic_MaxUses c) (rows (db_codes s))"
    using assms(1) by (simp_all add: accounts_ok_def codes_ok_def)
  have only: "c = code" if "c \<in> set (rows (db_codes s))" and "ic_ID c = ic_ID code" for c
    using tbl_ok_unique [OF codes(1) that(1) assms(2) that(2)] .
  have names: "map ic_Code (rows ?t) = map ic_Code (rows (db_codes s))"
    by (auto simp: rows_tbl_update)
  have "ic_UsedCount c + 1 \<le> ic_MaxUses c" if "c \<in> set (rows (db_codes s))" and "ic_ID c = ic_ID code" for c
    using only [OF that] assms(3) by simp
  then have "list_all (\<lambda>c. ic_UsedCount c \<le> ic_MaxUses c) (rows ?t)"
    using codes(3) by (auto simp: rows_tbl_update list_all_iff)
  with codes names have "codes_ok ?t"
    by (simp add: codes_ok_def tbl_ok_update del: rows_tbl_update)
  then show ?thesis
    using assms(1) by (simp add: accounts_ok_def spend_code_def super_count_def)
qed

lemma set_role_ok:
  assumes "accounts_ok s" and "byID u_ID (db_users s) i = Some user"
    and "u_Role user \<noteq> RoleSuperAdmin" and "role \<noteq> RoleSuperAdmin"
  shows "accounts_ok (patch_user i (\<lambda>u. u\<lparr>u_Role := role\<rparr>) s)
    \<and> super_count (patch_user i (\<lambda>u. u\<lparr>u_Role := role\<rparr>) s) = super_count s"
proof -
  have users: "users_ok (db_users s)" using assms(1) by (simp add: accounts_ok_def)
  have row: "user \<in> set (rows (db_users s))" "u_ID user = i"
    using byID_SomeD [OF assms(2)] by auto
  have plain: "u_Role u \<noteq> RoleSuperAdmin" if "u \<in> set (rows (db_users s))" and "u_ID u = i" for u
    using same_id [OF users that(1) row(1)] that(2) row(2) assms(3) by simp
  have "tbl_update (\<lambda>r. u_ID r = i) (\<lambda>u. u\<lparr>u_Role := role\<rparr>) (db_users s)
      = tbl_update (\<lambda>r. u_ID r = i \<and> u_Role r \<noteq> RoleSuperAdmin) (\<lambda>u. u\<lparr>u_Role := role\<rparr>) (db_users s)"
    using plain by (intro tbl_update_cong) blast
  then have "super_count (patch_user i (\<lambda>u. u\<lparr>u_Role := role\<rparr>) s)
      = tbl_count (\<lambda>u. u_Role u = RoleSuperAdmin)
          (tbl_update (\<lambda>r. u_ID r = i \<and> u_Role r \<noteq> RoleSuperAdmin) (\<lambda>u. u\<lparr>u_Role := role\<rparr>) (db_users s))"
    by (simp add: super_count_def patch_user_def)
  also have "\<dots> = super_count s"
    using assms(4) unfolding super_count_def by (intro tbl_count_update) auto
  finally show ?thesis
    using assms(1) users_ok_update [OF users] by (auto simp: accounts_ok_def patch_user_def)
qed

lemma other_supers_one:
  assumes "accounts_ok s" and "byID u_ID (db_users s) i = Some user" and "u_Role user = RoleSuperAdmin"
  shows "other_supers i s = 0 \<and> super_count s = 1"
proof -
  have users: "users_ok (db_users s)" and one: "super_count s \<le> 1" using assms(1) by (simp_all add: accounts_ok_def)
  have row: "user \<in> set (rows (db_users s))" "u_ID user = i"
    using byID_SomeD [OF assms(2)] by auto
  let ?super = "filter (\<lambda>u. u_Role u = RoleSuperAdmin) (rows (db_users s))"
  have "user \<in> set ?super" using row(1) assms(3) by simp
  then have "?super = [user]"
    using one unfolding super_count_def tbl_count_def by (cases ?super) auto
  moreover have "filter (\<lambda>u. u_Role u = RoleSuperAdmin \<and> u_ID u \<noteq> i) (rows (db_users s))
      = filter (\<lambda>u. u_ID u \<noteq> i) ?super" by (simp add: conj_commute)
  ultimately show ?thesis using row(2) by (simp add: other_supers_def super_count_def tbl_count_def)
qed

lemma succession_users_ok: "users_ok (db_users s) \<Longrightarrow> users_ok (db_users (succession i s))"
  by (simp add: succession_def users_ok_update)

lemma succession_ok:
  assumes "accounts_ok s" and "byID u_ID (db_users s) i = Some user" and "u_Role user \<noteq> RoleSuperAdmin"
  shows "accounts_ok (succession i s) \<and> super_count (succession i s) = 0"
proof -
  have users: "users_ok (db_users s)" using assms(1) by (simp add: accounts_ok_def)
  have row: "user \<in> set (rows (db_users s))" "u_ID user = i"
    using byID_SomeD [OF assms(2)] by auto
  have "u_Role u \<noteq> RoleSuperAdmin" if "u \<in> set (rows (db_users (succession i s)))" for u
  proof -
    have "u_Role v \<noteq> RoleSuperAdmin" if "v \<in> set (rows (db_users s))" and "u_ID v = i" for v
      using same_id [OF users that(1) row(1)] that(2) row(2) assms(3) by simp
    with that show ?thesis by (auto simp: succession_def rows_tbl_update)
  qed
  then have "super_count (succession i s) = 0" by (simp add: super_count_def tbl_count_zero)
  then show ?thesis
    using assms(1) succession_users_ok [OF users] by (simp add: accounts_ok_def succession_def)
qed

lemma crown_ok:
  assumes "accounts_ok s" and "super_count s = 0" and "i \<in> u_ID ` set (rows (db_users s))"
  shows "accounts_ok (patch_user i (\<lambda>u. u\<lparr>u_Role := RoleSuperAdmin\<rparr>) s)
    \<and> super_count (patch_user i (\<lambda>u. u\<lparr>u_Role := RoleSuperAdmin\<rparr>) s) = 1"
proof -
  let ?f = "\<lambda>u. u\<lparr>u_Role := RoleSuperAdmin\<rparr>" and ?us = "rows (db_users s)"
  have none: "\<forall>u \<in> set ?us. u_Role u \<noteq> RoleSuperAdmin"
    using assms(2) by (simp add: super_count_def tbl_count_zero)
  have "length (filter (\<lambda>u. u_Role u = RoleSuperAdmin) (map (\<lambda>u. if u_ID u = i then ?f u else u) us))
      = count (mset (map u_ID us)) i" if "\<forall>u \<in> set us. u_Role u \<noteq> RoleSuperAdmin" for us
    using that by (induction us) auto
  from this [OF none] have "super_count (patch_user i ?f s) = count (mset (map u_ID ?us)) i"
    by (simp only: super_count_def users_of_patch tbl_count_def rows_tbl_update)
  also have "\<dots> = 1"
    using assms(1,3) by (auto simp: accounts_ok_def users_ok_def distinct_count_atmost_1 simp del: mset_map)
  finally have "super_count (patch_user i ?f s) = 1" .
  then show ?thesis
    using assms(1) users_ok_update [of "db_users s" ?f] by (auto simp: accounts_ok_def patch_user_def)
qed

section \<open>Every operation keeps it\<close>

definition steady :: "db \<Rightarrow> db \<Rightarrow> bool" where
  "steady s s' \<longleftrightarrow> (accounts_ok s \<longrightarrow> accounts_ok s' \<and> super_count s' = super_count s)"

named_theorems steady_intros \<open>operations that keep the accounts and the super admin\<close>

lemma steady_refl [steady_intros, simp]: "steady s s"
  by (simp add: steady_def)

lemma steady_trans: "steady s s' \<Longrightarrow> steady s' s'' \<Longrightarrow> steady s s''"
  by (simp add: steady_def)

lemma steady_patch [simp]: "harmless f \<Longrightarrow> steady s (patch_user i f s)"
  using patch_harmless by (simp add: steady_def)

lemma steady_create [simp]: "\<not> username_taken name s \<Longrightarrow> steady s (create_user e name h nick student s)"
  using create_user_ok by (simp add: steady_def)

lemma steady_login [steady_intros]: "steady s (fst (login check issue e body s))"
  by (auto simp: login_def Let_def harmless_def split: option.splits)

lemma register_check_SomeD:
  "register_check e req s = Inr code \<Longrightarrow> code \<in> set (rows (db_codes s)) \<and> ic_UsedCount code < ic_MaxUses code"
  by (auto simp: register_check_def dest: tbl_first_SomeD split: option.splits if_splits)

lemma steady_register [steady_intros]: "steady s (fst (register hash e body s))"
proof -
  have "steady s (spend_code (ic_ID code) (create_user e (rq_Username req) h (rq_Nickname req) (rq_StudentNo req) s))"
    if "register_check e req s = Inr code" and "\<not> username_taken (rq_Username req) s" for req code h
  proof (rule steady_trans)
    let ?s = "create_user e (rq_Username req) h (rq_Nickname req) (rq_StudentNo req) s"
    show "steady s ?s" using that(2) by simp
    show "steady ?s (spend_code (ic_ID code) ?s)"
      using register_check_SomeD [OF that(1)] spend_code_ok [of ?s code]
      by (simp add: steady_def create_user_def)
  qed
  then show ?thesis
    by (auto simp: register_def register_commit_def split: option.splits sum.splits)
qed

lemma steady_row: "steady s (fst (createUserRow hash e n row s))"
  by (auto simp: createUserRow_def split: sum.splits)

lemma steady_rows: "steady s (fst (import_rows hash e n rs s))"
proof (induction rs arbitrary: n s)
  case (Cons row rs)
  have "steady s (fst (import_rows hash e m rs (fst (createUserRow hash e n row s))))" for m
    using steady_trans [OF steady_row Cons.IH] .
  with Cons.IH show ?case
    by (auto simp: split_beta Let_def split: prod.split option.split)
qed simp

lemma steady_import [steady_intros]: "steady s (fst (importUsers hash rnd e up s))"
  using steady_rows by (auto simp: importUsers_def split_beta Let_def split: csv_upload.split)

lemma steady_createInviteCode [steady_intros]: "steady s (fst (createInviteCode e cl req s))"
proof -
  have "tbl_count (\<lambda>c. ic_Code c = name) (db_codes s) = 0 \<longleftrightarrow> name \<notin> ic_Code ` set (rows (db_codes s))" for name
    by (auto simp: tbl_count_zero)
  then show ?thesis
    by (auto simp: steady_def createInviteCode_def Let_def split_beta accounts_ok_def codes_ok_def super_count_def
        table_simps tbl_ok_create)
qed

lemma steady_deleteInviteCode [steady_intros]: "steady s (fst (deleteInviteCode idstr s))"
  by (auto simp: steady_def deleteInviteCode_def accounts_ok_def codes_ok_def super_count_def tbl_ok_delete
      rows_tbl_delete list_all_iff distinct_map inj_on_def split: option.splits)

lemma steady_setUserRole [steady_intros]: "steady s (fst (setUserRole e cl idstr body s))"
  using set_role_ok
  by (auto simp: setUserRole_def IsSuperAdmin_def steady_def split: option.splits)

lemma steady_ban: "steady s (fst (banHandler mayBan e cl idstr body s))"
  by (auto simp: banHandler_def harmless_def split: option.splits)

lemma steady_setUserBan [steady_intros]: "steady s (fst (setUserBan e cl idstr body s))"
  by (simp add: setUserBan_def steady_ban)

lemma steady_superSetUserBan [steady_intros]: "steady s (fst (superSetUserBan e cl idstr body s))"
  by (simp add: superSetUserBan_def steady_ban)

lemma steady_updateUser [steady_intros]: "steady s (fst (updateUser e idstr body s))"
  by (auto simp: updateUser_def harmless_def Let_def split: option.splits sum.splits)

lemma steady_resetUserPassword [steady_intros]: "steady s (fst (resetUserPassword hash e idstr pw s))"
  by (auto simp: resetUserPassword_def harmless_def Let_def split: option.splits sum.splits)

lemma patch_same:
  assumes "accounts_ok s" and "byID u_ID (db_users s) i = Some user" and "f user = user"
  shows "patch_user i f s = s"
proof -
  have row: "user \<in> set (rows (db_users s))" "u_ID user = i"
    using byID_SomeD [OF assms(2)] by auto
  have "f u = u" if "u \<in> set (rows (db_users s))" and "u_ID u = i" for u
    using same_id [OF _ that(1) row(1)] that(2) row(2) assms(1,3) by (simp add: accounts_ok_def)
  then have "map (\<lambda>u. if u_ID u = i then f u else u) (rows (db_users s)) = rows (db_users s)"
    by (intro map_idI) simp
  then show ?thesis by (simp add: patch_user_def tbl_update_def)
qed

lemma setSuperRole_ok:
  assumes "accounts_ok s"
  shows "accounts_ok (fst (setSuperRole e cl idstr body s))
    \<and> ((\<forall>n. env_dbok e n) \<longrightarrow> super_count (fst (setSuperRole e cl idstr body s)) = super_count s
        \<or> super_count (fst (setSuperRole e cl idstr body s)) = 1)"
proof -
  have crown: "accounts_ok (patch_user i (\<lambda>u. u\<lparr>u_Role := RoleSuperAdmin\<rparr>) (succession i s))
      \<and> super_count (patch_user i (\<lambda>u. u\<lparr>u_Role := RoleSuperAdmin\<rparr>) (succession i s)) = 1"
    and dropped: "accounts_ok (succession i s)"
    if "byID u_ID (db_users s) i = Some user" and "u_Role user \<noteq> RoleSuperAdmin" for i user
  proof -
    have "map u_ID (rows (db_users (succession i s))) = map u_ID (rows (db_users s))"
      by (simp add: succession_def rows_tbl_update)
    then have "u_ID ` set (rows (db_users (succession i s))) = u_ID ` set (rows (db_users s))"
      by (metis list.set_map)
    with byID_SomeD [OF that(1)] have "i \<in> u_ID ` set (rows (db_users (succession i s)))" by auto
    with crown_ok succession_ok [OF assms that]
    show "accounts_ok (patch_user i (\<lambda>u. u\<lparr>u_Role := RoleSuperAdmin\<rparr>) (succession i s))
      \<and> super_count (patch_user i (\<lambda>u. u\<lparr>u_Role := RoleSuperAdmin\<rparr>) (succession i s)) = 1" by blast
    show "accounts_ok (succession i s)" using succession_ok [OF assms that] by simp
  qed
  have same: "patch_user i (\<lambda>u. u\<lparr>u_Role := RoleSuperAdmin\<rparr>) s = s"
    if "byID u_ID (db_users s) i = Some user" and "u_Role user = RoleSuperAdmin" for i user
    using that(2) by (intro patch_same [OF assms that(1)]) (simp add: that(2) [symmetric])
  note alone = other_supers_one [OF assms] and plain = set_role_ok [OF assms]
  show ?thesis
    using assms crown dropped same alone plain
    by (auto simp: setSuperRole_def IsSuperAdmin_def Let_def split: option.splits)
qed

section \<open>One super admin\<close>

inductive account_step :: "bool \<Rightarrow> db \<Rightarrow> db \<Rightarrow> bool" for reliable where
  step_login: "account_step reliable s (fst (login check issue e body s))"
| step_register: "account_step reliable s (fst (register hash e body' s))"
| step_import: "account_step reliable s (fst (importUsers hash rnd e up s))"
| step_invite: "account_step reliable s (fst (createInviteCode e cl req s))"
| step_uninvite: "account_step reliable s (fst (deleteInviteCode idstr s))"
| step_role: "account_step reliable s (fst (setUserRole e cl idstr role s))"
| step_ban: "account_step reliable s (fst (setUserBan e cl idstr flag s))"
| step_super_ban: "account_step reliable s (fst (superSetUserBan e cl idstr flag s))"
| step_profile: "account_step reliable s (fst (updateUser e idstr prof s))"
| step_password: "account_step reliable s (fst (resetUserPassword hash e idstr pw s))"
| step_super_role:
    "(reliable \<longrightarrow> (\<forall>n. env_dbok e n)) \<Longrightarrow> account_step reliable s (fst (setSuperRole e cl idstr role s))"

lemma account_step_ok:
  assumes "account_step reliable s s'" and "accounts_ok s"
  shows "accounts_ok s' \<and> (reliable \<and> super_count s = 1 \<longrightarrow> super_count s' = 1)"
proof -
  have "steady s s' \<or> (\<exists>e cl idstr role. s' = fst (setSuperRole e cl idstr role s)
      \<and> (reliable \<longrightarrow> (\<forall>n. env_dbok e n)))"
    using assms(1) by cases (blast intro: steady_intros)+
  then show ?thesis
  proof
    assume "steady s s'"
    with assms(2) show ?thesis by (simp add: steady_def)
  next
    assume "\<exists>e cl idstr role. s' = fst (setSuperRole e cl idstr role s) \<and> (reliable \<longrightarrow> (\<forall>n. env_dbok e n))"
    then obtain e cl idstr role where "s' = fst (setSuperRole e cl idstr role s)"
      and "reliable \<longrightarrow> (\<forall>n. env_dbok e n)" by blast
    with setSuperRole_ok [OF assms(2), of e cl idstr role] show ?thesis by auto
  qed
qed


definition root_hash :: "string \<Rightarrow> string + string" where
  "root_hash pw = Inr (''#'' @ pw)"

definition rooted_db :: db where
  "rooted_db = fst (bootstrapAdmin root_hash (sample_env 0) ''root'' ''secret'' empty_db)"

definition promoted_db :: db where
  "promoted_db =
     (let up = Upload [CsvRecord [''alice'', ''1'', ''Alice'', ''alicepw'']];
          s = fst (importUsers root_hash (\<lambda>_. ''x'') (sample_env 0) up rooted_db)
      in fst (setSuperRole (sample_env 0) \<lparr>cl_UserID = 0, cl_Username = ''root'', cl_Role = RoleSuperAdmin\<rparr>
            (nat_str 1) (Some RoleSuperAdmin) s))"

lemmas root_eval = rooted_db_def promoted_db_def root_hash_def bootstrapAdmin_def importUsers_def csvRowToUser_def
  createUserRow_def create_user_def username_taken_def setSuperRole_def succession_def patch_user_def
  other_supers_def empty_db_def empty_table_def tbl_update_def tbl_create_def tbl_count_def tbl_first_def
  byID_def sample_env_def trim_space_def IsSuperAdmin_def Let_def numeral_eq_Suc

lemma rooted_ok: "accounts_ok rooted_db \<and> super_count rooted_db = 1"
  by (simp add: root_eval accounts_ok_def users_ok_def codes_ok_def super_count_def tbl_ok_def)

lemma paramID_one: "paramID (nat_str (Suc 0)) = Some (Suc 0)"
  by (rule paramID_accepts) simp_all

lemma promoted_ok: "accounts_ok promoted_db"
  unfolding promoted_db_def Let_def
  using rooted_ok steady_import [unfolded steady_def] setSuperRole_ok by blast


section \<open>The two tiers\<close>

definition admins :: "db \<Rightarrow> (nat \<times> string \<times> bool) list" where
  "admins s = map (\<lambda>u. (u_ID u, u_Role u, u_Banned u))
     (filter (\<lambda>u. isAdminRole (u_Role u)) (rows (db_users s)))"

lemma admins_patch:
  assumes "users_ok (db_users s)" and "byID u_ID (db_users s) i = Some user"
    and "\<not> isAdminRole (u_Role user)" and "\<And>u. \<not> isAdminRole (u_Role u) \<Longrightarrow> \<not> isAdminRole (u_Role (f u))"
  shows "admins (patch_user i f s) = admins s"
proof -
  have row: "user \<in> set (rows (db_users s))" "u_ID user = i"
    using byID_SomeD [OF assms(2)] by auto
  have plain: "\<not> isAdminRole (u_Role u)" if "u \<in> set (rows (db_users s))" and "u_ID u = i" for u
    using same_id [OF assms(1) that(1) row(1)] that(2) row(2) assms(3) by simp
  have "filter (\<lambda>u. isAdminRole (u_Role u)) (map (\<lambda>u. if u_ID u = i then f u else u) us)
      = filter (\<lambda>u. isAdminRole (u_Role u)) us"
    if "\<forall>u \<in> set us. u_ID u = i \<longrightarrow> \<not> isAdminRole (u_Role u)" for us
    using that assms(4) by (induction us) auto
  with plain have "filter (\<lambda>u. isAdminRole (u_Role u)) (map (\<lambda>u. if u_ID u = i then f u else u) (rows (db_users s)))
      = filter (\<lambda>u. isAdminRole (u_Role u)) (rows (db_users s))" by blast
  then show ?thesis by (simp only: admins_def users_of_patch rows_tbl_update)
qed

text \<open>
  C37. The admin tier reaches only ordinary users: whatever an administrator requests, changing a role
  or banning neither makes nor unmakes an administrator and neither bans nor unbans one.  Only the
  super-admin operations do.
\<close>

theorem admin_tier_keeps_admins:
  assumes "accounts_ok s"
  shows "admins (fst (setUserRole e cl idstr role s)) = admins s
    \<and> admins (fst (setUserBan e cl idstr flag s)) = admins s"
proof
  have users: "users_ok (db_users s)" using assms by (simp add: accounts_ok_def)
  note patch = admins_patch [OF users]
  show "admins (fst (setUserRole e cl idstr role s)) = admins s"
    by (auto simp: setUserRole_def IsSuperAdmin_def isAdminRole_def split: option.splits intro!: patch)
  show "admins (fst (setUserBan e cl idstr flag s)) = admins s"
    by (auto simp: setUserBan_def banHandler_def isAdminRole_def split: option.splits intro!: patch)
qed

theorem admin_tier_keeps_admins_witness:
  "admins (fst (setUserRole (sample_env 0) \<lparr>cl_UserID = 7, cl_Username = ''bob'', cl_Role = RoleAdmin\<rparr>
      (nat_str 1) (Some RoleUser) promoted_db)) = [(0, RoleAdmin, False), (1, RoleSuperAdmin, False)]"
proof -
  have "admins promoted_db = [(0, RoleAdmin, False), (1, RoleSuperAdmin, False)]"
    by (simp add: admins_def isAdminRole_def root_eval paramID_one)
  then show ?thesis using admin_tier_keeps_admins [OF promoted_ok] by simp
qed

section \<open>Where the tiers leak\<close>

text \<open>
  The promotion is not a transaction: when the second statement fails, the former super admin is an
  administrator already and nobody has become super admin.
\<close>

lemma succession_can_lose_super:
  assumes "env_dbok e 0" and "\<not> env_dbok e 1" and "accounts_ok s" and "paramID idstr = Some i"
    and "byID u_ID (db_users s) i = Some user" and "u_Role user \<noteq> RoleSuperAdmin" and "cl_UserID cl \<noteq> i"
  shows "setSuperRole e cl idstr (Some RoleSuperAdmin) s = (succession i s, Inl (HTTP 500 ''update role failed''))
    \<and> super_count (succession i s) = 0"
  using assms succession_ok [OF assms(3,5,6)]
  by (simp add: setSuperRole_def IsSuperAdmin_def)

text \<open>
  Resetting a password looks at no role: an administrator sets the password of the super admin and
  reads it in the answer.
\<close>

lemma admin_resets_super_password:
  assumes "env_dbok e 0" and "hash pw = Inr h" and "pw \<noteq> []" and "paramID idstr = Some i"
    and "byID u_ID (db_users s) i = Some user" and "u_Role user = RoleSuperAdmin"
  shows "resetUserPassword hash e idstr pw s = (patch_user i (\<lambda>u. u\<lparr>u_PasswordHash := h\<rparr>) s, Inr pw)"
  using assms by (simp add: resetUserPassword_def)

text \<open>
  The account with id 0 is out of reach of every route: once another user has become super admin it
  stays an administrator that nobody can ban or demote.
\<close>

lemma root_out_of_reach:
  assumes "root \<in> set (rows (db_users s))" and "u_ID root = 0" and "u_Role root = RoleAdmin"
  shows "root \<in> set (rows (db_users (fst (setSuperRole e cl idstr body s))))
    \<and> root \<in> set (rows (db_users (fst (superSetUserBan e cl idstr flag s))))
    \<and> root \<in> set (rows (db_users (fst (resetUserPassword hash e idstr pw s))))"
proof -
  have kept: "root \<in> set (rows (db_users (patch_user i f s')))" if "0 < i" and "root \<in> set (rows (db_users s'))" for i f s'
  proof -
    have "root = (if u_ID root = i then f root else root)" using that(1) assms(2) by simp
    with that(2) show ?thesis unfolding users_of_patch rows_tbl_update set_map by (rule rev_image_eqI)
  qed
  have crowned: "root \<in> set (rows (db_users (succession i s)))" for i
  proof -
    have "root = (if u_Role root = RoleSuperAdmin \<and> u_ID root \<noteq> i then root\<lparr>u_Role := RoleAdmin\<rparr> else root)"
      using assms(3) by simp
    with assms(1) show ?thesis by (auto simp: succession_def rows_tbl_update intro!: rev_image_eqI [of root])
  qed
  have pos: "0 < i" if "paramID idstr = Some i" for i
    using paramID_range [OF that] by simp
  show ?thesis
  proof (cases "paramID idstr")
    case None
    with assms(1) show ?thesis
      by (simp add: setSuperRole_def superSetUserBan_def banHandler_def resetUserPassword_def)
  next
    case (Some i)
    note stays = kept [OF pos [OF Some]]
    have "root \<in> set (rows (db_users (fst (setSuperRole e cl idstr body s))))"
      using Some assms(1) by (auto simp: setSuperRole_def Let_def crowned stays split: option.split)
    moreover have "root \<in> set (rows (db_users (fst (superSetUserBan e cl idstr flag s))))"
      using Some assms(1) by (auto simp: superSetUserBan_def banHandler_def stays split: option.split)
    moreover have "root \<in> set (rows (db_users (fst (resetUserPassword hash e idstr pw s))))"
      using Some assms(1) by (auto simp: resetUserPassword_def Let_def stays split: option.split sum.split)
    ultimately show ?thesis by simp
  qed
qed

text \<open>
  Two registrations that both looked before either committed use an invitation for one more user than
  it allows.
\<close>

lemma concurrent_registers_overrun:
  assumes "accounts_ok s" and "env_dbok e 0" and "env_dbok e 1"
    and "code \<in> set (rows (db_codes s))" and "ic_UsedCount code = ic_MaxUses code - 1"
    and "\<not> username_taken (rq_Username a) s" and "\<not> username_taken (rq_Username b) s"
    and "rq_Username a \<noteq> rq_Username b"
  shows "\<not> codes_ok (db_codes (fst (register_commit e b h (ic_ID code)
    (fst (register_commit e a h (ic_ID code) s)))))"
proof -
  have "\<exists>c \<in> set (rows (tbl_update (\<lambda>c. ic_ID c = ic_ID code) (\<lambda>c. c\<lparr>ic_UsedCount := ic_UsedCount c + 1\<rparr>)
      (tbl_update (\<lambda>c. ic_ID c = ic_ID code) (\<lambda>c. c\<lparr>ic_UsedCount := ic_UsedCount c + 1\<rparr>) (db_codes s)))).
      ic_UsedCount c > ic_MaxUses c"
  proof (rule bexI)
    let ?g = "\<lambda>c. if ic_ID c = ic_ID code then c\<lparr>ic_UsedCount := ic_UsedCount c + 1\<rparr> else c"
    show "?g (?g code) \<in> set (rows (tbl_update (\<lambda>c. ic_ID c = ic_ID code) (\<lambda>c. c\<lparr>ic_UsedCount := ic_UsedCount c + 1\<rparr>)
      (tbl_update (\<lambda>c. ic_ID c = ic_ID code) (\<lambda>c. c\<lparr>ic_UsedCount := ic_UsedCount c + 1\<rparr>) (db_codes s))))"
      unfolding rows_tbl_update set_map by (intro imageI assms(4))
    show "ic_UsedCount (?g (?g code)) > ic_MaxUses (?g (?g code))" using assms(5) by simp
  qed
  moreover have "\<not> username_taken (rq_Username b) (spend_code c (create_user e (rq_Username a) h n t s))" for c n t
    using assms(7,8) by (simp add: username_taken_def spend_code_def create_user_def tbl_count_create)
  then have "db_codes (fst (register_commit e b h (ic_ID code) (fst (register_commit e a h (ic_ID code) s))))
      = db_codes (spend_code (ic_ID code) (spend_code (ic_ID code) s))"
    using assms(2,3,6) by (simp add: register_commit_def) (simp add: spend_code_def create_user_def)
  ultimately show ?thesis
    by (simp add: spend_code_def codes_ok_def list_all_iff not_le)
qed

end
