(* ===== verification/Ws_Hub.thy ===== *)
theory Ws_Hub
  imports Submissions
begin

text \<open>
  The push channel to browsers: the topic-based hub (\<open>wsq/hub.go\<close>) and the rule who may listen to what
  (\<open>wsTopicAuthorizer\<close> in \<open>router.go\<close>).  A connection runs a reader and a writer concurrently, so every
  handler below is one step of \<open>ws_step\<close>; the trace of a connection is what its writer has sent.
\<close>

section \<open>Who may listen\<close>

definition submission_owner :: "db \<Rightarrow> nat \<Rightarrow> nat" where
  "submission_owner s i = (case byID s_ID (db_submissions s) i of None \<Rightarrow> 0 | Some r \<Rightarrow> s_UserID r)"

definition wsTopicAuthorizer :: "db \<Rightarrow> string \<Rightarrow> nat \<Rightarrow> string \<Rightarrow> bool" where
  "wsTopicAuthorizer s role uid topic =
     (if is_prefix ''admin:'' topic then isAdminRole role
      else if is_prefix ''submission:'' topic then
        (case parse_uint64 (drop (length ''submission:'') topic) of
           None \<Rightarrow> False
         | Some i \<Rightarrow>
             if i = 0 then False
             else if isAdminRole role then True
             else if uid = 0 then False
             else let owner = submission_owner s i in owner > 0 \<and> owner = uid)
      else True)"

section \<open>The hub\<close>

text \<open>
  \<open>'d\<close> is the payload; a message received from a closed channel is Go's zero message, without topic and
  payload.  \<open>wc_listed\<close> says whether the channel of the connection is in the event registry, \<open>wc_member\<close>
  whether the connection is in the client set; a connection that has been removed keeps its record, as
  its writer may still run.
\<close>

record 'd ws_conn =
  wc_role :: string
  wc_user :: nat
  wc_topics :: "string list"
  wc_member :: bool
  wc_listed :: bool
  wc_closed :: bool
  wc_buf :: "(string \<times> 'd option) list"
  wc_sent :: "(string \<times> 'd option) list"

type_synonym 'd ws_hub = "'d ws_conn list"

definition maxClients :: nat where
  "maxClients = 1024"

definition event_capacity :: nat where
  "event_capacity = 64"

definition ws_size :: "'d ws_hub \<Rightarrow> nat" where
  "ws_size h = length (filter wc_member h)"

definition set_conn :: "nat \<Rightarrow> ('d ws_conn \<Rightarrow> 'd ws_conn) \<Rightarrow> 'd ws_hub \<Rightarrow> 'd ws_hub" where
  "set_conn i f h = (if i < length h then h[i := f (h ! i)] else h)"

text \<open>The upgrade of the connection may fail; \<open>ws_connect\<close> answers \<open>None\<close> for 503 and for a failed upgrade.\<close>

definition ws_connect :: "bool \<Rightarrow> Claims \<Rightarrow> 'd ws_hub \<Rightarrow> 'd ws_hub option" where
  "ws_connect upgraded cl h =
     (if ws_size h \<ge> maxClients \<or> \<not> upgraded then None
      else Some (h @ [\<lparr>wc_role = cl_Role cl, wc_user = cl_UserID cl, wc_topics = [], wc_member = True,
                      wc_listed = False, wc_closed = False, wc_buf = [], wc_sent = []\<rparr>]))"

definition subscribeEvents :: "nat \<Rightarrow> 'd ws_hub \<Rightarrow> 'd ws_hub" where
  "subscribeEvents i = set_conn i (\<lambda>c. c\<lparr>wc_listed := True\<rparr>)"

text \<open>One control frame of the reader, and its end (\<open>remove\<close>), which closes the channel of the writer.\<close>

definition ws_frame :: "db \<Rightarrow> nat \<Rightarrow> string \<Rightarrow> string \<Rightarrow> 'd ws_hub \<Rightarrow> 'd ws_hub" where
  "ws_frame s i sub unsub = set_conn i (\<lambda>c.
     let c = (if sub \<noteq> [] \<and> wsTopicAuthorizer s (wc_role c) (wc_user c) sub
              then c\<lparr>wc_topics := List.insert sub (wc_topics c)\<rparr> else c)
     in if unsub \<noteq> [] then c\<lparr>wc_topics := removeAll unsub (wc_topics c)\<rparr> else c)"

definition ws_remove :: "nat \<Rightarrow> 'd ws_hub \<Rightarrow> 'd ws_hub" where
  "ws_remove i = set_conn i (\<lambda>c.
     let c = c\<lparr>wc_member := False\<rparr>
     in if wc_listed c then c\<lparr>wc_listed := False, wc_closed := True\<rparr> else c)"

text \<open>Publishing offers the message to every listed subscriber; a full channel drops it.\<close>

definition offer :: "string \<Rightarrow> 'd \<Rightarrow> 'd ws_conn \<Rightarrow> 'd ws_conn" where
  "offer topic d c =
     (if wc_member c \<and> topic \<in> set (wc_topics c) \<and> wc_listed c \<and> length (wc_buf c) < event_capacity
      then c\<lparr>wc_buf := wc_buf c @ [(topic, Some d)]\<rparr> else c)"

definition ws_publish :: "string \<Rightarrow> 'd \<Rightarrow> 'd ws_hub \<Rightarrow> 'd ws_hub" where
  "ws_publish topic d = map (offer topic d)"

text \<open>The writer takes the next message; from a closed, drained channel it takes the zero message at once.\<close>

definition take_event :: "'d ws_conn \<Rightarrow> 'd ws_conn" where
  "take_event c =
     (case wc_buf c of
        msg # msgs \<Rightarrow> c\<lparr>wc_buf := msgs, wc_sent := wc_sent c @ [msg]\<rparr>
      | [] \<Rightarrow> if wc_closed c then c\<lparr>wc_sent := wc_sent c @ [([], None)]\<rparr> else c)"

definition ws_write :: "nat \<Rightarrow> 'd ws_hub \<Rightarrow> 'd ws_hub" where
  "ws_write i = set_conn i take_event"

text \<open>
  The interleavings of all connections.  \<open>own\<close> gives the owner of every submission ever made: rows come
  and go between steps, but an existing row belongs to its owner.
\<close>

inductive ws_step :: "(nat \<Rightarrow> nat) \<Rightarrow> 'd ws_hub \<Rightarrow> 'd ws_hub \<Rightarrow> bool" for own where
  connect: "ws_connect up cl h = Some h' \<Longrightarrow> ws_step own h h'"
| listen: "ws_step own h (subscribeEvents i h)"
| frame: "\<forall>r \<in> set (rows (db_submissions s)). s_UserID r = own (s_ID r) \<Longrightarrow>
    ws_step own h (ws_frame s i sub unsub h)"
| remove: "ws_step own h (ws_remove i h)"
| publishes: "ws_step own h (ws_publish topic d h)"
| sends: "ws_step own h (ws_write i h)"

section \<open>Topics stay private\<close>

definition may_hear :: "(nat \<Rightarrow> nat) \<Rightarrow> string \<Rightarrow> nat \<Rightarrow> string \<Rightarrow> bool" where
  "may_hear own role uid topic \<longleftrightarrow>
     (is_prefix ''admin:'' topic \<longrightarrow> isAdminRole role)
     \<and> (\<forall>i. topic = submission_topic i \<longrightarrow> isAdminRole role \<or> uid = own i)"

definition conn_ok :: "(nat \<Rightarrow> nat) \<Rightarrow> 'd ws_conn \<Rightarrow> bool" where
  "conn_ok own c \<longleftrightarrow>
     list_all (may_hear own (wc_role c) (wc_user c)) (wc_topics c)
     \<and> list_all (may_hear own (wc_role c) (wc_user c)) (map fst (wc_buf c @ wc_sent c))
     \<and> length (wc_buf c) \<le> event_capacity"

lemma is_prefix_submission: "is_prefix ''submission:'' (submission_topic i)" "\<not> is_prefix ''admin:'' (submission_topic i)"
  by (simp_all add: is_prefix_def submission_topic_def)

lemma drop_submission_topic: "drop (length ''submission:'') (submission_topic i) = nat_str i"
  by (simp add: submission_topic_def)

lemma authorizer_may_hear:
  assumes "wsTopicAuthorizer s role uid topic"
    and "\<forall>r \<in> set (rows (db_submissions s)). s_UserID r = own (s_ID r)"
  shows "may_hear own role uid topic"
proof -
  have "isAdminRole role \<or> uid = own i" if "topic = submission_topic i" for i
  proof (cases "isAdminRole role")
    case False
    from assms(1) [unfolded that] False obtain k where k: "parse_uint64 (nat_str i) = Some k"
      and owner: "submission_owner s k > 0" "submission_owner s k = uid"
      unfolding wsTopicAuthorizer_def drop_submission_topic
      by (auto simp: is_prefix_submission Let_def split: option.splits if_splits)
    from k have "k = i" by (auto simp: parse_uint64_def split: if_splits)
    with owner assms(2) show ?thesis
      by (auto simp: submission_owner_def dest!: byID_SomeD split: option.splits)
  qed simp
  with assms(1) show ?thesis
    by (auto simp: may_hear_def wsTopicAuthorizer_def)
qed

lemma zero_message_ok: "may_hear own role uid []"
  by (simp add: may_hear_def is_prefix_def submission_topic_def)

lemma conn_ok_set: "list_all (conn_ok own) h \<Longrightarrow> (\<And>c. conn_ok own c \<Longrightarrow> conn_ok own (f c)) \<Longrightarrow> list_all (conn_ok own) (set_conn i f h)"
  by (auto simp: set_conn_def list_all_length nth_list_update)

lemma ws_step_ok:
  assumes "ws_step own h h'" and "list_all (conn_ok own) h"
  shows "list_all (conn_ok own) h'"
  using assms(1)
proof cases
  case (connect up cl)
  with assms(2) show ?thesis
    by (auto simp: ws_connect_def conn_ok_def split: if_splits)
next
  case (listen i)
  with assms(2) show ?thesis unfolding subscribeEvents_def
    by (auto intro!: conn_ok_set simp: conn_ok_def)
next
  case (frame s i sub unsub)
  have "conn_ok own (c\<lparr>wc_topics := List.insert sub (wc_topics c)\<rparr>)"
    if "conn_ok own c" and "wsTopicAuthorizer s (wc_role c) (wc_user c) sub" for c :: "'a ws_conn"
    using that authorizer_may_hear [OF that(2) frame(2)] by (simp add: conn_ok_def list_all_iff)
  moreover have "conn_ok own (c\<lparr>wc_topics := removeAll t (wc_topics c)\<rparr>)"
    if "conn_ok own c" for c :: "'a ws_conn" and t
    using that by (simp add: conn_ok_def list_all_iff)
  ultimately show ?thesis
    using assms(2) unfolding frame(1) ws_frame_def by (intro conn_ok_set) (simp_all add: Let_def)
next
  case (remove i)
  with assms(2) show ?thesis unfolding ws_remove_def
    by (auto intro!: conn_ok_set simp: conn_ok_def Let_def)
next
  case (publishes topic d)
  have "conn_ok own (offer topic d c)" if "conn_ok own c" for c :: "'a ws_conn"
    using that by (auto simp: offer_def conn_ok_def list_all_iff)
  with assms(2) show ?thesis by (simp add: publishes ws_publish_def list_all_iff)
next
  case (sends i)
  with assms(2) show ?thesis unfolding ws_write_def
    by (auto intro!: conn_ok_set simp: take_event_def conn_ok_def zero_message_ok split: list.split)
qed

text \<open>
  C39. Whatever the connections do and however their readers, writers and the publishers interleave,
  nothing on an \<open>admin:\<close> topic is ever queued for or sent to a connection that is not an administrator's,
  nothing on the topic of a submission to anyone but its owner and administrators, and no
  connection ever has more than 64 messages waiting.
\<close>

theorem ws_topics_private:
  assumes "(ws_step own)\<^sup>*\<^sup>* [] h"
  shows "list_all (conn_ok own) h"
  using assms by (induction rule: rtranclp_induct) (simp_all add: ws_step_ok)

definition listened :: "nat ws_hub" where
  "listened =
     (let h = the (ws_connect True \<lparr>cl_UserID = 5, cl_Username = ''ann'', cl_Role = RoleUser\<rparr> []);
          s = empty_db\<lparr>db_submissions := \<lparr>rows = [sample_sub 5 SubAC 0], seq = 1\<rparr>\<rparr>
      in ws_write 0 (ws_publish ''submission:1'' 7 (ws_frame s 0 ''submission:1'' [] (subscribeEvents 0 h))))"

lemma parse_one: "parse_uint64 ''1'' = Some 1"
  by (simp add: parse_uint64_def str_val_def is_digit_def digit_val_def)

theorem ws_topics_private_witness:
  "list_all (conn_ok (\<lambda>_. 5)) listened \<and> map wc_sent listened = [[(''submission:1'', Some 7)]]"
proof
  let ?h = "the (ws_connect True \<lparr>cl_UserID = 5, cl_Username = ''ann'', cl_Role = RoleUser\<rparr> [] :: nat ws_hub option)"
  let ?s = "empty_db\<lparr>db_submissions := \<lparr>rows = [sample_sub 5 SubAC 0], seq = 1\<rparr>\<rparr>"
  have "ws_step (\<lambda>_. 5) [] ?h"
    by (rule ws_step.connect [of True "\<lparr>cl_UserID = 5, cl_Username = ''ann'', cl_Role = RoleUser\<rparr>"])
      (simp add: ws_connect_def ws_size_def maxClients_def)
  moreover have "ws_step (\<lambda>_. 5) ?h (subscribeEvents 0 ?h)" by (rule ws_step.listen)
  moreover have "ws_step (\<lambda>_. 5) (subscribeEvents 0 ?h) (ws_frame ?s 0 ''submission:1'' [] (subscribeEvents 0 ?h))"
    by (rule ws_step.frame) (simp add: sample_sub_def)
  ultimately have "(ws_step (\<lambda>_. 5))\<^sup>*\<^sup>* [] listened"
    unfolding listened_def Let_def
    by (meson rtranclp.rtrancl_refl rtranclp.rtrancl_into_rtrancl ws_step.publishes ws_step.sends)
  then show "list_all (conn_ok (\<lambda>_. 5)) listened" by (rule ws_topics_private)
  show "map wc_sent listened = [[(''submission:1'', Some 7)]]"
    by (simp add: listened_def ws_connect_def ws_size_def maxClients_def subscribeEvents_def set_conn_def
        ws_frame_def wsTopicAuthorizer_def is_prefix_def parse_one isAdminRole_def submission_owner_def byID_def
        tbl_first_def sample_sub_def ws_publish_def offer_def event_capacity_def ws_write_def take_event_def Let_def)
qed

section \<open>Two leaks\<close>

text \<open>
  When the reader ends, the channel of the writer is closed under it.  The writer does not notice: as
  long as writing succeeds it sends zero messages without pause.
\<close>

lemma closed_channel_spins:
  assumes "wc_closed c" and "wc_buf c = []"
  shows "wc_sent ((take_event ^^ n) c) = wc_sent c @ replicate n ([], None)"
proof -
  have "wc_closed ((take_event ^^ n) c) \<and> wc_buf ((take_event ^^ n) c) = []
      \<and> wc_sent ((take_event ^^ n) c) = wc_sent c @ replicate n ([], None)"
    by (induction n) (simp_all add: assms take_event_def replicate_append_same)
  then show ?thesis by blast
qed

text \<open>
  The push channel knows no freeze: the owner of an attempt whose verdict is masked in the feed may
  listen to its topic, on which the relay publishes the verdict.
\<close>

lemma owner_hears_masked_verdict:
  assumes "submissionByID s (nat_str i) = Some sub" and "maskSubmission e cl [] s sub"
    and "cl_UserID cl = s_UserID sub" and "0 < s_UserID sub"
  shows "wsTopicAuthorizer s (cl_Role cl) (cl_UserID cl) (submission_topic i)"
proof -
  obtain k where k: "paramID (nat_str i) = Some k" and row: "byID s_ID (db_submissions s) k = Some sub"
    using assms(1) by (auto simp: submissionByID_def split: option.splits)
  from k have "parse_uint64 (nat_str i) = Some k" and "0 < k"
    by (auto simp: paramID_def split: option.splits if_splits)
  with row assms(3,4) show ?thesis
    unfolding wsTopicAuthorizer_def drop_submission_topic
    by (simp add: is_prefix_submission submission_owner_def)
qed

end
