(* ===== verification/Access.thy ===== *)
theory Access
  imports Public_Api Accounts Ws_Hub
begin

text \<open>
  Access control: tokens and the middleware of \<open>auth/auth.go\<close>, the gates of a request and the table of
  all routes (\<open>router.go\<close>).  \<open>serve\<close> runs the gates of a route in order and answers the handler that is
  reached and the identity it sees.

  The signature library is an argument: \<open>sign\<close> and \<open>parse\<close> (which knows the time and asks for the key of
  the algorithm a token names), and \<open>numeric\<close>, the instant a token date keeps of a time.
\<close>

section \<open>Tokens\<close>

record token = Claims +
  tk_Subject :: string
  tk_ExpiresAt :: time
  tk_IssuedAt :: time

record Manager =
  mg_secret :: string
  mg_expire :: duration

definition NewManager :: "string \<Rightarrow> int \<Rightarrow> Manager" where
  "NewManager secret expireHours =
     \<lparr>mg_secret = secret, mg_expire = wrap_int (expireHours * (60 * minute))\<rparr>"

definition claims_for :: "(time \<Rightarrow> time) \<Rightarrow> Manager \<Rightarrow> time \<Rightarrow> User \<Rightarrow> token" where
  "claims_for numeric m now u =
     \<lparr>cl_UserID = u_ID u, cl_Username = u_Username u, cl_Role = u_Role u, tk_Subject = u_Username u,
      tk_ExpiresAt = numeric (now + mg_expire m), tk_IssuedAt = numeric now\<rparr>"

definition Issue ::
  "(time \<Rightarrow> time) \<Rightarrow> (string \<Rightarrow> token \<Rightarrow> string option) \<Rightarrow> Manager \<Rightarrow> time \<Rightarrow> User \<Rightarrow> string option" where
  "Issue numeric sign m now u = sign (mg_secret m) (claims_for numeric m now u)"

text \<open>The key function: only the symmetric methods (\<open>SigningMethodHMAC\<close>) get the secret.\<close>

definition key_for :: "Manager \<Rightarrow> string \<Rightarrow> string option" where
  "key_for m alg = (if alg \<in> {''HS256'', ''HS384'', ''HS512''} then Some (mg_secret m) else None)"

type_synonym token_parser = "time \<Rightarrow> string \<Rightarrow> (string \<Rightarrow> string option) \<Rightarrow> token option"

definition Parse :: "token_parser \<Rightarrow> Manager \<Rightarrow> time \<Rightarrow> string \<Rightarrow> Claims option" where
  "Parse parse m now tokenStr = map_option Claims.truncate (parse now tokenStr (key_for m))"

definition Middleware :: "token_parser \<Rightarrow> Manager \<Rightarrow> time \<Rightarrow> string \<Rightarrow> Claims option" where
  "Middleware parse m now raw =
     (if length raw > 7 \<and> take 7 raw = ''Bearer '' then Parse parse m now (drop 7 raw) else None)"

definition banGate :: "db \<Rightarrow> Claims option \<Rightarrow> http_error option" where
  "banGate s cl =
     (case cl of
        None \<Rightarrow> None
      | Some c \<Rightarrow>
          (case byID u_ID (db_users s) (cl_UserID c) of
             None \<Rightarrow> None
           | Some user \<Rightarrow> if u_Banned user then Some (HTTP 403 ''the account is banned'') else None))"

section \<open>Gates\<close>

datatype gate =
    CapJSONBody nat
  | LoginLimiter
  | RegisterLimiter
  | RequireAuth
  | RequireRole "string list"
  | RequireSuperAdmin
  | UserWriteLimiter nat
  | PublicAPIAuth
  | RequireDaemonToken
  | WsAuth

record http_request =
  hr_Authorization :: string
  hr_token :: string
  hr_APIKey :: string
  hr_api_key :: string
  hr_ip :: string

record request_context =
  cx_claims :: "Claims option"
  cx_public :: "publicAuth option"
  cx_body_cap :: nat

text \<open>Every call of \<open>userWriteLimiter\<close> in the router makes a limiter of its own; they are numbered in order.\<close>

definition write_budgets :: "(int \<times> int) list" where
  "write_budgets = [(20, 60), (10, 60), (10, 60), (6, 60), (20, 60), (10, 60), (6, 60), (4, 60), (4, 60)]"

record gate_state =
  gt_db :: db
  gt_login :: ipLimiter
  gt_register :: ipLimiter
  gt_write :: "userLimiter list"
  gt_public :: public_state

record gate_config =
  gc_parse :: token_parser
  gc_manager :: Manager
  gc_sha :: "string \<Rightarrow> string"
  gc_daemon_secret :: string

definition requireDaemonToken :: "string \<Rightarrow> string \<Rightarrow> bool" where
  "requireDaemonToken secret raw \<longleftrightarrow> length raw > 7 \<and> drop 7 raw = secret"

fun pass ::
  "gate_config \<Rightarrow> env \<Rightarrow> http_request \<Rightarrow> gate \<Rightarrow> request_context \<Rightarrow> gate_state \<Rightarrow> (gate_state, request_context) handled" where
  "pass g e rq (CapJSONBody n) cx st = (st, Inr (cx\<lparr>cx_body_cap := n\<rparr>))"
| "pass g e rq LoginLimiter cx st =
     (let (l, ok) = ip_allow (gt_login st) (hr_ip rq) (env_now e)
      in (st\<lparr>gt_login := l\<rparr>, if ok then Inr cx else Inl (HTTP 429 ''too many attempts, slow down'')))"
| "pass g e rq RegisterLimiter cx st =
     (let (l, ok) = ip_allow (gt_register st) (hr_ip rq) (env_now e)
      in (st\<lparr>gt_register := l\<rparr>, if ok then Inr cx else Inl (HTTP 429 ''too many attempts, slow down'')))"
| "pass g e rq RequireAuth cx st =
     (st, if cx_claims cx = None then Inl (HTTP 401 ''login required'') else Inr cx)"
| "pass g e rq (RequireRole allowed) cx st =
     (st, if (case cx_claims cx of None \<Rightarrow> [] | Some c \<Rightarrow> cl_Role c) \<in> set allowed then Inr cx
          else Inl (HTTP 403 ''insufficient permission''))"
| "pass g e rq RequireSuperAdmin cx st =
     (st, if (case cx_claims cx of None \<Rightarrow> False | Some c \<Rightarrow> IsSuperAdmin (cl_Role c)) then Inr cx
          else Inl (HTTP 403 ''super admin required''))"
| "pass g e rq (UserWriteLimiter i) cx st =
     (let uid = (case cx_claims cx of None \<Rightarrow> 0 | Some c \<Rightarrow> cl_UserID c);
          (l, ok) = user_write (gt_write st ! i) uid (env_now e div second)
      in (st\<lparr>gt_write := (gt_write st)[i := l]\<rparr>, if ok then Inr cx else Inl (HTTP 429 ''too frequent, try later'')))"
| "pass g e rq PublicAPIAuth cx st =
     (case publicAPIAuth (gc_sha g) e (hr_APIKey rq) (hr_api_key rq) (gt_public st) of
        (ps, Inl err) \<Rightarrow> (st\<lparr>gt_public := ps\<rparr>, Inl err)
      | (ps, Inr a) \<Rightarrow> (st\<lparr>gt_public := ps\<rparr>, Inr (cx\<lparr>cx_public := Some a\<rparr>)))"
| "pass g e rq RequireDaemonToken cx st =
     (st, if requireDaemonToken (gc_daemon_secret g) (hr_Authorization rq) then Inr cx
          else Inl (HTTP 401 []))"
| "pass g e rq WsAuth cx st =
     (st, case Parse (gc_parse g) (gc_manager g) (env_now e) (hr_token rq) of
            None \<Rightarrow> Inl (HTTP 401 []) | Some c \<Rightarrow> Inr (cx\<lparr>cx_claims := Some c\<rparr>))"

fun pass_all ::
  "gate_config \<Rightarrow> env \<Rightarrow> http_request \<Rightarrow> gate list \<Rightarrow> request_context \<Rightarrow> gate_state \<Rightarrow> (gate_state, request_context) handled" where
  "pass_all g e rq [] cx st = (st, Inr cx)"
| "pass_all g e rq (gt # gts) cx st =
     (case pass g e rq gt cx st of
        (st, Inl err) \<Rightarrow> (st, Inl err)
      | (st, Inr cx) \<Rightarrow> pass_all g e rq gts cx st)"

section \<open>Routes\<close>

datatype http_method = GET | POST | PUT | DELETE

record route =
  rt_method :: http_method
  rt_path :: string
  rt_gates :: "gate list"
  rt_handler :: string

definition group :: "string \<Rightarrow> gate list \<Rightarrow> (http_method \<times> string \<times> gate list \<times> string) list \<Rightarrow> route list" where
  "group prefix gates rs = map (\<lambda>(mth, path, extra, h).
     \<lparr>rt_method = mth, rt_path = prefix @ path, rt_gates = gates @ extra, rt_handler = h\<rparr>) rs"

abbreviation setterPlus :: gate where
  "setterPlus \<equiv> RequireRole [RoleSetter, RoleAdmin, RoleSuperAdmin]"

abbreviation adminPlus :: gate where
  "adminPlus \<equiv> RequireRole [RoleAdmin, RoleSuperAdmin]"

definition api_routes :: "route list" where
  "api_routes = group ''/api/v1'' [] [
    (POST, ''/auth/login'', [CapJSONBody 1048576, LoginLimiter], ''login''),
    (POST, ''/auth/register'', [CapJSONBody 1048576, RegisterLimiter], ''register''),
    (GET, ''/auth/me'', [RequireAuth], ''me''),
    (GET, ''/languages'', [], ''listLanguages''),
    (GET, ''/submissions'', [RequireAuth], ''listSubmissions''),
    (GET, ''/submissions/:id'', [RequireAuth], ''getSubmission''),
    (POST, ''/submissions'', [RequireAuth], ''createSubmission''),
    (GET, ''/users/me/stats'', [RequireAuth], ''myStats''),
    (GET, ''/users/:id/profile'', [RequireAuth], ''userProfile''),
    (GET, ''/users/search'', [RequireAuth], ''searchUsers''),
    (GET, ''/problems/:id/solutions'', [RequireAuth], ''listSolutions''),
    (POST, ''/problems/:id/solutions'', [RequireAuth, UserWriteLimiter 1], ''createSolution''),
    (PUT, ''/problems/:id/solutions/:sid'', [RequireAuth, UserWriteLimiter 2], ''updateSolution''),
    (DELETE, ''/problems/:id/solutions/:sid'', [RequireAuth], ''deleteSolution''),
    (GET, ''/contests'', [RequireAuth], ''listContests''),
    (GET, ''/contests/:id'', [RequireAuth], ''getContest''),
    (GET, ''/contests/:id/standings'', [RequireAuth], ''getStandings''),
    (GET, ''/contests/:id/standings.csv'', [RequireAuth], ''exportStandingsCSV''),
    (GET, ''/external/report/:id'', [RequireAuth], ''externalReport''),
    (GET, ''/ws'', [WsAuth], ''ws'')]"

definition problems_routes :: "route list" where
  "problems_routes = group ''/api/v1/problems'' [RequireAuth] [
    (GET, '''', [], ''listProblems''),
    (GET, ''/:id'', [], ''getProblem'')]"

definition setter_routes :: "route list" where
  "setter_routes = group ''/api/v1/problems'' [RequireAuth, setterPlus, UserWriteLimiter 0] [
    (POST, '''', [], ''createProblem''),
    (PUT, ''/:id'', [], ''updateProblem''),
    (DELETE, ''/:id'', [], ''deleteProblem''),
    (POST, ''/:id/testdata'', [], ''uploadTestdata''),
    (GET, ''/:id/testdata'', [], ''listTestdata''),
    (POST, ''/:id/testdata/case'', [], ''uploadSingleCase''),
    (GET, ''/:id/testdata/:caseId/preview/:kind'', [], ''previewCase''),
    (DELETE, ''/:id/testdata/:caseId'', [], ''deleteSingleCase''),
    (POST, ''/:id/copy'', [], ''copyProblem''),
    (GET, ''/:id/export'', [], ''exportProblem''),
    (POST, ''/import'', [], ''importProblem''),
    (POST, ''/:id/checker'', [], ''uploadJudgeSource''),
    (POST, ''/:id/interactor'', [], ''uploadJudgeSource''),
    (PUT, ''/:id/case-scores'', [], ''setCaseScores''),
    (GET, ''/:id/case-scores'', [], ''listCaseScores'')]"

definition create_routes :: "route list" where
  "create_routes = group ''/api/v1/my/problems'' [RequireAuth, UserWriteLimiter 3] [
    (POST, '''', [], ''createUserProblem''),
    (GET, '''', [], ''myProblems''),
    (PUT, ''/:id'', [], ''updateMyProblem'')]"

definition lists_routes :: "route list" where
  "lists_routes = group ''/api/v1/lists'' [RequireAuth] [
    (GET, '''', [], ''listLists''),
    (GET, ''/:id'', [], ''getList''),
    (POST, '''', [setterPlus], ''createList''),
    (PUT, ''/:id'', [setterPlus], ''updateList''),
    (DELETE, ''/:id'', [setterPlus], ''deleteList'')]"

definition teams_routes :: "route list" where
  "teams_routes = group ''/api/v1/teams'' [RequireAuth, UserWriteLimiter 4] [
    (GET, '''', [], ''listTeams''),
    (POST, '''', [], ''createTeam''),
    (GET, ''/:id'', [], ''getTeam''),
    (POST, ''/join/:code'', [], ''joinTeam''),
    (POST, ''/:id/leave'', [], ''leaveTeam''),
    (POST, ''/:id/members/:uid'', [], ''pullMember''),
    (DELETE, ''/:id/members/:uid'', [], ''kickMember''),
    (POST, ''/:id/captain/:uid'', [], ''transferCaptain''),
    (POST, ''/:id/invite'', [], ''regenerateInvite''),
    (POST, ''/:id/notices'', [], ''createTeamNotice''),
    (DELETE, ''/:id/notices/:nid'', [], ''deleteTeamNotice''),
    (GET, ''/:id/board'', [], ''teamBoard''),
    (POST, ''/:id/lists'', [], ''shareList''),
    (DELETE, ''/:id/lists/:lid'', [], ''unshareList'')]"

definition contests_routes :: "route list" where
  "contests_routes = group ''/api/v1/contests'' [RequireAuth, setterPlus, UserWriteLimiter 5] [
    (POST, '''', [], ''createContest''),
    (PUT, ''/:id'', [], ''updateContest''),
    (POST, ''/:id/problems'', [], ''setContestProblems'')]"

definition staff_routes :: "route list" where
  "staff_routes = group ''/api/v1/admin'' [RequireAuth, setterPlus] [
    (GET, ''/stats/overview'', [], ''statsOverview''),
    (GET, ''/stats/trend'', [], ''statsTrend''),
    (GET, ''/stats/concurrency'', [], ''statsConcurrency''),
    (GET, ''/stats/load'', [], ''statsLoad''),
    (GET, ''/problems/pending'', [], ''pendingProblems''),
    (POST, ''/problems/:id/review'', [], ''reviewProblem''),
    (GET, ''/plugins'', [], ''pluginList'')]"

definition admin_routes :: "route list" where
  "admin_routes = group ''/api/v1/admin'' [RequireAuth, adminPlus] [
    (GET, ''/users'', [], ''listUsers''),
    (POST, ''/users/import'', [], ''importUsers''),
    (PUT, ''/users/:id/role'', [], ''setUserRole''),
    (PUT, ''/users/:id/profile'', [], ''updateUser''),
    (POST, ''/users/:id/ban'', [], ''setUserBan''),
    (POST, ''/users/:id/reset-password'', [], ''resetUserPassword''),
    (POST, ''/invite-codes'', [], ''createInviteCode''),
    (GET, ''/invite-codes'', [], ''listInviteCodes''),
    (DELETE, ''/invite-codes/:id'', [], ''deleteInviteCode''),
    (GET, ''/daemons'', [], ''listDaemons''),
    (POST, ''/rejudge/:id'', [], ''rejudge''),
    (GET, ''/logs'', [], ''adminLogs''),
    (GET, ''/plugins/sources'', [], ''pluginSources''),
    (GET, ''/hooks'', [], ''listHookTargets''),
    (PUT, ''/hooks/:name'', [], ''setHookTarget''),
    (DELETE, ''/hooks/:name'', [], ''deleteHookTarget'')]"

definition super_routes :: "route list" where
  "super_routes = group ''/api/v1/admin'' [RequireAuth, RequireSuperAdmin] [
    (PUT, ''/users/:id/role/super'', [], ''setSuperRole''),
    (POST, ''/users/:id/ban/super'', [], ''superSetUserBan'')]"

definition jury_routes :: "route list" where
  "jury_routes = group ''/api/v1/contests/:id'' [RequireAuth] [
    (POST, ''/register'', [], ''registerContest''),
    (GET, ''/my-registration'', [], ''myRegistration''),
    (PUT, ''/my-registration'', [], ''editRegistration''),
    (DELETE, ''/my-registration'', [], ''cancelRegistration''),
    (GET, ''/registrations'', [], ''listRegistrations''),
    (PUT, ''/registrations/:uid'', [], ''adminEditRegistration''),
    (DELETE, ''/registrations/:uid'', [], ''adminDeleteRegistration''),
    (GET, ''/notices'', [], ''listNotices''),
    (POST, ''/notices'', [], ''createNotice''),
    (DELETE, ''/notices/:nid'', [], ''deleteNotice''),
    (GET, ''/flags'', [], ''listFlags''),
    (GET, ''/participants'', [], ''listParticipants''),
    (GET, ''/users/search'', [], ''searchContestUsers''),
    (PUT, ''/users/:uid/flags'', [], ''setUserFlags''),
    (POST, ''/submissions/:sid/cancel'', [], ''setContestSubmissionCancel''),
    (POST, ''/submissions/:sid/rejudge'', [], ''rejudgeContestSubmission''),
    (POST, ''/users/:uid/problems/:pid/cancel'', [], ''cancelUserProblem''),
    (POST, ''/problems/:pid/rejudge'', [], ''rejudgeContestProblem''),
    (PUT, ''/freeze'', [], ''setContestFreeze''),
    (PUT, ''/time'', [], ''setContestTime''),
    (PUT, ''/reveal'', [], ''setContestReveal'')]"

definition public_routes :: "route list" where
  "public_routes = group ''/api/v1/public'' [PublicAPIAuth] [
    (GET, ''/users/:id'', [], ''publicUserSummary''),
    (GET, ''/problems'', [], ''publicProblems''),
    (GET, ''/problems/:id/samples'', [], ''publicProblemSamples''),
    (GET, ''/problems/:id/cph'', [], ''publicProblemCph'')]"

definition keyAdmin_routes :: "route list" where
  "keyAdmin_routes = group ''/api/v1/admin/api-keys'' [RequireAuth, adminPlus] [
    (POST, '''', [], ''createAPIKey''),
    (GET, '''', [], ''listAPIKeys''),
    (POST, ''/:id/revoke'', [], ''revokeAPIKey'')]"

definition extImport_routes :: "route list" where
  "extImport_routes = group ''/api/v1/external/problems'' [RequireAuth, UserWriteLimiter 6] [
    (GET, ''/sources'', [], ''externalProblemSources''),
    (POST, ''/preview'', [], ''previewExternalProblem''),
    (POST, ''/import'', [], ''importExternalProblem'')]"

definition ext_routes :: "route list" where
  "ext_routes = group ''/api/v1/external'' [RequireAuth] [
    (GET, ''/bindings'', [], ''myExternalBindings''),
    (PUT, ''/bindings'', [UserWriteLimiter 7], ''upsertExternalBinding''),
    (DELETE, ''/bindings/:platform'', [], ''deleteExternalBinding''),
    (POST, ''/bindings/:platform/sync'', [UserWriteLimiter 8], ''syncExternalBinding'')]"

definition internal_routes :: "route list" where
  "internal_routes = group ''/api/v1/internal'' [RequireDaemonToken] [
    (GET, ''/testdata/:problemId/:caseIndex/:kind'', [], ''serveTestdata'')]"

text \<open>All routes; the groups are given in the order of the router, the routes of a group in their order.\<close>

definition routes :: "route list" where
  "routes = api_routes @ problems_routes @ setter_routes @ create_routes @ lists_routes @ teams_routes @ contests_routes @ staff_routes @ admin_routes @ super_routes @ jury_routes @ public_routes @ keyAdmin_routes @ extImport_routes @ ext_routes @ internal_routes"

definition serve ::
  "gate_config \<Rightarrow> env \<Rightarrow> http_request \<Rightarrow> route \<Rightarrow> gate_state \<Rightarrow> (gate_state, string \<times> request_context) handled" where
  "serve g e rq r st =
     (let cl = Middleware (gc_parse g) (gc_manager g) (env_now e) (hr_Authorization rq)
      in case banGate (gt_db st) cl of
           Some err \<Rightarrow> (st, Inl err)
         | None \<Rightarrow>
             (case pass_all g e rq (rt_gates r) \<lparr>cx_claims = cl, cx_public = None, cx_body_cap = 160 * 2 ^ 20\<rparr> st of
                (st, Inl err) \<Rightarrow> (st, Inl err)
              | (st, Inr cx) \<Rightarrow> (st, Inr (rt_handler r, cx))))"

definition new_gates :: "db \<Rightarrow> ApiKeyRecord table \<Rightarrow> gate_state" where
  "new_gates s keys = \<lparr>gt_db = s, gt_login = loginLimiter, gt_register = registerLimiter,
     gt_write = map (\<lambda>(n, w). newUserLimiter n w) write_budgets,
     gt_public = \<lparr>pu_keys = keys, pu_limiter = newAPIKeyLimiter\<rparr>\<rparr>"

section \<open>Access control\<close>

text \<open>
  The policy by handler: who needs no account, who needs the role of a setter, an administrator or a
  super admin.  Every other handler needs a login.
\<close>

definition open_handlers :: "string list" where
  "open_handlers = [''login'', ''register'', ''listLanguages'', ''publicUserSummary'', ''publicProblems'',
     ''publicProblemSamples'', ''publicProblemCph'']"

definition setter_handlers :: "string list" where
  "setter_handlers = [''createProblem'', ''updateProblem'', ''deleteProblem'', ''uploadTestdata'', ''listTestdata'',
     ''uploadSingleCase'', ''previewCase'', ''deleteSingleCase'', ''copyProblem'', ''exportProblem'',
     ''importProblem'', ''uploadJudgeSource'', ''setCaseScores'', ''listCaseScores'', ''createList'',
     ''updateList'', ''deleteList'', ''createContest'', ''updateContest'', ''setContestProblems'',
     ''statsOverview'', ''statsTrend'', ''statsConcurrency'', ''statsLoad'', ''pendingProblems'',
     ''reviewProblem'', ''pluginList'']"

definition admin_handlers :: "string list" where
  "admin_handlers = [''listUsers'', ''importUsers'', ''setUserRole'', ''updateUser'', ''setUserBan'',
     ''resetUserPassword'', ''createInviteCode'', ''listInviteCodes'', ''deleteInviteCode'', ''listDaemons'',
     ''rejudge'', ''adminLogs'', ''createAPIKey'', ''listAPIKeys'', ''revokeAPIKey'', ''pluginSources'',
     ''listHookTargets'', ''setHookTarget'', ''deleteHookTarget'']"

definition super_handlers :: "string list" where
  "super_handlers = [''setSuperRole'', ''superSetUserBan'']"

definition route_ok :: "route \<Rightarrow> bool" where
  "route_ok r \<longleftrightarrow>
     (rt_handler r \<in> set open_handlers \<or> (rt_handler r = ''serveTestdata'' \<and> RequireDaemonToken \<in> set (rt_gates r))
      \<or> (rt_handler r = ''ws'' \<and> WsAuth \<in> set (rt_gates r)) \<or> RequireAuth \<in> set (rt_gates r))
     \<and> (WsAuth \<in> set (rt_gates r) \<longrightarrow> rt_handler r = ''ws'')
     \<and> (rt_handler r \<in> set setter_handlers \<longrightarrow> setterPlus \<in> set (rt_gates r))
     \<and> (rt_handler r \<in> set admin_handlers \<longrightarrow> adminPlus \<in> set (rt_gates r))
     \<and> (rt_handler r \<in> set super_handlers \<longrightarrow> RequireSuperAdmin \<in> set (rt_gates r))"

lemmas handler_sets = open_handlers_def setter_handlers_def admin_handlers_def super_handlers_def

lemma groups_ok:
  "list_all route_ok api_routes"
  "list_all route_ok problems_routes"
  "list_all route_ok setter_routes"
  "list_all route_ok create_routes"
  "list_all route_ok lists_routes"
  "list_all route_ok teams_routes"
  "list_all route_ok contests_routes"
  "list_all route_ok staff_routes"
  "list_all route_ok admin_routes"
  "list_all route_ok super_routes"
  "list_all route_ok jury_routes"
  "list_all route_ok public_routes"
  "list_all route_ok keyAdmin_routes"
  "list_all route_ok extImport_routes"
  "list_all route_ok ext_routes"
  "list_all route_ok internal_routes"
  by (simp_all add: route_ok_def group_def handler_sets
    api_routes_def problems_routes_def setter_routes_def create_routes_def lists_routes_def teams_routes_def contests_routes_def staff_routes_def
    admin_routes_def super_routes_def jury_routes_def public_routes_def keyAdmin_routes_def extImport_routes_def ext_routes_def internal_routes_def)

lemma routes_ok: "list_all route_ok routes"
  by (simp add: routes_def groups_ok)

text \<open>What passing a gate says of the identity, and that only \<open>WsAuth\<close> changes it.\<close>

definition gate_holds :: "gate_config \<Rightarrow> http_request \<Rightarrow> gate \<Rightarrow> Claims option \<Rightarrow> bool" where
  "gate_holds g rq gt cl \<longleftrightarrow>
     (case gt of
        RequireAuth \<Rightarrow> cl \<noteq> None
      | RequireRole allowed \<Rightarrow> (case cl of None \<Rightarrow> [] | Some c \<Rightarrow> cl_Role c) \<in> set allowed
      | RequireSuperAdmin \<Rightarrow> (\<exists>c. cl = Some c \<and> IsSuperAdmin (cl_Role c))
      | RequireDaemonToken \<Rightarrow> requireDaemonToken (gc_daemon_secret g) (hr_Authorization rq)
      | _ \<Rightarrow> True)"

lemma pass_holds:
  assumes "pass g e rq gt cx st = (st', Inr cx')" and "gt \<noteq> WsAuth"
  shows "gate_holds g rq gt (cx_claims cx) \<and> cx_claims cx' = cx_claims cx"
  using assms
  by (cases gt) (auto simp: gate_holds_def Let_def split: if_splits option.splits prod.splits sum.splits)

lemma pass_all_holds:
  assumes "pass_all g e rq gts cx st = (st', Inr cx')" and "WsAuth \<notin> set gts"
  shows "cx_claims cx' = cx_claims cx \<and> (\<forall>gt \<in> set gts. gate_holds g rq gt (cx_claims cx))"
  using assms
proof (induction gts arbitrary: cx st)
  case (Cons gt gts)
  from Cons.prems(1) obtain st1 cx1 where one: "pass g e rq gt cx st = (st1, Inr cx1)"
    and more: "pass_all g e rq gts cx1 st1 = (st', Inr cx')"
    by (auto split: prod.splits sum.splits)
  from pass_holds [OF one] Cons.prems(2) have "gate_holds g rq gt (cx_claims cx)" "cx_claims cx1 = cx_claims cx"
    by auto
  with Cons.IH [OF more] Cons.prems(2) show ?case by auto
qed simp

lemma ws_route: "r \<in> set routes \<Longrightarrow> WsAuth \<in> set (rt_gates r) \<Longrightarrow> rt_handler r = ''ws''"
  using routes_ok by (auto simp: route_ok_def list_all_iff)

lemma ban_passes:
  "banGate s cl = None \<longleftrightarrow>
    (\<forall>c u. cl = Some c \<longrightarrow> byID u_ID (db_users s) (cl_UserID c) = Some u \<longrightarrow> \<not> u_Banned u)"
  by (auto simp: banGate_def split: option.splits)


definition sample_token :: token where
  "sample_token = \<lparr>cl_UserID = 9, cl_Username = ''ada'', cl_Role = RoleAdmin, tk_Subject = ''ada'',
     tk_ExpiresAt = 3600 * second, tk_IssuedAt = 0\<rparr>"

definition sample_sign :: "string \<Rightarrow> token \<Rightarrow> string option" where
  "sample_sign key tkn = (if key = ''k'' \<and> tkn = sample_token then Some ''T'' else None)"

definition sample_parse :: token_parser where
  "sample_parse now str key = (if str = ''T'' \<and> key ''HS256'' = Some ''k'' \<and> now < tk_ExpiresAt sample_token
     then Some sample_token else None)"

definition sample_gates :: gate_config where
  "sample_gates = \<lparr>gc_parse = sample_parse, gc_manager = NewManager ''k'' 1, gc_sha = (\<lambda>x. x), gc_daemon_secret = ''d''\<rparr>"

definition sample_request :: http_request where
  "sample_request = \<lparr>hr_Authorization = ''Bearer T'', hr_token = [], hr_APIKey = [], hr_api_key = [], hr_ip = ''::1''\<rparr>"

definition users_route :: route where
  "users_route = \<lparr>rt_method = GET, rt_path = ''/api/v1/admin/users'', rt_gates = [RequireAuth, adminPlus],
     rt_handler = ''listUsers''\<rparr>"

lemma users_route_in: "users_route \<in> set routes"
  by (simp add: routes_def admin_routes_def group_def users_route_def)

lemmas sample_serve = serve_def sample_gates_def sample_request_def sample_parse_def sample_token_def NewManager_def
  Middleware_def Parse_def key_for_def Claims.truncate_def banGate_def byID_def tbl_first_def sample_env_def


section \<open>A token comes back\<close>

text \<open>
  A token issued for a user comes back as the identity of that user, with the role the row had
  when it was issued, on every request before it expires.  Of the library it is used that a
  signed token parses under the key it was signed with until its expiry, with the claims it was
  given, and that a token date is less than a second before the time it keeps.
\<close>

theorem token_roundtrip:
  assumes signed: "\<And>key tkn str now kf. sign key tkn = Some str \<Longrightarrow> kf ''HS256'' = Some key \<Longrightarrow>
      now < tk_ExpiresAt tkn \<Longrightarrow> \<exists>tkn'. parse now str kf = Some tkn' \<and> Claims.truncate tkn' = Claims.truncate tkn"
    and kept: "\<And>t. t - second < numeric t"
    and issued: "Issue numeric sign m now u = Some str"
    and fresh: "later + second \<le> now + mg_expire m" and "str \<noteq> []"
  shows "Middleware parse m later (''Bearer '' @ str)
    = Some \<lparr>cl_UserID = u_ID u, cl_Username = u_Username u, cl_Role = u_Role u\<rparr>"
proof -
  have "later < tk_ExpiresAt (claims_for numeric m now u)"
    using kept [of "now + mg_expire m"] fresh by (simp add: claims_for_def)
  with signed [of "mg_secret m" "claims_for numeric m now u" str "key_for m" later] issued
  obtain tkn' where "parse later str (key_for m) = Some tkn'"
    and "Claims.truncate tkn' = Claims.truncate (claims_for numeric m now u)"
    by (auto simp: Issue_def key_for_def)
  with \<open>str \<noteq> []\<close> show ?thesis
    by (simp add: Middleware_def Parse_def claims_for_def Claims.truncate_def)
qed

definition ada :: User where
  "ada = \<lparr>u_ID = 9, u_Username = ''ada'', u_PasswordHash = [], u_Nickname = [], u_Role = RoleAdmin,
     u_StudentNo = [], u_Banned = False, u_CreatedAt = 0, u_LastLoginAt = None\<rparr>"

lemma hour_expires: "mg_expire (NewManager ''k'' 1) = 3600 * second"
  by (simp add: NewManager_def wrap_int_def minute_def second_def)

theorem token_roundtrip_witness:
  "Issue (\<lambda>t. t) sample_sign (NewManager ''k'' 1) 0 ada = Some ''T''
   \<and> Middleware sample_parse (NewManager ''k'' 1) (60 * second) (''Bearer '' @ ''T'')
      = Some \<lparr>cl_UserID = 9, cl_Username = ''ada'', cl_Role = RoleAdmin\<rparr>"
proof -
  have issued: "Issue (\<lambda>t. t) sample_sign (NewManager ''k'' 1) 0 ada = Some ''T''"
    by (simp add: Issue_def sample_sign_def sample_token_def claims_for_def ada_def hour_expires)
      (simp add: NewManager_def)
  have "Middleware sample_parse (NewManager ''k'' 1) (60 * second) (''Bearer '' @ ''T'')
      = Some \<lparr>cl_UserID = u_ID ada, cl_Username = u_Username ada, cl_Role = u_Role ada\<rparr>"
    by (rule token_roundtrip [OF _ _ issued])
      (auto simp: sample_sign_def sample_parse_def second_def hour_expires split: if_splits)
  with issued show ?thesis by (simp add: ada_def)
qed

section \<open>Where the gates leak\<close>

text \<open>
  The gate for banned users looks at the bearer token only.  The push channel reads its token from the
  query: a banned user whose request has no bearer token still connects.
\<close>

definition ws_route_entry :: route where
  "ws_route_entry = \<lparr>rt_method = GET, rt_path = ''/api/v1/ws'', rt_gates = [WsAuth], rt_handler = ''ws''\<rparr>"

lemma banned_user_reaches_push_channel:
  assumes "hr_Authorization rq = []" and "Parse (gc_parse g) (gc_manager g) (env_now e) (hr_token rq) = Some c"
    and "banGate (gt_db st) (Some c) \<noteq> None"
  shows "ws_route_entry \<in> set routes
    \<and> (\<exists>cx. snd (serve g e rq ws_route_entry st) = Inr (''ws'', cx) \<and> cx_claims cx = Some c)"
proof
  show "ws_route_entry \<in> set routes"
    by (simp add: ws_route_entry_def routes_def api_routes_def group_def)
  have "banGate (gt_db st) None = None" by (simp add: banGate_def)
  then show "\<exists>cx. snd (serve g e rq ws_route_entry st) = Inr (''ws'', cx) \<and> cx_claims cx = Some c"
    using assms(1,2) by (simp add: serve_def ws_route_entry_def Middleware_def Let_def)
qed

text \<open>Reviewing a problem is open to setters, who also write problems: an author can approve the own one.\<close>

lemma setters_review:
  "\<lparr>rt_method = POST, rt_path = ''/api/v1/admin/problems/:id/review'', rt_gates = [RequireAuth, setterPlus],
     rt_handler = ''reviewProblem''\<rparr> \<in> set routes"
  by (simp add: routes_def staff_routes_def group_def)

end
