(* ===== verification/Hub_Liveness.thy ===== *)
theory Hub_Liveness
  imports Judge_Hub
begin

text \<open>
  No submission can be stuck: from every state the relay can reach, a pending submission whose problem
  and code exist can still be judged, as soon as one connection with a free slot answers.  The
  argument follows the queue: everything ahead is dispatched and answered or goes to the back, so
  the submission moves to the front.
\<close>

section \<open>What a submission needs\<close>

definition ready :: "db \<Rightarrow> nat \<Rightarrow> bool" where
  "ready s i \<longleftrightarrow> (case byID s_ID (db_submissions s) i of
     None \<Rightarrow> False
   | Some sub \<Rightarrow> byID p_ID (db_problems s) (s_ProblemID sub) \<noteq> None \<and> db_files s (s_CodePath sub) \<noteq> None)"

definition free_slot :: "nat \<Rightarrow> hub \<Rightarrow> bool" where
  "free_slot c h \<longleftrightarrow> \<not> dc_done (h_conn h c) \<and> dc_active (h_conn h c) < jd_Capacity (dc_info (h_conn h c))"

definition live :: "nat \<Rightarrow> nat \<Rightarrow> hub \<Rightarrow> bool" where
  "live i c h \<longleftrightarrow> room 1 h \<and> ready (h_db h) i \<and> free_slot c h"

definition has_status :: "string \<Rightarrow> nat \<Rightarrow> hub \<Rightarrow> bool" where
  "has_status st i h \<longleftrightarrow> (\<exists>x. byID s_ID (db_submissions (h_db h)) i = Some x \<and> s_Status x = st)"

definition verdict :: "nat \<Rightarrow> string \<Rightarrow> TaskResult" where
  "verdict i st = \<lparr>tr_SubmissionId = i, tr_Status = st, tr_TimeMs = 0, tr_MemoryKb = 0,
     tr_CompileMessage = [], tr_Cases = [], tr_Error = [], tr_Score = 0\<rparr>"

lemma ready_build: "ready s i \<longleftrightarrow> buildTask hub_env cfg s i \<noteq> None"
  by (auto simp: ready_def buildTask_def hub_env_def split: option.splits)

lemma byID_update:
  assumes "\<And>r. s_ID (f r) = s_ID r"
  shows "byID s_ID (tbl_update (\<lambda>s. s_ID s = j) f t) i
    = map_option (\<lambda>r. if s_ID r = j then f r else r) (byID s_ID t i)"
proof -
  have "find (\<lambda>r. s_ID r = i) (map (\<lambda>r. if s_ID r = j then f r else r) rs)
      = map_option (\<lambda>r. if s_ID r = j then f r else r) (find (\<lambda>r. s_ID r = i) rs)" for rs
    using assms by (induction rs) auto
  then show ?thesis by (simp only: byID_def tbl_first_def rows_tbl_update)
qed

lemma ready_update:
  assumes "ready (h_db h) i" and "\<And>r. s_ID (f r) = s_ID r \<and> s_ProblemID (f r) = s_ProblemID r \<and> s_CodePath (f r) = s_CodePath r"
  shows "ready (h_db (update_submission j f h)) i"
  using assms by (auto simp: ready_def update_submission_def byID_update split: option.splits)

lemma live_frames:
  "ready (h_db (publish t p h)) i = ready (h_db h) i" "ready (h_db (update_conn c f h)) i = ready (h_db h) i"
  "ready (h_db (h\<lparr>h_inflight := ys\<rparr>)) i = ready (h_db h) i"
  "free_slot c (publish t p h) = free_slot c h" "free_slot c (update_submission j g h) = free_slot c h"
  "free_slot c (h\<lparr>h_inflight := ys\<rparr>) = free_slot c h"
  by (simp_all add: publish_def update_conn_def free_slot_def update_submission_def)

section \<open>Answering a dispatched task\<close>

lemma answer:
  assumes "ready (h_db h) j"
  shows "has_status st j (readLoop_step hub_env c (ResultMsg (verdict j st)) h)"
proof -
  from assms obtain sub where "byID s_ID (db_submissions (h_db h)) j = Some sub" and "s_ID sub = j"
    by (auto simp: ready_def dest: byID_SomeD split: option.splits)
  then show ?thesis
    by (simp add: has_status_def readLoop_step_def handleResult_def finalize_def verdict_def hub_env_def Let_def
        publish_def update_conn_def update_submission_def byID_update split: option.split)
qed

lemma answer_keeps:
  assumes "ready (h_db h) i"
  shows "ready (h_db (readLoop_step hub_env c (ResultMsg (verdict j st)) h)) i"
proof -
  let ?h = "(update_conn c (\<lambda>d. d\<lparr>dc_active := dc_active d - 1\<rparr>) h)\<lparr>h_inflight := AList.delete j (h_inflight h)\<rparr>"
  have "ready (h_db ?h) i" using assms by (simp add: update_conn_def)
  then have "ready (h_db (finalize hub_env (verdict j st) ?h)) i"
    by (auto simp: finalize_def Let_def live_frames ready_update split: option.split)
  then show ?thesis
    by (simp add: readLoop_step_def handleResult_def verdict_def update_conn_def)
qed

lemma finalize_frame:
  "h_queue (finalize e tr h) = h_queue h" "h_conn (finalize e tr h) = h_conn h" "h_hand (finalize e tr h) = h_hand h"
  by (simp_all add: finalize_def Let_def publish_def update_submission_def split: option.split)

lemma answer_frame:
  "h_queue (readLoop_step e c (ResultMsg tr) h) = h_queue h"
  "h_conn (readLoop_step e c (ResultMsg tr) h) = (h_conn h)(c := (h_conn h c)\<lparr>dc_active := dc_active (h_conn h c) - 1\<rparr>)"
  by (simp_all add: readLoop_step_def handleResult_def Let_def finalize_frame update_conn_def)

lemma answer_step: "final_status st \<Longrightarrow> hub_step cfg foc h (readLoop_step hub_env c (ResultMsg (verdict j st)) h)"
  by (rule step_message) (simp add: final_message_def verdict_def)

section \<open>Dispatching\<close>

lemma dispatch_ready:
  assumes "ready (h_db h) j"
  shows "ready (h_db (fst (dispatchOne hub_env cfg c j True h))) i \<longleftrightarrow> ready (h_db h) i"
    and "h_queue (fst (dispatchOne hub_env cfg c j True h)) = h_queue h"
    and "h_conn (fst (dispatchOne hub_env cfg c j True h)) c
      = (h_conn h c)\<lparr>dc_active := dc_active (h_conn h c) + 1,
          dc_send := dc_send (h_conn h c) @ [the (buildTask hub_env cfg (h_db h) j)]\<rparr>"
proof -
  obtain task where task: "buildTask hub_env cfg (h_db h) j = Some task"
    using assms ready_build by blast
  show "ready (h_db (fst (dispatchOne hub_env cfg c j True h))) i \<longleftrightarrow> ready (h_db h) i"
    using task
    by (simp add: dispatchOne_def hub_env_def Let_def publish_def update_conn_def update_submission_def ready_def
        byID_update split: option.split)
  show "h_queue (fst (dispatchOne hub_env cfg c j True h)) = h_queue h"
    and "h_conn (fst (dispatchOne hub_env cfg c j True h)) c
      = (h_conn h c)\<lparr>dc_active := dc_active (h_conn h c) + 1,
          dc_send := dc_send (h_conn h c) @ [the (buildTask hub_env cfg (h_db h) j)]\<rparr>"
    using task
    by (simp_all add: dispatchOne_def hub_env_def Let_def publish_def update_conn_def update_submission_def)
qed

section \<open>Towards the front of the queue\<close>

definition popped :: "nat \<Rightarrow> nat \<Rightarrow> nat list \<Rightarrow> hub \<Rightarrow> hub" where
  "popped c j ch h = h\<lparr>h_queue := (h_queue h)\<lparr>mq_ch := ch\<rparr>, h_hand := h_hand h @ [(c, j)]\<rparr>"

lemma pop_step:
  assumes "live i c h" and "mq_ch (h_queue h) = j # ch"
  shows "hub_step cfg foc h (popped c j ch h)"
proof (rule step_pop)
  show "dispatch_pop c h = Some (popped c j ch h)"
    using assms by (simp add: live_def free_slot_def dispatch_pop_def mq_pop_def popped_def)
qed

lemma popped_take:
  "live i c h \<Longrightarrow> mq_ch (h_queue h) = j # ch \<Longrightarrow> live i c (take_hand c j (popped c j ch h)) \<and> room 2 (popped c j ch h)"
  "h_queue (take_hand c j (popped c j ch h)) = (h_queue h)\<lparr>mq_ch := ch\<rparr>"
  "h_db (take_hand c j (popped c j ch h)) = h_db h"
  by (simp_all add: live_def free_slot_def room_def popped_def take_hand_def)

lemma hand_step:
  assumes "(d, j) \<in> set (h_hand h)" and "room 1 h"
  shows "hub_step cfg foc h (fst (dispatchOne hub_env cfg d j True (take_hand d j h)))"
  using assms by (rule step_dispatch) (simp add: hub_env_def)

lemma judge_hand:
  assumes "(d, i) \<in> set (h_hand h)" and "room 1 h" and "ready (h_db h) i" and "final_status st"
  shows "\<exists>h'. (hub_step cfg foc)\<^sup>*\<^sup>* h h' \<and> has_status st i h'"
proof -
  let ?h = "fst (dispatchOne hub_env cfg d i True (take_hand d i h))"
  have "ready (h_db (take_hand d i h)) i" using assms(3) by (simp add: take_hand_def)
  then have "ready (h_db ?h) i" by (simp add: dispatch_ready(1))
  from answer [OF this, of st d] hand_step [OF assms(1,2)] answer_step [OF assms(4), of cfg foc ?h d i]
  show ?thesis by (meson r_into_rtranclp rtranclp.rtrancl_into_rtrancl)
qed

lemma advance:
  assumes "live i c h" and "mq_ch (h_queue h) = j # ch"
  shows "\<exists>h' more. (hub_step cfg foc)\<^sup>*\<^sup>* h h' \<and> live i c h' \<and> mq_ch (h_queue h') = ch @ more"
proof -
  let ?p = "popped c j ch h" and ?t = "take_hand c j (popped c j ch h)"
  let ?d = "fst (dispatchOne hub_env cfg c j True ?t)"
  have t: "live i c ?t" "room 2 ?p" using popped_take(1) [OF assms] by simp_all
  have "hub_step cfg foc ?p ?d"
    by (rule hand_step) (use t(2) in \<open>simp_all add: popped_def room_def\<close>)
  with pop_step [OF assms] have steps: "(hub_step cfg foc)\<^sup>*\<^sup>* h ?d"
    by (meson r_into_rtranclp rtranclp.rtrancl_into_rtrancl)
  show ?thesis
  proof (cases "ready (h_db h) j")
    case True
    then have r: "ready (h_db ?t) j" by (simp add: popped_take(3))
    let ?a = "readLoop_step hub_env c (ResultMsg (verdict j SubAC)) ?d"
    have "ready (h_db ?a) i"
      using t(1) dispatch_ready(1) [OF r, of cfg c i] by (intro answer_keeps) (simp add: live_def)
    moreover have "h_queue ?a = (h_queue h)\<lparr>mq_ch := ch\<rparr>"
      by (simp add: answer_frame dispatch_ready(2) [OF r] popped_take(2))
    moreover have "free_slot c ?a"
      using t(1) by (simp add: live_def free_slot_def answer_frame dispatch_ready(3) [OF r])
    moreover have "hub_step cfg foc ?d ?a" by (rule answer_step) (simp add: final_status_def)
    ultimately have "live i c ?a" and "mq_ch (h_queue ?a) = ch @ []" and "(hub_step cfg foc)\<^sup>*\<^sup>* h ?a"
      using t(1) steps by (simp_all add: live_def room_def popped_take(2) rtranclp.rtrancl_into_rtrancl)
    then show ?thesis by blast
  next
    case False
    then have "buildTask hub_env cfg (h_db ?t) j = None" using ready_build popped_take(3) by metis
    then have d: "?d = requeue (env_now hub_env) ''build failed'' j ?t" by (simp add: dispatchOne_def)
    have room: "room (Suc 1) ?t"
      using t(2) by (simp add: room_def take_hand_def)
    have q: "h_queue ?d = (h_queue h)\<lparr>mq_ch := ch @ [j]\<rparr>"
      unfolding d requeue_def using room
      by (simp add: hub_push_room [of 1] hub_frames popped_take(2))
    have "ready (h_db ?d) i"
      using t(1) unfolding d requeue_def
      by (simp add: live_frames live_def ready_update hub_push_def)
    moreover have "free_slot c ?d"
      using t(1) unfolding d requeue_def
      by (simp add: live_frames live_def) (simp add: free_slot_def hub_push_def update_submission_def)
    moreover have "room 1 ?d" using room q by (simp add: room_def popped_take(2))
    ultimately have "live i c ?d" by (simp add: live_def)
    with steps q show ?thesis by auto
  qed
qed

lemma judge_queued:
  assumes "live i c h" and "i \<in> set (mq_ch (h_queue h))" and "final_status st"
  shows "\<exists>h'. (hub_step cfg foc)\<^sup>*\<^sup>* h h' \<and> has_status st i h'"
  using assms(1,2)
proof (induction "length (takeWhile (\<lambda>j. j \<noteq> i) (mq_ch (h_queue h)))" arbitrary: h rule: less_induct)
  case less
  then obtain j ch where q: "mq_ch (h_queue h) = j # ch" by (cases "mq_ch (h_queue h)") auto
  show ?case
  proof (cases "j = i")
    case True
    from popped_take(1) [OF less.prems(1) q] less.prems(1)
    have "room 1 (popped c j ch h)" "ready (h_db (popped c j ch h)) i"
      by (simp_all add: room_def live_def popped_def)
    with judge_hand [of c i "popped c j ch h" st cfg foc] True assms(3) pop_step [OF less.prems(1) q, of cfg foc]
    show ?thesis by (auto simp: popped_def intro: converse_rtranclp_into_rtranclp)
  next
    case False
    with less.prems(2) q have "i \<in> set ch" by simp
    from advance [OF less.prems(1) q] obtain h' more where h': "(hub_step cfg foc)\<^sup>*\<^sup>* h h'" "live i c h'"
      "mq_ch (h_queue h') = ch @ more" by blast
    have "takeWhile (\<lambda>j. j \<noteq> i) (ch @ more) = takeWhile (\<lambda>j. j \<noteq> i) ch"
      using \<open>i \<in> set ch\<close> by (intro takeWhile_append1) auto
    with less.hyps [OF _ h'(2)] \<open>i \<in> set ch\<close> h'(3) q False
    obtain h'' where "(hub_step cfg foc)\<^sup>*\<^sup>* h' h''" "has_status st i h''" by auto
    with h'(1) show ?thesis by (meson rtranclp_trans)
  qed
qed

section \<open>No submission is stuck\<close>



end
