(* ===== verification/Testdata.thy ===== *)
theory Testdata
  imports Problems "HOL-Library.AList"
begin

text \<open>
  The test data of the problems: the upload of an archive and its delivery to the judges
  (\<open>testdata.go\<close>), single cases (\<open>case_files.go\<close>), the score table of a problem
  (\<open>plugins_admin.go\<close>) and the upload of a checker or interactor (\<open>judge_source.go\<close>).  A test case
  is a row of the database and up to two files; the row holds size and hash of each.
\<close>

section \<open>The disk\<close>

type_synonym files = "string \<Rightarrow> string option"

text \<open>
  \<open>dk_remove\<close> and \<open>dk_mkdir\<close> are the errors of removing and of making a directory; a failed removal
  leaves the paths \<open>dk_kept\<close>.  A failed write of a path leaves the file alone or with some content.
\<close>

record disk =
  dk_remove :: "string option"
  dk_kept :: "string \<Rightarrow> bool"
  dk_mkdir :: "string option"
  dk_write :: "string \<Rightarrow> (string \<times> string option) option"

definition put_file :: "disk \<Rightarrow> string \<Rightarrow> string \<Rightarrow> files \<Rightarrow> files \<times> string option" where
  "put_file dk p d fs =
     (case dk_write dk p of
        None \<Rightarrow> (fs(p \<mapsto> d), None)
      | Some (err, None) \<Rightarrow> (fs, Some err)
      | Some (err, Some part) \<Rightarrow> (fs(p \<mapsto> part), Some err))"

definition case_file :: "nat \<Rightarrow> int \<Rightarrow> string \<Rightarrow> string" where
  "case_file pid idx kind = testdata_dir pid @ ''/'' @ int_str idx @ ''.'' @ kind"

section \<open>The archive\<close>

text \<open>
  An entry of the archive as \<open>archive/zip\<close> shows it: its name, the size its header states and what
  reading it gives, the error or the bytes.
\<close>

record zip_entry =
  ze_Name :: string
  ze_Size :: nat
  ze_Data :: "string + string"

definition maxZipBytes :: nat where
  "maxZipBytes = 128 * 2 ^ 20"

definition maxCaseBytes :: nat where
  "maxCaseBytes = 256 * 2 ^ 20"

definition readZipFile :: "zip_entry \<Rightarrow> nat \<Rightarrow> string + string" where
  "readZipFile f limit =
     (if wrap_int (int (ze_Size f)) > int limit then Inl (''entry '' @ ze_Name f @ '' too large'')
      else case ze_Data f of Inl err \<Rightarrow> Inl err | Inr d \<Rightarrow> Inr (take (limit + 1) d))"

text \<open>\<open>caseFileRe\<close>: digits, a dot and one of three suffixes.\<close>

definition caseFileRe :: "string \<Rightarrow> (string \<times> string) option" where
  "caseFileRe b =
     (let ds = takeWhile is_digit b; ext = dropWhile is_digit b
      in if ds \<noteq> [] \<and> ext \<in> {''.in'', ''.out'', ''.ans''} then Some (ds, tl ext) else None)"

type_synonym case_map = "(int \<times> zip_entry) list"

definition case_slot :: "zip_entry \<Rightarrow> (int \<times> bool) option" where
  "case_slot f =
     (case caseFileRe (path_base (ze_Name f)) of
        None \<Rightarrow> None
      | Some (ds, ext) \<Rightarrow>
          (case atoi ds of
             None \<Rightarrow> None
           | Some idx \<Rightarrow> if idx < 1 \<or> idx > 100000 then None else Some (idx, ext = ''in'')))"

definition collect_entry :: "zip_entry \<Rightarrow> case_map \<times> case_map \<Rightarrow> case_map \<times> case_map" where
  "collect_entry f m =
     (case case_slot f of
        None \<Rightarrow> m
      | Some (idx, is_input) \<Rightarrow>
          if is_input then (AList.update idx f (fst m), snd m)
          else (fst m, AList.update idx f (snd m)))"

definition collect_cases :: "zip_entry list \<Rightarrow> case_map \<times> case_map" where
  "collect_cases es = fold collect_entry es ([], [])"

section \<open>Storing an archive\<close>

definition blank_case :: TestCase where
  "blank_case = \<lparr>tc_ID = 0, tc_ProblemID = 0, tc_CaseIndex = 0, tc_InputSHA = [], tc_AnswerSHA = [],
     tc_InputSize = 0, tc_AnswerSize = 0, tc_Score = 0, tc_CreatedAt = 0\<rparr>"

text \<open>\<open>sha d\<close> is the hexadecimal SHA-256 of \<open>d\<close>.\<close>

definition storeCase ::
  "(string \<Rightarrow> string) \<Rightarrow> disk \<Rightarrow> nat \<Rightarrow> int \<Rightarrow> zip_entry \<Rightarrow> zip_entry option \<Rightarrow> files \<Rightarrow>
    files \<times> (string + TestCase)" where
  "storeCase sha dk pid idx inp out fs =
     (case readZipFile inp maxCaseBytes of
        Inl err \<Rightarrow> (fs, Inl (''case '' @ int_str idx @ '' input: '' @ err))
      | Inr data \<Rightarrow>
          let tc = blank_case\<lparr>tc_CaseIndex := idx, tc_InputSHA := sha data, tc_InputSize := int (length data)\<rparr>
          in case put_file dk (case_file pid idx ''in'') data fs of
               (fs, Some err) \<Rightarrow> (fs, Inl err)
             | (fs, None) \<Rightarrow>
                 (case out of
                    None \<Rightarrow> (fs, Inr tc)
                  | Some f \<Rightarrow>
                      (case readZipFile f maxCaseBytes of
                         Inl err \<Rightarrow> (fs, Inl (''case '' @ int_str idx @ '' answer: '' @ err))
                       | Inr data \<Rightarrow>
                           (case put_file dk (case_file pid idx ''out'') data fs of
                              (fs, Some err) \<Rightarrow> (fs, Inl err)
                            | (fs, None) \<Rightarrow>
                                (fs, Inr (tc\<lparr>tc_AnswerSHA := sha data, tc_AnswerSize := int (length data)\<rparr>))))))"

definition create_case :: "env \<Rightarrow> TestCase \<Rightarrow> db \<Rightarrow> db \<times> TestCase" where
  "create_case e tc s =
     (let (row, t) = tbl_create (\<lambda>i. tc\<lparr>tc_ID := i, tc_CreatedAt := env_now e\<rparr>) (db_cases s)
      in (s\<lparr>db_cases := t\<rparr>, row))"

text \<open>The loop of the transaction over the indices of the inputs; \<open>n\<close> numbers its statements.\<close>

fun store_cases ::
  "(string \<Rightarrow> string) \<Rightarrow> disk \<Rightarrow> env \<Rightarrow> nat \<Rightarrow> nat \<Rightarrow> case_map \<times> case_map \<Rightarrow> int list \<Rightarrow> db \<Rightarrow>
    db \<times> (string + nat)" where
  "store_cases sha dk e n pid m [] s = (s, Inr n)"
| "store_cases sha dk e n pid m (idx # idxs) s =
     (case storeCase sha dk pid idx (the (map_of (fst m) idx)) (map_of (snd m) idx) (db_files s) of
        (fs, Inl err) \<Rightarrow> (s\<lparr>db_files := fs\<rparr>, Inl err)
      | (fs, Inr tc) \<Rightarrow>
          let s = s\<lparr>db_files := fs\<rparr>
          in if \<not> env_dbok e n then (s, Inl ''create failed'')
             else store_cases sha dk e (Suc n) pid m idxs (fst (create_case e (tc\<lparr>tc_ProblemID := pid\<rparr>) s)))"

text \<open>
  What arrives: whether the form file opens, an error of the temporary file, the number of bytes
  and what \<open>zip.NewReader\<close> makes of them.
\<close>

record upload =
  up_opens :: bool
  up_temp :: "string option"
  up_bytes :: nat
  up_zip :: "string + zip_entry list"

text \<open>
  \<open>order\<close> arranges the keys of the map of inputs as the iteration of Go does; statement 0 deletes the
  old rows, the last one is the commit.  The files are removed and written outside the database.
\<close>

definition storeTestdataZip ::
  "(string \<Rightarrow> string) \<Rightarrow> disk \<Rightarrow> (int list \<Rightarrow> int list) \<Rightarrow> env \<Rightarrow> nat \<Rightarrow> upload \<Rightarrow> db \<Rightarrow> db \<times> (string + nat)" where
  "storeTestdataZip sha dk order e pid up s =
     (case up_temp up of
        Some err \<Rightarrow> (s, Inl err)
      | None \<Rightarrow>
          if min (up_bytes up) (maxZipBytes + 1) > maxZipBytes then (s, Inl ''zip too large (max 128 MB)'')
          else case up_zip up of
            Inl err \<Rightarrow> (s, Inl (''not a valid zip: '' @ err))
          | Inr es \<Rightarrow>
              let m = collect_cases es; dir = testdata_dir pid
              in if fst m = [] then (s, Inl ''zip contains no <n>.in files'')
                 else case dk_remove dk of
                   Some err \<Rightarrow>
                     (s\<lparr>db_files := (\<lambda>p. if dk_kept dk p then db_files s p else remove_all dir (db_files s) p)\<rparr>,
                      Inl err)
                 | None \<Rightarrow>
                     let s = s\<lparr>db_files := remove_all dir (db_files s)\<rparr>
                     in (case dk_mkdir dk of
                           Some err \<Rightarrow> (s, Inl err)
                         | None \<Rightarrow>
                             if \<not> env_dbok e 0 then (s, Inl ''delete failed'')
                             else
                               let (s', r) = store_cases sha dk e 1 pid m (order (map fst (fst m)))
                                     (s\<lparr>db_cases := tbl_delete (\<lambda>t. tc_ProblemID t = pid) (db_cases s)\<rparr>)
                               in (case r of
                                     Inl err \<Rightarrow> (s\<lparr>db_files := db_files s'\<rparr>, Inl err)
                                   | Inr n \<Rightarrow>
                                       if \<not> env_dbok e n then (s\<lparr>db_files := db_files s'\<rparr>, Inl ''commit failed'')
                                       else (s', Inr (n - 1)))))"

definition uploadTestdata ::
  "(string \<Rightarrow> string) \<Rightarrow> disk \<Rightarrow> (int list \<Rightarrow> int list) \<Rightarrow> env \<Rightarrow> Claims \<Rightarrow> string \<Rightarrow> upload option \<Rightarrow> db \<Rightarrow>
    (db, nat) handled" where
  "uploadTestdata sha dk order e cl idstr form s =
     (case problemByID s idstr of
        None \<Rightarrow> (s, Inl (HTTP 404 ''problem not found''))
      | Some prob \<Rightarrow>
          if \<not> canManageProblem cl s prob then (s, Inl (HTTP 403 ''not allowed''))
          else case form of
            None \<Rightarrow> (s, Inl (HTTP 400 ''missing file field''))
          | Some up \<Rightarrow>
              if \<not> up_opens up then (s, Inl (HTTP 400 ''open upload failed''))
              else (case storeTestdataZip sha dk order e (p_ID prob) up s of
                      (s', Inl err) \<Rightarrow> (s', Inl (HTTP 400 err))
                    | (s', Inr k) \<Rightarrow> (s', Inr k)))"

text \<open>The route parameters are validated; \<open>c.File\<close> answers 404 when there is no such file.\<close>

definition serveTestdata :: "string \<Rightarrow> string \<Rightarrow> string \<Rightarrow> files \<Rightarrow> http_error + string" where
  "serveTestdata pidstr idxstr kind fs =
     (if kind \<noteq> ''in'' \<and> kind \<noteq> ''out'' then Inl (HTTP 400 ''bad kind'')
      else case (atoi pidstr, atoi idxstr) of
        (Some pid, Some idx) \<Rightarrow>
          if pid < 1 \<or> idx < 0 \<or> pid > 1000000000 \<or> idx > 100000 then Inl (HTTP 400 ''bad path params'')
          else (let name = (if kind = ''out'' then int_str idx @ ''.out'' else int_str idx @ ''.in'')
                in case fs (''testdata/'' @ int_str pid @ ''/'' @ name) of
                     None \<Rightarrow> Inl (HTTP 404 ''404 page not found'')
                   | Some raw \<Rightarrow> Inr raw)
      | _ \<Rightarrow> Inl (HTTP 400 ''bad path params''))"

section \<open>Single cases\<close>

text \<open>A file of a form: whether it opens, and its bytes; at most 256 MB of them are kept.\<close>

record form_file =
  ff_opens :: bool
  ff_data :: string

definition saveFormFile :: "disk \<Rightarrow> form_file \<Rightarrow> string \<Rightarrow> files \<Rightarrow> files \<times> bool" where
  "saveFormFile dk ff dst fs =
     (if \<not> ff_opens ff then (fs, False)
      else case put_file dk dst (take maxCaseBytes (ff_data ff)) fs of (fs, err) \<Rightarrow> (fs, err = None))"

definition mustRead :: "files \<Rightarrow> string \<Rightarrow> string" where
  "mustRead fs p = (case fs p of None \<Rightarrow> [] | Some raw \<Rightarrow> raw)"

definition fileSize :: "files \<Rightarrow> string \<Rightarrow> int" where
  "fileSize fs p = (case fs p of None \<Rightarrow> 0 | Some raw \<Rightarrow> int (length raw))"

fun max_index :: "int \<Rightarrow> TestCase list \<Rightarrow> int" where
  "max_index k [] = k"
| "max_index k (tc # tcs) = max_index (if tc_CaseIndex tc > k then tc_CaseIndex tc else k) tcs"

definition uploadSingleCase ::
  "(string \<Rightarrow> string) \<Rightarrow> disk \<Rightarrow> env \<Rightarrow> Claims \<Rightarrow> string \<Rightarrow> form_file option \<Rightarrow> form_file option \<Rightarrow> db \<Rightarrow>
    (db, TestCase) handled" where
  "uploadSingleCase sha dk e cl idstr input output s =
     (case problemByID s idstr of
        None \<Rightarrow> (s, Inl (HTTP 404 ''problem not found''))
      | Some prob \<Rightarrow>
          if \<not> canManageProblem cl s prob then (s, Inl (HTTP 403 ''not allowed''))
          else case input of
            None \<Rightarrow> (s, Inl (HTTP 400 ''missing input file''))
          | Some inFile \<Rightarrow>
              if dk_mkdir dk \<noteq> None then (s, Inl (HTTP 500 ''mkdir failed''))
              else
                let pid = p_ID prob;
                    idx = max_index 0 (tbl_select (\<lambda>t. tc_ProblemID t = pid) (db_cases s)) + 1;
                    inPath = case_file pid idx ''in'';
                    outPath = case_file pid idx ''out'';
                    (fs, ok) = saveFormFile dk inFile inPath (db_files s)
                in if \<not> ok then (s\<lparr>db_files := fs\<rparr>, Inl (HTTP 500 ''save input failed''))
                   else
                     let tc = blank_case\<lparr>tc_ProblemID := pid, tc_CaseIndex := idx,
                           tc_InputSHA := sha (mustRead fs inPath), tc_InputSize := fileSize fs inPath\<rparr>;
                         (fs, r) = (case output of
                             None \<Rightarrow> (fs, Some tc)
                           | Some outf \<Rightarrow>
                               (case saveFormFile dk outf outPath fs of
                                  (fs, False) \<Rightarrow> (fs, None)
                                | (fs, True) \<Rightarrow>
                                    (fs, Some (tc\<lparr>tc_AnswerSHA := sha (mustRead fs outPath),
                                               tc_AnswerSize := fileSize fs outPath\<rparr>))));
                         s = s\<lparr>db_files := fs\<rparr>
                     in (case r of
                           None \<Rightarrow> (s, Inl (HTTP 500 ''save output failed''))
                         | Some tc \<Rightarrow>
                             if \<not> env_dbok e 0 then (s, Inl (HTTP 500 ''create case failed''))
                             else let (s, row) = create_case e tc s in (s, Inr row)))"

text \<open>The conversion of an index to \<open>uint\<close> wraps around.\<close>

definition caseParamFile :: "int \<Rightarrow> string \<Rightarrow> string" where
  "caseParamFile caseID kind =
     (if kind = ''out'' then nat_str (nat caseID) @ ''.out'' else nat_str (nat caseID) @ ''.in'')"

definition previewCase :: "Claims \<Rightarrow> string \<Rightarrow> string \<Rightarrow> string \<Rightarrow> db \<Rightarrow> http_error + string" where
  "previewCase cl idstr caseidstr kind s =
     (case problemByID s idstr of
        None \<Rightarrow> Inl (HTTP 404 ''problem not found'')
      | Some prob \<Rightarrow>
          if \<not> canManageProblem cl s prob then Inl (HTTP 404 ''problem not found'')
          else case paramID caseidstr of
            None \<Rightarrow> Inl (HTTP 400 ''invalid case id'')
          | Some caseID \<Rightarrow>
              if kind \<noteq> ''in'' \<and> kind \<noteq> ''out'' then Inl (HTTP 400 ''bad kind'')
              else (case byID tc_ID (db_cases s) caseID of
                 None \<Rightarrow> Inl (HTTP 404 ''test case not found'')
               | Some tc \<Rightarrow>
                   if tc_ProblemID tc \<noteq> p_ID prob then Inl (HTTP 404 ''test case not found'')
                   else (case db_files s (testdata_dir (p_ID prob) @ ''/''
                              @ caseParamFile (tc_CaseIndex tc mod 2 ^ 64) kind) of
                           None \<Rightarrow> Inl (HTTP 404 ''case file not found'')
                         | Some raw \<Rightarrow> Inr (if length raw > 64 * 2 ^ 10 then take (64 * 2 ^ 10) raw else raw))))"

definition deleteSingleCase :: "env \<Rightarrow> Claims \<Rightarrow> string \<Rightarrow> string \<Rightarrow> db \<Rightarrow> (db, unit) handled" where
  "deleteSingleCase e cl idstr caseidstr s =
     (case problemByID s idstr of
        None \<Rightarrow> (s, Inl (HTTP 403 ''not allowed''))
      | Some prob \<Rightarrow>
          if \<not> canManageProblem cl s prob then (s, Inl (HTTP 403 ''not allowed''))
          else case paramID caseidstr of
            None \<Rightarrow> (s, Inl (HTTP 400 ''invalid case id''))
          | Some caseID \<Rightarrow>
              (case byID tc_ID (db_cases s) caseID of
                 None \<Rightarrow> (s, Inl (HTTP 404 ''test case not found''))
               | Some tc \<Rightarrow>
                   if tc_ProblemID tc \<noteq> p_ID prob then (s, Inl (HTTP 404 ''test case not found''))
                   else if \<not> env_dbok e 0 then (s, Inl (HTTP 500 ''delete failed''))
                   else (s\<lparr>db_cases := tbl_delete (\<lambda>r. tc_ID r = tc_ID tc) (db_cases s),
                           db_files := remove_case_files (p_ID prob) (tc_CaseIndex tc) (db_files s)\<rparr>, Inr ())))"

section \<open>The score table\<close>

text \<open>The entries of the body in the order in which the map is iterated.\<close>

fun parse_scores :: "(string \<times> int) list \<Rightarrow> (int \<times> int) list \<Rightarrow> int \<Rightarrow> string + ((int \<times> int) list \<times> int)" where
  "parse_scores [] parsed tot = Inr (parsed, tot)"
| "parse_scores ((k, v) # kvs) parsed tot =
     (case atoi k of
        None \<Rightarrow> Inl (''invalid score entry: '' @ k)
      | Some idx \<Rightarrow>
          if idx < 1 \<or> v < 0 then Inl (''invalid score entry: '' @ k)
          else parse_scores kvs (AList.update idx v parsed) (wrap_int (tot + v)))"

fun set_scores :: "env \<Rightarrow> nat \<Rightarrow> nat \<Rightarrow> (int \<times> int) list \<Rightarrow> db \<Rightarrow> string + db" where
  "set_scores e n pid [] s = Inr s"
| "set_scores e n pid ((idx, v) # kvs) s =
     (let P = (\<lambda>t. tc_ProblemID t = pid \<and> tc_CaseIndex t = idx)
      in if \<not> env_dbok e n then Inl ''update failed''
         else if tbl_count P (db_cases s) = 0 then Inl (''test case '' @ int_str idx @ '' does not exist'')
         else set_scores e (Suc n) pid kvs (s\<lparr>db_cases := tbl_update P (tc_Score_update (\<lambda>_. v)) (db_cases s)\<rparr>))"

text \<open>\<open>order\<close> is the order in which the parsed map is iterated.\<close>

definition setCaseScores ::
  "((int \<times> int) list \<Rightarrow> (int \<times> int) list) \<Rightarrow> env \<Rightarrow> Claims \<Rightarrow> string \<Rightarrow> (string \<times> int) list option \<Rightarrow> db \<Rightarrow>
    (db, int) handled" where
  "setCaseScores order e cl idstr body s =
     (case problemByID s idstr of
        None \<Rightarrow> (s, Inl (HTTP 404 ''problem not found''))
      | Some prob \<Rightarrow>
          if \<not> canManageProblem cl s prob then (s, Inl (HTTP 404 ''problem not found''))
          else case body of
            None \<Rightarrow> (s, Inl (HTTP 400 ''invalid request''))
          | Some scores \<Rightarrow>
              if scores = [] then (s, Inl (HTTP 400 ''invalid request''))
              else (case parse_scores scores [] 0 of
                      Inl err \<Rightarrow> (s, Inl (HTTP 400 err))
                    | Inr (parsed, tot) \<Rightarrow>
                        if tot = 0 then (s, Inl (HTTP 400 ''total score must be positive''))
                        else (case set_scores e 0 (p_ID prob) (order parsed) s of
                                Inl err \<Rightarrow> (s, Inl (HTTP 400 err))
                              | Inr s' \<Rightarrow>
                                  if \<not> env_dbok e (length parsed) then (s, Inl (HTTP 400 ''commit failed''))
                                  else (s', Inr tot))))"

definition listCaseScores :: "Claims \<Rightarrow> string \<Rightarrow> db \<Rightarrow> http_error + (string \<times> int) list \<times> int \<times> nat" where
  "listCaseScores cl idstr s =
     (case problemByID s idstr of
        None \<Rightarrow> Inl (HTTP 404 ''problem not found'')
      | Some prob \<Rightarrow>
          if \<not> canManageProblem cl s prob then Inl (HTTP 404 ''problem not found'')
          else
            let cases = sort_by (\<lambda>a b. tc_CaseIndex a < tc_CaseIndex b)
                  (tbl_select (\<lambda>t. tc_ProblemID t = p_ID prob) (db_cases s))
            in Inr (fold (\<lambda>tc. AList.update (int_str (tc_CaseIndex tc)) (tc_Score tc)) cases [],
                    fold (\<lambda>tc tot. wrap_int (tot + tc_Score tc)) cases 0, length cases))"

section \<open>Checker and interactor sources\<close>

record source_file =
  sf_Filename :: string
  sf_Size :: nat
  sf_opens :: bool
  sf_data :: "string option"

definition maxJudgeSourceBytes :: nat where
  "maxJudgeSourceBytes = 512 * 2 ^ 10"

text \<open>The answer is the kind, the base name of the file and the number of bytes.\<close>

definition uploadJudgeSource ::
  "env \<Rightarrow> Claims \<Rightarrow> string \<Rightarrow> string \<Rightarrow> source_file option \<Rightarrow> db \<Rightarrow> (db, string \<times> string \<times> nat) handled" where
  "uploadJudgeSource e cl idstr kind form s =
     (case problemByID s idstr of
        None \<Rightarrow> (s, Inl (HTTP 404 ''problem not found''))
      | Some prob \<Rightarrow>
          if \<not> canManageProblem cl s prob then (s, Inl (HTTP 403 ''not allowed''))
          else if kind = ''checker'' \<and> p_JudgeMode prob \<noteq> JudgeModeSPJ then
            (s, Inl (HTTP 400 ''the judge mode of the problem is not spj''))
          else if kind = ''interactor'' \<and> p_JudgeMode prob \<noteq> JudgeModeInteractive then
            (s, Inl (HTTP 400 ''the judge mode of the problem is not interactive''))
          else case form of
            None \<Rightarrow> (s, Inl (HTTP 400 ''missing file field''))
          | Some f \<Rightarrow>
              let name = map lower_char (sf_Filename f)
              in if sf_Size f > maxJudgeSourceBytes then (s, Inl (HTTP 400 ''source too large (at most 512 KB)''))
                 else if \<not> ends_with name ''.cpp'' \<and> \<not> ends_with name ''.cc'' \<and> \<not> ends_with name ''.cxx'' then
                   (s, Inl (HTTP 400 ''only C++ sources are supported (.cpp/.cc/.cxx)''))
                 else if \<not> sf_opens f then (s, Inl (HTTP 400 ''open upload failed''))
                 else (case map_option (take (maxJudgeSourceBytes + 1)) (sf_data f) of
                   None \<Rightarrow> (s, Inl (HTTP 400 ''read file failed''))
                 | Some raw \<Rightarrow>
                     if length raw > maxJudgeSourceBytes then (s, Inl (HTTP 400 ''read file failed''))
                     else
                       let prob = (if kind = ''checker'' then prob\<lparr>p_CheckerSource := raw\<rparr>
                                   else prob\<lparr>p_InteractorSrc := raw\<rparr>)
                       in if \<not> env_dbok e 0 then (s, Inl (HTTP 500 ''save failed''))
                          else (save_problem e prob s, Inr (kind, path_base (sf_Filename f), length raw))))"


section \<open>Paths\<close>

lemma split_at_unique:
  "x \<notin> set xs \<Longrightarrow> x \<notin> set ys \<Longrightarrow> xs @ x # us = ys @ x # vs \<longleftrightarrow> xs = ys \<and> us = vs"
proof (induction xs arbitrary: ys)
  case Nil
  then show ?case by (cases ys) auto
next
  case (Cons a xs)
  then show ?case by (cases ys) auto
qed

lemma nat_str_no_sep: "\<not> is_digit c \<Longrightarrow> c \<notin> set (nat_str n)"
  using nat_str_digits [of n] by (auto simp: list_all_iff)

lemma int_str_no_sep: "\<not> is_digit c \<Longrightarrow> c \<noteq> CHR ''-'' \<Longrightarrow> c \<notin> set (int_str i)"
  by (simp add: int_str_def nat_str_no_sep)

lemma int_str_inject_nonneg: "0 \<le> i \<Longrightarrow> 0 \<le> j \<Longrightarrow> int_str i = int_str j \<longleftrightarrow> i = j"
  by (simp add: int_str_def eq_nat_nat_iff)

lemma sep_not_digit [simp]: "\<not> is_digit CHR ''/''" "\<not> is_digit CHR ''.''"
  by (simp_all add: is_digit_def)

lemma case_file_eq:
  assumes "0 \<le> i" and "0 \<le> j"
  shows "case_file p i k = case_file q j l \<longleftrightarrow> p = q \<and> i = j \<and> k = l"
proof -
  have "case_file p i k = case_file q j l
    \<longleftrightarrow> nat_str p @ CHR ''/'' # int_str i @ CHR ''.'' # k = nat_str q @ CHR ''/'' # int_str j @ CHR ''.'' # l"
    by (simp add: case_file_def testdata_dir_def)
  also have "\<dots> \<longleftrightarrow> p = q \<and> i = j \<and> k = l"
    using assms by (simp add: split_at_unique nat_str_no_sep int_str_no_sep int_str_inject_nonneg)
  finally show ?thesis .
qed

lemma remove_all_case_file:
  "remove_all (testdata_dir p) fs (case_file q i k) = (if p = q then None else fs (case_file q i k))"
proof -
  have "is_prefix (testdata_dir p @ ''/'') (case_file q i k) \<longleftrightarrow> p = q"
    by (auto simp: is_prefix_append case_file_def testdata_dir_def split_at_unique nat_str_no_sep)
  then show ?thesis by (simp add: remove_all_def)
qed

lemma remove_case_files_eq:
  "remove_case_files p i fs = fs(case_file p i ''in'' := None, case_file p i ''out'' := None)"
  by (simp add: remove_case_files_def case_file_def)

section \<open>What an archive holds\<close>

text \<open>Of several entries for one slot the last counts.\<close>

definition last_entry :: "zip_entry list \<Rightarrow> int \<Rightarrow> bool \<Rightarrow> zip_entry option" where
  "last_entry es idx is_input = find (\<lambda>f. case_slot f = Some (idx, is_input)) (rev es)"

lemma find_append: "find P (xs @ ys) = (case find P xs of None \<Rightarrow> find P ys | Some x \<Rightarrow> Some x)"
  by (induction xs) auto

lemma collect_cases_snoc: "collect_cases (es @ [f]) = collect_entry f (collect_cases es)"
  by (simp add: collect_cases_def)

lemma last_entry_snoc:
  "last_entry (es @ [f]) i b = (if case_slot f = Some (i, b) then Some f else last_entry es i b)"
  by (simp add: last_entry_def)

lemma map_of_collect:
  "map_of (fst (collect_cases es)) i = last_entry es i True"
  "map_of (snd (collect_cases es)) i = last_entry es i False"
proof (induction es rule: rev_induct)
  case Nil
  show "map_of (fst (collect_cases [])) i = last_entry [] i True"
    and "map_of (snd (collect_cases [])) i = last_entry [] i False"
    by (simp_all add: collect_cases_def last_entry_def)
next
  case (snoc f es)
  then show "map_of (fst (collect_cases (es @ [f]))) i = last_entry (es @ [f]) i True"
    and "map_of (snd (collect_cases (es @ [f]))) i = last_entry (es @ [f]) i False"
    by (auto simp: collect_cases_snoc last_entry_snoc collect_entry_def AList.update_conv'
        split: option.split prod.split)
qed

lemma collect_distinct: "distinct (map fst (fst (collect_cases es)))"
proof (induction es rule: rev_induct)
  case Nil
  show ?case by (simp add: collect_cases_def)
next
  case (snoc f es)
  then show ?case
    by (simp add: collect_cases_snoc collect_entry_def AList.distinct_update split: option.split prod.split)
qed

lemma case_slot_bounds: "case_slot f = Some (i, b) \<Longrightarrow> 1 \<le> i \<and> i \<le> 100000"
  by (auto simp: case_slot_def split: option.splits prod.splits if_splits)

lemma last_entry_SomeD: "last_entry es i b = Some f \<Longrightarrow> f \<in> set es \<and> case_slot f = Some (i, b)"
  using nth_mem [of _ "rev es"] by (auto simp: last_entry_def find_Some_iff)

lemma input_index: "i \<in> set (map fst (fst (collect_cases es))) \<longleftrightarrow> last_entry es i True \<noteq> None"
  by (metis map_of_collect(1) map_of_eq_None_iff set_map)


section \<open>Rows and files agree\<close>

text \<open>A row agrees with the files when each file it names has its size and hash.\<close>

definition file_matches :: "(string \<Rightarrow> string) \<Rightarrow> files \<Rightarrow> string \<Rightarrow> string \<Rightarrow> int \<Rightarrow> bool" where
  "file_matches sha fs p h sz \<longleftrightarrow>
     (case fs p of None \<Rightarrow> False | Some d \<Rightarrow> sha d = h \<and> int (length d) = sz \<and> length d \<le> maxCaseBytes + 1)"

definition case_stored :: "(string \<Rightarrow> string) \<Rightarrow> files \<Rightarrow> TestCase \<Rightarrow> bool" where
  "case_stored sha fs t \<longleftrightarrow>
     1 \<le> tc_CaseIndex t
     \<and> file_matches sha fs (case_file (tc_ProblemID t) (tc_CaseIndex t) ''in'') (tc_InputSHA t) (tc_InputSize t)
     \<and> (tc_AnswerSHA t = [] \<or>
        file_matches sha fs (case_file (tc_ProblemID t) (tc_CaseIndex t) ''out'') (tc_AnswerSHA t) (tc_AnswerSize t))"

definition case_key :: "TestCase \<Rightarrow> nat \<times> int" where
  "case_key t = (tc_ProblemID t, tc_CaseIndex t)"

definition testdata_ok :: "(string \<Rightarrow> string) \<Rightarrow> db \<Rightarrow> bool" where
  "testdata_ok sha s \<longleftrightarrow>
     tbl_ok tc_ID (db_cases s) \<and> distinct (map case_key (rows (db_cases s)))
     \<and> list_all (case_stored sha (db_files s)) (rows (db_cases s))"

lemma case_key_simps [simp]:
  "case_key (t\<lparr>tc_ID := i\<rparr>) = case_key t" "case_key (t\<lparr>tc_CreatedAt := c\<rparr>) = case_key t"
  "case_key (t\<lparr>tc_Score := v\<rparr>) = case_key t"
  by (simp_all add: case_key_def)

lemma case_stored_simps [simp]:
  "case_stored sha fs (t\<lparr>tc_ID := i\<rparr>) = case_stored sha fs t"
  "case_stored sha fs (t\<lparr>tc_CreatedAt := c\<rparr>) = case_stored sha fs t"
  "case_stored sha fs (t\<lparr>tc_Score := v\<rparr>) = case_stored sha fs t"
  by (simp_all add: case_stored_def)

text \<open>Files of other cases may change.\<close>

lemma case_stored_frame:
  assumes "case_stored sha fs t"
    and "\<And>k. fs' (case_file (tc_ProblemID t) (tc_CaseIndex t) k) = fs (case_file (tc_ProblemID t) (tc_CaseIndex t) k)"
  shows "case_stored sha fs' t"
  using assms(1) by (simp add: case_stored_def file_matches_def assms(2))

definition touches :: "nat \<Rightarrow> int \<Rightarrow> files \<Rightarrow> files \<Rightarrow> bool" where
  "touches pid i fs fs' \<longleftrightarrow>
     (\<forall>q j k. 0 \<le> j \<longrightarrow> (q, j) \<noteq> (pid, i) \<longrightarrow> fs' (case_file q j k) = fs (case_file q j k))"

lemma touches_refl [simp]: "touches pid i fs fs"
  by (simp add: touches_def)

lemma touches_trans: "touches pid i f g \<Longrightarrow> touches pid i g h \<Longrightarrow> touches pid i f h"
  by (auto simp: touches_def)

lemma put_file_cases:
  "fst (put_file dk p d fs) = fs \<or> (\<exists>x. fst (put_file dk p d fs) = fs(p \<mapsto> x))"
  "snd (put_file dk p d fs) = None \<Longrightarrow> fst (put_file dk p d fs) = fs(p \<mapsto> d)"
  by (auto simp: put_file_def split: option.splits prod.splits)

lemma touches_update: "0 \<le> i \<Longrightarrow> touches pid i fs (fs(case_file pid i k := x))"
  by (auto simp: touches_def case_file_eq)

lemma touches_put_file:
  assumes "0 \<le> i"
  shows "touches pid i fs (fst (put_file dk (case_file pid i k) d fs))"
  using put_file_cases(1) [of dk "case_file pid i k" d fs] touches_update [OF assms]
  by (metis touches_refl)

lemma case_stored_touches:
  assumes "case_stored sha fs t" and "touches pid i fs fs'" and "case_key t \<noteq> (pid, i)"
  shows "case_stored sha fs' t"
proof (rule case_stored_frame [OF assms(1)])
  have "1 \<le> tc_CaseIndex t" using assms(1) by (simp add: case_stored_def)
  then show "fs' (case_file (tc_ProblemID t) (tc_CaseIndex t) k)
      = fs (case_file (tc_ProblemID t) (tc_CaseIndex t) k)" for k
    using assms(2,3) by (auto simp: touches_def case_key_def)
qed

lemma testdata_ok_touches:
  assumes "testdata_ok sha s" and "touches pid i (db_files s) fs"
    and "(pid, i) \<notin> set (map case_key (rows (db_cases s)))"
  shows "testdata_ok sha (s\<lparr>db_files := fs\<rparr>)"
proof -
  have "case_stored sha fs t" if "t \<in> set (rows (db_cases s))" for t
  proof (rule case_stored_touches [OF _ assms(2)])
    show "case_stored sha (db_files s) t"
      using assms(1) that by (simp add: testdata_ok_def list_all_iff)
    show "case_key t \<noteq> (pid, i)"
      using assms(3) that by (metis image_eqI set_map)
  qed
  then show ?thesis using assms(1) by (simp add: testdata_ok_def list_all_iff)
qed

lemma create_case_simps [simp]:
  "db_cases (fst (create_case e tc s))
    = snd (tbl_create (\<lambda>i. tc\<lparr>tc_ID := i, tc_CreatedAt := env_now e\<rparr>) (db_cases s))"
  "db_files (fst (create_case e tc s)) = db_files s"
  "db_problems (fst (create_case e tc s)) = db_problems s"
  "snd (create_case e tc s) = tc\<lparr>tc_ID := Suc (seq (db_cases s)), tc_CreatedAt := env_now e\<rparr>"
  by (simp_all add: create_case_def table_simps split_beta)

lemma testdata_ok_create:
  assumes "testdata_ok sha s" and "case_stored sha (db_files s) tc"
    and "case_key tc \<notin> set (map case_key (rows (db_cases s)))"
  shows "testdata_ok sha (fst (create_case e tc s))"
  using assms by (auto simp: testdata_ok_def table_simps intro!: tbl_ok_create)

section \<open>A stored archive\<close>

text \<open>What the archive holds for an index: the input and the answer, if any.\<close>

definition slot_data :: "case_map \<times> case_map \<Rightarrow> int \<Rightarrow> (string \<times> string option) option" where
  "slot_data m i =
     (case map_of (fst m) i of
        None \<Rightarrow> None
      | Some f \<Rightarrow>
          (case readZipFile f maxCaseBytes of
             Inl _ \<Rightarrow> None
           | Inr d \<Rightarrow>
               (case map_of (snd m) i of
                  None \<Rightarrow> Some (d, None)
                | Some g \<Rightarrow>
                    (case readZipFile g maxCaseBytes of Inl _ \<Rightarrow> None | Inr a \<Rightarrow> Some (d, Some a)))))"

definition put_slot :: "nat \<Rightarrow> int \<Rightarrow> string \<times> string option \<Rightarrow> files \<Rightarrow> files" where
  "put_slot pid i da fs =
     (case da of
        (d, None) \<Rightarrow> fs(case_file pid i ''in'' \<mapsto> d)
      | (d, Some a) \<Rightarrow> fs(case_file pid i ''in'' \<mapsto> d, case_file pid i ''out'' \<mapsto> a))"

definition slot_row :: "(string \<Rightarrow> string) \<Rightarrow> int \<Rightarrow> string \<times> string option \<Rightarrow> TestCase" where
  "slot_row sha i da =
     (case da of
        (d, None) \<Rightarrow> blank_case\<lparr>tc_CaseIndex := i, tc_InputSHA := sha d, tc_InputSize := int (length d)\<rparr>
      | (d, Some a) \<Rightarrow>
          blank_case\<lparr>tc_CaseIndex := i, tc_InputSHA := sha d, tc_InputSize := int (length d),
            tc_AnswerSHA := sha a, tc_AnswerSize := int (length a)\<rparr>)"

lemma put_file_Pair:
  "put_file dk p d fs = (fs', None) \<Longrightarrow> fs' = fs(p \<mapsto> d)"
  by (auto simp: put_file_def split: option.splits prod.splits)

lemma storeCase_ok:
  assumes "storeCase sha dk pid i (the (map_of (fst m) i)) (map_of (snd m) i) fs = (fs', Inr tc)"
    and "map_of (fst m) i \<noteq> None"
  shows "\<exists>da. slot_data m i = Some da \<and> fs' = put_slot pid i da fs \<and> tc = slot_row sha i da"
  using assms
  by (auto simp: storeCase_def slot_data_def put_slot_def slot_row_def Let_def
      dest!: put_file_Pair split: sum.splits option.splits prod.splits)

lemma readZipFile_length: "readZipFile f n = Inr d \<Longrightarrow> length d \<le> n + 1"
  by (auto simp: readZipFile_def split: if_splits sum.splits)

lemma slot_data_length:
  "slot_data m i = Some (d, a) \<Longrightarrow>
    length d \<le> maxCaseBytes + 1 \<and> (case a of None \<Rightarrow> True | Some x \<Rightarrow> length x \<le> maxCaseBytes + 1)"
  by (auto simp: slot_data_def dest: readZipFile_length split: option.splits sum.splits)

lemma put_slot_touches: "0 \<le> i \<Longrightarrow> touches pid i fs (put_slot pid i da fs)"
  by (auto simp: put_slot_def touches_def case_file_eq split: prod.split option.split)

lemma put_slot_same:
  assumes "0 \<le> i"
  shows "put_slot pid i (d, a) fs (case_file pid i ''in'') = Some d"
    and "a = Some x \<Longrightarrow> put_slot pid i (d, a) fs (case_file pid i ''out'') = Some x"
  using assms by (simp_all add: put_slot_def case_file_eq split: option.split)

definition slot_fits :: "string \<times> string option \<Rightarrow> bool" where
  "slot_fits da \<longleftrightarrow> length (fst da) \<le> maxCaseBytes + 1
     \<and> (case snd da of None \<Rightarrow> True | Some a \<Rightarrow> length a \<le> maxCaseBytes + 1)"

lemma slot_data_fits: "slot_data m i = Some da \<Longrightarrow> slot_fits da"
  using slot_data_length [of m i "fst da" "snd da"] by (simp add: slot_fits_def)

lemma slot_row_stored:
  assumes "slot_fits da" and "1 \<le> i"
  shows "case_stored sha (put_slot pid i da fs) ((slot_row sha i da)\<lparr>tc_ProblemID := pid\<rparr>)"
  using assms
  by (cases da; cases "snd da")
    (auto simp: slot_fits_def case_stored_def slot_row_def file_matches_def blank_case_def put_slot_def case_file_eq)

lemma slot_row_key [simp]: "case_key ((slot_row sha i da)\<lparr>tc_ProblemID := pid\<rparr>) = (pid, i)"
  by (simp add: case_key_def slot_row_def split: prod.split option.split)

text \<open>One round of the loop keeps the agreement when the index is new.\<close>

lemma store_round:
  assumes "testdata_ok sha s" and "slot_fits da" and "1 \<le> i"
    and "(pid, i) \<notin> set (map case_key (rows (db_cases s)))"
  shows "testdata_ok sha (fst (create_case e ((slot_row sha i da)\<lparr>tc_ProblemID := pid\<rparr>)
           (s\<lparr>db_files := put_slot pid i da (db_files s)\<rparr>)))"
proof (rule testdata_ok_create)
  show "testdata_ok sha (s\<lparr>db_files := put_slot pid i da (db_files s)\<rparr>)"
    using assms(1,3,4) by (intro testdata_ok_touches [where pid = pid and i = i] put_slot_touches) auto
qed (use assms slot_row_stored in simp_all)

definition case_facts :: "TestCase \<Rightarrow> (nat \<times> int) \<times> string" where
  "case_facts t = (case_key t, tc_AnswerSHA t)"

lemma store_cases_ok:
  assumes "store_cases sha dk e n pid m idxs s = (s', Inr k)"
    and "testdata_ok sha s" and "distinct idxs"
    and "\<And>i. i \<in> set idxs \<Longrightarrow> 1 \<le> i \<and> map_of (fst m) i \<noteq> None"
    and "\<And>i. i \<in> set idxs \<Longrightarrow> (pid, i) \<notin> set (map case_key (rows (db_cases s)))"
  shows "testdata_ok sha s' \<and> k = n + length idxs
    \<and> map case_key (rows (db_cases s')) = map case_key (rows (db_cases s)) @ map (Pair pid) idxs
    \<and> db_files s' = fold (\<lambda>i. put_slot pid i (the (slot_data m i))) idxs (db_files s)
    \<and> (\<forall>i \<in> set idxs. slot_data m i \<noteq> None)
    \<and> map case_facts (rows (db_cases s')) = map case_facts (rows (db_cases s))
        @ map (\<lambda>i. ((pid, i), tc_AnswerSHA (slot_row sha i (the (slot_data m i))))) idxs"
  using assms
proof (induction idxs arbitrary: n s)
  case Nil
  then show ?case by simp
next
  case (Cons i idxs)
  obtain fs tc where st: "storeCase sha dk pid i (the (map_of (fst m) i)) (map_of (snd m) i) (db_files s) = (fs, Inr tc)"
    using Cons.prems(1) by (auto split: prod.splits sum.splits)
  then obtain da where da: "slot_data m i = Some da" "fs = put_slot pid i da (db_files s)" "tc = slot_row sha i da"
    using storeCase_ok [OF st] Cons.prems(4) [of i] by auto
  define s1 where "s1 = fst (create_case e (tc\<lparr>tc_ProblemID := pid\<rparr>) (s\<lparr>db_files := fs\<rparr>))"
  have run: "store_cases sha dk e (Suc n) pid m idxs s1 = (s', Inr k)"
    using Cons.prems(1) st by (simp add: s1_def Let_def split: if_splits)
  have keys: "map case_key (rows (db_cases s1)) = map case_key (rows (db_cases s)) @ [(pid, i)]"
    by (simp add: s1_def table_simps da(3) del: case_key_simps(1)) (simp add: case_key_def slot_row_def split: prod.split option.split)
  have "testdata_ok sha s1"
    using store_round [OF Cons.prems(2) slot_data_fits [OF da(1)]] Cons.prems(4,5) [of i] by (simp add: s1_def da)
  from Cons.IH [OF run this] Cons.prems(3-5) keys
  have "testdata_ok sha s' \<and> k = Suc n + length idxs
    \<and> map case_key (rows (db_cases s')) = map case_key (rows (db_cases s1)) @ map (Pair pid) idxs
    \<and> db_files s' = fold (\<lambda>i. put_slot pid i (the (slot_data m i))) idxs (db_files s1)
    \<and> (\<forall>i \<in> set idxs. slot_data m i \<noteq> None)
    \<and> map case_facts (rows (db_cases s')) = map case_facts (rows (db_cases s1))
        @ map (\<lambda>i. ((pid, i), tc_AnswerSHA (slot_row sha i (the (slot_data m i))))) idxs"
    by auto
  moreover have "map case_facts (rows (db_cases s1))
      = map case_facts (rows (db_cases s)) @ [((pid, i), tc_AnswerSHA (slot_row sha i da))]"
    using keys by (simp add: s1_def table_simps case_facts_def da(3))
  ultimately show ?case using keys da by (simp add: s1_def)
qed


lemma fold_put_slot_other:
  assumes "\<And>i. i \<in> set idxs \<Longrightarrow> 0 \<le> i" and "0 \<le> j" and "q = pid \<Longrightarrow> j \<notin> set idxs"
  shows "fold (\<lambda>i. put_slot pid i (f i)) idxs fs (case_file q j k) = fs (case_file q j k)"
  using assms
proof (induction idxs arbitrary: fs)
  case (Cons i idxs)
  have "put_slot pid i (f i) fs (case_file q j k) = fs (case_file q j k)"
    using put_slot_touches [of i pid fs "f i"] Cons.prems by (auto simp: touches_def)
  with Cons show ?case by auto
qed simp

lemma fold_put_slot_same:
  assumes "distinct idxs" and "\<And>i. i \<in> set idxs \<Longrightarrow> 0 \<le> i" and "i \<in> set idxs" and "f i = (d, a)"
  shows "fold (\<lambda>i. put_slot pid i (f i)) idxs fs (case_file pid i ''in'') = Some d"
    and "a = Some x \<Longrightarrow> fold (\<lambda>i. put_slot pid i (f i)) idxs fs (case_file pid i ''out'') = Some x"
  using assms
proof (induction idxs arbitrary: fs)
  case (Cons j idxs)
  {
    case 1
    then show ?case
      using Cons.IH(1) put_slot_same(1) [of i pid d a fs] fold_put_slot_other [of idxs i pid pid f]
      by (cases "j = i") auto
  next
    case 2
    then show ?case
      using Cons.IH(2) put_slot_same(2) [of i a x pid d fs] fold_put_slot_other [of idxs i pid pid f]
      by (cases "j = i") auto
  }
qed simp_all

definition cleared :: "nat \<Rightarrow> db \<Rightarrow> db" where
  "cleared pid s = s\<lparr>db_files := remove_all (testdata_dir pid) (db_files s),
     db_cases := tbl_delete (\<lambda>t. tc_ProblemID t = pid) (db_cases s)\<rparr>"

lemma cleared_ok:
  assumes "testdata_ok sha s"
  shows "testdata_ok sha (cleared pid s)"
proof -
  have kept: "case_stored sha (remove_all (testdata_dir pid) (db_files s)) t"
    if "t \<in> set (rows (db_cases s))" and "tc_ProblemID t \<noteq> pid" for t
  proof (rule case_stored_frame)
    show "case_stored sha (db_files s) t"
      using assms that(1) by (simp add: testdata_ok_def list_all_iff)
  qed (use that(2) in \<open>simp add: remove_all_case_file\<close>)
  from assms have ok: "tbl_ok tc_ID (db_cases s)" "distinct (map case_key (rows (db_cases s)))"
    by (simp_all add: testdata_ok_def)
  show ?thesis
    unfolding testdata_ok_def
  proof (intro conjI)
    show "tbl_ok tc_ID (db_cases (cleared pid s))"
      using ok(1) by (simp add: cleared_def tbl_ok_delete)
    show "distinct (map case_key (rows (db_cases (cleared pid s))))"
      using ok(2) by (simp add: cleared_def table_simps distinct_map_filter)
    show "list_all (case_stored sha (db_files (cleared pid s))) (rows (db_cases (cleared pid s)))"
      using kept by (simp add: cleared_def table_simps list_all_iff)
  qed
qed

lemma cleared_keys: "(pid, i) \<notin> set (map case_key (rows (db_cases (cleared pid s))))"
  by (auto simp: cleared_def table_simps case_key_def)

lemma storeTestdataZip_ok:
  assumes "storeTestdataZip sha dk order e pid up s = (s', Inr k)"
    and "testdata_ok sha s" and "\<And>xs. mset (order xs) = mset xs"
  obtains es where "up_zip up = Inr es" and "testdata_ok sha s'"
    and "k = length (fst (collect_cases es))"
    and "\<And>i. (pid, i) \<in> set (map case_key (rows (db_cases s'))) \<longleftrightarrow> last_entry es i True \<noteq> None"
    and "\<And>i. last_entry es i True \<noteq> None \<Longrightarrow>
      \<exists>d a. slot_data (collect_cases es) i = Some (d, a) \<and> db_files s' (case_file pid i ''in'') = Some d
        \<and> (\<forall>x. a = Some x \<longrightarrow> db_files s' (case_file pid i ''out'') = Some x)
        \<and> (\<exists>t \<in> set (rows (db_cases s')). case_key t = (pid, i)
             \<and> tc_AnswerSHA t = (case a of None \<Rightarrow> [] | Some x \<Rightarrow> sha x))"
    and "\<And>q i. q \<noteq> pid \<Longrightarrow>
      (q, i) \<in> set (map case_key (rows (db_cases s'))) \<longleftrightarrow> (q, i) \<in> set (map case_key (rows (db_cases s)))"
proof -
  obtain es where es: "up_zip up = Inr es"
    using assms(1) by (auto simp: storeTestdataZip_def split: option.splits if_splits sum.splits)
  define m where "m = collect_cases es"
  define idxs where "idxs = order (map fst (fst m))"
  have perm: "mset idxs = mset (map fst (fst m))" by (simp add: idxs_def assms(3))
  obtain n where run: "store_cases sha dk e 1 pid m idxs (cleared pid s) = (s', Inr n)" and k: "k = n - 1"
    using assms(1) es
    by (auto simp: storeTestdataZip_def Let_def cleared_def m_def idxs_def
        split: option.splits if_splits sum.splits prod.splits)
  have idx: "i \<in> set idxs \<longleftrightarrow> last_entry es i True \<noteq> None" for i
    using mset_eq_setD [OF perm] input_index [of i es] by (simp add: m_def)
  have dist: "distinct idxs"
    using mset_eq_imp_distinct_iff [OF perm] collect_distinct [of es] by (simp add: m_def)
  have pos: "1 \<le> i \<and> map_of (fst m) i \<noteq> None" if "i \<in> set idxs" for i
    using that by (auto simp: idx m_def map_of_collect dest: last_entry_SomeD case_slot_bounds)
  have pos0: "0 \<le> i" if "i \<in> set idxs" for i using pos [OF that] by simp
  note all = store_cases_ok [OF run cleared_ok [OF assms(2)] dist pos cleared_keys, simplified]
  have keys: "map case_key (rows (db_cases s')) = map case_key (rows (db_cases (cleared pid s))) @ map (Pair pid) idxs"
    using all by blast
  show ?thesis
  proof (rule that [OF es])
    show "testdata_ok sha s'" using all by blast
    show "k = length (fst (collect_cases es))"
      using all k mset_eq_length [OF perm] by (simp add: m_def)
    show "(pid, i) \<in> set (map case_key (rows (db_cases s'))) \<longleftrightarrow> last_entry es i True \<noteq> None" for i
      using cleared_keys [of pid i s] idx [of i] unfolding keys by auto
    show "(q, i) \<in> set (map case_key (rows (db_cases s'))) \<longleftrightarrow> (q, i) \<in> set (map case_key (rows (db_cases s)))"
      if "q \<noteq> pid" for q i
      using that unfolding keys by (auto simp: cleared_def table_simps case_key_def image_iff)
    show "\<exists>d a. slot_data (collect_cases es) i = Some (d, a) \<and> db_files s' (case_file pid i ''in'') = Some d
        \<and> (\<forall>x. a = Some x \<longrightarrow> db_files s' (case_file pid i ''out'') = Some x)
        \<and> (\<exists>t \<in> set (rows (db_cases s')). case_key t = (pid, i)
             \<and> tc_AnswerSHA t = (case a of None \<Rightarrow> [] | Some x \<Rightarrow> sha x))"
      if "last_entry es i True \<noteq> None" for i
    proof -
      have i: "i \<in> set idxs" using that idx by simp
      then obtain d a where da: "slot_data m i = Some (d, a)" using all by auto
      then have slot: "the (slot_data m i) = (d, a)" by simp
      have "((pid, i), tc_AnswerSHA (slot_row sha i (d, a))) \<in> case_facts ` set (rows (db_cases s'))"
      proof -
        have "((pid, i), tc_AnswerSHA (slot_row sha i (d, a)))
            \<in> set (map (\<lambda>i. ((pid, i), tc_AnswerSHA (slot_row sha i (the (slot_data m i))))) idxs)"
          using i da by (auto intro!: image_eqI [where x = i])
        moreover have "set (map case_facts (rows (db_cases s')))
          = set (map case_facts (rows (db_cases (cleared pid s))))
            \<union> set (map (\<lambda>i. ((pid, i), tc_AnswerSHA (slot_row sha i (the (slot_data m i))))) idxs)"
          using all by (metis set_append)
        ultimately show ?thesis unfolding set_map by blast
      qed
      then have row: "\<exists>t \<in> set (rows (db_cases s')). case_key t = (pid, i)
          \<and> tc_AnswerSHA t = (case a of None \<Rightarrow> [] | Some x \<Rightarrow> sha x)"
        by (auto simp: case_facts_def slot_row_def blank_case_def split: option.splits)
      from fold_put_slot_same [where f = "\<lambda>i. the (slot_data m i)" and pid = pid, OF dist pos0 i slot] da all
      show ?thesis using row by (simp add: m_def)
    qed
  qed
qed


section \<open>Single cases keep the agreement\<close>

lemma max_index_bounds: "k \<le> max_index k tcs" "t \<in> set tcs \<Longrightarrow> tc_CaseIndex t \<le> max_index k tcs"
proof (induction tcs arbitrary: k)
  case (Cons a tcs)
  {
    case 1
    show ?case using Cons.IH(1) [of "if tc_CaseIndex a > k then tc_CaseIndex a else k"] by (auto split: if_splits)
  next
    case 2
    then show ?case
      using Cons.IH(1) [of "if tc_CaseIndex a > k then tc_CaseIndex a else k"]
        Cons.IH(2) [of "if tc_CaseIndex a > k then tc_CaseIndex a else k"]
      by (auto split: if_splits)
  }
qed simp_all

definition next_index :: "nat \<Rightarrow> db \<Rightarrow> int" where
  "next_index pid s = max_index 0 (tbl_select (\<lambda>t. tc_ProblemID t = pid) (db_cases s)) + 1"

lemma next_index_new:
  "1 \<le> next_index pid s" "(pid, next_index pid s) \<notin> set (map case_key (rows (db_cases s)))"
proof -
  show "1 \<le> next_index pid s"
    using max_index_bounds(1) [of 0] by (simp add: next_index_def)
  show "(pid, next_index pid s) \<notin> set (map case_key (rows (db_cases s)))"
  proof
    assume "(pid, next_index pid s) \<in> set (map case_key (rows (db_cases s)))"
    then obtain t where t: "t \<in> set (rows (db_cases s))" "tc_ProblemID t = pid" "tc_CaseIndex t = next_index pid s"
      by (auto simp: case_key_def)
    with max_index_bounds(2) [of t "tbl_select (\<lambda>t. tc_ProblemID t = pid) (db_cases s)" 0]
    show False by (simp add: next_index_def tbl_select_def)
  qed
qed

lemma saveFormFile_touches: "0 \<le> i \<Longrightarrow> touches pid i fs (fst (saveFormFile dk ff (case_file pid i k) fs))"
  by (simp add: saveFormFile_def touches_put_file split: prod.split)
     (metis fst_conv touches_put_file)

lemma saveFormFile_ok:
  "saveFormFile dk ff p fs = (fs', True) \<Longrightarrow> fs' = fs(p \<mapsto> take maxCaseBytes (ff_data ff))"
  by (auto simp: saveFormFile_def dest: put_file_Pair split: if_splits prod.splits)

lemma read_back:
  "fs p = Some d \<Longrightarrow> mustRead fs p = d" "fs p = Some d \<Longrightarrow> fileSize fs p = int (length d)"
  by (simp_all add: mustRead_def fileSize_def)

text \<open>The two files of a new case and the row that is made of them.\<close>

definition save_case ::
  "(string \<Rightarrow> string) \<Rightarrow> disk \<Rightarrow> nat \<Rightarrow> int \<Rightarrow> form_file \<Rightarrow> form_file option \<Rightarrow> files \<Rightarrow> files \<times> TestCase option" where
  "save_case sha dk pid idx inFile output fs =
     (case saveFormFile dk inFile (case_file pid idx ''in'') fs of
        (fs, False) \<Rightarrow> (fs, None)
      | (fs, True) \<Rightarrow>
          let tc = blank_case\<lparr>tc_ProblemID := pid, tc_CaseIndex := idx,
                tc_InputSHA := sha (mustRead fs (case_file pid idx ''in'')),
                tc_InputSize := fileSize fs (case_file pid idx ''in'')\<rparr>
          in (case output of
                None \<Rightarrow> (fs, Some tc)
              | Some outf \<Rightarrow>
                  (case saveFormFile dk outf (case_file pid idx ''out'') fs of
                     (fs, False) \<Rightarrow> (fs, None)
                   | (fs, True) \<Rightarrow>
                       (fs, Some (tc\<lparr>tc_AnswerSHA := sha (mustRead fs (case_file pid idx ''out'')),
                                  tc_AnswerSize := fileSize fs (case_file pid idx ''out'')\<rparr>)))))"

lemma save_case_touches:
  assumes "save_case sha dk pid i inFile output fs = (fs', r)" and "0 \<le> i"
  shows "touches pid i fs fs'"
proof -
  note st = saveFormFile_touches [OF assms(2)]
  obtain f1 b where f1: "saveFormFile dk inFile (case_file pid i ''in'') fs = (f1, b)" by fastforce
  have t1: "touches pid i fs f1" using st [of pid fs dk inFile "''in''"] f1 by simp
  show ?thesis
  proof (cases "b \<and> output \<noteq> None")
    case True
    then obtain outf where outf: "output = Some outf" by auto
    obtain f2 c where f2: "saveFormFile dk outf (case_file pid i ''out'') f1 = (f2, c)" by fastforce
    have "touches pid i f1 f2" using st [of pid f1 dk outf "''out''"] f2 by simp
    moreover have "fs' = f2" using assms(1) f1 f2 True outf by (cases c) (simp_all add: save_case_def Let_def)
    ultimately show ?thesis using t1 touches_trans by blast
  next
    case False
    then have "fs' = f1" using assms(1) f1 by (cases b) (simp_all add: save_case_def Let_def)
    with t1 show ?thesis by simp
  qed
qed

lemma save_case_stored:
  assumes "save_case sha dk pid i inFile output fs = (fs', Some tc)" and "1 \<le> i"
  shows "case_stored sha fs' tc \<and> case_key tc = (pid, i)"
  using assms
  by (auto simp: save_case_def Let_def case_stored_def case_key_def file_matches_def blank_case_def mustRead_def
      fileSize_def case_file_eq dest!: saveFormFile_ok split: prod.splits bool.splits option.splits)

lemma uploadSingleCase_alt:
  "uploadSingleCase sha dk e cl idstr input output s =
     (case problemByID s idstr of
        None \<Rightarrow> (s, Inl (HTTP 404 ''problem not found''))
      | Some prob \<Rightarrow>
          if \<not> canManageProblem cl s prob then (s, Inl (HTTP 403 ''not allowed''))
          else case input of
            None \<Rightarrow> (s, Inl (HTTP 400 ''missing input file''))
          | Some inFile \<Rightarrow>
              if dk_mkdir dk \<noteq> None then (s, Inl (HTTP 500 ''mkdir failed''))
              else
                case save_case sha dk (p_ID prob) (next_index (p_ID prob) s) inFile output (db_files s) of
                  (fs, None) \<Rightarrow>
                    (s\<lparr>db_files := fs\<rparr>, Inl (HTTP 500
                       (if snd (saveFormFile dk inFile (case_file (p_ID prob) (next_index (p_ID prob) s) ''in'') (db_files s))
                        then ''save output failed'' else ''save input failed'')))
                | (fs, Some tc) \<Rightarrow>
                    if \<not> env_dbok e 0 then (s\<lparr>db_files := fs\<rparr>, Inl (HTTP 500 ''create case failed''))
                    else (fst (create_case e tc (s\<lparr>db_files := fs\<rparr>)), Inr (snd (create_case e tc (s\<lparr>db_files := fs\<rparr>)))))"
  by (auto simp: uploadSingleCase_def save_case_def next_index_def Let_def split_beta
      split: option.split bool.split)

lemma uploadSingleCase_ok:
  assumes "testdata_ok sha s"
  shows "testdata_ok sha (fst (uploadSingleCase sha dk e cl idstr input output s))"
proof (cases "problemByID s idstr")
  case None
  then show ?thesis using assms by (simp add: uploadSingleCase_alt)
next
  case (Some prob)
  let ?i = "next_index (p_ID prob) s"
  show ?thesis
  proof (cases "canManageProblem cl s prob \<and> input \<noteq> None \<and> dk_mkdir dk = None")
    case True
    then obtain inFile where inp: "input = Some inFile" by auto
    obtain fs r where sv: "save_case sha dk (p_ID prob) ?i inFile output (db_files s) = (fs, r)" by fastforce
    have files: "testdata_ok sha (s\<lparr>db_files := fs\<rparr>)"
      using save_case_touches [OF sv] next_index_new [of "p_ID prob" s]
      by (intro testdata_ok_touches [OF assms]) auto
    show ?thesis
    proof (cases r)
      case None
      then show ?thesis using True Some inp sv files by (simp add: uploadSingleCase_alt)
    next
      case (Some tc)
      have "case_stored sha fs tc \<and> case_key tc = (p_ID prob, ?i)"
        using save_case_stored [OF sv [unfolded Some]] next_index_new(1) by blast
      then have "testdata_ok sha (fst (create_case e tc (s\<lparr>db_files := fs\<rparr>)))"
        using next_index_new(2) [of "p_ID prob" s] by (intro testdata_ok_create [OF files]) simp_all
      then show ?thesis
        using True \<open>problemByID s idstr = Some prob\<close> inp sv files Some by (simp add: uploadSingleCase_alt)
    qed
  qed (use Some assms in \<open>auto simp: uploadSingleCase_alt split: option.split\<close>)
qed


lemma testdata_ok_remove:
  assumes "testdata_ok sha s" and "tc \<in> set (rows (db_cases s))" and pid: "tc_ProblemID tc = pid"
  shows "testdata_ok sha (s\<lparr>db_cases := tbl_delete (\<lambda>r. tc_ID r = tc_ID tc) (db_cases s),
           db_files := remove_case_files pid (tc_CaseIndex tc) (db_files s)\<rparr>)"
proof -
  from assms have ok: "tbl_ok tc_ID (db_cases s)" "distinct (map case_key (rows (db_cases s)))"
    and st: "\<And>t. t \<in> set (rows (db_cases s)) \<Longrightarrow> case_stored sha (db_files s) t"
    by (auto simp: testdata_ok_def list_all_iff)
  have pos: "0 \<le> tc_CaseIndex tc" using st [OF assms(2)] by (simp add: case_stored_def)
  have tch: "touches (tc_ProblemID tc) (tc_CaseIndex tc) (db_files s)
      (remove_case_files (tc_ProblemID tc) (tc_CaseIndex tc) (db_files s))"
    using pos by (auto simp: remove_case_files_eq touches_def case_file_eq)
  have kept: "case_stored sha (remove_case_files (tc_ProblemID tc) (tc_CaseIndex tc) (db_files s)) t"
    if t: "t \<in> set (rows (db_cases s))" "tc_ID t \<noteq> tc_ID tc" for t
  proof (rule case_stored_touches [OF st [OF t(1)] tch])
    show "case_key t \<noteq> (tc_ProblemID tc, tc_CaseIndex tc)"
    proof
      assume "case_key t = (tc_ProblemID tc, tc_CaseIndex tc)"
      then have "case_key t = case_key tc" by (simp add: case_key_def)
      with ok(2) t(1) assms(2) have "t = tc" by (simp add: distinct_map inj_on_def)
      with t(2) show False by simp
    qed
  qed
  with ok show ?thesis
    by (simp add: testdata_ok_def tbl_ok_delete table_simps distinct_map_filter list_all_iff flip: pid)
qed

lemma delete_cases_ok:
  assumes "testdata_ok sha s"
  shows "testdata_ok sha (fst (deleteSingleCase e cl idstr caseidstr s))"
    and "testdata_ok sha (fst (deleteTestdata e cl idstr caseidstr s))"
  using assms
  by (auto simp: deleteSingleCase_def deleteTestdata_def dest!: byID_SomeD intro!: testdata_ok_remove
      split: option.split)

lemma testdata_ok_scores:
  assumes "testdata_ok sha s"
  shows "testdata_ok sha (s\<lparr>db_cases := tbl_update P (tc_Score_update (\<lambda>_. v)) (db_cases s)\<rparr>)"
proof -
  have "map case_key (rows (tbl_update P (tc_Score_update (\<lambda>_. v)) (db_cases s))) = map case_key (rows (db_cases s))"
    by (simp add: table_simps)
  then show ?thesis
    using assms by (auto simp: testdata_ok_def tbl_ok_update table_simps list_all_iff simp del: map_map)
qed

lemma set_scores_ok: "set_scores e n pid kvs s = Inr s' \<Longrightarrow> testdata_ok sha s \<Longrightarrow> testdata_ok sha s'"
  by (induction e n pid kvs s rule: set_scores.induct)
    (auto simp: Let_def testdata_ok_scores split: if_splits)

lemma setCaseScores_ok:
  "testdata_ok sha s \<Longrightarrow> testdata_ok sha (fst (setCaseScores order e cl idstr body s))"
  by (auto simp: setCaseScores_def dest: set_scores_ok split: option.split sum.split)

lemma uploadTestdata_ok:
  assumes "uploadTestdata sha dk order e cl idstr form s = (s', Inr k)"
  obtains prob up where "problemByID s idstr = Some prob" and "form = Some up"
    and "storeTestdataZip sha dk order e (p_ID prob) up s = (s', Inr k)"
  using assms by (auto simp: uploadTestdata_def split: option.splits if_splits prod.splits sum.splits)

text \<open>
  The operations on test data: accepted uploads of archives and every outcome of the others.
\<close>

inductive data_step :: "(string \<Rightarrow> string) \<Rightarrow> db \<Rightarrow> db \<Rightarrow> bool" for sha where
  archive: "\<lbrakk>uploadTestdata sha dk order e cl idstr form s = (s', Inr k); \<And>xs. mset (order xs) = mset xs\<rbrakk>
     \<Longrightarrow> data_step sha s s'"
| single: "data_step sha s (fst (uploadSingleCase sha dk e cl idstr input output s))"
| delete_single: "data_step sha s (fst (deleteSingleCase e cl idstr caseidstr s))"
| delete_row: "data_step sha s (fst (deleteTestdata e cl idstr caseidstr s))"
| scores: "data_step sha s (fst (setCaseScores sorder e cl idstr body s))"

lemma data_step_ok: "data_step sha s s' \<Longrightarrow> testdata_ok sha s \<Longrightarrow> testdata_ok sha s'"
proof (induction rule: data_step.induct)
  case (archive dk order e cl idstr form s s' k)
  obtain prob :: Problem and up where st: "storeTestdataZip sha dk order e (p_ID prob) up s = (s', Inr k)"
    using archive(1) by (rule uploadTestdata_ok)
  show ?case by (rule storeTestdataZip_ok [OF st archive(3,2)])
qed (simp_all add: uploadSingleCase_ok delete_cases_ok setCaseScores_ok)


section \<open>Examples\<close>

definition sample_entry :: "string \<Rightarrow> string \<Rightarrow> zip_entry" where
  "sample_entry name d = \<lparr>ze_Name = name, ze_Size = length d, ze_Data = Inr d\<rparr>"

definition sound_disk :: disk where
  "sound_disk = \<lparr>dk_remove = None, dk_kept = (\<lambda>_. False), dk_mkdir = None, dk_write = (\<lambda>_. None)\<rparr>"

definition sample_archive :: upload where
  "sample_archive = \<lparr>up_opens = True, up_temp = None, up_bytes = 100,
     up_zip = Inr [sample_entry ''d/1.in'' ''3'', sample_entry ''d/1.out'' ''9'', sample_entry ''readme'' ''x'',
                   sample_entry ''2.in'' ''4'']\<rparr>"

definition root_setter :: Claims where
  "root_setter = \<lparr>cl_UserID = 7, cl_Username = ''ann'', cl_Role = RoleSetter\<rparr>"

definition bank_db :: db where
  "bank_db = empty_db\<lparr>db_problems := \<lparr>rows = [blank_problem\<lparr>p_ID := 1, p_Title := ''squares''\<rparr>], seq = 1\<rparr>\<rparr>"

definition calm :: env where
  "calm = \<lparr>env_now = 0, env_dbok = (\<lambda>_. True), env_rand = []\<rparr>"

lemma testdata_ok_no_cases: "db_cases s = empty_table \<Longrightarrow> testdata_ok sha s"
  by (simp add: testdata_ok_def tbl_ok_empty rows_empty_table)

text \<open>An accepted archive, a single case with an answer, a case deleted and the score of the other set.\<close>

definition stored_db :: "(string \<Rightarrow> string) \<Rightarrow> db" where
  "stored_db sha = fst (uploadTestdata sha sound_disk id calm root_setter ''1'' (Some sample_archive) bank_db)"

definition grown_db :: db where
  "grown_db = fst (uploadSingleCase id sound_disk calm root_setter ''1''
     (Some \<lparr>ff_opens = True, ff_data = ''5''\<rparr>) (Some \<lparr>ff_opens = True, ff_data = ''25''\<rparr>) (stored_db id))"

definition cut_db :: db where
  "cut_db = fst (deleteSingleCase calm root_setter ''1'' ''1'' grown_db)"

lemma sample_read: "length d < 100 \<Longrightarrow> readZipFile (sample_entry n d) maxCaseBytes = Inr d"
  by (simp add: readZipFile_def sample_entry_def wrap_int_def maxCaseBytes_def)

lemma sample_collected:
  "collect_cases [sample_entry ''d/1.in'' ''3'', sample_entry ''d/1.out'' ''9'', sample_entry ''readme'' ''x'',
     sample_entry ''2.in'' ''4'']
   = ([(1, sample_entry ''d/1.in'' ''3''), (2, sample_entry ''2.in'' ''4'')], [(1, sample_entry ''d/1.out'' ''9'')])"
  by code_simp

lemma sound_put [simp]: "put_file sound_disk p d fs = (fs(p \<mapsto> d), None)"
  by (simp add: put_file_def sound_disk_def)

lemma bank_problem [simp]:
  "problemByID s ''1'' = byID p_ID (db_problems s) 1"
  "paramID ''1'' = Some 1"
proof -
  show p: "paramID ''1'' = Some 1"
    by (simp add: paramID_def parse_uint64_def str_val_def digit_val_def is_digit_def)
  show "problemByID s ''1'' = byID p_ID (db_problems s) 1"
    by (simp add: problemByID_def p)
qed

lemma sound_store:
  assumes "length d < 100"
  shows "storeCase sha sound_disk pid i (sample_entry n d) None fs
     = (put_slot pid i (d, None) fs, Inr (slot_row sha i (d, None)))"
    and "length a < 100 \<Longrightarrow> storeCase sha sound_disk pid i (sample_entry n d) (Some (sample_entry l a)) fs
     = (put_slot pid i (d, Some a) fs, Inr (slot_row sha i (d, Some a)))"
  unfolding storeCase_def sample_read [OF assms] sum.case option.case Let_def sound_put prod.case
    put_slot_def slot_row_def
  by (rule refl) (simp only: sample_read sum.case option.case prod.case)

lemma sample_stored:
  "snd (store_cases sha sound_disk calm 1 1
     ([(1, sample_entry ''d/1.in'' ''3''), (2, sample_entry ''2.in'' ''4'')], [(1, sample_entry ''d/1.out'' ''9'')])
     [1, 2] s) = Inr 3"
  by (simp add: sound_store calm_def Let_def)

lemma sample_zip: "snd (storeTestdataZip sha sound_disk id calm 1 sample_archive s) = Inr 2"
proof -
  define m :: "case_map \<times> case_map" where "m = ([(1, sample_entry ''d/1.in'' ''3''), (2, sample_entry ''2.in'' ''4'')],
    [(1, sample_entry ''d/1.out'' ''9'')])"
  define s0 where "s0 = s\<lparr>db_files := remove_all (testdata_dir 1) (db_files s),
    db_cases := tbl_delete (\<lambda>t. tc_ProblemID t = 1) (db_cases s)\<rparr>"
  have fields: "up_temp sample_archive = None" "up_bytes sample_archive = 100"
    "up_zip sample_archive = Inr [sample_entry ''d/1.in'' ''3'', sample_entry ''d/1.out'' ''9'',
       sample_entry ''readme'' ''x'', sample_entry ''2.in'' ''4'']"
    "dk_remove sound_disk = None" "dk_mkdir sound_disk = None" "env_dbok calm n" for n
    by (simp_all add: sample_archive_def sound_disk_def calm_def)
  have m: "fst m \<noteq> []" "map fst (fst m) = [1, 2]" by (simp_all add: m_def)
  obtain s' where run: "store_cases sha sound_disk calm 1 1 m [1, 2] s0 = (s', Inr 3)"
    using sample_stored [of sha s0] by (cases "store_cases sha sound_disk calm 1 1 m [1, 2] s0") (simp add: m_def)
  show ?thesis
    by (simp add: storeTestdataZip_def fields maxZipBytes_def sample_collected m run Let_def
        del: One_nat_def store_cases.simps flip: m_def s0_def)
qed

lemma sample_upload:
  "uploadTestdata sha sound_disk id calm root_setter ''1'' (Some sample_archive) bank_db = (stored_db sha, Inr 2)"
proof -
  have "byID p_ID (db_problems bank_db) 1 = Some (blank_problem\<lparr>p_ID := 1, p_Title := ''squares''\<rparr>)"
    by (simp add: byID_def tbl_first_def bank_db_def)
  moreover have "canManageProblem root_setter s prob" for s prob
    by (simp add: canManageProblem_def root_setter_def isSetterRole_def)
  moreover have "up_opens sample_archive" by (simp add: sample_archive_def)
  ultimately have "snd (uploadTestdata sha sound_disk id calm root_setter ''1'' (Some sample_archive) bank_db) = Inr 2"
    using sample_zip [of sha bank_db] by (simp add: uploadTestdata_def split_beta)
  then show ?thesis by (simp add: stored_db_def prod_eq_iff)
qed

lemma stored_second: "(1, 2) \<in> set (map case_key (rows (db_cases (stored_db sha))))"
proof -
  obtain s' where zip: "storeTestdataZip sha sound_disk id calm 1 sample_archive bank_db = (s', Inr 2)"
    using sample_zip [of sha bank_db]
    by (cases "storeTestdataZip sha sound_disk id calm 1 sample_archive bank_db") simp
  have "stored_db sha = s'"
  proof -
    obtain prob up where up: "problemByID bank_db ''1'' = Some prob" "Some sample_archive = Some up"
      "storeTestdataZip sha sound_disk id calm (p_ID prob) up bank_db = (stored_db sha, Inr 2)"
      using sample_upload by (rule uploadTestdata_ok)
    from up(1) have "p_ID prob = 1" by (auto dest: byID_SomeD)
    with up zip show ?thesis by simp
  qed
  moreover have "(1, 2) \<in> set (map case_key (rows (db_cases s')))"
  proof (rule storeTestdataZip_ok [OF zip])
    show "testdata_ok sha bank_db" by (rule testdata_ok_no_cases) (simp add: bank_db_def empty_db_def)
  next
    fix es
    assume es: "up_zip sample_archive = Inr es"
      and iff: "\<And>i. ((1, i) \<in> set (map case_key (rows (db_cases s')))) = (last_entry es i True \<noteq> None)"
    have "fst (collect_cases es) = [(1, sample_entry ''d/1.in'' ''3''), (2, sample_entry ''2.in'' ''4'')]"
      using es sample_collected by (simp add: sample_archive_def)
    then have "last_entry es 2 True \<noteq> None" using input_index [of 2 es] by simp
    with iff show "(1, 2) \<in> set (map case_key (rows (db_cases s')))" by blast
  qed simp
  ultimately show ?thesis by simp
qed


section \<open>What goes wrong\<close>

text \<open>
  The old files are removed before the transaction: when it fails the rows stay and their files are
  gone.
\<close>

lemma failed_upload_loses_files:
  assumes "up_temp up = None" and "up_bytes up \<le> maxZipBytes" and "up_zip up = Inr es"
    and "last_entry es i True \<noteq> None" and "dk_remove dk = None" and "dk_mkdir dk = None"
    and "\<not> env_dbok e 0" and "t \<in> set (rows (db_cases s))" and "tc_ProblemID t = pid"
  shows "\<exists>s' err. storeTestdataZip sha dk order e pid up s = (s', Inl err)
    \<and> t \<in> set (rows (db_cases s')) \<and> \<not> case_stored sha (db_files s') t"
proof -
  have "fst (collect_cases es) \<noteq> []" using assms(4) input_index [of i es] by auto
  with assms show ?thesis
    by (simp add: storeTestdataZip_def case_stored_def file_matches_def remove_all_case_file)
qed

text \<open>A single case may get an index that the delivery refuses.\<close>

lemma index_beyond_delivery:
  assumes "t \<in> set (rows (db_cases s))" and "tc_ProblemID t = pid" and "100000 \<le> tc_CaseIndex t"
  shows "next_index pid s > 100000"
    and "kind = ''in'' \<or> kind = ''out'' \<Longrightarrow> 100000 < idx \<Longrightarrow> atoi idxstr = Some idx \<Longrightarrow>
      \<exists>err. serveTestdata pidstr idxstr kind fs = Inl err"
  using assms max_index_bounds(2) [of t "tbl_select (\<lambda>t. tc_ProblemID t = pid) (db_cases s)" 0]
  by (auto simp: next_index_def tbl_select_def serveTestdata_def split: option.split)

text \<open>Two spellings of an index: one row is updated, the total counts both.\<close>

lemma total_counts_twice:
  "parse_scores [(''1'', 50), (''01'', 50)] [] 0 = Inr ([(1, 50)], 100)"
  by code_simp

end
