(* ===== verification/Testdata_Delivery.thy ===== *)
theory Testdata_Delivery
  imports Testdata Judge_Service
begin

text \<open>
  The way of a test file from the archive a setter uploads to the judge: the server's side is
  \<open>Testdata\<close>, the judge's side is \<open>blob\<close> of \<open>Judge_Service\<close>, and between them is the route
  \<open>/internal/testdata/:problemId/:caseIndex/:kind\<close> of \<open>router.go\<close>.
\<close>

section \<open>The route\<close>

definition answer_of :: "http_error + string \<Rightarrow> nat \<times> string" where
  "answer_of r = (case r of Inl err \<Rightarrow> (http_status err, http_text err) | Inr d \<Rightarrow> (200, d))"

text \<open>
  What a judge that may use the route is answered: the three segments after the prefix are the
  parameters of \<open>serveTestdata\<close>, and a path with more segments has no route.
\<close>

definition internal_get :: "string \<Rightarrow> files \<Rightarrow> string \<Rightarrow> string + nat \<times> string" where
  "internal_get base fs url =
     (let pre = base @ ''/api/v1/internal/testdata/'';
          seg = takeWhile (\<lambda>c. c \<noteq> CHR ''/''); rem = (\<lambda>p. tl (dropWhile (\<lambda>c. c \<noteq> CHR ''/'') p));
          p = drop (length pre) url
      in if is_prefix pre url \<and> list_all (\<lambda>c. c \<noteq> CHR ''/'') (rem (rem p))
         then Inr (answer_of (serveTestdata (seg p) (seg (rem p)) (rem (rem p)) fs))
         else Inr (404, ''404 page not found''))"

lemma seg_append:
  assumes "x \<notin> set xs"
  shows "takeWhile (\<lambda>c. c \<noteq> x) (xs @ x # ys) = xs" "dropWhile (\<lambda>c. c \<noteq> x) (xs @ x # ys) = x # ys"
  using assms by (induction xs) auto

lemma internal_get_case:
  assumes "CHR ''/'' \<notin> set kind"
  shows "internal_get base fs (base @ ''/api/v1/internal/testdata/'' @ nat_str pid @ ''/'' @ int_str i @ ''/'' @ kind)
    = Inr (answer_of (serveTestdata (nat_str pid) (int_str i) kind fs))"
proof -
  define pre where "pre = base @ ''/api/v1/internal/testdata/''"
  define q where "q = nat_str pid @ CHR ''/'' # int_str i @ CHR ''/'' # kind"
  have url: "base @ ''/api/v1/internal/testdata/'' @ nat_str pid @ ''/'' @ int_str i @ ''/'' @ kind = pre @ q"
    by (simp add: pre_def q_def)
  have "is_prefix pre (pre @ q)" "drop (length pre) (pre @ q) = q"
    by (simp_all add: is_prefix_append)
  moreover have "list_all (\<lambda>c. c \<noteq> CHR ''/'') kind"
    using assms by (auto simp: list_all_iff)
  ultimately show ?thesis
    unfolding url unfolding internal_get_def Let_def pre_def [symmetric]
    by (simp add: q_def seg_append nat_str_no_sep int_str_no_sep)
qed

section \<open>Numbers in the path\<close>

lemma serve_case:
  assumes "1 \<le> pid" and "pid \<le> 1000000000" and "0 \<le> i" and "i \<le> 100000" and "kind = ''in'' \<or> kind = ''out''"
  shows "serveTestdata (nat_str pid) (int_str i) kind fs
    = (case fs (case_file pid i kind) of None \<Rightarrow> Inl (HTTP 404 ''404 page not found'') | Some raw \<Rightarrow> Inr raw)"
  using assms by (auto simp: serveTestdata_def atoi_nat_str atoi_int_str case_file_def testdata_dir_def int_str_def)

section \<open>From the archive to the judge\<close>

text \<open>
  \<open>archive/zip\<close>: an entry that can be read to its end has the size its header states, which a real
  file keeps below \<open>2 ^ 63\<close>.
\<close>

definition zip_sound :: "zip_entry \<Rightarrow> bool" where
  "zip_sound f \<longleftrightarrow> ze_Size f < 2 ^ 63 \<and> (case ze_Data f of Inl _ \<Rightarrow> True | Inr d \<Rightarrow> length d = ze_Size f)"

lemma readZipFile_sound:
  assumes "zip_sound f" and "readZipFile f maxCaseBytes = Inr d"
  shows "ze_Data f = Inr d \<and> length d \<le> maxCaseBytes"
proof -
  have "int (ze_Size f) < 2 ^ 63"
    using assms(1) by (metis of_nat_less_numeral_power_cancel_iff of_nat_numeral zip_sound_def)
  then have "wrap_int (int (ze_Size f)) = int (ze_Size f)" by (simp add: wrap_int_def)
  with assms show ?thesis by (auto simp: readZipFile_def zip_sound_def split: if_splits sum.splits)
qed

lemma fetched:
  assumes "ho_get ho = internal_get (sv_FetchBase sv) fs" and "1 \<le> pid" and "pid \<le> 1000000000"
    and "0 \<le> i" and "i \<le> 100000" and "kind = ''in'' \<or> kind = ''out''" and "k_ProblemID task = pid"
    and "file_matches (ho_sha256 ho) fs (case_file pid i kind) h sz" and "h \<noteq> []"
    and "fs (case_file pid i kind) = Some d" and "length d \<le> maxCaseBytes"
    and "disk (path_join (sv_BlobDir sv) h) = None"
  shows "snd (blob ho sv task h sz i kind disk) = Inr d"
proof -
  have "ho_get ho (sv_FetchBase sv @ ''/api/v1/internal/testdata/'' @ nat_str pid @ ''/'' @ int_str i @ ''/'' @ kind)
      = Inr (200, d)"
    unfolding assms(1) by (subst internal_get_case) (use assms in \<open>auto simp: serve_case answer_of_def\<close>)
  then show ?thesis
    using assms by (simp add: blob_def fetchBlob_def file_matches_def maxCaseBytes_def Let_def)
qed

lemma slot_data_sound:
  assumes "slot_data (collect_cases es) i = Some (d, a)" and "list_all zip_sound es"
  shows "\<exists>f. last_entry es i True = Some f \<and> ze_Data f = Inr d \<and> length d \<le> maxCaseBytes"
    and "last_entry es i False = Some g \<Longrightarrow> \<exists>x. a = Some x \<and> ze_Data g = Inr x \<and> length x \<le> maxCaseBytes"
  using assms
  by (auto simp: slot_data_def map_of_collect list_all_iff dest!: readZipFile_sound dest: last_entry_SomeD
      split: option.splits sum.splits)

text \<open>
  C8. What the setter packed is what the judge reads: after an accepted upload, the last entry of the
  archive for the input of case \<open>i\<close>, and the last one for its answer, are the bytes that a judge with
  an empty blob cache gets for that case by the hashes and sizes of its row, checks included.  The
  hypotheses: Go iterates over a map in some order of its keys, entries of the archive have the size
  their headers state, a hash is not empty, the problem has an id that the delivery accepts, and the
  judge asks this server.
\<close>

theorem uploaded_case_reaches_judge:
  assumes "uploadTestdata sha dk order e cl idstr (Some up) s = (s', Inr k)"
    and "testdata_ok sha s" and "\<And>xs. mset (order xs) = mset xs"
    and "up_zip up = Inr es" and "list_all zip_sound es" and "\<And>x. sha x \<noteq> []"
    and "problemByID s idstr = Some prob" and "p_ID prob \<le> 1000000000"
    and "last_entry es i True = Some f"
    and "ho_get ho = internal_get (sv_FetchBase sv) (db_files s')" and "ho_sha256 ho = sha"
    and "k_ProblemID task = p_ID prob" and "\<And>h. disk (path_join (sv_BlobDir sv) h) = None"
  shows "\<exists>t d. t \<in> set (rows (db_cases s')) \<and> tc_ProblemID t = p_ID prob \<and> tc_CaseIndex t = i
    \<and> ze_Data f = Inr d
    \<and> snd (blob ho sv task (tc_InputSHA t) (tc_InputSize t) i ''in'' disk) = Inr d
    \<and> (case last_entry es i False of
         None \<Rightarrow> tc_AnswerSHA t = []
       | Some g \<Rightarrow> \<exists>a. ze_Data g = Inr a
           \<and> snd (blob ho sv task (tc_AnswerSHA t) (tc_AnswerSize t) i ''out'' disk) = Inr a)"
proof -
  have zip: "storeTestdataZip sha dk order e (p_ID prob) up s = (s', Inr k)"
    using assms(1,7) by (auto elim!: uploadTestdata_ok)
  have pid: "1 \<le> p_ID prob"
    using assms(7) by (auto simp: problemByID_def dest!: byID_SomeD paramID_range split: option.splits)
  have i: "0 \<le> i" "i \<le> 100000"
    using last_entry_SomeD [OF assms(9)] case_slot_bounds [of f i True] by auto
  obtain d a t where ok: "testdata_ok sha s'" and sd: "slot_data (collect_cases es) i = Some (d, a)"
    and fs: "db_files s' (case_file (p_ID prob) i ''in'') = Some d"
      "\<And>x. a = Some x \<Longrightarrow> db_files s' (case_file (p_ID prob) i ''out'') = Some x"
    and t: "t \<in> set (rows (db_cases s'))" "case_key t = (p_ID prob, i)"
      "tc_AnswerSHA t = (case a of None \<Rightarrow> [] | Some x \<Rightarrow> sha x)"
    using storeTestdataZip_ok [OF zip assms(2,3)] assms(4,9) by (smt (verit, best) Inr_inject option.distinct(1))
  have st: "case_stored sha (db_files s') t"
    using ok t(1) by (simp add: testdata_ok_def list_all_iff)
  have key: "tc_ProblemID t = p_ID prob" "tc_CaseIndex t = i" using t(2) by (simp_all add: case_key_def)
  show ?thesis
  proof (intro exI conjI)
    show "t \<in> set (rows (db_cases s'))" "tc_ProblemID t = p_ID prob" "tc_CaseIndex t = i" by fact+
    have d: "ze_Data f = Inr d" "length d \<le> maxCaseBytes"
      using slot_data_sound(1) [OF sd assms(5)] assms(9) by auto
    show "ze_Data f = Inr d" by fact
    have "file_matches sha (db_files s') (case_file (p_ID prob) i ''in'') (tc_InputSHA t) (tc_InputSize t)"
      using st key by (simp add: case_stored_def)
    moreover from this fs(1) assms(6) have "tc_InputSHA t \<noteq> []" by (auto simp: file_matches_def)
    ultimately show "snd (blob ho sv task (tc_InputSHA t) (tc_InputSize t) i ''in'' disk) = Inr d"
      using assms(8,10-13) pid i fs(1) d by (intro fetched [where fs = "db_files s'" and pid = "p_ID prob"]) auto
    show "case last_entry es i False of
         None \<Rightarrow> tc_AnswerSHA t = []
       | Some g \<Rightarrow> \<exists>a. ze_Data g = Inr a
           \<and> snd (blob ho sv task (tc_AnswerSHA t) (tc_AnswerSize t) i ''out'' disk) = Inr a"
    proof (cases "last_entry es i False")
      case None
      then have "a = None" using sd by (auto simp: slot_data_def map_of_collect split: option.splits sum.splits)
      with None t(3) show ?thesis by simp
    next
      case (Some g)
      then obtain x where x: "a = Some x" "ze_Data g = Inr x" "length x \<le> maxCaseBytes"
        using slot_data_sound(2) [OF sd assms(5)] by blast
      have h: "tc_AnswerSHA t \<noteq> []" using t(3) x(1) assms(6) by simp
      then have "file_matches sha (db_files s') (case_file (p_ID prob) i ''out'') (tc_AnswerSHA t) (tc_AnswerSize t)"
        using st key by (simp add: case_stored_def)
      then have "snd (blob ho sv task (tc_AnswerSHA t) (tc_AnswerSize t) i ''out'' disk) = Inr x"
        using assms(8,10-13) pid i fs(2) [OF x(1)] x(3) h by (intro fetched [where fs = "db_files s'" and pid = "p_ID prob"]) auto
      with Some x(2) show ?thesis by simp
    qed
  qed
qed

text \<open>A judge asking the server that took the archive of two cases.\<close>

definition tagged :: "string \<Rightarrow> string" where
  "tagged d = CHR ''h'' # d"

definition asking_host :: host where
  "asking_host = \<lparr>ho_run = (\<lambda>_ f. (f, Inl [])), ho_pair = (\<lambda>_ _ _ f. (f, Inl [])), ho_write = (\<lambda>_. None),
     ho_chown = (\<lambda>_. None), ho_mkdir = (\<lambda>_. None), ho_tmp = (\<lambda>_. Inl []),
     ho_get = internal_get ''http://oj'' (db_files (stored_db tagged)), ho_sha256 = tagged,
     ho_cancelled = (\<lambda>_. False)\<rparr>"

definition asking_service :: Service where
  "asking_service = \<lparr>sv_Reg = [], sv_CacheRoot = ''/c'', sv_BlobDir = ''/b'', sv_FetchBase = ''http://oj'',
     sv_MaxCases = 100, sv_CaseWorkers = 1\<rparr>"

definition asking_task :: Task where
  "asking_task = \<lparr>k_SubmissionID = 1, k_ProblemID = 1, k_LanguageID = ''cpp17'', k_Code = [],
     k_TimeLimitMS = 1000, k_MemLimitMB = 256, k_JudgeMode = ''default'', k_CheckerSource = [],
     k_InteractorSource = [], k_Cases = [], k_StopOnFail = False\<rparr>"

lemma uploaded_case_reaches_judge_witness:
  "\<exists>t. t \<in> set (rows (db_cases (stored_db tagged))) \<and> tc_CaseIndex t = 1
     \<and> snd (blob asking_host asking_service asking_task (tc_InputSHA t) (tc_InputSize t) 1 ''in'' (\<lambda>_. None)) = Inr ''3''
     \<and> snd (blob asking_host asking_service asking_task (tc_AnswerSHA t) (tc_AnswerSize t) 1 ''out'' (\<lambda>_. None)) = Inr ''9''"
proof -
  define es where "es = [sample_entry ''d/1.in'' ''3'', sample_entry ''d/1.out'' ''9'', sample_entry ''readme'' ''x'',
     sample_entry ''2.in'' ''4'']"
  have zip: "up_zip sample_archive = Inr es" by (simp add: sample_archive_def es_def)
  have entries: "last_entry es 1 True = Some (sample_entry ''d/1.in'' ''3'')"
    "last_entry es 1 False = Some (sample_entry ''d/1.out'' ''9'')"
    using map_of_collect [of es 1] sample_collected by (simp_all add: es_def)
  have sound: "list_all zip_sound es" by (simp add: es_def zip_sound_def sample_entry_def)
  have prob: "problemByID bank_db ''1'' = Some (blank_problem\<lparr>p_ID := 1, p_Title := ''squares''\<rparr>)"
    by (simp add: byID_def tbl_first_def bank_db_def)
  have ok: "testdata_ok tagged bank_db"
    by (rule testdata_ok_no_cases) (simp add: bank_db_def empty_db_def)
  have "\<exists>t d. t \<in> set (rows (db_cases (stored_db tagged))) \<and> tc_ProblemID t = 1 \<and> tc_CaseIndex t = 1
    \<and> ze_Data (sample_entry ''d/1.in'' ''3'') = Inr d
    \<and> snd (blob asking_host asking_service asking_task (tc_InputSHA t) (tc_InputSize t) 1 ''in'' (\<lambda>_. None)) = Inr d
    \<and> (case last_entry es 1 False of
         None \<Rightarrow> tc_AnswerSHA t = []
       | Some g \<Rightarrow> \<exists>a. ze_Data g = Inr a
           \<and> snd (blob asking_host asking_service asking_task (tc_AnswerSHA t) (tc_AnswerSize t) 1 ''out'' (\<lambda>_. None)) = Inr a)"
    using uploaded_case_reaches_judge [OF sample_upload ok _ zip sound _ prob _ entries(1),
        where ho = asking_host and sv = asking_service and task = asking_task and disk = "\<lambda>_. None"]
    by (simp add: tagged_def asking_host_def asking_service_def asking_task_def)
  then show ?thesis by (auto simp: entries sample_entry_def)
qed

end
