(* ===== verification/Problem_Import.thy ===== *)
theory Problem_Import
  imports Testdata
begin

text \<open>
  Import of a problem package (\<open>problem_import.go\<close>): the scan of an archive in one of three layouts,
  the reading of \<open>meta.txt\<close> and \<open>problem.yaml\<close>, the natural order of the test files, and the storing
  of the new problem.  Texts the program writes in Chinese are given in English.
\<close>

section \<open>The flat YAML subset\<close>

type_synonym kv = "(string \<times> string) list"

definition kv_get :: "kv \<Rightarrow> string \<Rightarrow> string" where
  "kv_get m k = (case map_of m k of None \<Rightarrow> [] | Some v \<Rightarrow> v)"

definition quotes :: string where
  "quotes = [CHR 0x22, CHR 0x27]"

definition flow_item :: "string \<Rightarrow> string \<Rightarrow> kv \<Rightarrow> kv" where
  "flow_item key item out =
     (case cut_at (CHR '':'') (trim_space item) of
        None \<Rightarrow> out
      | Some (k2, v2) \<Rightarrow>
          let k2 = trim_space k2; v2 = trim_chars (trim_space v2) quotes
          in if k2 \<noteq> [] \<and> \<not> str_contains k2 '' '' then AList.update (key @ ''.'' @ k2) v2 out else out)"

text \<open>One line: the entries so far and the key of the block that is open.\<close>

definition yaml_line :: "string \<Rightarrow> kv \<times> string \<Rightarrow> kv \<times> string" where
  "yaml_line raw st =
     (let line = trim_space raw; (out, parent) = st
      in if line = [] \<or> is_prefix ''#'' line \<or> is_prefix ''-'' line then st
         else
           let indented = (is_prefix '' '' raw \<or> is_prefix [CHR 0x09] raw)
           in case cut_at (CHR '':'') line of
             None \<Rightarrow> st
           | Some (key, val) \<Rightarrow>
               let key = trim_space key; val = trim_chars (trim_space val) quotes
               in if key = [] \<or> str_contains key '' '' then st
                  else
                    let key = (if indented \<and> parent \<noteq> [] then parent @ ''.'' @ key else key)
                    in if is_prefix ''{'' val \<and> ends_with val ''}'' then
                         (fold (flow_item key) (split_on (CHR '','') (trim_chars val ''{}'')) out, [])
                       else (AList.update key val out, if val = [] then key else []))"

definition parseFlatYAML :: "string \<Rightarrow> kv" where
  "parseFlatYAML text = fst (fold yaml_line (split_on (CHR 0x0A) text) ([], []))"

definition parseKV :: "string \<Rightarrow> kv" where
  "parseKV text = parseFlatYAML (replace_char (CHR ''='') '': '' text)"

definition parseIntOr :: "string \<Rightarrow> int \<Rightarrow> int" where
  "parseIntOr s d =
     (case atoi (trim_space (trim_space (trim_suffix (trim_space s) ''mb''))) of
        None \<Rightarrow> d
      | Some v \<Rightarrow> if v \<le> 0 then d else v)"

text \<open>
  \<open>scan s\<close> is what \<open>fmt.Sscanf(s, "%f%s")\<close> reads: nothing when it fails with the number 0, else the
  unit and the number as a 64-bit float, given by its truncated multiple of 1000 and its truncation.
\<close>

fun parseDurationOr :: "(string \<Rightarrow> (string \<times> int \<times> int) option) \<Rightarrow> string list \<Rightarrow> int \<Rightarrow> int" where
  "parseDurationOr scan [] d = d"
| "parseDurationOr scan (v # vs) d =
     (let s = lower (trim_space v)
      in if s = [] then parseDurationOr scan vs d
         else case scan s of
           None \<Rightarrow> parseDurationOr scan vs d
         | Some (unit, thousand, whole) \<Rightarrow>
             let ms = (if unit \<in> {[], ''s'', ''sec'', ''second'', ''seconds''} then thousand
                       else if unit = ''ms'' then whole else 0)
             in if ms > 0 then ms else parseDurationOr scan vs d)"

fun firstNonEmpty :: "string list \<Rightarrow> string" where
  "firstNonEmpty [] = []"
| "firstNonEmpty (v # vs) = (if trim_space v \<noteq> [] then v else firstNonEmpty vs)"

section \<open>The natural order of files\<close>

text \<open>
  The first run of digits of a text: its value, as \<open>strconv.Atoi\<close> reads it with the error ignored,
  and what follows it.
\<close>

definition first_number :: "string \<Rightarrow> (int \<times> string) option" where
  "first_number s =
     (let t = dropWhile (\<lambda>c. \<not> is_digit c) s
      in if t = [] then None else Some (atoi_or_zero (takeWhile is_digit t), dropWhile is_digit t))"

lemma first_number_shorter: "first_number s = Some (x, r) \<Longrightarrow> length r < length s"
proof -
  assume a: "first_number s = Some (x, r)"
  define t where "t = dropWhile (\<lambda>c. \<not> is_digit c) s"
  have t: "t \<noteq> []" and r: "r = dropWhile is_digit t"
    using a by (auto simp: first_number_def t_def Let_def split: if_splits)
  have "is_digit (hd t)" using t hd_dropWhile [of "\<lambda>c. \<not> is_digit c" s] by (simp add: t_def)
  then have "length r < length t"
    using t r by (cases t) (auto simp: le_imp_less_Suc length_dropWhile_le)
  moreover have "length t \<le> length s" by (simp add: t_def length_dropWhile_le)
  ultimately show ?thesis by simp
qed

function naturalLess :: "string \<Rightarrow> string \<Rightarrow> bool" where
  "naturalLess a b =
     (if a = [] \<or> b = [] then length a < length b
      else case (first_number a, first_number b) of
        (Some (x, a'), Some (y, b')) \<Rightarrow> if x \<noteq> y then x < y else naturalLess a' b'
      | (Some _, None) \<Rightarrow> True
      | (None, Some _) \<Rightarrow> False
      | (None, None) \<Rightarrow>
          if hd a \<noteq> hd b then (of_char (hd a) :: nat) < of_char (hd b) else naturalLess (tl a) (tl b))"
  by auto
termination by (relation "measure (\<lambda>(a, b). length a)") (auto dest!: first_number_shorter [OF sym])

declare naturalLess.simps [simp del]

text \<open>A test case: the input, its answer if any, and the name without the suffix.\<close>

record caseKey =
  ck_in :: zip_entry
  ck_ans :: "zip_entry option"
  ck_name :: string

definition case_before :: "caseKey \<Rightarrow> caseKey \<Rightarrow> bool" where
  "case_before a b =
     (let da = path_dir (ck_name a); db = path_dir (ck_name b)
      in if da \<noteq> db then bytes_less da db
         else naturalLess (path_base (ck_name a)) (path_base (ck_name b)))"

definition sortCases :: "caseKey list \<Rightarrow> caseKey list" where
  "sortCases cs = sort_by case_before cs"

section \<open>The scan of the archive\<close>

definition isStatementPath :: "string \<Rightarrow> bool" where
  "isStatementPath low \<longleftrightarrow>
     is_prefix ''statements/'' low \<or> low = ''statement.md'' \<or> low = ''problem.md''
     \<or> is_prefix ''problem_zh'' low \<or> is_prefix ''problem_en'' low"

text \<open>
  \<open>judgeSrcRe\<close> on a lower-case name: the first position where one of the words starts, tried in
  order, so that no slash follows it and the name ends with a C++ suffix after it.
\<close>

definition src_tail :: "string \<Rightarrow> bool" where
  "src_tail r \<longleftrightarrow> CHR ''/'' \<notin> set r \<and> (ends_with r ''.cc'' \<or> ends_with r ''.cpp'' \<or> ends_with r ''.cxx'')"

definition judge_words :: "string list" where
  "judge_words = [''checker'', ''validator'', ''spj'', ''interactor'', ''interact'']"

fun judgeSrcRe :: "string \<Rightarrow> string option" where
  "judgeSrcRe [] = None"
| "judgeSrcRe (c # cs) =
     (case find (\<lambda>w. is_prefix w (c # cs) \<and> src_tail (drop (length w) (c # cs))) judge_words of
        Some w \<Rightarrow> Some w
      | None \<Rightarrow> judgeSrcRe cs)"

record packageMeta =
  pm_format :: string
  pm_title :: string
  pm_statement :: string
  pm_inputDesc :: string
  pm_outputDesc :: string
  pm_hint :: string
  pm_timeMS :: int
  pm_memMB :: int
  pm_judgeMode :: string
  pm_checker :: string
  pm_interactor :: string
  pm_cases :: "caseKey list"
  pm_notes :: "string list"

definition blank_meta :: packageMeta where
  "blank_meta = \<lparr>pm_format = [], pm_title = [], pm_statement = [], pm_inputDesc = [], pm_outputDesc = [],
     pm_hint = [], pm_timeMS = 1000, pm_memMB = 256, pm_judgeMode = [], pm_checker = [], pm_interactor = [],
     pm_cases = [], pm_notes = []\<rparr>"

text \<open>The local variables of the walk.\<close>

record scan =
  sn_meta :: packageMeta
  sn_yaml :: string
  sn_own :: kv
  sn_md :: "string list"
  sn_tex :: "string list"
  sn_pdf :: "string list"

definition classify_entry :: "zip_entry \<Rightarrow> string \<Rightarrow> scan \<Rightarrow> scan" where
  "classify_entry zf low sc =
     (if low = ''meta.txt'' \<or> low = ''/meta.txt'' then
        (case readZipFile zf (2 ^ 20) of
           Inl _ \<Rightarrow> sc
         | Inr raw \<Rightarrow> sc\<lparr>sn_own := parseKV raw, sn_meta := (sn_meta sc)\<lparr>pm_format := ''own''\<rparr>\<rparr>)
      else if low = ''problem.yaml'' then
        (case readZipFile zf (2 ^ 20) of
           Inl _ \<Rightarrow> sc
         | Inr raw \<Rightarrow> sc\<lparr>sn_yaml := raw,
             sn_meta := (if pm_format (sn_meta sc) = [] then (sn_meta sc)\<lparr>pm_format := ''hydro-or-domjudge''\<rparr>
                         else sn_meta sc)\<rparr>)
      else if ends_with low ''.md'' \<and> isStatementPath low then sc\<lparr>sn_md := sn_md sc @ [ze_Name zf]\<rparr>
      else if ends_with low ''.tex'' \<and> isStatementPath low then sc\<lparr>sn_tex := sn_tex sc @ [ze_Name zf]\<rparr>
      else if ends_with low ''.pdf'' \<and> isStatementPath low then sc\<lparr>sn_pdf := sn_pdf sc @ [ze_Name zf]\<rparr>
      else sc)"

definition take_source :: "string \<Rightarrow> string \<Rightarrow> packageMeta \<Rightarrow> packageMeta" where
  "take_source w src m =
     (if str_contains w ''interact'' then m\<lparr>pm_interactor := src\<rparr>
      else if pm_checker m = [] then m\<lparr>pm_checker := src\<rparr> else m)"

definition take_case :: "zip_entry \<Rightarrow> string \<Rightarrow> packageMeta \<Rightarrow> packageMeta" where
  "take_case zf low m =
     (if ends_with low ''.in''
      then m\<lparr>pm_cases := pm_cases m @ [\<lparr>ck_in = zf, ck_ans = None, ck_name = trim_suffix (ze_Name zf) ''.in''\<rparr>]\<rparr>
      else m)"

text \<open>\<open>dir_mode zf\<close> says that the mode of the entry is that of a directory.\<close>

definition scan_entry :: "(zip_entry \<Rightarrow> bool) \<Rightarrow> zip_entry \<Rightarrow> scan \<Rightarrow> scan" where
  "scan_entry dir_mode zf sc =
     (if dir_mode zf \<or> ends_with (ze_Name zf) ''/'' \<or> str_contains (ze_Name zf) ''__MACOSX'' then sc
      else
        let low = lower (ze_Name zf); sc = classify_entry zf low sc
        in case (if length (ze_Name zf) < 200 then judgeSrcRe low else None) of
          None \<Rightarrow> sc\<lparr>sn_meta := take_case zf low (sn_meta sc)\<rparr>
        | Some w \<Rightarrow>
            (case readZipFile zf (512 * 2 ^ 10) of
               Inl _ \<Rightarrow> sc\<lparr>sn_meta := (sn_meta sc)\<lparr>pm_notes := pm_notes (sn_meta sc)
                           @ [''skipped the judge source '' @ ze_Name zf]\<rparr>\<rparr>
             | Inr src \<Rightarrow> sc\<lparr>sn_meta := take_case zf low (take_source w src (sn_meta sc))\<rparr>))"

text \<open>The answer of a case: of all entries that fit, the last one.\<close>

definition pair_step :: "string \<Rightarrow> zip_entry \<Rightarrow> string \<Rightarrow> zip_entry option \<Rightarrow> zip_entry option" where
  "pair_step name zf ext acc =
     (if ends_with (lower (ze_Name zf)) ext \<and> lower (trim_suffix (ze_Name zf) ext) = lower name
      then Some zf else acc)"

definition pair_answer :: "zip_entry list \<Rightarrow> string \<Rightarrow> zip_entry option" where
  "pair_answer es name = fold (\<lambda>zf. fold (pair_step name zf) [''.ans'', ''.out'', ''.a'']) es None"

definition pair_cases :: "zip_entry list \<Rightarrow> caseKey list \<Rightarrow> caseKey list" where
  "pair_cases es cs =
     filter (\<lambda>c. ck_ans c \<noteq> None) (map (\<lambda>c. c\<lparr>ck_ans := pair_answer es (ck_name c)\<rparr>) cs)"

definition own_metadata :: "kv \<Rightarrow> packageMeta \<Rightarrow> packageMeta" where
  "own_metadata own m =
     (if pm_format m \<noteq> ''own'' then m
      else
        let m = m\<lparr>pm_title := kv_get own ''title'',
              pm_timeMS := parseIntOr (kv_get own ''time_limit_ms'') (pm_timeMS m),
              pm_memMB := parseIntOr (kv_get own ''mem_limit_mb'') (pm_memMB m)\<rparr>;
            m = (if kv_get own ''judge_mode'' \<noteq> [] then m\<lparr>pm_judgeMode := kv_get own ''judge_mode''\<rparr> else m)
        in if kv_get own ''statement'' \<noteq> [] then m\<lparr>pm_statement := kv_get own ''statement''\<rparr> else m)"

definition yaml_metadata ::
  "(string \<Rightarrow> (string \<times> int \<times> int) option) \<Rightarrow> string \<Rightarrow> packageMeta \<Rightarrow> packageMeta" where
  "yaml_metadata scan text m =
     (if text = [] then m
      else
        let y = parseFlatYAML text;
            m = (if pm_title m = [] then m\<lparr>pm_title := firstNonEmpty [kv_get y ''title'', kv_get y ''name'']\<rparr> else m)
        in m\<lparr>pm_timeMS := parseDurationOr scan (map (kv_get y) [''time'', ''time_limit'', ''time_limit_s'',
               ''limits.time'', ''limits.timeout'', ''limits.time_limit'']) (pm_timeMS m),
             pm_memMB := parseIntOr (firstNonEmpty (map (kv_get y) [''memory_limit'', ''memory_limit_mb'',
               ''memory'', ''limits.memory'', ''limits.memory_limit''])) (pm_memMB m)\<rparr>)"

definition read_named :: "zip_entry list \<Rightarrow> string \<Rightarrow> string option" where
  "read_named es name =
     (case find (\<lambda>zf. ze_Name zf = name) es of
        None \<Rightarrow> None
      | Some zf \<Rightarrow> (case readZipFile zf (4 * 2 ^ 20) of Inl _ \<Rightarrow> None | Inr raw \<Rightarrow> Some raw))"

definition tex_intro :: string where
  "tex_intro = ''> the statement is LaTeX source, convert it before editing:'' @ [CHR 0x0A, CHR 0x0A]
     @ [CHR 0x60, CHR 0x60, CHR 0x60] @ ''latex'' @ [CHR 0x0A]"

definition tex_outro :: string where
  "tex_outro = [CHR 0x0A, CHR 0x60, CHR 0x60, CHR 0x60]"

definition choose_statement :: "zip_entry list \<Rightarrow> scan \<Rightarrow> packageMeta \<Rightarrow> packageMeta" where
  "choose_statement es sc m =
     (if sn_md sc \<noteq> [] then
        (case read_named es (hd (sort_by bytes_less (sn_md sc))) of
           None \<Rightarrow> m | Some raw \<Rightarrow> m\<lparr>pm_statement := raw\<rparr>)
      else if sn_tex sc \<noteq> [] then
        let m = (case read_named es (hd (sn_tex sc)) of
                   None \<Rightarrow> m | Some raw \<Rightarrow> m\<lparr>pm_statement := tex_intro @ raw @ tex_outro\<rparr>)
        in m\<lparr>pm_notes := pm_notes m @ [''no Markdown statement, TeX source taken'']\<rparr>
      else if sn_pdf sc \<noteq> [] then m\<lparr>pm_notes := pm_notes m @ [''the statement is a PDF only'']\<rparr>
      else m)"

definition choose_mode :: "packageMeta \<Rightarrow> packageMeta" where
  "choose_mode m =
     (if pm_interactor m \<noteq> [] then m\<lparr>pm_judgeMode := JudgeModeInteractive\<rparr>
      else if pm_checker m \<noteq> [] then m\<lparr>pm_judgeMode := JudgeModeSPJ\<rparr>
      else if pm_format m = ''own'' then
        (if pm_judgeMode m \<noteq> JudgeModeSPJ \<and> pm_judgeMode m \<noteq> JudgeModeInteractive
         then m\<lparr>pm_judgeMode := JudgeModeDefault\<rparr> else m)
      else m\<lparr>pm_judgeMode := JudgeModeDefault\<rparr>)"

definition scanPackage ::
  "(zip_entry \<Rightarrow> bool) \<Rightarrow> (string \<Rightarrow> (string \<times> int \<times> int) option) \<Rightarrow> zip_entry list \<Rightarrow> packageMeta" where
  "scanPackage dir_mode scan es =
     (let sc = fold (scan_entry dir_mode) es
            \<lparr>sn_meta = blank_meta, sn_yaml = [], sn_own = [], sn_md = [], sn_tex = [], sn_pdf = []\<rparr>;
          m = sn_meta sc;
          kept = pair_cases es (pm_cases m);
          m = (if kept = [] \<and> pm_cases m \<noteq> []
               then m\<lparr>pm_notes := pm_notes m @ [''found '' @ nat_str (length (pm_cases m))
                      @ '' inputs without answers, all ignored'']\<rparr> else m);
          m = m\<lparr>pm_cases := sortCases kept\<rparr>;
          m = yaml_metadata scan (sn_yaml sc) (own_metadata (sn_own sc) m);
          m = choose_mode (choose_statement es sc m);
          m = (if pm_checker m \<noteq> [] \<and> pm_judgeMode m \<noteq> JudgeModeInteractive
               then m\<lparr>pm_notes := pm_notes m @ [''checker imported, check its arguments'']\<rparr> else m)
      in m\<lparr>pm_timeMS := clampInt (pm_timeMS m) 50 600000, pm_memMB := clampInt (pm_memMB m) 16 8192\<rparr>)"

section \<open>Storing the import\<close>

definition writeCaseFile ::
  "(string \<Rightarrow> string) \<Rightarrow> disk \<Rightarrow> string \<Rightarrow> string \<Rightarrow> files \<Rightarrow> files \<times> (string + string \<times> int)" where
  "writeCaseFile sha dk p data fs =
     (case put_file dk p data fs of
        (fs, Some err) \<Rightarrow> (fs, Inl err)
      | (fs, None) \<Rightarrow> (fs, Inr (sha data, int (length data))))"

definition import_case ::
  "(string \<Rightarrow> string) \<Rightarrow> disk \<Rightarrow> nat \<Rightarrow> int \<Rightarrow> caseKey \<Rightarrow> files \<Rightarrow> files \<times> (string + TestCase)" where
  "import_case sha dk pid idx ck fs =
     (case readZipFile (ck_in ck) maxCaseBytes of
        Inl err \<Rightarrow> (fs, Inl (''case '' @ int_str idx @ '' input: '' @ err))
      | Inr data \<Rightarrow>
          (case writeCaseFile sha dk (case_file pid idx ''in'') data fs of
             (fs, Inl err) \<Rightarrow> (fs, Inl err)
           | (fs, Inr (inSHA, inSize)) \<Rightarrow>
               (case readZipFile (the (ck_ans ck)) maxCaseBytes of
                  Inl err \<Rightarrow> (fs, Inl (''case '' @ int_str idx @ '' answer: '' @ err))
                | Inr ansData \<Rightarrow>
                    (case writeCaseFile sha dk (case_file pid idx ''out'') ansData fs of
                       (fs, Inl err) \<Rightarrow> (fs, Inl err)
                     | (fs, Inr (ansSHA, ansSize)) \<Rightarrow>
                         (fs, Inr (blank_case\<lparr>tc_ProblemID := pid, tc_CaseIndex := idx, tc_InputSHA := inSHA,
                            tc_InputSize := inSize, tc_AnswerSHA := ansSHA, tc_AnswerSize := ansSize\<rparr>))))))"

text \<open>The rows in order, numbered from \<open>idx\<close>; statement \<open>n\<close> of the database comes next.\<close>

fun import_cases ::
  "(string \<Rightarrow> string) \<Rightarrow> disk \<Rightarrow> env \<Rightarrow> nat \<Rightarrow> nat \<Rightarrow> int \<Rightarrow> caseKey list \<Rightarrow> db \<Rightarrow> db \<times> (string + nat)" where
  "import_cases sha dk e n pid idx [] s = (s, Inr n)"
| "import_cases sha dk e n pid idx (ck # cks) s =
     (case import_case sha dk pid idx ck (db_files s) of
        (fs, Inl err) \<Rightarrow> (s\<lparr>db_files := fs\<rparr>, Inl err)
      | (fs, Inr tc) \<Rightarrow>
          let s = s\<lparr>db_files := fs\<rparr>
          in if \<not> env_dbok e n then (s, Inl ''create failed'')
             else import_cases sha dk e (Suc n) pid (idx + 1) cks (fst (create_case e tc s)))"

definition storeImportedCases ::
  "(string \<Rightarrow> string) \<Rightarrow> disk \<Rightarrow> env \<Rightarrow> nat \<Rightarrow> nat \<Rightarrow> caseKey list \<Rightarrow> db \<Rightarrow> db \<times> (string + nat)" where
  "storeImportedCases sha dk e n pid cks s =
     (case dk_mkdir dk of
        Some err \<Rightarrow> (s, Inl err)
      | None \<Rightarrow>
          (case import_cases sha dk e n pid 1 cks s of
             (s', Inl err) \<Rightarrow> (s\<lparr>db_files := db_files s'\<rparr>, Inl err)
           | (s', Inr k) \<Rightarrow>
               if \<not> env_dbok e k then (s\<lparr>db_files := db_files s'\<rparr>, Inl ''commit failed'')
               else (s', Inr (k - n))))"

text \<open>What arrives; \<open>pu_reads\<close> says that the copy to the temporary file succeeds.\<close>

record package_upload = upload +
  pu_reads :: bool

record import_reply =
  ir_problem :: Problem
  ir_stored :: nat
  ir_format :: string
  ir_notes :: "string list"

definition imported_problem :: "Claims \<Rightarrow> packageMeta \<Rightarrow> Problem" where
  "imported_problem cl m = blank_problem\<lparr>
     p_Title := (if trim_space (pm_title m) = [] then ''imported problem'' else pm_title m),
     p_StatementMD := pm_statement m, p_InputDesc := pm_inputDesc m, p_OutputDesc := pm_outputDesc m,
     p_Hint := pm_hint m, p_TimeLimitMS := pm_timeMS m, p_MemLimitMB := pm_memMB m,
     p_Visibility := VisibilityHidden, p_JudgeMode := pm_judgeMode m, p_CheckerSource := pm_checker m,
     p_InteractorSrc := pm_interactor m, p_ReviewStatus := ReviewApproved, p_CreatedBy := cl_UserID cl\<rparr>"

definition importProblem ::
  "(string \<Rightarrow> string) \<Rightarrow> disk \<Rightarrow> (zip_entry \<Rightarrow> bool) \<Rightarrow> (string \<Rightarrow> (string \<times> int \<times> int) option) \<Rightarrow> env \<Rightarrow> Claims \<Rightarrow>
    package_upload option \<Rightarrow> db \<Rightarrow> (db, import_reply) handled" where
  "importProblem sha dk dir_mode scan e cl form s =
     (case form of
        None \<Rightarrow> (s, Inl (HTTP 400 ''missing file field''))
      | Some up \<Rightarrow>
          if \<not> up_opens up then (s, Inl (HTTP 400 ''open upload failed''))
          else if up_temp up \<noteq> None then (s, Inl (HTTP 500 ''temp file failed''))
          else if \<not> pu_reads up then (s, Inl (HTTP 400 ''read upload failed''))
          else if min (up_bytes up) (maxZipBytes + 1) > maxZipBytes then
            (s, Inl (HTTP 400 ''zip too large (max 128 MB)''))
          else case up_zip up of
            Inl _ \<Rightarrow> (s, Inl (HTTP 400 ''not a valid zip''))
          | Inr es \<Rightarrow>
              let m = scanPackage dir_mode scan es
              in if pm_cases m = [] then (s, Inl (HTTP 400 ''the zip has no <name>.in test files''))
                 else if \<not> env_dbok e 0 then (s, Inl (HTTP 500 ''create problem failed''))
                 else
                   let (s1, prob) = create_problem e (imported_problem cl m) s
                   in (case storeImportedCases sha dk e 1 (p_ID prob) (pm_cases m) s1 of
                         (s2, Inl err) \<Rightarrow>
                           (s2\<lparr>db_problems := tbl_delete (\<lambda>r. p_ID r = p_ID prob) (db_problems s2)\<rparr>,
                            Inl (HTTP 400 err))
                       | (s2, Inr k) \<Rightarrow>
                           (s2, Inr \<lparr>ir_problem = prob, ir_stored = k, ir_format = pm_format m,
                                     ir_notes = pm_notes m\<rparr>)))"

section \<open>The natural order is an order\<close>

text \<open>
  Seen from outside, the comparison is lexicographic: an empty rest comes first, then rests with a
  number by that number, then texts without one by their first byte.
\<close>

definition nl_kind :: "string \<Rightarrow> nat" where
  "nl_kind a = (if a = [] then 0 else if first_number a \<noteq> None then 1 else 2)"

definition nl_val :: "string \<Rightarrow> int" where
  "nl_val a = (case first_number a of Some (x, _) \<Rightarrow> x | None \<Rightarrow> int (of_char (hd a)))"

definition nl_rest :: "string \<Rightarrow> string" where
  "nl_rest a = (case first_number a of Some (_, r) \<Rightarrow> r | None \<Rightarrow> tl a)"

lemma nl_rest_shorter: "nl_kind a \<noteq> 0 \<Longrightarrow> length (nl_rest a) < length a"
  by (auto simp: nl_kind_def nl_rest_def dest: first_number_shorter split: if_splits option.split)

lemma naturalLess_step:
  "naturalLess a b \<longleftrightarrow>
     nl_kind a < nl_kind b \<or>
     nl_kind a = nl_kind b \<and> nl_kind a \<noteq> 0
     \<and> (nl_val a < nl_val b \<or> nl_val a = nl_val b \<and> naturalLess (nl_rest a) (nl_rest b))"
  by (subst naturalLess.simps) (auto simp: nl_kind_def nl_val_def nl_rest_def split: option.split)

lemma lex_asym:
  fixes kx ky :: nat and vx vy :: int
  assumes "kx \<noteq> 0 \<Longrightarrow> rxy \<Longrightarrow> \<not> ryx" and "kx < ky \<or> kx = ky \<and> kx \<noteq> 0 \<and> (vx < vy \<or> vx = vy \<and> rxy)"
  shows "\<not> (ky < kx \<or> ky = kx \<and> ky \<noteq> 0 \<and> (vy < vx \<or> vy = vx \<and> ryx))"
  using assms by auto

lemma lex_negtrans:
  fixes kx ky kz :: nat and vx vy vz :: int
  assumes "kx \<noteq> 0 \<Longrightarrow> \<not> rxy \<Longrightarrow> \<not> ryz \<Longrightarrow> \<not> rxz"
    and "\<not> (kx < ky \<or> kx = ky \<and> kx \<noteq> 0 \<and> (vx < vy \<or> vx = vy \<and> rxy))"
    and "\<not> (ky < kz \<or> ky = kz \<and> ky \<noteq> 0 \<and> (vy < vz \<or> vy = vz \<and> ryz))"
  shows "\<not> (kx < kz \<or> kx = kz \<and> kx \<noteq> 0 \<and> (vx < vz \<or> vx = vz \<and> rxz))"
proof (cases "kx = ky \<and> ky = kz")
  case True
  with assms show ?thesis by (cases "vx = vy"; cases "vy = vz") auto
next
  case False
  with assms(2,3) have "kz < kx" by linarith
  then show ?thesis by simp
qed

interpretation natural: strict_less naturalLess
proof
  show "naturalLess x y \<Longrightarrow> \<not> naturalLess y x" for x y
  proof (induction "length x" arbitrary: x y rule: less_induct)
    case less
    have "nl_kind x \<noteq> 0 \<Longrightarrow> naturalLess (nl_rest x) (nl_rest y) \<Longrightarrow> \<not> naturalLess (nl_rest y) (nl_rest x)"
      by (intro less.hyps [of "nl_rest x" "nl_rest y"] nl_rest_shorter)
    from lex_asym [OF this less.prems [unfolded naturalLess_step [of x y]]]
    show ?case unfolding naturalLess_step [of y x] .
  qed
  show "\<not> naturalLess x y \<Longrightarrow> \<not> naturalLess y z \<Longrightarrow> \<not> naturalLess x z" for x y z
  proof (induction "length x" arbitrary: x y z rule: less_induct)
    case less
    have "nl_kind x \<noteq> 0 \<Longrightarrow> \<not> naturalLess (nl_rest x) (nl_rest y) \<Longrightarrow> \<not> naturalLess (nl_rest y) (nl_rest z)
        \<Longrightarrow> \<not> naturalLess (nl_rest x) (nl_rest z)"
      by (intro less.hyps [of "nl_rest x" "nl_rest y" "nl_rest z"] nl_rest_shorter)
    from lex_negtrans [OF this less.prems [unfolded naturalLess_step [of x y] naturalLess_step [of y z]]]
    show ?case unfolding naturalLess_step [of x z] .
  qed
qed

interpretation case_order: strict_less case_before
proof
  show "case_before x y \<Longrightarrow> \<not> case_before y x" for x y
    by (auto simp: case_before_def Let_def dest: bytes.asym natural.asym split: if_splits)
  show "\<not> case_before x y \<Longrightarrow> \<not> case_before y z \<Longrightarrow> \<not> case_before x z" for x y z
    using bytes.negtrans [of "path_dir (ck_name x)" "path_dir (ck_name y)" "path_dir (ck_name z)"]
      bytes_less_total [of "path_dir (ck_name x)" "path_dir (ck_name y)"]
      bytes_less_total [of "path_dir (ck_name y)" "path_dir (ck_name z)"]
    by (auto simp: case_before_def Let_def dest: natural.negtrans bytes.asym split: if_splits)
qed

lemma sortCases_sorted:
  "mset (sortCases cs) = mset cs" "sorted_wrt (\<lambda>a b. \<not> case_before b a) (sortCases cs)"
  by (simp_all add: sortCases_def case_order.sorted_sort_by)

section \<open>An import is all or nothing\<close>

lemma import_case_touches:
  assumes "0 \<le> idx"
  shows "touches pid idx fs (fst (import_case sha dk pid idx ck fs))"
proof -
  note put = touches_put_file [OF assms]
  have w: "touches pid idx f (fst (writeCaseFile sha dk (case_file pid idx k) d f))" for f k d
    using put [of pid f dk k d] by (auto simp: writeCaseFile_def split: prod.split option.split)
  show ?thesis
  proof (cases "readZipFile (ck_in ck) maxCaseBytes")
    case (Inr d)
    obtain f1 r1 where w1: "writeCaseFile sha dk (case_file pid idx ''in'') d fs = (f1, r1)" by fastforce
    have t1: "touches pid idx fs f1" using w [of fs "''in''" d] w1 by simp
    show ?thesis
    proof (cases "readZipFile (the (ck_ans ck)) maxCaseBytes")
      case (Inr a)
      obtain f2 r2 where w2: "writeCaseFile sha dk (case_file pid idx ''out'') a f1 = (f2, r2)" by fastforce
      have "touches pid idx fs f2" using touches_trans [OF t1] w [of f1 "''out''" a] w2 by simp
      with t1 Inr \<open>readZipFile (ck_in ck) maxCaseBytes = Inr d\<close> w1 w2 show ?thesis
        by (cases r1; cases r2) (simp_all add: import_case_def split_beta)
    qed (use t1 Inr w1 in \<open>cases r1; simp add: import_case_def split_beta\<close>)
  qed (simp add: import_case_def)
qed

lemma import_case_ok:
  assumes "import_case sha dk pid idx ck fs = (fs', Inr tc)"
  shows "\<exists>d a. readZipFile (ck_in ck) maxCaseBytes = Inr d \<and> readZipFile (the (ck_ans ck)) maxCaseBytes = Inr a
    \<and> fs' = put_slot pid idx (d, Some a) fs \<and> tc = (slot_row sha idx (d, Some a))\<lparr>tc_ProblemID := pid\<rparr>"
  using assms
  by (auto simp: import_case_def writeCaseFile_def put_slot_def slot_row_def blank_case_def
      dest!: put_file_Pair split: sum.splits prod.splits option.splits)

lemma import_cases_frame:
  assumes "0 \<le> idx" and "q \<noteq> pid" and "0 \<le> j"
  shows "db_files (fst (import_cases sha dk e n pid idx cks s)) (case_file q j k) = db_files s (case_file q j k)"
  using assms(1)
proof (induction cks arbitrary: n idx s)
  case (Cons ck cks)
  have "fst (import_case sha dk pid idx ck (db_files s)) (case_file q j k) = db_files s (case_file q j k)"
    using import_case_touches [OF Cons.prems, of pid "db_files s"] assms by (simp add: touches_def)
  with Cons show ?case by (auto simp: Let_def split: prod.split sum.split)
qed simp

lemma import_cases_tables: "db_problems (fst (import_cases sha dk e n pid idx cks s)) = db_problems s"
  by (induction cks arbitrary: n idx s) (auto simp: Let_def split: prod.split sum.split)

lemma import_cases_ok:
  assumes "import_cases sha dk e n pid idx cks s = (s', Inr k)" and "testdata_ok sha s" and "1 \<le> idx"
    and "\<And>j. idx \<le> j \<Longrightarrow> (pid, j) \<notin> set (map case_key (rows (db_cases s)))"
  shows "testdata_ok sha s' \<and> k = n + length cks
    \<and> map case_key (rows (db_cases s'))
      = map case_key (rows (db_cases s)) @ map (\<lambda>j. (pid, idx + int j)) [0..<length cks]"
  using assms
proof (induction cks arbitrary: n idx s)
  case Nil
  then show ?case by simp
next
  case (Cons ck cks)
  obtain fs tc where st: "import_case sha dk pid idx ck (db_files s) = (fs, Inr tc)"
    using Cons.prems(1) by (auto split: prod.splits sum.splits)
  from import_case_ok [OF st] obtain d a where da:
    "readZipFile (ck_in ck) maxCaseBytes = Inr d" "readZipFile (the (ck_ans ck)) maxCaseBytes = Inr a"
    "fs = put_slot pid idx (d, Some a) (db_files s)" "tc = (slot_row sha idx (d, Some a))\<lparr>tc_ProblemID := pid\<rparr>"
    by blast
  define s1 where "s1 = fst (create_case e tc (s\<lparr>db_files := fs\<rparr>))"
  have run: "import_cases sha dk e (Suc n) pid (idx + 1) cks s1 = (s', Inr k)"
    using Cons.prems(1) st by (simp add: s1_def Let_def split: if_splits)
  have keys: "map case_key (rows (db_cases s1)) = map case_key (rows (db_cases s)) @ [(pid, idx)]"
    by (simp add: s1_def table_simps da(4))
  have fits: "slot_fits (d, Some a)"
    using readZipFile_length [OF da(1)] readZipFile_length [OF da(2)] by (simp add: slot_fits_def)
  have "testdata_ok sha s1"
    using store_round [OF Cons.prems(2) fits] Cons.prems(3) Cons.prems(4) [of idx] by (simp add: s1_def da(3,4))
  from Cons.IH [OF run this] Cons.prems(3,4) keys
  have "testdata_ok sha s' \<and> k = Suc n + length cks
    \<and> map case_key (rows (db_cases s'))
      = map case_key (rows (db_cases s1)) @ map (\<lambda>j. (pid, idx + 1 + int j)) [0..<length cks]"
    by auto
  moreover have "map (\<lambda>j. (pid, idx + int j)) [0..<length (ck # cks)]
      = (pid, idx) # map (\<lambda>j. (pid, idx + 1 + int j)) [0..<length cks]"
    by (simp add: map_upt_Suc add.assoc del: upt_Suc)
  ultimately show ?case using keys by simp
qed

definition cases_known :: "db \<Rightarrow> bool" where
  "cases_known s \<longleftrightarrow>
     tbl_ok p_ID (db_problems s) \<and> list_all (\<lambda>t. tc_ProblemID t \<le> seq (db_problems s)) (rows (db_cases s))"

lemma tbl_ok_create_problem:
  "tbl_ok p_ID (db_problems s) \<Longrightarrow> tbl_ok p_ID (db_problems (fst (create_problem e prob s)))"
  by (simp add: create_problem_def split_beta tbl_ok_create)

text \<open>Storing the cases of a new problem: on failure only its own files have changed.\<close>

lemma storeImportedCases_cases:
  assumes "testdata_ok sha s" and "\<And>j. (pid, j) \<notin> set (map case_key (rows (db_cases s)))"
    and "storeImportedCases sha dk e n pid cks s = (s', r)"
  shows "testdata_ok sha s'" and "db_problems s' = db_problems s"
    and "r = Inl err \<Longrightarrow> db_cases s' = db_cases s"
    and "r = Inr k \<Longrightarrow> k = length cks \<and> map case_key (rows (db_cases s'))
      = map case_key (rows (db_cases s)) @ map (\<lambda>j. (pid, 1 + int j)) [0..<length cks]"
proof -
  obtain s1 q where run: "import_cases sha dk e n pid 1 cks s = (s1, q)" by fastforce
  have files: "testdata_ok sha (s\<lparr>db_files := db_files s1\<rparr>)"
    unfolding testdata_ok_def
  proof (simp, intro conjI)
    show "tbl_ok tc_ID (db_cases s)" "distinct (map case_key (rows (db_cases s)))"
      using assms(1) by (simp_all add: testdata_ok_def)
    have "case_stored sha (db_files s1) t" if t: "t \<in> set (rows (db_cases s))" for t
    proof (rule case_stored_frame)
      show st: "case_stored sha (db_files s) t" using assms(1) t by (simp add: testdata_ok_def list_all_iff)
      have "tc_ProblemID t \<noteq> pid"
        using assms(2) [of "tc_CaseIndex t"] t by (force simp: case_key_def)
      then show "db_files s1 (case_file (tc_ProblemID t) (tc_CaseIndex t) k)
          = db_files s (case_file (tc_ProblemID t) (tc_CaseIndex t) k)" for k
        using import_cases_frame [of 1 "tc_ProblemID t" pid "tc_CaseIndex t" sha dk e n cks s k] st run
        by (simp add: case_stored_def)
    qed
    then show "list_all (case_stored sha (db_files s1)) (rows (db_cases s))" by (simp add: list_all_iff)
  qed
  have probs: "db_problems s1 = db_problems s"
    using import_cases_tables [of sha dk e n pid 1 cks s] run by simp
  have stored: "q = Inr k' \<Longrightarrow> testdata_ok sha s1 \<and> k' = n + length cks \<and> map case_key (rows (db_cases s1))
      = map case_key (rows (db_cases s)) @ map (\<lambda>j. (pid, 1 + int j)) [0..<length cks]" for k'
    using import_cases_ok [of sha dk e n pid 1 cks s s1 k'] run assms(1,2) by simp
  show "testdata_ok sha s'" "db_problems s' = db_problems s" "r = Inl err \<Longrightarrow> db_cases s' = db_cases s"
    "r = Inr k \<Longrightarrow> k = length cks \<and> map case_key (rows (db_cases s'))
      = map case_key (rows (db_cases s)) @ map (\<lambda>j. (pid, 1 + int j)) [0..<length cks]"
    using assms(1,3) run files stored probs
    by (auto simp: storeImportedCases_def split: option.splits sum.splits if_splits)
qed

lemma tbl_drop_created:
  assumes "tbl_ok key t" and "key r = Suc (seq t)"
  shows "filter (\<lambda>x. key x \<noteq> key r) (rows t @ [r]) = rows t"
  using assms by (auto simp: tbl_ok_def list_all_iff filter_id_conv)

text \<open>The state after the cases of a new problem were stored, or could not be.\<close>

lemma stored_or_dropped:
  fixes e cl m s
  defines "s1 \<equiv> fst (create_problem e (imported_problem cl m) s)" and "pid \<equiv> Suc (seq (db_problems s))"
  assumes "testdata_ok sha s" and "cases_known s"
    and st: "storeImportedCases sha dk e 1 pid cs s1 = (s2, q)"
  shows "case q of
      Inl err \<Rightarrow>
        (let s' = s2\<lparr>db_problems := tbl_delete (\<lambda>r. p_ID r = pid) (db_problems s2)\<rparr>
         in testdata_ok sha s' \<and> cases_known s' \<and> rows (db_problems s') = rows (db_problems s) \<and> db_cases s' = db_cases s)
    | Inr k \<Rightarrow>
        testdata_ok sha s2 \<and> cases_known s2
        \<and> rows (db_problems s2) = rows (db_problems s) @ [snd (create_problem e (imported_problem cl m) s)]
        \<and> map case_key (rows (db_cases s2)) = map case_key (rows (db_cases s)) @ map (\<lambda>j. (pid, 1 + int j)) [0..<k]"
proof -
  define prob where "prob = snd (create_problem e (imported_problem cl m) s)"
  have new: "p_ID prob = pid" by (simp add: prob_def pid_def)
  have s1: "db_cases s1 = db_cases s" "db_files s1 = db_files s" "seq (db_problems s1) = pid"
    "rows (db_problems s1) = rows (db_problems s) @ [prob]"
    by (simp_all add: s1_def prob_def pid_def)
  have tp: "tbl_ok p_ID (db_problems s1)"
    using assms(4) by (simp add: s1_def cases_known_def tbl_ok_create_problem)
  have ok1: "testdata_ok sha s1" using assms(3) s1 by (simp add: testdata_ok_def)
  have le: "tc_ProblemID t < pid" if "t \<in> set (rows (db_cases s))" for t
    using assms(4) that by (auto simp: cases_known_def list_all_iff pid_def)
  have fresh: "(pid, j) \<notin> set (map case_key (rows (db_cases s1)))" for j
    using le by (auto simp: s1 case_key_def)
  note stored = storeImportedCases_cases [OF ok1 fresh st]
  show ?thesis
  proof (cases q)
    case (Inl err)
    let ?s' = "s2\<lparr>db_problems := tbl_delete (\<lambda>r. p_ID r = pid) (db_problems s2)\<rparr>"
    have "rows (db_problems ?s') = rows (db_problems s)"
      using stored(2) s1(4) tbl_drop_created [of p_ID "db_problems s" prob] assms(4) new
      by (simp add: table_simps cases_known_def pid_def)
    moreover have "seq (db_problems ?s') = pid" using stored(2) s1(3) by (simp add: table_simps)
    moreover have "tbl_ok p_ID (db_problems ?s')" using stored(2) tp by (simp add: tbl_ok_delete)
    moreover have "testdata_ok sha ?s'" "db_cases ?s' = db_cases s"
      using stored(1) stored(3) [OF Inl] s1(1) by (simp_all add: testdata_ok_def)
    ultimately show ?thesis using le Inl by (auto simp: cases_known_def list_all_iff less_imp_le)
  next
    case (Inr k)
    have keys: "map case_key (rows (db_cases s2))
        = map case_key (rows (db_cases s)) @ map (\<lambda>j. (pid, 1 + int j)) [0..<k]"
      using stored(4) [OF Inr] s1(1) by simp
    have "tc_ProblemID t \<le> pid" if "t \<in> set (rows (db_cases s2))" for t
    proof -
      have "case_key t \<in> set (map case_key (rows (db_cases s2)))" using that by simp
      then show ?thesis unfolding keys using le by (auto simp: case_key_def less_imp_le)
    qed
    then have "cases_known s2"
      using stored(2) tp s1(3) by (simp add: cases_known_def list_all_iff)
    with stored(1,2) keys s1(4) Inr prob_def show ?thesis by simp
  qed
qed


text \<open>A package of one case, taken by a server with one problem.\<close>

definition tiny_package :: "zip_entry list" where
  "tiny_package = [sample_entry ''1.in'' ''3'', sample_entry ''1.out'' ''9'']"

definition tiny_upload :: package_upload where
  "tiny_upload = \<lparr>up_opens = True, up_temp = None, up_bytes = 300, up_zip = Inr tiny_package, pu_reads = True\<rparr>"

lemma tiny_cases:
  "pm_cases (scanPackage (\<lambda>_. False) (\<lambda>_. None) tiny_package)
    = [\<lparr>ck_in = sample_entry ''1.in'' ''3'', ck_ans = Some (sample_entry ''1.out'' ''9''), ck_name = ''1''\<rparr>]"
  by code_simp

lemma tiny_import:
  obtains s' rp where "importProblem id sound_disk (\<lambda>_. False) (\<lambda>_. None) calm root_setter (Some tiny_upload) bank_db
      = (s', Inr rp)" and "ir_stored rp = 1" and "p_ID (ir_problem rp) = 2"
proof -
  define m where "m = scanPackage (\<lambda>_. False) (\<lambda>_. None) tiny_package"
  obtain s1 prob where cp: "create_problem calm (imported_problem root_setter m) bank_db = (s1, prob)" by fastforce
  have id: "p_ID prob = 2"
  proof -
    have "seq (db_problems bank_db) = 1" by (simp add: bank_db_def)
    then show ?thesis using create_problem_simps(1) [of calm "imported_problem root_setter m" bank_db] cp by simp
  qed
  have ok: "env_dbok calm n" "dk_mkdir sound_disk = None" for n by (simp_all add: calm_def sound_disk_def)
  have "snd (storeImportedCases id sound_disk calm 1 2 (pm_cases m) s1) = Inr 1"
    by (simp add: storeImportedCases_def m_def tiny_cases import_case_def writeCaseFile_def sample_read ok split_beta Let_def)
  then obtain s2 where "storeImportedCases id sound_disk calm 1 2 (pm_cases m) s1 = (s2, Inr 1)"
    by (cases "storeImportedCases id sound_disk calm 1 2 (pm_cases m) s1") simp
  moreover have "pm_cases m \<noteq> []" by (simp add: m_def tiny_cases)
  ultimately have "importProblem id sound_disk (\<lambda>_. False) (\<lambda>_. None) calm root_setter (Some tiny_upload) bank_db
      = (s2, Inr \<lparr>ir_problem = prob, ir_stored = 1, ir_format = pm_format m, ir_notes = pm_notes m\<rparr>)"
    using cp id by (simp add: importProblem_def tiny_upload_def maxZipBytes_def m_def [symmetric] ok)
  then show ?thesis by (rule that) (use id in \<open>simp_all only: import_reply.select_convs\<close>)
qed


end
