(* ===== verification/Package_Roundtrip.thy ===== *)
theory Package_Roundtrip
  imports Problem_Import
begin

text \<open>
  Exporting a problem (\<open>exportProblem\<close> of \<open>problem_extra.go\<close>, modelled in \<open>Problems\<close>) and importing the
  package (\<open>Problem_Import\<close>) gives the problem back: title, statement, limits, sources and the test
  cases with their numbers.
\<close>

section \<open>Packed entries\<close>

text \<open>\<open>archive/zip\<close> reads the entries that were written.\<close>

definition packed_entry :: "string \<times> string \<Rightarrow> zip_entry" where
  "packed_entry nd = \<lparr>ze_Name = fst nd, ze_Size = length (snd nd), ze_Data = Inr (snd nd)\<rparr>"

lemma packed_simps [simp]: "ze_Name (packed_entry nd) = fst nd" "ze_Data (packed_entry nd) = Inr (snd nd)"
  by (simp_all add: packed_entry_def)

lemma packed_read:
  "length d \<le> limit \<Longrightarrow> limit < 2 ^ 32 \<Longrightarrow> readZipFile (packed_entry (n, d)) limit = Inr d"
  by (simp add: readZipFile_def packed_entry_def wrap_int_def)

section \<open>Strings without surprises\<close>

lemma str_contains_char: "c \<in> set sub \<Longrightarrow> c \<notin> set s \<Longrightarrow> \<not> str_contains s sub"
proof
  assume c: "c \<in> set sub" "c \<notin> set s" and "str_contains s sub"
  then obtain i r where "drop i s = sub @ r"
    by (auto simp: str_contains_def list_ex_iff is_prefix_append)
  then have "c \<in> set (drop i s)" using c(1) by simp
  then show False using c(2) by (meson in_set_dropD)
qed

text \<open>
  A value that \<open>meta.txt\<close> can carry: not empty, on one line, without the equals sign, and neither
  begun nor ended by white space or a quote, nor in braces.
\<close>

definition plain_value :: "string \<Rightarrow> bool" where
  "plain_value v \<longleftrightarrow>
     v \<noteq> [] \<and> CHR ''='' \<notin> set v \<and> CHR 0x0A \<notin> set v
     \<and> \<not> is_space (hd v) \<and> \<not> is_space (List.last v) \<and> hd v \<notin> set quotes \<and> List.last v \<notin> set quotes
     \<and> \<not> (hd v = CHR ''{'' \<and> List.last v = CHR ''}'')"

definition plain_key :: "string \<Rightarrow> bool" where
  "plain_key k \<longleftrightarrow>
     k \<noteq> [] \<and> list_all (\<lambda>c. \<not> is_space c \<and> c \<noteq> CHR '':'' \<and> c \<noteq> CHR ''='' \<and> c \<noteq> CHR ''#'' \<and> c \<noteq> CHR ''-'') k"

lemma plain_key_facts:
  assumes "plain_key k"
  shows "k \<noteq> []" "CHR '':'' \<notin> set k" "CHR ''='' \<notin> set k" "CHR 0x0A \<notin> set k" "CHR '' '' \<notin> set k"
    "\<not> is_space (hd k)" "\<not> is_space (List.last k)" "hd k \<noteq> CHR ''#''" "hd k \<noteq> CHR ''-''"
    "hd k \<noteq> CHR '' ''" "hd k \<noteq> CHR 0x09"
  using assms hd_in_set [of k] last_in_set [of k]
  by (auto simp: plain_key_def list_all_iff is_space_def)

lemma is_prefix_single: "is_prefix [c] s \<longleftrightarrow> s \<noteq> [] \<and> hd s = c"
  by (cases s) (auto simp: is_prefix_def)

lemma ends_with_single: "ends_with s [c] \<longleftrightarrow> s \<noteq> [] \<and> List.last s = c"
  by (auto simp: ends_with_append) (metis append_butlast_last_id)

lemma yaml_line_plain:
  assumes "plain_key k" and "plain_value v"
  shows "yaml_line (k @ '': '' @ v) (out, parent) = (AList.update k v out, [])"
proof -
  note k = plain_key_facts [OF assms(1)]
  have v: "v \<noteq> []" "\<not> is_space (hd v)" "\<not> is_space (List.last v)" "hd v \<notin> set quotes" "List.last v \<notin> set quotes"
    "\<not> (hd v = CHR ''{'' \<and> List.last v = CHR ''}'')"
    using assms(2) by (simp_all add: plain_value_def)
  have line: "trim_space (k @ '': '' @ v) = k @ '': '' @ v"
    using k v by (intro trim_space_id) simp
  have cut: "cut_at (CHR '':'') (k @ '': '' @ v) = Some (k, CHR '' '' # v)"
    using cut_at_sep [of "CHR '':''" k "CHR '' '' # v"] k by simp
  have tv: "trim_space (CHR '' '' # v) = v"
    using trim_space_id [of v] v by (simp add: trim_space_def Let_def)
  have tk: "trim_space k = k" using k by (intro trim_space_id) simp
  have q: "trim_chars v quotes = v" using v by (intro trim_chars_id) simp
  have nc: "\<not> str_contains k '' ''" using k by (intro str_contains_char [of "CHR '' ''"]) simp_all
  show ?thesis
    using k v by (auto simp: yaml_line_def line [simplified] cut [simplified] tv tk q nc is_prefix_single ends_with_single Let_def)
qed

lemma split_lines:
  "CHR 0x0A \<notin> set xs \<Longrightarrow> split_on (CHR 0x0A) (xs @ newline @ ys) = xs # split_on (CHR 0x0A) ys"
  by (simp add: newline_def split_on_sep)

fun kv_lines :: "(string \<times> string) list \<Rightarrow> string" where
  "kv_lines [] = []"
| "kv_lines ((k, v) # kvs) = k @ ''='' @ v @ newline @ kv_lines kvs"

lemma parse_kv_lines:
  assumes "list_all (\<lambda>(k, v). plain_key k \<and> plain_value v) kvs"
  shows "fold yaml_line (split_on (CHR 0x0A) (replace_char (CHR ''='') '': '' (kv_lines kvs))) (out, [])
    = (fold (\<lambda>(k, v). AList.update k v) kvs out, [])"
  using assms
proof (induction kvs arbitrary: out)
  case Nil
  show ?case by (simp add: replace_char_def yaml_line_def trim_space_def Let_def)
next
  case (Cons kv kvs)
  obtain k v where kv: "kv = (k, v)" by fastforce
  have pk: "plain_key k" and pv: "plain_value v" using Cons.prems kv by simp_all
  have rep: "replace_char (CHR ''='') '': '' (kv_lines (kv # kvs))
      = (k @ '': '' @ v) @ newline @ replace_char (CHR ''='') '': '' (kv_lines kvs)"
    using plain_key_facts [OF pk] pv
    by (simp add: kv replace_char_append replace_char_Cons replace_char_id plain_value_def newline_def)
  have "CHR 0x0A \<notin> set (k @ '': '' @ v)" using plain_key_facts [OF pk] pv by (simp add: plain_value_def)
  then have "split_on (CHR 0x0A) (replace_char (CHR ''='') '': '' (kv_lines (kv # kvs)))
      = (k @ '': '' @ v) # split_on (CHR 0x0A) (replace_char (CHR ''='') '': '' (kv_lines kvs))"
    unfolding rep by (rule split_lines)
  then show ?case
    using Cons yaml_line_plain [OF pk pv, of out "[]"] by (simp add: kv)
qed

section \<open>The metadata\<close>

definition meta_pairs :: "Problem \<Rightarrow> (string \<times> string) list" where
  "meta_pairs prob = [(''id'', nat_str (p_ID prob)), (''title'', p_Title prob),
     (''time_limit_ms'', int_str (p_TimeLimitMS prob)), (''mem_limit_mb'', int_str (p_MemLimitMB prob)),
     (''judge_mode'', p_JudgeMode prob)]"

lemma export_meta_lines: "export_meta prob = kv_lines (meta_pairs prob)"
  by (simp add: export_meta_def meta_pairs_def)

lemma plain_digits:
  assumes "s \<noteq> []" and "list_all is_digit s"
  shows "plain_value s"
proof -
  have d: "is_digit c" if "c \<in> set s" for c using assms(2) that by (simp add: list_all_iff)
  have n: "\<not> is_space c \<and> c \<noteq> CHR ''='' \<and> c \<noteq> CHR 0x0A \<and> c \<notin> set quotes \<and> c \<noteq> CHR ''{''" if "is_digit c" for c
    using that by (auto simp: is_space_def is_digit_def quotes_def)
  have "is_digit (hd s)" "is_digit (List.last s)" using assms(1) d by simp_all
  with assms(1) d n show ?thesis by (auto simp: plain_value_def)
qed

lemma plain_nat [simp]: "plain_value (nat_str n)"
  by (intro plain_digits) (simp_all add: nat_str_digits)

lemma plain_int: "0 \<le> i \<Longrightarrow> plain_value (int_str i)"
  by (simp add: int_str_def)

lemma plain_mode:
  "m \<in> {JudgeModeDefault, JudgeModeSPJ, JudgeModeInteractive} \<Longrightarrow> plain_value m"
  by (auto simp: plain_value_def is_space_def quotes_def)

lemma meta_parsed:
  assumes "plain_value (p_Title prob)" and "0 \<le> p_TimeLimitMS prob" and "0 \<le> p_MemLimitMB prob"
    and "p_JudgeMode prob \<in> {JudgeModeDefault, JudgeModeSPJ, JudgeModeInteractive}"
  shows "parseKV (export_meta prob) = meta_pairs prob"
proof -
  have "list_all (\<lambda>(k, v). plain_key k \<and> plain_value v) (meta_pairs prob)"
    using assms plain_mode [OF assms(4)] by (simp add: meta_pairs_def plain_int plain_key_def is_space_def)
  from parse_kv_lines [OF this, of "[]"] show ?thesis
    by (simp add: parseKV_def parseFlatYAML_def export_meta_lines) (simp add: meta_pairs_def)
qed

lemma parse_limit:
  assumes "0 < i" and "i < 2 ^ 63"
  shows "parseIntOr (int_str i) d = i"
proof -
  have dig: "list_all is_digit (int_str i)" "int_str i \<noteq> []"
    using assms by (simp_all add: int_str_def nat_str_digits)
  have tr: "trim_space (int_str i) = int_str i"
    using plain_digits [OF dig(2,1)] by (intro trim_space_id) (simp add: plain_value_def)
  have "\<not> ends_with (int_str i) ''mb''"
    using dig by (auto simp: ends_with_append is_digit_def)
  then have "trim_suffix (int_str i) ''mb'' = int_str i" by (simp add: trim_suffix_def)
  moreover have "atoi (int_str i) = Some i"
  proof -
    obtain c cs where cs: "int_str i = c # cs" using dig(2) by (cases "int_str i") auto
    then have "c \<noteq> CHR ''-''" "c \<noteq> CHR ''+''" using dig(1) by (auto simp: is_digit_def)
    moreover have "int (str_val (int_str i)) = i" using assms by (simp add: int_str_def)
    ultimately show ?thesis using dig(1) assms cs by (simp add: atoi_def Let_def)
  qed
  ultimately show ?thesis using assms by (simp add: parseIntOr_def tr)
qed

lemma own_metadata_exported:
  assumes "plain_value (p_Title prob)" and "0 < p_TimeLimitMS prob" and "p_TimeLimitMS prob < 2 ^ 63"
    and "0 < p_MemLimitMB prob" and "p_MemLimitMB prob < 2 ^ 63"
    and "p_JudgeMode prob \<in> {JudgeModeDefault, JudgeModeSPJ, JudgeModeInteractive}"
    and "pm_format m = ''own''"
  shows "own_metadata (parseKV (export_meta prob)) m = m\<lparr>pm_title := p_Title prob,
    pm_timeMS := p_TimeLimitMS prob, pm_memMB := p_MemLimitMB prob, pm_judgeMode := p_JudgeMode prob\<rparr>"
proof -
  have "p_JudgeMode prob \<noteq> []" using assms(6) by auto
  moreover have "parseKV (export_meta prob) = meta_pairs prob"
    using assms by (intro meta_parsed) auto
  ultimately show ?thesis
    using assms by (simp add: own_metadata_def kv_get_def meta_pairs_def parse_limit)
qed

section \<open>The walk over the entries\<close>

lemma judgeSrcRe_suffix:
  "judgeSrcRe s = Some w \<Longrightarrow> ends_with s ''.cc'' \<or> ends_with s ''.cpp'' \<or> ends_with s ''.cxx''"
proof (induction s rule: judgeSrcRe.induct)
  case (2 c cs)
  have ext: "ends_with (c # cs) x" if "ends_with cs x" for x
    using that by (auto simp: ends_with_append intro: exI [of _ "c # p" for p])
  show ?case
  proof (cases "find (\<lambda>w. is_prefix w (c # cs) \<and> src_tail (drop (length w) (c # cs))) judge_words")
    case None
    with 2 ext show ?thesis by auto
  next
    case (Some v)
    then have tl: "src_tail (drop (length v) (c # cs))" by (auto simp: find_Some_iff)
    have "ends_with (c # cs) x" if "ends_with (drop (length v) (c # cs)) x" for x
      using that by (auto simp: ends_with_append) (metis append.assoc append_take_drop_id)
    with tl show ?thesis by (auto simp: src_tail_def)
  qed
qed simp

declare judgeSrcRe.simps [simp del]

lemma is_prefix_simps [simp]:
  "is_prefix [] s" "is_prefix (x # a) [] = False" "is_prefix (x # a) (y # b) = (x = y \<and> is_prefix a b)"
  by (auto simp: is_prefix_def)

lemma ends_with_last: "ends_with s suf \<Longrightarrow> suf \<noteq> [] \<Longrightarrow> List.last s = List.last suf"
  by (auto simp: ends_with_append)

lemma lower_append [simp]: "lower (s @ t) = lower s @ lower t"
  by (simp add: lower_def)

lemma lower_digits: "list_all is_digit s \<Longrightarrow> lower s = s"
  by (induction s) (auto simp: lower_def lower_char_def is_digit_def)

definition tname :: "int \<Rightarrow> string \<Rightarrow> string" where
  "tname i k = ''testdata/'' @ int_str i @ ''.'' @ k"

definition tfile :: "(int \<Rightarrow> string \<Rightarrow> string) \<Rightarrow> int \<times> string \<Rightarrow> zip_entry" where
  "tfile dat ik = packed_entry (tname (fst ik) (snd ik), dat (fst ik) (snd ik))"

definition test_file :: "int \<times> string \<Rightarrow> bool" where
  "test_file ik \<longleftrightarrow> 0 \<le> fst ik \<and> (snd ik = ''in'' \<or> snd ik = ''out'')"

lemma lower_literals:
  "lower ''testdata/'' = ''testdata/''" "lower ''.'' = ''.''" "lower ''in'' = ''in''" "lower ''out'' = ''out''"
  "lower ''statement.md'' = ''statement.md''" "lower ''meta.txt'' = ''meta.txt''"
  "lower ''checker.cpp'' = ''checker.cpp''" "lower ''interactor.cpp'' = ''interactor.cpp''"
  by code_simp+

lemma lower_tname: "test_file (i, k) \<Longrightarrow> lower (tname i k) = tname i k"
  by (auto simp: tname_def lower_literals test_file_def int_str_def lower_digits nat_str_digits simp del: append_Cons)

lemma tname_plain:
  assumes "test_file (i, k)"
  shows "CHR ''_'' \<notin> set (tname i k)" "\<not> ends_with (tname i k) ''/''" "\<not> isStatementPath (tname i k)"
    "tname i k \<noteq> ''meta.txt''" "tname i k \<noteq> ''/meta.txt''" "tname i k \<noteq> ''problem.yaml''"
    "List.last (tname i k) = List.last k"
proof -
  have k: "k = ''in'' \<or> k = ''out''" and i: "0 \<le> i" using assms by (simp_all add: test_file_def)
  show l: "List.last (tname i k) = List.last k" using k by (auto simp: tname_def)
  have "CHR ''_'' \<notin> set (int_str i)" using i by (intro int_str_no_sep) (simp_all add: is_digit_def)
  then show "CHR ''_'' \<notin> set (tname i k)" using k by (auto simp: tname_def)
  show "\<not> ends_with (tname i k) ''/''" using l k ends_with_last [of "tname i k" "''/''"] by auto
  show "\<not> isStatementPath (tname i k)" by (simp add: isStatementPath_def tname_def)
  show "tname i k \<noteq> ''meta.txt''" "tname i k \<noteq> ''/meta.txt''" "tname i k \<noteq> ''problem.yaml''"
    by (simp_all add: tname_def)
qed

lemma tname_no_source: "test_file (i, k) \<Longrightarrow> judgeSrcRe (tname i k) = None"
proof (rule ccontr)
  assume tf: "test_file (i, k)" and "judgeSrcRe (tname i k) \<noteq> None"
  then obtain x where "ends_with (tname i k) x" "x \<in> {''.cc'', ''.cpp'', ''.cxx''}"
    using judgeSrcRe_suffix by fastforce
  then have "List.last k \<in> {CHR ''c'', CHR ''p'', CHR ''x''}"
    using ends_with_last [of "tname i k" x] tname_plain(7) [OF tf] by auto
  with tf show False by (auto simp: test_file_def)
qed

definition key_of :: "(int \<Rightarrow> string \<Rightarrow> string) \<Rightarrow> zip_entry option \<Rightarrow> int \<Rightarrow> caseKey" where
  "key_of dat ans i = \<lparr>ck_in = tfile dat (i, ''in''), ck_ans = ans, ck_name = ''testdata/'' @ int_str i\<rparr>"

definition add_cases :: "caseKey list \<Rightarrow> scan \<Rightarrow> scan" where
  "add_cases cs sc = sc\<lparr>sn_meta := (sn_meta sc)\<lparr>pm_cases := pm_cases (sn_meta sc) @ cs\<rparr>\<rparr>"

lemma add_cases_simps [simp]: "add_cases [] sc = sc" "add_cases ds (add_cases cs sc) = add_cases (cs @ ds) sc"
  by (simp_all add: add_cases_def)

lemma scan_plain:
  assumes "\<not> dm zf" and "\<not> ends_with (ze_Name zf) ''/''" and "\<not> str_contains (ze_Name zf) ''__MACOSX''"
    and "lower (ze_Name zf) = low" and "judgeSrcRe low = None"
  shows "scan_entry dm zf sc
    = (classify_entry zf low sc)\<lparr>sn_meta := take_case zf low (sn_meta (classify_entry zf low sc))\<rparr>"
  using assms by (simp add: scan_entry_def Let_def)

lemma trim_tname:
  "trim_suffix (tname i ''in'') ''.in'' = ''testdata/'' @ int_str i" "ends_with (tname i ''in'') ''.in''"
  "trim_suffix (tname i ''out'') ''.out'' = ''testdata/'' @ int_str i" "ends_with (tname i ''out'') ''.out''"
proof -
  have n: "tname i k = (''testdata/'' @ int_str i) @ ''.'' @ k" for k by (simp add: tname_def)
  show "trim_suffix (tname i ''in'') ''.in'' = ''testdata/'' @ int_str i"
    using trim_suffix_append [of "''testdata/'' @ int_str i" "''.in''"] n [of "''in''"] by simp
  show "trim_suffix (tname i ''out'') ''.out'' = ''testdata/'' @ int_str i"
    using trim_suffix_append [of "''testdata/'' @ int_str i" "''.out''"] n [of "''out''"] by simp
  show "ends_with (tname i ''in'') ''.in''" "ends_with (tname i ''out'') ''.out''"
    unfolding ends_with_append n by auto
qed

lemma scan_test:
  assumes "test_file ik" and "\<not> dm (tfile dat ik)"
  shows "scan_entry dm (tfile dat ik) sc
    = add_cases (if snd ik = ''in'' then [key_of dat None (fst ik)] else []) sc"
proof -
  obtain i k where ik: "ik = (i, k)" by fastforce
  have tf: "test_file (i, k)" using assms(1) ik by simp
  note pl = tname_plain [OF tf]
  have name: "ze_Name (tfile dat ik) = tname i k" by (simp add: tfile_def ik)
  have nomac: "\<not> str_contains (tname i k) ''__MACOSX''"
    using pl(1) by (intro str_contains_char [of "CHR ''_''"]) simp_all
  have cls: "classify_entry (tfile dat ik) (tname i k) sc = sc"
    using pl by (simp add: classify_entry_def)
  have tc: "take_case (tfile dat ik) (tname i k) m
      = (if k = ''in'' then m\<lparr>pm_cases := pm_cases m @ [key_of dat None i]\<rparr> else m)" for m
  proof (cases "k = ''in''")
    case True
    show ?thesis using True name ik by (simp add: take_case_def key_of_def trim_tname)
  next
    case False
    then have "\<not> ends_with (tname i k) ''.in''"
      using tf ends_with_last [of "tname i k" "''.in''"] pl(7) by (auto simp: test_file_def)
    then show ?thesis using False by (simp add: take_case_def)
  qed
  have "scan_entry dm (tfile dat ik) sc
      = sc\<lparr>sn_meta := take_case (tfile dat ik) (tname i k) (sn_meta sc)\<rparr>"
    using scan_plain [of dm "tfile dat (i, k)" "tname i k" sc] assms(2) pl nomac tname_no_source [OF tf] lower_tname [OF tf]
    unfolding ik name [unfolded ik] cls [unfolded ik] by blast
  then show ?thesis unfolding ik tc [unfolded ik] by (simp add: add_cases_def)
qed

lemma scan_tests:
  assumes "list_all test_file iks" and "list_all (\<lambda>ik. \<not> dm (tfile dat ik)) iks"
  shows "fold (scan_entry dm) (map (tfile dat) iks) sc
    = add_cases (map (key_of dat None) (map fst (filter (\<lambda>ik. snd ik = ''in'') iks))) sc"
  using assms by (induction iks arbitrary: sc) (simp_all add: scan_test)

section \<open>Answers and order\<close>

definition answer_fits :: "string \<Rightarrow> zip_entry \<Rightarrow> string \<Rightarrow> bool" where
  "answer_fits name zf ext \<longleftrightarrow>
     ends_with (lower (ze_Name zf)) ext \<and> lower (trim_suffix (ze_Name zf) ext) = lower name"

lemma pair_answer_unique:
  assumes "\<And>zf. zf \<in> set es \<Longrightarrow> list_ex (answer_fits name zf) [''.ans'', ''.out'', ''.a''] \<longleftrightarrow> zf = f"
    and "f \<in> set es"
  shows "pair_answer es name = Some f"
proof -
  have step: "fold (pair_step name zf) [''.ans'', ''.out'', ''.a''] acc = (if zf = f then Some f else acc)"
    if "zf \<in> set es" for zf acc
    using assms(1) [OF that] by (auto simp: pair_step_def answer_fits_def)
  have "fold (\<lambda>zf. fold (pair_step name zf) [''.ans'', ''.out'', ''.a'']) zs acc
      = (if f \<in> set zs then Some f else acc)" if "set zs \<subseteq> set es" for zs acc
    using that
  proof (induction zs arbitrary: acc)
    case (Cons z zs)
    then show ?case using step [of z acc] by (auto simp del: fold_simps(2) simp: fold_Cons [of _ z zs])
  qed simp
  then show ?thesis using assms(2) by (simp add: pair_answer_def)
qed

lemma no_answer:
  assumes "List.last n \<notin> {CHR ''s'', CHR ''t'', CHR ''a''}" and "lower n = n"
  shows "\<not> list_ex (answer_fits name (packed_entry (n, d))) [''.ans'', ''.out'', ''.a'']"
  using assms ends_with_last [of n "''.ans''"] ends_with_last [of n "''.out''"] ends_with_last [of n "''.a''"]
  by (auto simp: answer_fits_def)

lemma test_answer:
  assumes "test_file (j, k)" and "0 \<le> i"
  shows "list_ex (answer_fits (''testdata/'' @ int_str i) (tfile dat (j, k))) [''.ans'', ''.out'', ''.a'']
    \<longleftrightarrow> k = ''out'' \<and> j = i"
proof -
  have k: "k = ''in'' \<or> k = ''out''" and j: "0 \<le> j" using assms(1) by (simp_all add: test_file_def)
  have name: "ze_Name (tfile dat (j, k)) = tname j k" by (simp add: tfile_def)
  have lo: "lower (''testdata/'' @ int_str a) = ''testdata/'' @ int_str a" if "0 \<le> a" for a
    using that by (simp add: lower_literals int_str_def lower_digits nat_str_digits del: append_Cons)
  have no: "\<not> ends_with (tname j k) ''.ans''" "\<not> ends_with (tname j k) ''.a''" "k = ''in'' \<Longrightarrow> \<not> ends_with (tname j k) ''.out''"
    using k tname_plain(7) [OF assms(1)] ends_with_last [of "tname j k" "''.ans''"]
      ends_with_last [of "tname j k" "''.out''"] ends_with_last [of "tname j k" "''.a''"] by auto
  have fit: "k = ''out'' \<Longrightarrow> answer_fits (''testdata/'' @ int_str i) (tfile dat (j, k)) ''.out'' \<longleftrightarrow> j = i"
    using assms j lo [OF j] lo [OF assms(2)]
    by (simp add: answer_fits_def tfile_def lower_tname trim_tname int_str_inject_nonneg)
  have "\<not> answer_fits (''testdata/'' @ int_str i) (tfile dat (j, k)) ''.ans''"
    "\<not> answer_fits (''testdata/'' @ int_str i) (tfile dat (j, k)) ''.a''"
    "k = ''in'' \<Longrightarrow> \<not> answer_fits (''testdata/'' @ int_str i) (tfile dat (j, k)) ''.out''"
    using no lower_tname [OF assms(1)] by (simp_all add: answer_fits_def tfile_def)
  with fit k show ?thesis by (auto simp del: append_Cons)
qed

lemma sort_by_map:
  assumes "\<And>x y. x \<in> set xs \<Longrightarrow> y \<in> set xs \<Longrightarrow> lt (f x) (f y) \<longleftrightarrow> x < (y :: int)"
  shows "sort_by lt (map f xs) = map f (sort xs)"
  using assms
proof (induction xs)
  case (Cons x xs)
  have ins: "insert_by lt (f x) (map f ys) = map f (insort x ys)" if "set ys \<subseteq> set xs" for ys
    using that Cons.prems
  proof (induction ys)
    case (Cons y ys)
    then show ?case by (auto simp: subset_iff not_le not_less)
  qed simp
  with Cons show ?case by simp
qed simp

lemma naturalLess_numbers:
  assumes "0 \<le> i" and "0 \<le> j" and "i < 2 ^ 63" and "j < 2 ^ 63"
  shows "naturalLess (int_str i) (int_str j) \<longleftrightarrow> i < j"
proof -
  have num: "first_number (int_str a) = Some (a, [])" if "0 \<le> a" "a < 2 ^ 63" for a
  proof -
    have dig: "list_all is_digit (int_str a)" "int_str a \<noteq> []" "int (str_val (int_str a)) = a"
      using that by (simp_all add: int_str_def nat_str_digits)
    then obtain c cs where cs: "int_str a = c # cs" by (cases "int_str a") auto
    then have "c \<noteq> CHR ''-''" "c \<noteq> CHR ''+''" "is_digit c" using dig(1) by (auto simp: is_digit_def)
    moreover have tw: "takeWhile is_digit cs = cs" "dropWhile is_digit cs = []"
      using dig(1) cs by (auto simp: list_all_iff)
    ultimately show ?thesis
      using dig cs that by (simp add: first_number_def atoi_or_zero_def tw Let_def)
  qed
  show ?thesis
    using num [OF assms(1,3)] num [OF assms(2,4)] assms
    by (subst naturalLess.simps) (auto simp: int_str_def naturalLess.simps [of "[]"])
qed

lemma case_before_keys:
  assumes "0 \<le> i" and "0 \<le> j" and "i < 2 ^ 63" and "j < 2 ^ 63"
  shows "case_before (key_of dat a i) (key_of dat b j) \<longleftrightarrow> i < j"
proof -
  have parts: "path_dir (''testdata/'' @ int_str a) = ''testdata''" "path_base (''testdata/'' @ int_str a) = int_str a"
    if "0 \<le> a" for a
  proof -
    have ns: "CHR ''/'' \<notin> set (int_str a)" by (intro int_str_no_sep) simp_all
    have rev: "rev (''testdata/'' @ int_str a) = rev (int_str a) @ CHR ''/'' # ''atadtset''" by simp
    have dw: "dropWhile (\<lambda>c. c \<noteq> CHR ''/'') (rev (''testdata/'' @ int_str a)) = CHR ''/'' # ''atadtset''"
      unfolding rev using ns by (subst dropWhile_append2) auto
    have cl: "path_clean ''testdata/'' = ''testdata''" by code_simp
    show "path_dir (''testdata/'' @ int_str a) = ''testdata''"
      unfolding path_dir_def dw using cl by simp
    have nn: "int_str a \<noteq> []" using that by (simp add: int_str_def)
    moreover have "List.last (int_str a) \<noteq> CHR ''/''" using last_in_set [OF nn] ns by auto
    ultimately have hd: "rev (int_str a) \<noteq> []" "hd (rev (int_str a)) \<noteq> CHR ''/''" by (simp_all add: hd_rev)
    have "dropWhile (\<lambda>c. c = CHR ''/'') (rev (''testdata/'' @ int_str a)) = rev (''testdata/'' @ int_str a)"
      unfolding rev using hd by (cases "rev (int_str a)") auto
    moreover have "takeWhile (\<lambda>c. c \<noteq> CHR ''/'') (rev (''testdata/'' @ int_str a)) = rev (int_str a)"
      unfolding rev using ns by (subst takeWhile_append2) auto
    ultimately show "path_base (''testdata/'' @ int_str a) = int_str a"
      by (simp add: path_base_def Let_def del: rev_append)
  qed
  show ?thesis
    using parts assms naturalLess_numbers [OF assms] by (simp add: case_before_def key_of_def Let_def del: append_Cons)
qed

section \<open>The round trip\<close>

text \<open>The files of a problem with the cases 1 to \<open>n\<close>.\<close>

definition case_slots :: "int \<Rightarrow> (int \<times> string) list" where
  "case_slots n = concat (map (\<lambda>i. [(i, ''in''), (i, ''out'')]) [1..n])"

lemma case_slots_in: "(i, k) \<in> set (case_slots n) \<longleftrightarrow> 1 \<le> i \<and> i \<le> n \<and> (k = ''in'' \<or> k = ''out'')"
  by (auto simp: case_slots_def)

lemma filter_case_slots: "map fst (filter (\<lambda>ik. snd ik = ''in'') (case_slots n)) = [1..n]"
proof -
  have "map fst (filter (\<lambda>ik. snd ik = ''in'') (concat (map (\<lambda>i. [(i, ''in''), (i, ''out'')]) xs))) = xs" for xs :: "int list"
    by (induction xs) auto
  then show ?thesis by (simp add: case_slots_def)
qed

lemma sorted_inputs:
  assumes "mset iks = mset (case_slots n)"
  shows "sort (map fst (filter (\<lambda>ik. snd ik = ''in'') iks)) = [1..n]"
proof (rule properties_for_sort)
  have "mset (map fst (filter (\<lambda>ik. snd ik = ''in'') iks)) = mset (map fst (filter (\<lambda>ik. snd ik = ''in'') (case_slots n)))"
    by (simp add: assms mset_filter)
  then show "mset [1..n] = mset (map fst (filter (\<lambda>ik. snd ik = ''in'') iks))"
    by (simp add: filter_case_slots)
  show "sorted [1..n]" by simp
qed

text \<open>The four kinds of entries before the test files.\<close>

definition head_entries :: "Problem \<Rightarrow> (string \<times> string) list" where
  "head_entries prob = [(''statement.md'', p_StatementMD prob), (''meta.txt'', export_meta prob)]
     @ (if p_CheckerSource prob \<noteq> [] then [(''checker.cpp'', p_CheckerSource prob)] else [])
     @ (if p_InteractorSrc prob \<noteq> [] then [(''interactor.cpp'', p_InteractorSrc prob)] else [])"

lemma head_literals:
  "judgeSrcRe ''statement.md'' = None" "judgeSrcRe ''meta.txt'' = None"
  "judgeSrcRe ''checker.cpp'' = Some ''checker''" "judgeSrcRe ''interactor.cpp'' = Some ''interactor''"
  "isStatementPath ''statement.md''" "ends_with ''statement.md'' ''.md''"
  "\<not> ends_with ''statement.md'' ''.in''" "\<not> ends_with ''meta.txt'' ''.in''" "\<not> ends_with ''checker.cpp'' ''.in''"
  "\<not> ends_with ''interactor.cpp'' ''.in''" "\<not> str_contains ''checker'' ''interact''"
  "str_contains ''interactor'' ''interact''"
  "\<not> ends_with ''checker.cpp'' ''.md''" "\<not> ends_with ''checker.cpp'' ''.tex''" "\<not> ends_with ''checker.cpp'' ''.pdf''"
  "\<not> ends_with ''interactor.cpp'' ''.md''" "\<not> ends_with ''interactor.cpp'' ''.tex''"
  "\<not> ends_with ''interactor.cpp'' ''.pdf''"
  by code_simp+

lemma head_plain:
  "n \<in> {''statement.md'', ''meta.txt'', ''checker.cpp'', ''interactor.cpp''} \<Longrightarrow>
    \<not> ends_with n ''/'' \<and> \<not> str_contains n ''__MACOSX''"
  using str_contains_char [of "CHR ''_''" "''__MACOSX''"] ends_with_last [of n "''/''"] by auto

lemma scan_head:
  assumes "\<And>zf. \<not> dm zf" and "length (p_CheckerSource prob) \<le> 512 * 2 ^ 10"
    and "length (p_InteractorSrc prob) \<le> 512 * 2 ^ 10" and "length (export_meta prob) \<le> 2 ^ 20"
    and "pm_checker (sn_meta sc) = []" and "pm_interactor (sn_meta sc) = []"
  shows "fold (scan_entry dm) (map packed_entry (head_entries prob)) sc
    = sc\<lparr>sn_md := sn_md sc @ [''statement.md''], sn_own := parseKV (export_meta prob),
        sn_meta := (sn_meta sc)\<lparr>pm_format := ''own'', pm_checker := p_CheckerSource prob,
          pm_interactor := p_InteractorSrc prob\<rparr>\<rparr>"
proof -
  have st: "scan_entry dm (packed_entry (''statement.md'', d)) c = c\<lparr>sn_md := sn_md c @ [''statement.md'']\<rparr>" for d c
    using head_plain [of "''statement.md''"] assms(1)
    by (simp add: scan_entry_def lower_literals head_literals classify_entry_def take_case_def Let_def)
  have mt: "scan_entry dm (packed_entry (''meta.txt'', export_meta prob)) c
      = c\<lparr>sn_own := parseKV (export_meta prob), sn_meta := (sn_meta c)\<lparr>pm_format := ''own''\<rparr>\<rparr>" for c
    using head_plain [of "''meta.txt''"] assms(1,4)
    by (simp add: scan_entry_def lower_literals head_literals classify_entry_def take_case_def packed_read Let_def)
  have ck: "scan_entry dm (packed_entry (''checker.cpp'', p_CheckerSource prob)) c
      = c\<lparr>sn_meta := (sn_meta c)\<lparr>pm_checker := p_CheckerSource prob\<rparr>\<rparr>" if "pm_checker (sn_meta c) = []" for c
    using head_plain [of "''checker.cpp''"] assms(1,2) that
    by (simp add: scan_entry_def lower_literals head_literals classify_entry_def take_case_def take_source_def packed_read Let_def)
  have it: "scan_entry dm (packed_entry (''interactor.cpp'', p_InteractorSrc prob)) c
      = c\<lparr>sn_meta := (sn_meta c)\<lparr>pm_interactor := p_InteractorSrc prob\<rparr>\<rparr>" for c
    using head_plain [of "''interactor.cpp''"] assms(1,3)
    by (simp add: scan_entry_def lower_literals head_literals classify_entry_def take_case_def take_source_def packed_read Let_def)
  show ?thesis
    using assms(5,6) by (simp add: head_entries_def st mt ck it)
qed

definition stored_file :: "db \<Rightarrow> nat \<Rightarrow> int \<Rightarrow> string \<Rightarrow> string" where
  "stored_file s pid i k = (case db_files s (case_file pid i k) of None \<Rightarrow> [] | Some raw \<Rightarrow> raw)"

lemma exported_entries:
  assumes "exportProblem e (map (\<lambda>(i, k). int_str i @ ''.'' @ k) iks) cl idstr [] s = Inr ps"
    and "problemByID s idstr = Some prob"
  shows "map packed_entry ps
    = map packed_entry (head_entries prob) @ map (tfile (stored_file s (p_ID prob))) iks"
  using assms
  by (auto simp: exportProblem_def head_entries_def tfile_def tname_def stored_file_def case_file_def Let_def
      split: if_splits)

lemma paired_cases:
  assumes "mset iks = mset (case_slots n)"
    and "es = map packed_entry (head_entries prob) @ map (tfile dat) iks"
    and "set is \<subseteq> {1..n}"
  shows "pair_cases es (map (key_of dat None) is) = map (\<lambda>i. key_of dat (Some (tfile dat (i, ''out''))) i) is"
proof -
  have iks: "(j, k) \<in> set iks \<longleftrightarrow> 1 \<le> j \<and> j \<le> n \<and> (k = ''in'' \<or> k = ''out'')" for j k
    using mset_eq_setD [OF assms(1)] case_slots_in [of j k n] by simp
  have ans: "pair_answer es (''testdata/'' @ int_str i) = Some (tfile dat (i, ''out''))" if i: "1 \<le> i" "i \<le> n" for i
  proof (rule pair_answer_unique)
    show "tfile dat (i, ''out'') \<in> set es" using iks [of i "''out''"] i by (auto simp: assms(2))
    fix zf assume "zf \<in> set es"
    then consider nd where "zf = packed_entry nd" "nd \<in> set (head_entries prob)"
      | j k where "zf = tfile dat (j, k)" "(j, k) \<in> set iks"
      by (auto simp: assms(2))
    then show "list_ex (answer_fits (''testdata/'' @ int_str i) zf) [''.ans'', ''.out'', ''.a'']
        \<longleftrightarrow> zf = tfile dat (i, ''out'')"
    proof cases
      case (1 nd)
      have name: "fst nd \<in> {''statement.md'', ''meta.txt'', ''checker.cpp'', ''interactor.cpp''}"
        using 1(2) by (auto simp: head_entries_def split: if_splits)
      have "\<not> ends_with ''meta.txt'' ''.out''" by code_simp
      then have "\<not> list_ex (answer_fits (''testdata/'' @ int_str i) (packed_entry nd)) [''.ans'', ''.out'', ''.a'']"
        using name no_answer [of "fst nd" "''testdata/'' @ int_str i" "snd nd"] ends_with_last [of "''meta.txt''" "''.ans''"]
          ends_with_last [of "''meta.txt''" "''.a''"]
        by (auto simp: lower_literals answer_fits_def)
      moreover have "ze_Name (packed_entry nd) \<noteq> ze_Name (tfile dat (i, ''out''))"
        using name by (auto simp: tfile_def tname_def)
      then have "packed_entry nd \<noteq> tfile dat (i, ''out'')" by metis
      ultimately show ?thesis using 1(1) by simp
    next
      case (2 j k)
      have tf: "test_file (j, k)" using iks 2(2) by (simp add: test_file_def)
      have "tfile dat (j, k) = tfile dat (i, ''out'') \<longleftrightarrow> k = ''out'' \<and> j = i"
      proof
        assume "tfile dat (j, k) = tfile dat (i, ''out'')"
        then have "list_ex (answer_fits (''testdata/'' @ int_str i) (tfile dat (j, k))) [''.ans'', ''.out'', ''.a'']
            = list_ex (answer_fits (''testdata/'' @ int_str i) (tfile dat (i, ''out''))) [''.ans'', ''.out'', ''.a'']"
          by simp
        then show "k = ''out'' \<and> j = i"
          using test_answer [OF tf, of i dat] test_answer [of i "''out''" i dat] i by (simp add: test_file_def)
      qed simp
      then show ?thesis using test_answer [OF tf, of i dat] i 2(1) by simp
    qed
  qed
  have "map (\<lambda>c. c\<lparr>ck_ans := pair_answer es (ck_name c)\<rparr>) (map (key_of dat None) is)
      = map (\<lambda>i. key_of dat (Some (tfile dat (i, ''out''))) i) is"
    using assms(3) ans by (auto simp: key_of_def simp del: append_Cons)
  then show ?thesis unfolding pair_cases_def by (simp add: key_of_def filter_id_conv)
qed

lemma sorted_kept:
  assumes "mset iks = mset (case_slots n)" and "n \<le> 100000"
  shows "sortCases (map (\<lambda>i. key_of dat (Some (tfile dat (i, ''out''))) i) (map fst (filter (\<lambda>ik. snd ik = ''in'') iks)))
    = map (\<lambda>i. key_of dat (Some (tfile dat (i, ''out''))) i) [1..n]"
proof -
  have rng: "1 \<le> i \<and> i \<le> n" if "i \<in> set (map fst (filter (\<lambda>ik. snd ik = ''in'') iks))" for i
    using that mset_eq_setD [OF assms(1)] by (auto simp: case_slots_in)
  show ?thesis
    unfolding sortCases_def sorted_inputs [OF assms(1), symmetric]
    using rng assms(2) by (intro sort_by_map case_before_keys) force+
qed

text \<open>What the scan of an exported package finds: the metadata, the sources, the statement and the numbered cases.\<close>

definition exported_meta :: "Problem \<Rightarrow> (int \<Rightarrow> string \<Rightarrow> string) \<Rightarrow> int \<Rightarrow> packageMeta" where
  "exported_meta prob dat n = blank_meta\<lparr>pm_format := ''own'', pm_checker := p_CheckerSource prob,
     pm_interactor := p_InteractorSrc prob,
     pm_cases := map (\<lambda>i. key_of dat (Some (tfile dat (i, ''out''))) i) [1..n], pm_title := p_Title prob,
     pm_timeMS := p_TimeLimitMS prob, pm_memMB := p_MemLimitMB prob, pm_judgeMode := p_JudgeMode prob,
     pm_statement := p_StatementMD prob\<rparr>"

lemma scan_exported:
  assumes "es = map packed_entry (head_entries prob) @ map (tfile dat) iks" and "mset iks = mset (case_slots n)" and "n \<le> 100000"
    and "plain_value (p_Title prob)"
    and "50 \<le> p_TimeLimitMS prob" and "p_TimeLimitMS prob \<le> 600000"
    and "16 \<le> p_MemLimitMB prob" and "p_MemLimitMB prob \<le> 8192"
    and "p_JudgeMode prob \<in> {JudgeModeDefault, JudgeModeSPJ, JudgeModeInteractive}"
    and "length (p_CheckerSource prob) \<le> 512 * 2 ^ 10" and "length (p_InteractorSrc prob) \<le> 512 * 2 ^ 10"
    and "length (export_meta prob) \<le> 2 ^ 20" and "length (p_StatementMD prob) \<le> 4 * 2 ^ 20"
    and "\<And>zf. \<not> dir_mode zf"
  shows "scanPackage dir_mode scan es = (let m = choose_mode (exported_meta prob dat n);
      m = (if pm_checker m \<noteq> [] \<and> pm_judgeMode m \<noteq> JudgeModeInteractive
           then m\<lparr>pm_notes := pm_notes m @ [''checker imported, check its arguments'']\<rparr> else m)
    in m\<lparr>pm_timeMS := clampInt (pm_timeMS m) 50 600000, pm_memMB := clampInt (pm_memMB m) 16 8192\<rparr>)"
proof -
  define idxs where "idxs = map fst (filter (\<lambda>ik. snd ik = ''in'') iks)"
  define sc0 where "sc0 = \<lparr>sn_meta = blank_meta, sn_yaml = [], sn_own = [], sn_md = [], sn_tex = [], sn_pdf = []\<rparr>"
  have iks: "list_all test_file iks"
    using mset_eq_setD [OF assms(2)] by (auto simp: list_all_iff test_file_def case_slots_in)
  have scanned: "fold (scan_entry dir_mode) es sc0
    = \<lparr>sn_meta = blank_meta\<lparr>pm_format := ''own'', pm_checker := p_CheckerSource prob,
         pm_interactor := p_InteractorSrc prob, pm_cases := map (key_of dat None) idxs\<rparr>,
       sn_yaml = [], sn_own = parseKV (export_meta prob), sn_md = [''statement.md''], sn_tex = [], sn_pdf = []\<rparr>"
    using scan_head [of dir_mode prob sc0] scan_tests [OF iks, of dir_mode dat] assms(10-14)
    by (simp add: assms(1) sc0_def blank_meta_def add_cases_def idxs_def list_all_iff)
  have kept: "pair_cases es (map (key_of dat None) idxs)
      = map (\<lambda>i. key_of dat (Some (tfile dat (i, ''out''))) i) idxs"
    using mset_eq_setD [OF assms(2)]
    by (intro paired_cases [OF assms(2,1)]) (auto simp: idxs_def case_slots_in)
  have srt: "sortCases (map (\<lambda>i. key_of dat (Some (tfile dat (i, ''out''))) i) idxs)
      = map (\<lambda>i. key_of dat (Some (tfile dat (i, ''out''))) i) [1..n]"
    unfolding idxs_def by (rule sorted_kept [OF assms(2,3)])
  have stmt: "read_named es ''statement.md'' = Some (p_StatementMD prob)"
    using assms(13) by (simp add: read_named_def assms(1) head_entries_def packed_read)
  have own: "own_metadata (parseKV (export_meta prob)) m = m\<lparr>pm_title := p_Title prob,
    pm_timeMS := p_TimeLimitMS prob, pm_memMB := p_MemLimitMB prob, pm_judgeMode := p_JudgeMode prob\<rparr>"
    if "pm_format m = ''own''" for m
    using assms(4-9) that by (intro own_metadata_exported) auto
  have chosen: "choose_statement es (fold (scan_entry dir_mode) es sc0)
      (yaml_metadata scan [] (own_metadata (parseKV (export_meta prob))
        (blank_meta\<lparr>pm_format := ''own'', pm_checker := p_CheckerSource prob,
         pm_interactor := p_InteractorSrc prob,
         pm_cases := map (\<lambda>i. key_of dat (Some (tfile dat (i, ''out''))) i) [1..n]\<rparr>))) = exported_meta prob dat n"
    by (simp add: own yaml_metadata_def choose_statement_def scanned stmt exported_meta_def)
  show ?thesis
    unfolding chosen [symmetric]
    by (simp add: scanPackage_def sc0_def [symmetric] scanned kept srt Let_def del: upto.simps)
qed

text \<open>
  C10. Exporting a problem and importing the package gives it back: the imported problem has the title,
  the statement, the limits and the sources of the exported one, its judge mode is the one its sources
  ask for, and the cases 1 to \<open>n\<close> are found again, each input with its own answer, in the order of
  their numbers, however the directory was listed.  The hypotheses: the title is one that \<open>meta.txt\<close>
  can carry, limits and sizes are within the bounds of the importer, and the directory holds exactly
  the files of the cases.
\<close>

theorem export_import_roundtrip:
  assumes "exportProblem e names cl idstr [] s = Inr ps" and "problemByID s idstr = Some prob"
    and "names = map (\<lambda>(i, k). int_str i @ ''.'' @ k) iks" and "mset iks = mset (case_slots n)" and "n \<le> 100000"
    and "plain_value (p_Title prob)"
    and "50 \<le> p_TimeLimitMS prob" and "p_TimeLimitMS prob \<le> 600000"
    and "16 \<le> p_MemLimitMB prob" and "p_MemLimitMB prob \<le> 8192"
    and "p_JudgeMode prob \<in> {JudgeModeDefault, JudgeModeSPJ, JudgeModeInteractive}"
    and "length (p_CheckerSource prob) \<le> 512 * 2 ^ 10" and "length (p_InteractorSrc prob) \<le> 512 * 2 ^ 10"
    and "length (export_meta prob) \<le> 2 ^ 20" and "length (p_StatementMD prob) \<le> 4 * 2 ^ 20"
    and "\<And>zf. \<not> dir_mode zf"
  shows "let m = scanPackage dir_mode scan (map packed_entry ps); q = imported_problem importer m
    in p_Title q = p_Title prob \<and> p_StatementMD q = p_StatementMD prob
     \<and> p_TimeLimitMS q = p_TimeLimitMS prob \<and> p_MemLimitMB q = p_MemLimitMB prob
     \<and> p_CheckerSource q = p_CheckerSource prob \<and> p_InteractorSrc q = p_InteractorSrc prob
     \<and> p_JudgeMode q = (if p_InteractorSrc prob \<noteq> [] then JudgeModeInteractive
                        else if p_CheckerSource prob \<noteq> [] then JudgeModeSPJ else p_JudgeMode prob)
     \<and> map (\<lambda>ck. (ze_Data (ck_in ck), map_option ze_Data (ck_ans ck))) (pm_cases m)
       = map (\<lambda>i. (Inr (stored_file s (p_ID prob) i ''in''), Some (Inr (stored_file s (p_ID prob) i ''out'')))) [1..n]"
proof -
  define m where "m = scanPackage dir_mode scan (map packed_entry ps)"
  have es: "map packed_entry ps = map packed_entry (head_entries prob) @ map (tfile (stored_file s (p_ID prob))) iks"
    by (rule exported_entries [OF assms(1)[unfolded assms(3)] assms(2)])
  have m: "m = (let m = choose_mode (exported_meta prob (stored_file s (p_ID prob)) n);
      m = (if pm_checker m \<noteq> [] \<and> pm_judgeMode m \<noteq> JudgeModeInteractive
           then m\<lparr>pm_notes := pm_notes m @ [''checker imported, check its arguments'']\<rparr> else m)
    in m\<lparr>pm_timeMS := clampInt (pm_timeMS m) 50 600000, pm_memMB := clampInt (pm_memMB m) 16 8192\<rparr>)"
    unfolding m_def by (rule scan_exported [OF es assms(4-16)])
  have fields: "pm_title m = p_Title prob" "pm_statement m = p_StatementMD prob"
    "pm_timeMS m = p_TimeLimitMS prob" "pm_memMB m = p_MemLimitMB prob"
    "pm_checker m = p_CheckerSource prob" "pm_interactor m = p_InteractorSrc prob"
    "pm_cases m = map (\<lambda>i. key_of (stored_file s (p_ID prob)) (Some (tfile (stored_file s (p_ID prob)) (i, ''out''))) i) [1..n]"
    using assms(7-10) by (simp_all add: m choose_mode_def exported_meta_def clampInt_def Let_def)
  have mode: "pm_judgeMode m = (if p_InteractorSrc prob \<noteq> [] then JudgeModeInteractive
      else if p_CheckerSource prob \<noteq> [] then JudgeModeSPJ else p_JudgeMode prob)"
    using assms(11) by (auto simp: m choose_mode_def exported_meta_def Let_def)
  have "trim_space (p_Title prob) = p_Title prob" "p_Title prob \<noteq> []"
    using assms(6) by (auto simp: plain_value_def intro!: trim_space_id)
  then show ?thesis
    unfolding m_def [symmetric]
    by (simp add: imported_problem_def fields mode Let_def key_of_def tfile_def)
qed

text \<open>A problem with two cases whose files are listed in no particular order.\<close>

definition squares :: Problem where
  "squares = blank_problem\<lparr>p_ID := 1, p_Title := ''Sum: squares'', p_StatementMD := ''square it'', p_TimeLimitMS := 1500,
     p_MemLimitMB := 64, p_Visibility := VisibilityMembers, p_JudgeMode := JudgeModeSPJ, p_CheckerSource := ''int main;''\<rparr>"

definition squares_db :: db where
  "squares_db = empty_db\<lparr>db_problems := \<lparr>rows = [squares], seq = 1\<rparr>,
     db_files := [case_file 1 1 ''in'' \<mapsto> ''3'', case_file 1 1 ''out'' \<mapsto> ''9'',
                  case_file 1 2 ''in'' \<mapsto> ''4'', case_file 1 2 ''out'' \<mapsto> ''16'']\<rparr>"

definition dir_listing :: "(int \<times> string) list" where
  "dir_listing = [(2, ''out''), (1, ''in''), (2, ''in''), (1, ''out'')]"

definition squares_package :: "(string \<times> string) list" where
  "squares_package = projr (exportProblem calm (map (\<lambda>(i, k). int_str i @ ''.'' @ k) dir_listing) root_setter ''1'' [] squares_db)"

lemma squares_found: "problemByID squares_db ''1'' = Some squares"
  by (simp add: byID_def tbl_first_def squares_db_def squares_def)

lemma squares_exported:
  "exportProblem calm (map (\<lambda>(i, k). int_str i @ ''.'' @ k) dir_listing) root_setter ''1'' [] squares_db = Inr squares_package"
proof -
  have "canSeeProblem calm root_setter squares_db squares"
    by (simp add: canSeeProblem_def squares_def blank_problem_def)
  moreover have "canManageProblem root_setter squares_db squares"
    by (simp add: canManageProblem_def root_setter_def isSetterRole_def)
  ultimately obtain ps where
    "exportProblem calm (map (\<lambda>(i, k). int_str i @ ''.'' @ k) dir_listing) root_setter ''1'' [] squares_db = Inr ps"
    unfolding exportProblem_def squares_found by (simp add: Let_def)
  then show ?thesis by (simp add: squares_package_def)
qed

lemma dir_listing_slots: "mset dir_listing = mset (case_slots 2)"
  by (simp add: dir_listing_def case_slots_def upto.simps)

lemma export_import_roundtrip_witness:
  "let m = scanPackage (\<lambda>_. False) (\<lambda>_. None) (map packed_entry squares_package); q = imported_problem root_setter m
   in p_Title q = ''Sum: squares'' \<and> p_JudgeMode q = JudgeModeSPJ \<and> p_TimeLimitMS q = 1500
      \<and> map (\<lambda>ck. (ze_Data (ck_in ck), map_option ze_Data (ck_ans ck))) (pm_cases m)
        = [(Inr ''3'', Some (Inr ''9'')), (Inr ''4'', Some (Inr ''16''))]"
proof -
  have small: "length (export_meta squares) \<le> 2 ^ 20"
    by (simp add: export_meta_def squares_def blank_problem_def newline_def int_str_def nat_str.simps)
  have plain: "plain_value (p_Title squares)"
    by (simp add: plain_value_def squares_def is_space_def quotes_def)
  have files: "stored_file squares_db 1 1 ''in'' = ''3''" "stored_file squares_db 1 1 ''out'' = ''9''"
    "stored_file squares_db 1 2 ''in'' = ''4''" "stored_file squares_db 1 2 ''out'' = ''16''"
    by (simp_all add: stored_file_def squares_db_def case_file_eq)
  have two: "[1..2] = [1, 2 :: int]" by (simp add: upto.simps)
  show ?thesis
    using export_import_roundtrip [OF squares_exported squares_found refl dir_listing_slots _ plain _ _ _ _ _ _ _ small,
        of "\<lambda>_. False" "\<lambda>_. None" root_setter] files
    by (simp add: two squares_def blank_problem_def Let_def)
qed

section \<open>What the package loses\<close>

text \<open>Names with equal numbers tie whatever the text around them: their order is left to the sort.\<close>

lemma natural_ties: "\<not> naturalLess ''a1'' ''b1''" "\<not> naturalLess ''b1'' ''a1''" "naturalLess ''b1'' ''a2''"
  by code_simp+

text \<open>An upper-case suffix is found but not cut off, so the case never meets its answer.\<close>

lemma upper_case_suffix:
  "pair_cases [packed_entry (''1.IN'', ''3''), packed_entry (''1.OUT'', ''9'')]
     [\<lparr>ck_in = packed_entry (''1.IN'', ''3''), ck_ans = None, ck_name = trim_suffix ''1.IN'' ''.in''\<rparr>] = []"
  by code_simp

end
