(* ===== verification/Crawl.thy ===== *)
theory Crawl
  imports Outbound
begin

text \<open>
  Reading the pages of other sites: the statement of a Codeforces problem out of its HTML page
  (\<open>codeforces.go\<close>) and the data embedded in a Luogu page (\<open>luogu.go\<close>).  Each regular expression is a
  function that gives the length of its match at the start of a text.  \<open>html.UnescapeString\<close>,
  \<open>strconv.Unquote\<close> and \<open>url.QueryUnescape\<close> are arguments.
\<close>

section \<open>Searching and replacing\<close>

text \<open>\<open>strings.Index\<close>.\<close>

fun str_index :: "string \<Rightarrow> string \<Rightarrow> nat option" where
  "str_index sub [] = (if sub = [] then Some 0 else None)"
| "str_index sub (x # s) =
     (if is_prefix sub (x # s) then Some 0 else map_option Suc (str_index sub s))"

text \<open>\<open>strings.ReplaceAll\<close> of a text that is not empty, and \<open>strings.Replace\<close> of its first occurrence.\<close>

fun replace_all :: "string \<Rightarrow> string \<Rightarrow> string \<Rightarrow> string" where
  "replace_all old new [] = []"
| "replace_all old new (x # s) =
     (if old \<noteq> [] \<and> is_prefix old (x # s) then new @ replace_all old new (drop (length old - 1) s)
      else x # replace_all old new s)"

definition remove_first :: "string \<Rightarrow> string \<Rightarrow> string" where
  "remove_first old s =
     (case str_index old s of None \<Rightarrow> s | Some i \<Rightarrow> take i s @ drop (i + length old) s)"

text \<open>\<open>ReplaceAllString\<close> by the empty text: matches from left to right.\<close>

fun erase :: "(string \<Rightarrow> nat option) \<Rightarrow> string \<Rightarrow> string" where
  "erase m [] = []"
| "erase m (x # s) =
     (case m (x # s) of None \<Rightarrow> x # erase m s | Some k \<Rightarrow> erase m (drop (k - 1) s))"

section \<open>Codeforces pages\<close>

text \<open>\<open><[^>]*>\<close>, and \<open><name[^>]*>.*?</name>\<close> with the extent of its inner text.\<close>

definition tagStripRe :: "string \<Rightarrow> nat option" where
  "tagStripRe s = (if is_prefix ''<'' s then map_option Suc (str_index ''>'' s) else None)"

definition element :: "string \<Rightarrow> string \<Rightarrow> (nat \<times> nat) option" where
  "element name s =
     (if \<not> is_prefix (''<'' @ name) s then None
      else case str_index ''>'' s of
             None \<Rightarrow> None
           | Some i \<Rightarrow> map_option (\<lambda>j. (Suc i, j)) (str_index (''</'' @ name @ ''>'') (drop (Suc i) s)))"

definition element_match :: "string \<Rightarrow> string \<Rightarrow> nat option" where
  "element_match name s = map_option (\<lambda>(i, j). i + j + length name + 3) (element name s)"

definition cfMjxContainerRe :: "string \<Rightarrow> nat option" where
  "cfMjxContainerRe = element_match ''mjx-container''"

definition cfScriptStyleRe :: "string \<Rightarrow> nat option" where
  "cfScriptStyleRe s =
     (case element_match ''script'' s of Some k \<Rightarrow> Some k | None \<Rightarrow> element_match ''style'' s)"

text \<open>
  A span whose class mentions MathJax: \<open>i\<close> is where the text \<open>class="\<close> stands; the expression prefers
  the last such place before the first \<open>>\<close>.
\<close>

definition span_class :: "string \<Rightarrow> nat \<Rightarrow> nat option" where
  "span_class s i =
     (let v = takeWhile (\<lambda>c. c \<noteq> CHR 0x22) (drop (i + 7) s);
          k = i + 7 + length v
      in if CHR ''>'' \<in> set (take i s) \<or> \<not> is_prefix (''class='' @ [CHR 0x22]) (drop i s)
            \<or> \<not> (str_contains v ''MathJax'' \<or> str_contains v ''mjx-'') \<or> k \<ge> length s then None
         else case str_index ''>'' (drop (Suc k) s) of
                None \<Rightarrow> None
              | Some a \<Rightarrow> map_option (\<lambda>b. Suc k + Suc a + b + 7) (str_index ''</span>'' (drop (Suc k + Suc a) s)))"

definition cfMathJaxSpanRe :: "string \<Rightarrow> nat option" where
  "cfMathJaxSpanRe s =
     (if \<not> is_prefix ''<span'' s then None
      else case List.find (\<lambda>i. span_class s i \<noteq> None) (rev [5..<length s]) of
             None \<Rightarrow> None
           | Some i \<Rightarrow> span_class s i)"

fun mathjax_passes :: "nat \<Rightarrow> string \<Rightarrow> string" where
  "mathjax_passes 0 s = s"
| "mathjax_passes (Suc n) s =
     (let next_s = erase cfMathJaxSpanRe (erase cfMjxContainerRe s)
      in if next_s = s then s else mathjax_passes n next_s)"

definition stripMathJax :: "string \<Rightarrow> string" where
  "stripMathJax s = mathjax_passes 6 (erase cfScriptStyleRe s)"

definition div_class :: "string \<Rightarrow> string" where
  "div_class cls = ''<div class='' @ [CHR 0x22] @ cls"

definition known_sections :: "string list" where
  "known_sections = [''input-specification'', ''output-specification'', ''sample-tests'', ''note'']"

text \<open>The end of a section moves to the earliest of the anchors that follow.\<close>

definition cut_at_anchor :: "nat \<Rightarrow> nat option \<Rightarrow> nat" where
  "cut_at_anchor stop found = (case found of None \<Rightarrow> stop | Some i \<Rightarrow> min stop i)"

definition cfSection :: "string \<Rightarrow> string \<Rightarrow> string" where
  "cfSection page cls =
     (let anchor = div_class cls
      in case str_index anchor page of
           None \<Rightarrow> []
         | Some start \<Rightarrow>
             let tail = drop start page;
                 stop = foldl (\<lambda>stop nxt. if nxt = cls then stop
                     else cut_at_anchor stop (map_option (\<lambda>i. length anchor + i)
                            (str_index (div_class nxt) (drop (length anchor) tail))))
                   (length tail) known_sections
             in take (cut_at_anchor stop (str_index ''</div></div>'' tail)) tail)"

definition newline_c :: char where "newline_c = CHR 0x0A"

definition section_titles :: "string list" where
  "section_titles = [''Input'', ''Output'', ''Note'', ''Examples'', ''Example'']"

text \<open>One line of the text: blank runs are kept as one blank line, section titles go.\<close>

definition text_line :: "string list \<Rightarrow> string \<Rightarrow> string list" where
  "text_line out raw =
     (let ln = trim_space raw
      in if ln = [] then (if out = [] \<or> List.last out \<noteq> [] then out @ [[]] else out)
         else if ln \<in> set section_titles then out
         else out @ [ln])"

definition break_tags :: "string list" where
  "break_tags = [''<p>'', ''<div>'', ''</div>'', ''</p>'', ''<br>'', ''<br/>'', ''<br />'']"

definition cfHTMLToText :: "(string \<Rightarrow> string) \<Rightarrow> string \<Rightarrow> string" where
  "cfHTMLToText unescape fragment =
     (let s = foldl (\<lambda>s tag. replace_all tag [newline_c] s) (stripMathJax fragment) break_tags;
          s = unescape (erase tagStripRe s);
          s = replace_all ''$$$'' ''$$'' s
      in trim_space (join_with [newline_c] (foldl text_line [] (split_on newline_c s))))"

definition cfProblemStatementBlock :: "string \<Rightarrow> string" where
  "cfProblemStatementBlock page =
     (case str_index (div_class ''problem-statement'') page of
        None \<Rightarrow> []
      | Some start \<Rightarrow>
          let tail = drop start page
          in take (foldl (\<lambda>stop anchor. cut_at_anchor stop (str_index anchor tail)) (length tail)
                [''id='' @ [CHR 0x22] @ ''footer'' @ [CHR 0x22], ''<footer'', ''class='' @ [CHR 0x22] @ ''footer'']) tail)"

text \<open>The inner texts of the \<open>pre\<close> elements, in order.\<close>

fun cfSamplePreRe :: "string \<Rightarrow> string list" where
  "cfSamplePreRe [] = []"
| "cfSamplePreRe (x # s) =
     (case element ''pre'' (x # s) of
        None \<Rightarrow> cfSamplePreRe s
      | Some (i, j) \<Rightarrow> take j (drop i (x # s)) # cfSamplePreRe (drop (i + j + 5) s))"

definition sample_text :: "(string \<Rightarrow> string) \<Rightarrow> nat \<times> string \<Rightarrow> string" where
  "sample_text unescape m =
     (let body = unescape (trim_space (erase tagStripRe (replace_all ''</div>'' [newline_c] (snd m))))
      in if body = [] then []
         else (if fst m mod 2 = 1 then ''Output'' else ''Input'') @ '':'' @ [newline_c, newline_c] @ ''```'' @ [newline_c]
                @ body @ [newline_c] @ ''```'' @ [newline_c, newline_c])"

definition titled :: "string \<Rightarrow> string \<Rightarrow> string" where
  "titled title body =
     (if body = [] then [] else ''## '' @ title @ [newline_c, newline_c] @ body @ [newline_c, newline_c])"

text \<open>The statement built from a page, or the reason why there is none.\<close>

definition cf_statement :: "(string \<Rightarrow> string) \<Rightarrow> string \<Rightarrow> string + string" where
  "cf_statement unescape page =
     (if \<not> str_contains page ''problem-statement'' then
        Inl ''page has no problem-statement block (anti-bot or gym page)''
      else
        let block = cfProblemStatementBlock page
        in if block = [] then Inl ''problem-statement block empty''
           else
             let story = cfHTMLToText unescape (foldl (\<lambda>s cls.
                     let cut = cfSection block cls in if cut = [] then s else remove_first cut s)
                   block (''header'' # known_sections));
                 txt = (\<lambda>cls. cfHTMLToText unescape (cfSection block cls));
                 pre = cfSamplePreRe (cfSection block ''sample-tests'');
                 samples = (if pre = [] then []
                   else ''## Samples'' @ [newline_c, newline_c]
                        @ concat (map (sample_text unescape) (enumerate 0 pre)));
                 b = (if story = [] then [] else story @ [newline_c, newline_c])
                     @ titled ''Input'' (txt ''input-specification'')
                     @ titled ''Output'' (txt ''output-specification'')
                     @ samples @ titled ''Notes'' (txt ''note'')
             in if trim_space b = [] then Inl ''no statement sections extracted''
                else Inr (trim_space b))"

section \<open>Luogu pages\<close>

text \<open>
  The inside of a string literal: characters other than a quotation mark and a backslash, and a
  backslash with the character after it.
\<close>

fun literal_body :: "string \<Rightarrow> string" where
  "literal_body [] = []"
| "literal_body [c] = (if c = CHR 0x22 \<or> c = CHR 0x5C then [] else [c])"
| "literal_body (c # d # s) =
     (if c = CHR 0x22 then []
      else if c = CHR 0x5C then (if d = newline_c then [] else c # d # literal_body s)
      else c # literal_body (d # s))"

text \<open>The first literal that stands between an opening and a closing text.\<close>

definition literal_here :: "string \<Rightarrow> string \<Rightarrow> string \<Rightarrow> string option" where
  "literal_here before after s =
     (let body = literal_body (drop (length before) s)
      in if is_prefix before s \<and> is_prefix after (drop (length before + length body) s) then Some body else None)"

fun find_literal :: "string \<Rightarrow> string \<Rightarrow> string \<Rightarrow> string option" where
  "find_literal before after [] = None"
| "find_literal before after (x # s) =
     (case literal_here before after (x # s) of Some b \<Rightarrow> Some b | None \<Rightarrow> find_literal before after s)"

definition quote :: string where "quote = [CHR 0x22]"

definition extractJSData ::
  "(string \<Rightarrow> string option) \<Rightarrow> (string \<Rightarrow> string option) \<Rightarrow> string \<Rightarrow> string + string" where
  "extractJSData unquote urlUnescape page =
     (case Option.bind (Option.bind (find_literal (''JSON.parse(decodeURIComponent('' @ quote) (quote @ ''))'') page)
             (\<lambda>m. unquote (quote @ m @ quote))) urlUnescape of
        Some raw \<Rightarrow> Inr raw
      | None \<Rightarrow>
          (case Option.bind (find_literal (''JSON.parse('' @ quote) (quote @ '')'') page)
                  (\<lambda>m. unquote (quote @ m @ quote)) of
             Some dec \<Rightarrow> Inr dec
           | None \<Rightarrow> Inl ''plugin/luogu: __JS_DATA not found in the page''))"

section \<open>Properties\<close>

text \<open>Every line of a text is trimmed and no title; no two blank lines follow each other.\<close>

definition tidy :: "string list \<Rightarrow> bool" where
  "tidy ls \<longleftrightarrow> list_all (\<lambda>l. trim_space l = l \<and> l \<notin> set section_titles) ls
     \<and> successively (\<lambda>a b. a \<noteq> [] \<or> b \<noteq> []) ls"

lemma blank_line: "trim_space [] = []" "[] \<notin> set section_titles"
  by (simp_all add: trim_space_def section_titles_def)

lemma text_line_tidy:
  assumes "tidy out"
  shows "tidy (text_line out raw)"
proof (cases "text_line out raw = out")
  case False
  define ln where "ln = trim_space raw"
  have new: "text_line out raw = out @ [ln]" and ok: "out = [] \<or> List.last out \<noteq> [] \<or> ln \<noteq> []"
    "ln \<notin> set section_titles"
    using False blank_line(2) by (auto simp: text_line_def Let_def ln_def split: if_splits)
  moreover have "trim_space ln = ln" by (simp add: ln_def)
  ultimately show ?thesis using assms by (auto simp: tidy_def new successively_append_iff)
qed (simp add: assms)

lemma text_lines_tidy: "tidy out \<Longrightarrow> tidy (foldl text_line out raws)"
  by (induction raws arbitrary: out) (simp_all add: text_line_tidy)

text \<open>
  The span of rendered mathematics ends, for the expression, at the first closing tag: what follows an
  inner span stays in the text.
\<close>

lemma nested_math_left:
  "stripMathJax (''<span class='' @ quote @ ''MathJax'' @ quote @ ''><span>x</span>y</span>'') = ''y</span>''"
  by code_simp

text \<open>A payload in base64 is handed on as it stands.\<close>

lemma base64_kept:
  "extractJSData (\<lambda>q. Some (butlast (tl q))) Some (''a JSON.parse('' @ quote @ ''e30='' @ quote @ '') b'') = Inr ''e30=''"
  by code_simp

end
