(* ===== verification/Platforms.thy ===== *)
theory Platforms
  imports Crawl OJ_Model
begin

text \<open>
  The adapters of the external platforms: Codeforces, Luogu, AtCoder and Nowcoder (one Go file each
  under \<open>internal/plugin\<close>).  Every adapter reads through the guarded client; the decoders of
  \<open>encoding/json\<close> are arguments that give the payload as the struct of the source.
\<close>

section \<open>What an adapter delivers\<close>

record ProblemMeta =
  mt_Source :: string
  mt_ExternalID :: string
  mt_URL :: string
  mt_Title :: string
  mt_StatementMD :: string
  mt_InputDesc :: string
  mt_OutputDesc :: string
  mt_Hint :: string
  mt_TimeLimitMS :: int
  mt_MemLimitMB :: int
  mt_Tags :: "string list"
  mt_Samples :: "Sample list"
  mt_Notes :: "string list"

record SubmitRecord =
  sr_Platform :: string
  sr_ExternalID :: string
  sr_ProblemID :: string
  sr_ProblemName :: string
  sr_Verdict :: string
  sr_Language :: string
  sr_At :: int

text \<open>A fetch through the guarded client; it always answers.\<close>

definition http_get :: "net \<Rightarrow> string \<Rightarrow> string + string" where
  "http_get net url = (case SafeHTTPGet net url of None \<Rightarrow> Inl [] | Some (_, r) \<Rightarrow> r)"

definition upper_char :: "char \<Rightarrow> char" where
  "upper_char c =
     (if 97 \<le> (of_char c :: nat) \<and> (of_char c :: nat) \<le> 122 then char_of ((of_char c :: nat) - 32) else c)"

definition trim_prefix :: "string \<Rightarrow> string \<Rightarrow> string" where
  "trim_prefix s pre = (if is_prefix pre s then drop (length pre) s else s)"

definition word_char :: "char \<Rightarrow> bool" where
  "word_char c \<longleftrightarrow> is_digit c \<or> c = CHR ''_''
     \<or> 65 \<le> (of_char c :: nat) \<and> (of_char c :: nat) \<le> 90 \<or> 97 \<le> (of_char c :: nat) \<and> (of_char c :: nat) \<le> 122"

section \<open>Verdicts\<close>

definition cfNormalizeVerdict :: "string \<Rightarrow> string" where
  "cfNormalizeVerdict v =
     (if v = ''OK'' then ''AC''
      else if v = ''WRONG_ANSWER'' then ''WA''
      else if v = ''TIME_LIMIT_EXCEEDED'' then ''TLE''
      else if v = ''MEMORY_LIMIT_EXCEEDED'' then ''MLE''
      else if v = ''RUNTIME_ERROR'' then ''RE''
      else if v = ''COMPILATION_ERROR'' then ''CE''
      else ''OTHER'')"

definition lgNormalizeStatus :: "int \<Rightarrow> string" where
  "lgNormalizeStatus code =
     (if code = 12 then ''AC'' else if code = 6 then ''WA'' else if code = 2 then ''TLE''
      else if code = 4 then ''MLE'' else if code = 7 then ''RE'' else if code = 5 then ''CE''
      else ''OTHER'')"

definition nkNormalizeStatus :: "int \<Rightarrow> string" where
  "nkNormalizeStatus code =
     (if code = 5 then ''AC'' else if code = 6 then ''WA'' else if code = 7 then ''RE''
      else if code = 8 then ''TLE'' else if code = 9 then ''MLE'' else if code = 10 then ''CE''
      else ''OTHER'')"

definition atcoderVerdict :: "string \<Rightarrow> string" where
  "atcoderVerdict v =
     (let u = map upper_char (trim_space v)
      in if u \<in> {''AC'', ''WA'', ''TLE'', ''MLE'', ''RE'', ''CE''} then u else ''OTHER'')"

section \<open>Codeforces\<close>

definition cfGymMinID :: int where "cfGymMinID = 100000"

definition cfProblemURL :: "int \<Rightarrow> string \<Rightarrow> string" where
  "cfProblemURL contestID index =
     (if contestID \<ge> cfGymMinID then ''https://codeforces.com/gym/'' @ int_str contestID @ ''/problem/'' @ index
      else ''https://codeforces.com/contest/'' @ int_str contestID @ ''/problem/'' @ index)"

record cfProblemInfo =
  ci_ContestID :: int
  ci_Index :: string
  ci_Name :: string
  ci_TimeLimitMS :: int
  ci_MemLimitMB :: int

definition cfSplitID :: "string \<Rightarrow> string + int \<times> string" where
  "cfSplitID idtext =
     (let s = trim_prefix (trim_prefix idtext ''gym'') ''/'';
          digits = takeWhile is_digit s;
          tail = dropWhile is_digit s
      in if digits = [] \<or> tail = [] then
           Inl (''plugin/codeforces: id '' @ s @ '' must be <contest><index> like 1900A'')
         else case atoi digits of
                None \<Rightarrow> Inl ''value out of range''
              | Some n \<Rightarrow> Inr (n, map upper_char (dropWhile (\<lambda>c. c = CHR ''/'') tail)))"

definition cfEnrichStatement :: "net \<Rightarrow> (string \<Rightarrow> string) \<Rightarrow> ProblemMeta \<Rightarrow> string + ProblemMeta" where
  "cfEnrichStatement net unescape m =
     (case http_get net (mt_URL m) of
        Inl err \<Rightarrow> Inl err
      | Inr page \<Rightarrow>
          (case cf_statement unescape page of
             Inl err \<Rightarrow> Inl err
           | Inr md \<Rightarrow> Inr (m\<lparr>mt_StatementMD := md\<rparr>)))"

definition samples_only_note :: string where
  "samples_only_note = ''the statement has public samples only; test data must be added before judging''"

definition cf_meta :: "string \<Rightarrow> cfProblemInfo \<Rightarrow> ProblemMeta" where
  "cf_meta want p = \<lparr>mt_Source = ''codeforces'', mt_ExternalID = want,
     mt_URL = cfProblemURL (ci_ContestID p) (ci_Index p), mt_Title = ci_Name p, mt_StatementMD = [],
     mt_InputDesc = [], mt_OutputDesc = [], mt_Hint = [], mt_TimeLimitMS = ci_TimeLimitMS p,
     mt_MemLimitMB = ci_MemLimitMB p, mt_Tags = [], mt_Samples = [], mt_Notes = [samples_only_note]\<rparr>"

definition cf_FetchProblem ::
  "net \<Rightarrow> (string \<Rightarrow> string + string \<times> cfProblemInfo list) \<Rightarrow> (string \<Rightarrow> string) \<Rightarrow> string \<Rightarrow> string + ProblemMeta" where
  "cf_FetchProblem net decode unescape externalID =
     (case cfSplitID externalID of
        Inl err \<Rightarrow> Inl err
      | Inr (contestID, index) \<Rightarrow>
          (case http_get net ''https://codeforces.com/api/problemset.problems'' of
             Inl err \<Rightarrow> Inl err
           | Inr body \<Rightarrow>
               (case decode body of
                  Inl err \<Rightarrow> Inl err
                | Inr (status, problems) \<Rightarrow>
                    if status \<noteq> ''OK'' then Inl (''plugin/codeforces: API status '' @ status)
                    else
                      let want = int_str contestID @ index
                      in (case List.find (\<lambda>p. int_str (ci_ContestID p) @ ci_Index p = want) problems of
                            None \<Rightarrow> Inl (''plugin/codeforces: problem '' @ want @ '' not found in catalog'')
                          | Some p \<Rightarrow>
                              (case cfEnrichStatement net unescape (cf_meta want p) of
                                 Inr m \<Rightarrow> Inr m
                               | Inl err \<Rightarrow> Inr ((cf_meta want p)\<lparr>mt_Notes := [samples_only_note,
                                     ''statement page could not be read ('' @ err @ '')'']\<rparr>))))))"

record cfSub =
  cs_ID :: int
  cs_ContestID :: int
  cs_ProblemContestID :: int
  cs_ProblemIndex :: string
  cs_ProblemName :: string
  cs_ProgrammingLanguage :: string
  cs_Verdict :: string
  cs_CreationTimeSeconds :: int

definition cf_record :: "cfSub \<Rightarrow> SubmitRecord" where
  "cf_record s =
     (let contestID = (if cs_ProblemContestID s = 0 then cs_ContestID s else cs_ProblemContestID s)
      in \<lparr>sr_Platform = ''codeforces'', sr_ExternalID = int_str (cs_ID s),
          sr_ProblemID = int_str contestID @ cs_ProblemIndex s, sr_ProblemName = cs_ProblemName s,
          sr_Verdict = cfNormalizeVerdict (cs_Verdict s), sr_Language = cs_ProgrammingLanguage s,
          sr_At = cs_CreationTimeSeconds s\<rparr>)"

definition cf_FetchSubmitLog ::
  "net \<Rightarrow> (string \<Rightarrow> string + string \<times> cfSub list) \<Rightarrow> string \<Rightarrow> bool \<Rightarrow> string + SubmitRecord list" where
  "cf_FetchSubmitLog net decode username needAll =
     (case http_get net (''https://codeforces.com/api/user.status?handle='' @ username @ [CHR 0x26] @ ''from=1''
             @ (if needAll then [] else [CHR 0x26] @ ''count=200'')) of
        Inl err \<Rightarrow> Inl err
      | Inr body \<Rightarrow>
          (case decode body of
             Inl err \<Rightarrow> Inl err
           | Inr (status, subs) \<Rightarrow>
               if status \<noteq> ''OK'' then Inl (''plugin/codeforces: API status '' @ status)
               else Inr (map cf_record subs)))"

section \<open>Luogu\<close>

definition luoguBase :: string where "luoguBase = ''https://www.luogu.com.cn''"

definition luoguPIDRe :: "string \<Rightarrow> bool" where
  "luoguPIDRe s \<longleftrightarrow>
     list_ex (\<lambda>pre. is_prefix pre s \<and> length pre < length s \<and> list_all word_char (drop (length pre) s))
       [''P'', ''B'', ''CF'', ''SP'', ''UVA'', ''AT_'']"

record lgProblemData =
  lp_PID :: string
  lp_Title :: string
  lp_Content :: string
  lp_TimeMS :: int
  lp_MemMB :: int
  lp_Tags :: "(int \<times> string) list"
  lp_Samples :: "string list list list"

definition lg_cells :: "string list list list \<Rightarrow> Sample list" where
  "lg_cells blocks =
     map (\<lambda>cell. \<lparr>sm_Input = cell ! 0, sm_Output = cell ! 1, sm_Note = []\<rparr>)
       (filter (\<lambda>cell. 2 \<le> length cell \<and> trim_space (cell ! 0) \<noteq> []) (concat blocks))"

definition lg_FetchProblem ::
  "net \<Rightarrow> (string \<Rightarrow> string option) \<Rightarrow> (string \<Rightarrow> string option) \<Rightarrow> (string \<Rightarrow> string + lgProblemData) \<Rightarrow>
     string \<Rightarrow> string + ProblemMeta" where
  "lg_FetchProblem net unquote urlUnescape decode externalID =
     (let pid = map upper_char externalID
      in if \<not> luoguPIDRe pid then Inl (''plugin/luogu: invalid id '' @ externalID)
         else case http_get net (luoguBase @ ''/problem/'' @ pid) of
           Inl err \<Rightarrow> Inl err
         | Inr body \<Rightarrow>
             (case extractJSData unquote urlUnescape body of
                Inl err \<Rightarrow> Inl err
              | Inr data \<Rightarrow>
                  (case decode data of
                     Inl err \<Rightarrow> Inl (''plugin/luogu: parse __JS_DATA: '' @ err)
                   | Inr p \<Rightarrow> Inr \<lparr>mt_Source = ''luogu'', mt_ExternalID = pid,
                       mt_URL = luoguBase @ ''/problem/'' @ pid, mt_Title = lp_Title p,
                       mt_StatementMD = lp_Content p, mt_InputDesc = [], mt_OutputDesc = [], mt_Hint = [],
                       mt_TimeLimitMS = lp_TimeMS p, mt_MemLimitMB = lp_MemMB p,
                       mt_Tags = filter (\<lambda>t. t \<noteq> []) (map snd (lp_Tags p)),
                       mt_Samples = lg_cells (lp_Samples p),
                       mt_Notes = [''community content, for training on this site only'', samples_only_note]\<rparr>)))"

record lgRecord =
  lr_ID :: int
  lr_PID :: string
  lr_Status :: int
  lr_At :: int

definition lg_record :: "lgRecord \<Rightarrow> SubmitRecord" where
  "lg_record r = \<lparr>sr_Platform = ''luogu'', sr_ExternalID = int_str (lr_ID r), sr_ProblemID = lr_PID r,
     sr_ProblemName = [], sr_Verdict = lgNormalizeStatus (lr_Status r), sr_Language = [], sr_At = lr_At r\<rparr>"

definition lg_FetchSubmitLog ::
  "net \<Rightarrow> (string \<Rightarrow> string option) \<Rightarrow> (string \<Rightarrow> string option) \<Rightarrow> (string \<Rightarrow> string + lgRecord list) \<Rightarrow>
     string \<Rightarrow> bool \<Rightarrow> string + SubmitRecord list" where
  "lg_FetchSubmitLog net unquote urlUnescape decode username needAll =
     (case http_get net (luoguBase @ ''/record/list?user='' @ username @ [CHR 0x26] @ ''page=1'' @ [CHR 0x26]
             @ ''count='' @ (if needAll then ''500'' else ''50'')) of
        Inl err \<Rightarrow> Inl err
      | Inr body \<Rightarrow>
          (case extractJSData unquote urlUnescape body of
             Inl err \<Rightarrow> Inl err
           | Inr data \<Rightarrow>
               (case decode data of
                  Inl err \<Rightarrow> Inl (''plugin/luogu: parse records: '' @ err)
                | Inr recs \<Rightarrow> Inr (map lg_record recs))))"

section \<open>AtCoder\<close>

definition kenkooooAPI :: string where
  "kenkooooAPI = ''https://kenkoooo.com/atcoder/atcoder-api/v3/user/submissions''"

definition atHandleRe :: "string \<Rightarrow> bool" where
  "atHandleRe s \<longleftrightarrow> 3 \<le> length s \<and> length s \<le> 24 \<and> list_all word_char s"

record atSub =
  as_ID :: int
  as_EpochSecond :: int
  as_ProblemID :: string
  as_ContestID :: string
  as_Language :: string
  as_Result :: string

definition at_record :: "atSub \<Rightarrow> SubmitRecord" where
  "at_record s = \<lparr>sr_Platform = ''atcoder'', sr_ExternalID = int_str (as_ID s), sr_ProblemID = as_ProblemID s,
     sr_ProblemName = as_ProblemID s, sr_Verdict = atcoderVerdict (as_Result s), sr_Language = as_Language s,
     sr_At = as_EpochSecond s\<rparr>"

definition at_FetchSubmitLog ::
  "net \<Rightarrow> (string \<Rightarrow> string + atSub list) \<Rightarrow> string \<Rightarrow> bool \<Rightarrow> string + SubmitRecord list" where
  "at_FetchSubmitLog net decode username needAll =
     (if \<not> atHandleRe username then Inl (''plugin/atcoder: invalid user name '' @ username)
      else case http_get net (kenkooooAPI @ ''?user='' @ username @ [CHR 0x26] @ ''from_second=0'') of
             Inl err \<Rightarrow> Inl err
           | Inr body \<Rightarrow>
               (case decode body of
                  Inl err \<Rightarrow> Inl (''plugin/atcoder: parse submissions: '' @ err)
                | Inr subs \<Rightarrow> Inr (map at_record subs)))"

section \<open>Nowcoder\<close>

definition nowcoderBase :: string where "nowcoderBase = ''https://ac.nowcoder.com''"

text \<open>
  The first run of at least three digits, which is the group of the expression with or without the
  optional prefix in front of it.
\<close>

fun nkIDRe :: "string \<Rightarrow> string option" where
  "nkIDRe [] = None"
| "nkIDRe (c # s) =
     (if 3 \<le> length (takeWhile is_digit (c # s)) then Some (takeWhile is_digit (c # s)) else nkIDRe s)"

text \<open>\<open>CreatedAt\<close> is a float in the source; here it is its integral part.\<close>

record nkRecord =
  nr_ID :: int
  nr_Problem :: string
  nr_PID :: string
  nr_Status :: int
  nr_Language :: string
  nr_CreatedAt :: int

definition nk_firstNonEmpty :: "string \<Rightarrow> string \<Rightarrow> string" where
  "nk_firstNonEmpty a b = (if a \<noteq> [] then a else b)"

definition nk_record :: "nkRecord \<Rightarrow> SubmitRecord" where
  "nk_record r =
     (let at = nr_CreatedAt r;
          at = (if at > 2 ^ 60 div 1000 then go_div at 1000 else at)
      in \<lparr>sr_Platform = ''nowcoder'', sr_ExternalID = int_str (nr_ID r),
          sr_ProblemID = nk_firstNonEmpty (nr_PID r) (nr_Problem r), sr_ProblemName = nr_Problem r,
          sr_Verdict = nkNormalizeStatus (nr_Status r), sr_Language = nr_Language r, sr_At = at\<rparr>)"

text \<open>
  The three shapes of a reply: a bare array, or an envelope whose \<open>data\<close> holds \<open>records\<close> or \<open>list\<close>;
  \<open>array\<close> decodes the first, \<open>envelope\<close> gives the raw data of the second, \<open>inner\<close> decodes that.
\<close>

definition parseNowcoderRecords ::
  "(string \<Rightarrow> nkRecord list option) \<Rightarrow> (string \<Rightarrow> string option) \<Rightarrow>
     (string \<Rightarrow> string + nkRecord list \<times> nkRecord list) \<Rightarrow> string \<Rightarrow> string + nkRecord list" where
  "parseNowcoderRecords array envelope inner body =
     (case if is_prefix ''['' (trim_space body) then array body else None of
        Some recs \<Rightarrow> Inr recs
      | None \<Rightarrow>
          (case envelope body of
             None \<Rightarrow> Inl ''plugin/nowcoder: the reply cannot be read''
           | Some data \<Rightarrow>
               if data = [] then Inl ''plugin/nowcoder: the reply cannot be read''
               else case inner data of
                      Inl err \<Rightarrow> Inl (''plugin/nowcoder: parse records: '' @ err)
                    | Inr (recs, lst) \<Rightarrow> if recs \<noteq> [] then Inr recs else Inr lst))"

definition nk_FetchSubmitLog ::
  "net \<Rightarrow> (string \<Rightarrow> string + nkRecord list) \<Rightarrow> string \<Rightarrow> bool \<Rightarrow> string + SubmitRecord list" where
  "nk_FetchSubmitLog net parse username needAll =
     (case nkIDRe (trim_space username) of
        None \<Rightarrow> Inl ''plugin/nowcoder: give the numeric id or the link of the profile''
      | Some m \<Rightarrow>
          (case http_get net (nowcoderBase @ ''/acm/record/list?user='' @ m @ [CHR 0x26] @ ''page=''
                  @ (if needAll then ''0'' else ''1'') @ [CHR 0x26] @ ''pageSize=200'') of
             Inl err \<Rightarrow> Inl err
           | Inr body \<Rightarrow>
               (case parse body of Inl err \<Rightarrow> Inl err | Inr recs \<Rightarrow> Inr (map nk_record recs))))"

section \<open>Properties\<close>

definition site_verdicts :: "string list" where
  "site_verdicts = [''AC'', ''WA'', ''TLE'', ''MLE'', ''RE'', ''CE'', ''OTHER'']"

lemma verdicts_in_vocabulary:
  "cfNormalizeVerdict v \<in> set site_verdicts" "atcoderVerdict v \<in> set site_verdicts"
  "lgNormalizeStatus i \<in> set site_verdicts" "nkNormalizeStatus i \<in> set site_verdicts"
  by (auto simp: cfNormalizeVerdict_def atcoderVerdict_def lgNormalizeStatus_def nkNormalizeStatus_def
      site_verdicts_def Let_def)

definition log_of :: "string \<Rightarrow> SubmitRecord list \<Rightarrow> bool" where
  "log_of platform recs \<longleftrightarrow> list_all (\<lambda>r. sr_Platform r = platform \<and> sr_Verdict r \<in> set site_verdicts) recs"

lemma fetched_logs:
  "cf_FetchSubmitLog net cfd u b = Inr recs \<Longrightarrow> log_of ''codeforces'' recs"
  "lg_FetchSubmitLog net uq ue lgd u b = Inr recs \<Longrightarrow> log_of ''luogu'' recs"
  "at_FetchSubmitLog net atd u b = Inr recs \<Longrightarrow> log_of ''atcoder'' recs"
  "nk_FetchSubmitLog net nkd u b = Inr recs \<Longrightarrow> log_of ''nowcoder'' recs"
  by (auto simp: log_of_def list_all_iff cf_FetchSubmitLog_def cf_record_def lg_FetchSubmitLog_def lg_record_def
      at_FetchSubmitLog_def at_record_def nk_FetchSubmitLog_def nk_record_def Let_def verdicts_in_vocabulary
      split: sum.splits option.splits prod.splits if_splits)

text \<open>A contest number and an index are read back from the text that names the problem.\<close>

lemma takeWhile_digits:
  assumes "list_all is_digit ds" and "t = [] \<or> \<not> is_digit (hd t)"
  shows "takeWhile is_digit (ds @ t) = ds" "dropWhile is_digit (ds @ t) = t"
proof -
  have "takeWhile is_digit t = []" "dropWhile is_digit t = t" using assms(2) by (cases t; simp)+
  then show "takeWhile is_digit (ds @ t) = ds" "dropWhile is_digit (ds @ t) = t"
    using assms(1) by (simp_all add: list_all_iff takeWhile_append dropWhile_append)
qed

lemma cfSplitID_reads:
  assumes "index \<noteq> []" and "\<not> is_digit (hd index)" and "hd index \<noteq> CHR ''/''" and "n < 2 ^ 63"
  shows "cfSplitID (nat_str n @ index) = Inr (int n, map upper_char index)"
    and "cfSplitID (''gym'' @ nat_str n @ index) = Inr (int n, map upper_char index)"
proof -
  obtain c ds where cd: "nat_str n = c # ds" using nat_str_nonempty by (cases "nat_str n") auto
  then have "is_digit c" using nat_str_digits [of n] by simp
  then have c: "c \<noteq> CHR ''g''" "c \<noteq> CHR ''/''" by (auto simp: is_digit_def)
  have "index = [] \<or> \<not> is_digit (hd index)" using assms(2) by simp
  note tw = takeWhile_digits [OF nat_str_digits this, of n]
  have slash: "dropWhile (\<lambda>c. c = CHR ''/'') index = index" using assms(1,3) by (cases index) auto
  have plain: "trim_prefix (trim_prefix (nat_str n @ index) ''gym'') ''/'' = nat_str n @ index"
    "trim_prefix (trim_prefix (''gym'' @ nat_str n @ index) ''gym'') ''/'' = nat_str n @ index"
    using c by (simp_all add: trim_prefix_def is_prefix_def cd)
  show "cfSplitID (nat_str n @ index) = Inr (int n, map upper_char index)"
    and "cfSplitID (''gym'' @ nat_str n @ index) = Inr (int n, map upper_char index)"
    unfolding cfSplitID_def Let_def plain using assms(1,4)
    by (simp_all add: tw slash atoi_nat_str)
qed

lemma empty_index_accepted: "cfSplitID ''1900/'' = Inr (1900, [])"
  by code_simp

text \<open>An instant of the present in milliseconds is taken for seconds.\<close>

lemma millis_kept: "sr_At (nk_record \<lparr>nr_ID = 1, nr_Problem = ''a'', nr_PID = ''1'', nr_Status = 5,
    nr_Language = ''c'', nr_CreatedAt = 1700000000000\<rparr>) = 1700000000000"
  by (simp add: nk_record_def Let_def)

lemma atcoder_id_changed: "map upper_char ''AT_abc300_a'' = ''AT_ABC300_A''"
  by code_simp

end
