(* ===== verification/Practice.thy ===== *)
theory Practice
  imports Platforms Public_Api Problems
begin

text \<open>
  External practice (\<open>external.go\<close>, \<open>external_practice.go\<close>, \<open>external_sync.go\<close>): the handles users bind on
  other platforms, the worker that stores their submissions there, the report page; and the import of
  problems from other platforms (\<open>problem_external.go\<close>).

  An adapter is a function from a handle and the choice of the full history to a log or an error, and a
  crawler a function from a problem's name to its data; both are looked up in the registry.
\<close>

type_synonym fetcher = "string \<Rightarrow> bool \<Rightarrow> string + SubmitRecord list"
type_synonym source = "string \<Rightarrow> string + ProblemMeta"

section \<open>Tables\<close>

record Binding =
  bd_ID :: nat
  bd_UserID :: nat
  bd_Platform :: string
  bd_Handle :: string
  bd_SyncedAt :: "time option"
  bd_LastError :: string
  bd_CreatedAt :: time

record practice =
  px_records :: "ExternalRecord table"
  px_bindings :: "Binding table"

text \<open>Creating a row fails when the database refuses it or its unique index has the key.\<close>

definition create_record :: "bool \<Rightarrow> (nat \<Rightarrow> ExternalRecord) \<Rightarrow> practice \<Rightarrow> practice \<times> bool" where
  "create_record ok row px =
     (if list_ex (\<lambda>r. er_ExternalID r = er_ExternalID (row 0)) (rows (px_records px)) \<or> \<not> ok then (px, False)
      else (px\<lparr>px_records := snd (tbl_create row (px_records px))\<rparr>, True))"

definition binding_of :: "nat \<Rightarrow> string \<Rightarrow> practice \<Rightarrow> Binding option" where
  "binding_of uid platform px =
     tbl_first (\<lambda>b. bd_UserID b = uid \<and> bd_Platform b = platform) (px_bindings px)"

definition patch_binding :: "nat \<Rightarrow> (Binding \<Rightarrow> Binding) \<Rightarrow> practice \<Rightarrow> practice" where
  "patch_binding i f px = px\<lparr>px_bindings := tbl_update (\<lambda>b. bd_ID b = i) f (px_bindings px)\<rparr>"

section \<open>The worker\<close>

definition record_row :: "env \<Rightarrow> Binding \<Rightarrow> SubmitRecord \<Rightarrow> nat \<Rightarrow> ExternalRecord" where
  "record_row e b r i = \<lparr>er_ID = i, er_UserID = bd_UserID b, er_Platform = bd_Platform b,
     er_ExternalID = bd_Platform b @ '':'' @ sr_ExternalID r, er_ProblemID = sr_ProblemID r,
     er_ProblemName = sr_ProblemName r, er_Verdict = sr_Verdict r, er_Language = sr_Language r,
     er_At = sr_At r, er_FetchedAt = env_now e\<rparr>"

text \<open>The rows of a log, statement \<open>n\<close> on; the worker counts the ones it stored.\<close>

fun store_records :: "env \<Rightarrow> Binding \<Rightarrow> nat \<Rightarrow> SubmitRecord list \<Rightarrow> practice \<Rightarrow> practice \<times> nat" where
  "store_records e b n [] px = (px, 0)"
| "store_records e b n (r # rs) px =
     (let (px, ok) = create_record (env_dbok e n) (record_row e b r) px;
          (px, stored) = store_records e b (Suc n) rs px
      in (px, if ok then Suc stored else stored))"

definition syncBinding ::
  "(source, fetcher, 'hook) plugins \<Rightarrow> env \<Rightarrow> nat \<Rightarrow> Binding \<Rightarrow> bool \<Rightarrow> practice \<Rightarrow> practice \<times> nat \<times> string" where
  "syncBinding reg e n b first px =
     (case SubmitFetcherByID reg (bd_Platform b) of
        None \<Rightarrow> (px, 0, ''platform not registered: '' @ bd_Platform b)
      | Some fetch \<Rightarrow>
          (case fetch (bd_Handle b) first of
             Inl err \<Rightarrow>
               let msg = take 480 err
               in (patch_binding (bd_ID b) (\<lambda>x. x\<lparr>bd_LastError := msg\<rparr>) px, 0, msg)
           | Inr recs \<Rightarrow>
               let (px, stored) = store_records e b n recs px
               in (patch_binding (bd_ID b) (\<lambda>x. x\<lparr>bd_SyncedAt := Some (env_now e), bd_LastError := []\<rparr>) px,
                   stored, [])))"

text \<open>The hourly scan: the bindings as they were read, until the context is cancelled.\<close>

fun sync_each ::
  "(source, fetcher, 'hook) plugins \<Rightarrow> (nat \<Rightarrow> env) \<Rightarrow> (nat \<Rightarrow> bool) \<Rightarrow> nat \<Rightarrow> Binding list \<Rightarrow> practice \<Rightarrow> practice" where
  "sync_each reg e cancelled i [] px = px"
| "sync_each reg e cancelled i (b # bs) px =
     (if cancelled i then px
      else sync_each reg e cancelled (Suc i) bs (fst (syncBinding reg (e i) 0 b False px)))"

definition syncAllBindings ::
  "(source, fetcher, 'hook) plugins \<Rightarrow> bool \<Rightarrow> (nat \<Rightarrow> env) \<Rightarrow> (nat \<Rightarrow> bool) \<Rightarrow> practice \<Rightarrow> practice" where
  "syncAllBindings reg ok e cancelled px =
     (if \<not> ok then px else sync_each reg e cancelled 0 (rows (px_bindings px)) px)"

section \<open>Bindings\<close>

definition pluginSubmitFetcherExists :: "(source, fetcher, 'hook) plugins \<Rightarrow> string \<Rightarrow> bool" where
  "pluginSubmitFetcherExists reg name \<longleftrightarrow> SubmitFetcherByID reg name \<noteq> None"

definition myExternalBindings ::
  "(source, fetcher, 'hook) plugins \<Rightarrow> Claims \<Rightarrow> practice \<Rightarrow> Binding list \<times> string list" where
  "myExternalBindings reg cl px =
     (sort_by (\<lambda>a b. bytes_less (bd_Platform a) (bd_Platform b))
        (tbl_select (\<lambda>b. bd_UserID b = cl_UserID cl) (px_bindings px)),
      SubmitFetcherNames reg)"

record bind_req =
  br_Platform :: string
  br_Handle :: string

record bind_reply =
  bp_Binding :: "Binding option"
  bp_Stored :: nat
  bp_Error :: string

definition bind_answer :: "nat \<Rightarrow> practice \<times> nat \<times> string \<Rightarrow> (practice, bind_reply) handled" where
  "bind_answer i r =
     (fst r, Inr \<lparr>bp_Binding = byID bd_ID (px_bindings (fst r)) i, bp_Stored = fst (snd r), bp_Error = snd (snd r)\<rparr>)"

definition upsertExternalBinding ::
  "(source, fetcher, 'hook) plugins \<Rightarrow> env \<Rightarrow> Claims \<Rightarrow> bind_req option \<Rightarrow> practice \<Rightarrow> (practice, bind_reply) handled" where
  "upsertExternalBinding reg e cl req px =
     (case req of
        None \<Rightarrow> (px, Inl (HTTP 400 ''invalid request''))
      | Some q \<Rightarrow>
          if br_Platform q = [] \<or> br_Handle q = [] then (px, Inl (HTTP 400 ''invalid request''))
          else if \<not> pluginSubmitFetcherExists reg (br_Platform q) then
            (px, Inl (HTTP 400 (''platform not supported: '' @ br_Platform q)))
          else case binding_of (cl_UserID cl) (br_Platform q) px of
            None \<Rightarrow>
              if \<not> env_dbok e 0 then (px, Inl (HTTP 500 ''bind failed''))
              else
                let (b, t) = tbl_create (\<lambda>i. \<lparr>bd_ID = i, bd_UserID = cl_UserID cl, bd_Platform = br_Platform q,
                       bd_Handle = br_Handle q, bd_SyncedAt = None, bd_LastError = [], bd_CreatedAt = env_now e\<rparr>)
                       (px_bindings px)
                in bind_answer (bd_ID b) (syncBinding reg e 1 b True (px\<lparr>px_bindings := t\<rparr>))
          | Some b \<Rightarrow>
              if \<not> env_dbok e 0 then (px, Inl (HTTP 500 ''update failed''))
              else
                let f = (\<lambda>x. x\<lparr>bd_Handle := br_Handle q, bd_LastError := []\<rparr>)
                in bind_answer (bd_ID b) (syncBinding reg e 1 (f b) True (patch_binding (bd_ID b) f px)))"

definition deleteExternalBinding :: "env \<Rightarrow> Claims \<Rightarrow> string \<Rightarrow> practice \<Rightarrow> (practice, unit) handled" where
  "deleteExternalBinding e cl platform px =
     (if \<not> env_dbok e 0 then (px, Inl (HTTP 500 ''unbind failed''))
      else (px\<lparr>px_bindings := tbl_delete (\<lambda>b. bd_UserID b = cl_UserID cl \<and> bd_Platform b = platform)
                 (px_bindings px)\<rparr>, Inr ()))"

definition syncExternalBinding ::
  "(source, fetcher, 'hook) plugins \<Rightarrow> env \<Rightarrow> Claims \<Rightarrow> string \<Rightarrow> practice \<Rightarrow> (practice, bind_reply) handled" where
  "syncExternalBinding reg e cl platform px =
     (case binding_of (cl_UserID cl) platform px of
        None \<Rightarrow> (px, Inl (HTTP 404 ''platform not bound''))
      | Some b \<Rightarrow> bind_answer (bd_ID b) (syncBinding reg e 0 b False px))"

section \<open>The report\<close>

record platformStat =
  st_Platform :: string
  st_Submissions :: nat
  st_AC :: nat
  st_Solved :: nat

record report_counts =
  rc_stats :: "(string \<times> platformStat) list"
  rc_daily :: "(int \<times> dailyBucket) list"
  rc_first :: "(string \<times> int) list"

definition problem_key :: "ExternalRecord \<Rightarrow> string" where
  "problem_key r = er_Platform r @ ''/'' @ er_ProblemID r"

definition stat_of :: "(string \<times> platformStat) list \<Rightarrow> string \<Rightarrow> platformStat" where
  "stat_of m p =
     (case map_of m p of None \<Rightarrow> \<lparr>st_Platform = p, st_Submissions = 0, st_AC = 0, st_Solved = 0\<rparr> | Some st \<Rightarrow> st)"

definition report_step :: "(time \<Rightarrow> int) \<Rightarrow> report_counts \<Rightarrow> ExternalRecord \<Rightarrow> report_counts" where
  "report_step day rc r =
     (let st = stat_of (rc_stats rc) (er_Platform r);
          st = st\<lparr>st_Submissions := st_Submissions st + 1\<rparr>;
          ac = (er_Verdict r = ''AC'');
          new = (ac \<and> map_of (rc_first rc) (problem_key r) = None);
          st = (if ac then st\<lparr>st_AC := st_AC st + 1\<rparr> else st);
          st = (if new then st\<lparr>st_Solved := st_Solved st + 1\<rparr> else st);
          d = day (er_At r * second);
          daily = bump d one_submission (rc_daily rc);
          daily = (if ac then bump d one_ac daily else daily)
      in \<lparr>rc_stats = AList.update (er_Platform r) st (rc_stats rc), rc_daily = daily,
          rc_first = (if new then AList.update (problem_key r) (er_At r) (rc_first rc) else rc_first rc)\<rparr>)"

definition no_counts :: report_counts where
  "no_counts = \<lparr>rc_stats = [], rc_daily = [], rc_first = []\<rparr>"

definition user_records :: "nat \<Rightarrow> practice \<Rightarrow> ExternalRecord list" where
  "user_records uid px =
     sort_by (\<lambda>a b. er_At a > er_At b) (tbl_select (\<lambda>r. er_UserID r = uid) (px_records px))"

record practice_report =
  er_platforms :: "string list"
  er_by_platform :: "platformStat list"
  er_activity :: "dailyBucket list"
  er_recent :: "(string \<times> string \<times> string \<times> int \<times> string) list"
  er_bindings :: "Binding list"

text \<open>The statistics come out of a Go map in an order of its own, \<open>order\<close>.\<close>

definition externalReport ::
  "(platformStat list \<Rightarrow> platformStat list) \<Rightarrow> (time \<Rightarrow> int) \<Rightarrow> env \<Rightarrow> string \<Rightarrow> practice
     \<Rightarrow> http_error + practice_report" where
  "externalReport order day e idstr px =
     (case paramID idstr of
        None \<Rightarrow> Inl (HTTP 400 ''invalid user id'')
      | Some uid \<Rightarrow>
          let bindings = tbl_select (\<lambda>b. bd_UserID b = uid) (px_bindings px);
              recs = user_records uid px;
              rc = foldl (report_step day) no_counts recs
          in Inr \<lparr>er_platforms = map bd_Platform bindings,
                er_by_platform = order (map snd (rc_stats rc)),
                er_activity = seriesSince (day (env_now e)) 365 (rc_daily rc),
                er_recent = take 20 (map (\<lambda>r. (er_Platform r, er_ProblemID r, er_ProblemName r, er_At r, er_ExternalID r))
                   (filter (\<lambda>r. er_Verdict r = ''AC'' \<and> map_of (rc_first rc) (problem_key r) = Some (er_At r)) recs)),
                er_bindings = bindings\<rparr>)"

section \<open>Importing problems\<close>

record importExternalReq =
  ie_Source :: string
  ie_ExternalID :: string
  ie_Visibility :: string

definition pluginSources :: "(source, fetcher, 'hook) plugins \<Rightarrow> string list \<times> string list" where
  "pluginSources reg = (ProblemSourceNames reg, SubmitFetcherNames reg)"

definition externalProblemSources :: "(source, fetcher, 'hook) plugins \<Rightarrow> string list" where
  "externalProblemSources reg = ProblemSourceNames reg"

definition fetch_external ::
  "(source, fetcher, 'hook) plugins \<Rightarrow> importExternalReq option \<Rightarrow> http_error + importExternalReq \<times> ProblemMeta" where
  "fetch_external reg req =
     (case req of
        None \<Rightarrow> Inl (HTTP 400 ''invalid request'')
      | Some q \<Rightarrow>
          if ie_Source q = [] \<or> ie_ExternalID q = [] then Inl (HTTP 400 ''invalid request'')
          else case ProblemSourceByID reg (ie_Source q) of
            None \<Rightarrow> Inl (HTTP 400 (''unknown platform: '' @ ie_Source q))
          | Some src \<Rightarrow>
              (case src (trim_space (ie_ExternalID q)) of
                 Inl err \<Rightarrow> Inl (HTTP 502 err)
               | Inr m \<Rightarrow> Inr (q, m)))"

definition previewExternalProblem ::
  "(source, fetcher, 'hook) plugins \<Rightarrow> importExternalReq option \<Rightarrow> http_error + ProblemMeta" where
  "previewExternalProblem reg req = (case fetch_external reg req of Inl err \<Rightarrow> Inl err | Inr (q, m) \<Rightarrow> Inr m)"

definition orDefaultInt :: "int \<Rightarrow> int \<Rightarrow> int" where
  "orDefaultInt v d = (if v \<le> 0 then d else v)"

definition samplesFromMeta :: "ProblemMeta \<Rightarrow> Sample list" where
  "samplesFromMeta m =
     map (\<lambda>s. \<lparr>sm_Input = sm_Input s, sm_Output = sm_Output s, sm_Note = sm_Note s\<rparr>) (mt_Samples m)"

definition gap :: string where "gap = [newline_c, newline_c]"

definition externalStatement :: "ProblemMeta \<Rightarrow> string \<Rightarrow> string" where
  "externalStatement m sourceTag =
     (if trim_space (mt_StatementMD m) = [] then
        sourceTag @ gap @ ''(the statement is empty; add it from the original)'' @ gap
      else sourceTag @ gap @ ''---'' @ gap @ mt_StatementMD m @ gap @ ''---'' @ gap)
     @ (if mt_URL m \<noteq> [] then ''**Original**: '' @ mt_URL m @ gap else [])
     @ ''**Note**: imported for training, with public samples only; test data must be added before judging.'' @ [newline_c]
     @ concat (map (\<lambda>n. ''- '' @ n @ [newline_c]) (mt_Notes m))"

definition external_problem :: "Claims \<Rightarrow> string \<Rightarrow> ProblemMeta \<Rightarrow> Problem" where
  "external_problem cl visibility m =
     (let sourceTag = ''[external training '' @ mt_Source m @ '' '' @ mt_ExternalID m @ '']'';
          title = orDefault (mt_Title m) sourceTag
      in blank_problem\<lparr>
           p_Title := (if trim_space title = [] then sourceTag else title),
           p_StatementMD := externalStatement m sourceTag,
           p_InputDesc := mt_InputDesc m, p_OutputDesc := mt_OutputDesc m, p_Hint := mt_Hint m,
           p_Source := mt_Source m @ '' '' @ mt_ExternalID m, p_Tags := mt_Tags m,
           p_Samples := samplesFromMeta m, p_TimeLimitMS := orDefaultInt (mt_TimeLimitMS m) 1000,
           p_MemLimitMB := orDefaultInt (mt_MemLimitMB m) 256,
           p_Visibility := (if isSetterRole (cl_Role cl) then visibility else VisibilityHidden),
           p_JudgeMode := JudgeModeDefault, p_CreatedBy := cl_UserID cl,
           p_ReviewStatus := (if isSetterRole (cl_Role cl) then ReviewApproved else ReviewPending)\<rparr>)"

record external_reply =
  xr_problem :: Problem
  xr_notes :: "string list"
  xr_needs_review :: bool

definition importExternalProblem ::
  "(source, fetcher, 'hook) plugins \<Rightarrow> env \<Rightarrow> Claims \<Rightarrow> importExternalReq option \<Rightarrow> db \<Rightarrow> (db, external_reply) handled" where
  "importExternalProblem reg e cl req s =
     (case fetch_external reg req of
        Inl err \<Rightarrow> (s, Inl err)
      | Inr (q, m) \<Rightarrow>
          let visibility = orDefault (ie_Visibility q) VisibilityMembers
          in if visibility \<notin> {VisibilityMembers, VisibilityHidden, VisibilityPublic} then
               (s, Inl (HTTP 400 ''invalid visibility''))
             else if \<not> env_dbok e 0 then (s, Inl (HTTP 500 ''create problem failed''))
             else
               let (s, prob) = create_problem e (external_problem cl visibility m) s
               in (s, Inr \<lparr>xr_problem = prob, xr_notes = mt_Notes m, xr_needs_review = \<not> isSetterRole (cl_Role cl)\<rparr>))"

section \<open>The tables stay sound\<close>

definition ext_ids :: "practice \<Rightarrow> string list" where
  "ext_ids px = map er_ExternalID (rows (px_records px))"

definition ext_key :: "Binding \<Rightarrow> SubmitRecord \<Rightarrow> string" where
  "ext_key b r = bd_Platform b @ '':'' @ sr_ExternalID r"

text \<open>
  Records have distinct external ids that name their platform; a user has one binding per platform.
\<close>

definition practice_ok :: "practice \<Rightarrow> bool" where
  "practice_ok px \<longleftrightarrow>
     tbl_ok er_ID (px_records px) \<and> distinct (ext_ids px)
     \<and> list_all (\<lambda>r. is_prefix (er_Platform r @ '':'') (er_ExternalID r)) (rows (px_records px))
     \<and> tbl_ok bd_ID (px_bindings px)
     \<and> distinct (map (\<lambda>b. (bd_UserID b, bd_Platform b)) (rows (px_bindings px)))"

lemma record_row_simps [simp]:
  "er_ID (record_row e b r i) = i" "er_ExternalID (record_row e b r i) = ext_key b r"
  "er_UserID (record_row e b r i) = bd_UserID b" "er_Platform (record_row e b r i) = bd_Platform b"
  "er_At (record_row e b r i) = sr_At r"
  by (simp_all add: record_row_def ext_key_def)

lemma create_record_cases:
  "create_record ok (record_row e b r) px =
     (if ext_key b r \<in> set (ext_ids px) \<or> \<not> ok then (px, False)
      else (px\<lparr>px_records := snd (tbl_create (record_row e b r) (px_records px))\<rparr>, True))"
  by (auto simp: create_record_def ext_ids_def list_ex_iff intro: rev_image_eqI)

lemma create_record_ok:
  "practice_ok px \<Longrightarrow> practice_ok (fst (create_record ok (record_row e b r) px))"
  by (auto simp: create_record_cases practice_ok_def tbl_ok_create table_simps ext_ids_def
      is_prefix_append ext_key_def)

lemma store_records_simps [simp]:
  "px_bindings (fst (store_records e b n recs px)) = px_bindings px"
proof (induction recs arbitrary: n px)
  case (Cons r recs)
  obtain px1 ok where c: "create_record (env_dbok e n) (record_row e b r) px = (px1, ok)" by fastforce
  then have "px_bindings px1 = px_bindings px" by (auto simp: create_record_cases split: if_splits)
  with c Cons show ?case by (simp add: split_beta Let_def)
qed simp

lemma store_records_ok:
  "practice_ok px \<Longrightarrow> practice_ok (fst (store_records e b n recs px))"
proof (induction recs arbitrary: n px)
  case (Cons r recs)
  obtain px1 ok where c: "create_record (env_dbok e n) (record_row e b r) px = (px1, ok)" by fastforce
  then have "practice_ok px1" using create_record_ok [OF Cons.prems] by (metis fst_conv)
  with c Cons.IH show ?case by (simp add: split_beta Let_def)
qed simp

lemma patch_binding_ok:
  assumes "practice_ok px" and "\<And>x. bd_ID (f x) = bd_ID x \<and> bd_UserID (f x) = bd_UserID x \<and> bd_Platform (f x) = bd_Platform x"
  shows "practice_ok (patch_binding i f px)"
proof -
  have "map (\<lambda>b. (bd_UserID b, bd_Platform b)) (rows (px_bindings (patch_binding i f px)))
      = map (\<lambda>b. (bd_UserID b, bd_Platform b)) (rows (px_bindings px))"
    using assms(2) by (simp add: patch_binding_def table_simps)
  with assms show ?thesis
    by (simp add: practice_ok_def ext_ids_def patch_binding_def tbl_ok_update del: map_map)
qed

lemma syncBinding_ok: "practice_ok px \<Longrightarrow> practice_ok (fst (syncBinding reg e n b first px))"
  by (auto simp: syncBinding_def Let_def split_beta intro!: patch_binding_ok store_records_ok
      split: option.split sum.split)

lemma sync_each_ok: "practice_ok px \<Longrightarrow> practice_ok (sync_each reg e cancelled i bs px)"
  by (induction bs arbitrary: i px) (simp_all add: syncBinding_ok)

lemma new_binding_ok:
  assumes "practice_ok px" and "binding_of uid p px = None"
    and "\<And>i. bd_ID (mk i) = i" and "\<And>i. bd_UserID (mk i) = uid" and "\<And>i. bd_Platform (mk i) = p"
  shows "practice_ok (px\<lparr>px_bindings := snd (tbl_create mk (px_bindings px))\<rparr>)"
  using assms by (auto simp: practice_ok_def ext_ids_def table_simps tbl_ok_create binding_of_def tbl_first_None)

lemma upsert_ok: "practice_ok px \<Longrightarrow> practice_ok (fst (upsertExternalBinding reg e cl req px))"
  by (auto simp: upsertExternalBinding_def bind_answer_def Let_def split_beta
      intro!: syncBinding_ok patch_binding_ok new_binding_ok split: option.split)

lemma delete_binding_ok: "practice_ok px \<Longrightarrow> practice_ok (fst (deleteExternalBinding e cl p px))"
  by (auto simp: deleteExternalBinding_def practice_ok_def ext_ids_def tbl_ok_delete table_simps distinct_map_filter)

text \<open>The operations of the component, in any order.\<close>

datatype practice_op =
    BindOp env Claims "bind_req option"
  | UnbindOp env Claims string
  | SyncOp env Claims string
  | ScanOp bool "nat \<Rightarrow> env" "nat \<Rightarrow> bool"

fun practice_do :: "(source, fetcher, 'hook) plugins \<Rightarrow> practice \<Rightarrow> practice_op \<Rightarrow> practice" where
  "practice_do reg px (BindOp e cl req) = fst (upsertExternalBinding reg e cl req px)"
| "practice_do reg px (UnbindOp e cl p) = fst (deleteExternalBinding e cl p px)"
| "practice_do reg px (SyncOp e cl p) = fst (syncExternalBinding reg e cl p px)"
| "practice_do reg px (ScanOp ok e cancelled) = syncAllBindings reg ok e cancelled px"

lemma practice_do_ok: "practice_ok px \<Longrightarrow> practice_ok (practice_do reg px op)"
  by (cases op) (auto simp: upsert_ok delete_binding_ok syncExternalBinding_def bind_answer_def syncBinding_ok
      syncAllBindings_def sync_each_ok split: option.split)

definition empty_practice :: practice where
  "empty_practice = \<lparr>px_records = empty_table, px_bindings = empty_table\<rparr>"

lemma empty_practice_ok: "practice_ok empty_practice"
  by (simp add: practice_ok_def empty_practice_def tbl_ok_empty ext_ids_def rows_empty_table)

lemma practice_ok_run: "practice_ok px \<Longrightarrow> practice_ok (foldl (practice_do reg) px ops)"
  by (induction ops arbitrary: px) (simp_all add: practice_do_ok)

text \<open>
  C17. Whatever users bind, unbind and synchronise, and whatever the platforms deliver, each fetched
  submission is stored once: external ids are unique and carry the name of the platform of their row,
  and a user keeps at most one handle per platform.
\<close>

theorem practice_sound:
  "practice_ok (foldl (practice_do reg) empty_practice ops)"
  by (rule practice_ok_run [OF empty_practice_ok])

section \<open>A synchronisation stores what is new\<close>

lemma store_records_new:
  assumes "\<And>n. env_dbok e n"
  shows "\<exists>new. rows (px_records (fst (store_records e b n recs px))) = rows (px_records px) @ new
     \<and> snd (store_records e b n recs px) = length new
     \<and> set (map er_ExternalID new) = ext_key b ` set recs - set (ext_ids px)
     \<and> distinct (map er_ExternalID new)
     \<and> list_all (\<lambda>r. er_UserID r = bd_UserID b \<and> er_Platform r = bd_Platform b) new"
proof (induction recs arbitrary: n px)
  case (Cons r recs)
  show ?case
  proof (cases "ext_key b r \<in> set (ext_ids px)")
    case True
    then have "store_records e b n (r # recs) px = store_records e b (Suc n) recs px"
      by (simp add: create_record_cases split_beta Let_def)
    moreover have "ext_key b ` set (r # recs) - set (ext_ids px) = ext_key b ` set recs - set (ext_ids px)"
      using True by auto
    ultimately show ?thesis using Cons [of "Suc n" px] by (simp only:)
  next
    case False
    define px1 where "px1 = px\<lparr>px_records := snd (tbl_create (record_row e b r) (px_records px))\<rparr>"
    define row where "row = record_row e b r (Suc (seq (px_records px)))"
    have r1: "rows (px_records px1) = rows (px_records px) @ [row]" by (simp add: px1_def row_def table_simps)
    then have i1: "set (ext_ids px1) = insert (ext_key b r) (set (ext_ids px))" by (simp add: ext_ids_def row_def)
    obtain new where new: "rows (px_records (fst (store_records e b (Suc n) recs px1))) = rows (px_records px1) @ new"
      "snd (store_records e b (Suc n) recs px1) = length new"
      "set (map er_ExternalID new) = ext_key b ` set recs - set (ext_ids px1)" "distinct (map er_ExternalID new)"
      "list_all (\<lambda>r. er_UserID r = bd_UserID b \<and> er_Platform r = bd_Platform b) new"
      using Cons [of "Suc n" px1] by blast
    have st: "store_records e b n (r # recs) px
        = (fst (store_records e b (Suc n) recs px1), Suc (snd (store_records e b (Suc n) recs px1)))"
      using False assms by (simp add: create_record_cases px1_def split_beta Let_def)
    have "set (map er_ExternalID (row # new)) = ext_key b ` set (r # recs) - set (ext_ids px)"
      using new(3) False by (auto simp: i1 row_def)
    moreover have "distinct (map er_ExternalID (row # new))"
      using new(3,4) by (auto simp: i1 row_def)
    ultimately show ?thesis using new r1
      unfolding st by (intro exI [of _ "row # new"]) (simp add: row_def)
  qed
qed simp

lemma patch_binding_records [simp]: "px_records (patch_binding i f px) = px_records px"
  by (simp add: patch_binding_def)

lemma store_records_again:
  assumes "ext_key b ` set recs \<subseteq> set (ext_ids px)"
  shows "store_records e b n recs px = (px, 0)"
  using assms by (induction recs arbitrary: n) (simp_all add: create_record_cases)

text \<open>
  C16. When the platform answers and the database works, a synchronisation adds exactly the submissions
  whose ids are not stored yet, each once and under the user of the binding, reports their number, and
  leaves the rows before in place; done again with the same answer it stores nothing.
\<close>

theorem sync_exact:
  assumes "SubmitFetcherByID reg (bd_Platform b) = Some fetch" and "fetch (bd_Handle b) first = Inr recs"
    and "\<And>n. env_dbok e n"
  shows "\<exists>new. rows (px_records (fst (syncBinding reg e n b first px))) = rows (px_records px) @ new
     \<and> snd (syncBinding reg e n b first px) = (length new, [])
     \<and> set (map er_ExternalID new) = ext_key b ` set recs - set (ext_ids px)
     \<and> distinct (map er_ExternalID new)
     \<and> list_all (\<lambda>r. er_UserID r = bd_UserID b \<and> er_Platform r = bd_Platform b) new
     \<and> (let again = syncBinding reg e' n' b first (fst (syncBinding reg e n b first px))
        in px_records (fst again) = px_records (fst (syncBinding reg e n b first px)) \<and> snd again = (0, []))"
proof -
  define px1 where "px1 = fst (syncBinding reg e n b first px)"
  have r1: "px_records px1 = px_records (fst (store_records e b n recs px))"
    and c1: "snd (syncBinding reg e n b first px) = (snd (store_records e b n recs px), [])"
    using assms(1,2) by (simp_all add: px1_def syncBinding_def Let_def split_beta)
  obtain new where new: "rows (px_records px1) = rows (px_records px) @ new"
    "snd (store_records e b n recs px) = length new"
    "set (map er_ExternalID new) = ext_key b ` set recs - set (ext_ids px)" "distinct (map er_ExternalID new)"
    "list_all (\<lambda>r. er_UserID r = bd_UserID b \<and> er_Platform r = bd_Platform b) new"
    using store_records_new [OF assms(3), of b n recs px] unfolding r1 by blast
  have "ext_key b ` set recs \<subseteq> set (ext_ids px1)"
    using new(3) by (auto simp: ext_ids_def new(1))
  then have "store_records e' b n' recs px1 = (px1, 0)" by (rule store_records_again)
  then have "px_records (fst (syncBinding reg e' n' b first px1)) = px_records px1
      \<and> snd (syncBinding reg e' n' b first px1) = (0, [])"
    using assms(1,2) by (simp add: syncBinding_def Let_def)
  with new c1 show ?thesis unfolding Let_def px1_def [symmetric] by auto
qed

section \<open>The report counts the records\<close>

definition plat_recs :: "string \<Rightarrow> ExternalRecord list \<Rightarrow> ExternalRecord list" where
  "plat_recs p recs = filter (\<lambda>r. er_Platform r = p) recs"

definition accepted_recs :: "ExternalRecord list \<Rightarrow> ExternalRecord list" where
  "accepted_recs recs = filter (\<lambda>r. er_Verdict r = ''AC'') recs"

definition platform_totals :: "string \<Rightarrow> ExternalRecord list \<Rightarrow> platformStat" where
  "platform_totals p recs = \<lparr>st_Platform = p, st_Submissions = length (plat_recs p recs),
     st_AC = length (accepted_recs (plat_recs p recs)),
     st_Solved = card (set (map er_ProblemID (accepted_recs (plat_recs p recs))))\<rparr>"

definition plain_platforms :: "ExternalRecord list \<Rightarrow> bool" where
  "plain_platforms recs \<longleftrightarrow> list_all (\<lambda>r. CHR ''/'' \<notin> set (er_Platform r)) recs"

lemma problem_key_inject:
  assumes "CHR ''/'' \<notin> set (er_Platform r)" and "CHR ''/'' \<notin> set (er_Platform r')"
  shows "problem_key r = problem_key r' \<longleftrightarrow> er_Platform r = er_Platform r' \<and> er_ProblemID r = er_ProblemID r'"
proof
  assume "problem_key r = problem_key r'"
  then have "cut_at (CHR ''/'') (er_Platform r @ CHR ''/'' # er_ProblemID r)
      = cut_at (CHR ''/'') (er_Platform r' @ CHR ''/'' # er_ProblemID r')" by (simp add: problem_key_def)
  then show "er_Platform r = er_Platform r' \<and> er_ProblemID r = er_ProblemID r'"
    using assms by (simp add: cut_at_sep)
qed (simp add: problem_key_def)

lemma totals_snoc:
  "platform_totals p (recs @ [r]) =
     (let st = platform_totals p recs
      in if er_Platform r \<noteq> p then st
         else if er_Verdict r \<noteq> ''AC'' then st\<lparr>st_Submissions := st_Submissions st + 1\<rparr>
         else st\<lparr>st_Submissions := st_Submissions st + 1, st_AC := st_AC st + 1,
                 st_Solved := (if er_ProblemID r \<in> set (map er_ProblemID (accepted_recs (plat_recs p recs)))
                               then st_Solved st else st_Solved st + 1)\<rparr>)"
proof -
  define old where "old = accepted_recs (plat_recs p recs)"
  have plat: "plat_recs p (recs @ [r]) = plat_recs p recs @ (if er_Platform r = p then [r] else [])"
    by (simp add: plat_recs_def)
  have acc: "accepted_recs (plat_recs p (recs @ [r])) = old @ (if er_Platform r = p \<and> er_Verdict r = ''AC'' then [r] else [])"
    by (simp add: plat accepted_recs_def old_def)
  show ?thesis
    unfolding platform_totals_def acc unfolding plat old_def [symmetric]
    by (auto simp: Let_def insert_absorb)
qed

lemma totals_absent: "p \<notin> er_Platform ` set recs \<Longrightarrow>
    platform_totals p recs = \<lparr>st_Platform = p, st_Submissions = 0, st_AC = 0, st_Solved = 0\<rparr>"
proof -
  assume "p \<notin> er_Platform ` set recs"
  then have "plat_recs p recs = []" by (auto simp: plat_recs_def filter_empty_conv)
  then show ?thesis by (simp add: platform_totals_def accepted_recs_def)
qed

lemma report_steps:
  assumes "plain_platforms recs"
  shows "map_of (rc_stats (foldl (report_step day) no_counts recs)) p =
      (if p \<in> er_Platform ` set recs then Some (platform_totals p recs) else None)
    \<and> distinct (map fst (rc_stats (foldl (report_step day) no_counts recs)))
    \<and> (map_of (rc_first (foldl (report_step day) no_counts recs)) k \<noteq> None
         \<longleftrightarrow> k \<in> problem_key ` set (accepted_recs recs))"
  using assms
proof (induction recs arbitrary: p k rule: rev_induct)
  case Nil
  then show ?case by (simp add: no_counts_def accepted_recs_def)
next
  case (snoc r recs)
  define rc where "rc = foldl (report_step day) no_counts recs"
  have plain: "plain_platforms recs" "CHR ''/'' \<notin> set (er_Platform r)"
    using snoc.prems by (simp_all add: plain_platforms_def)
  note IH = snoc.IH [OF plain(1), folded rc_def]
  have st: "stat_of (rc_stats rc) (er_Platform r) = platform_totals (er_Platform r) recs"
    using IH by (simp add: stat_of_def totals_absent)
  have key: "problem_key r \<in> problem_key ` set (accepted_recs recs)
      \<longleftrightarrow> er_ProblemID r \<in> set (map er_ProblemID (accepted_recs (plat_recs (er_Platform r) recs)))"
  proof -
    have "problem_key r = problem_key x \<longleftrightarrow> er_Platform r = er_Platform x \<and> er_ProblemID r = er_ProblemID x"
      if "x \<in> set recs" for x
      using problem_key_inject plain that by (simp add: plain_platforms_def list_all_iff)
    then show ?thesis by (force simp: accepted_recs_def plat_recs_def)
  qed
  have first: "map_of (rc_first rc) (problem_key r) = None \<longleftrightarrow> \<not> problem_key r \<in> problem_key ` set (accepted_recs recs)"
    using IH [of _ "problem_key r"] by blast
  have step: "foldl (report_step day) no_counts (recs @ [r]) = report_step day rc r" by (simp add: rc_def)
  have stats: "rc_stats (report_step day rc r) =
      AList.update (er_Platform r) (platform_totals (er_Platform r) (recs @ [r])) (rc_stats rc)"
    unfolding report_step_def st by (simp add: totals_snoc Let_def first key)
  have firsts: "rc_first (report_step day rc r) =
      (if er_Verdict r = ''AC'' \<and> map_of (rc_first rc) (problem_key r) = None
       then AList.update (problem_key r) (er_At r) (rc_first rc) else rc_first rc)"
    by (simp add: report_step_def Let_def)
  have "map_of (rc_stats (report_step day rc r)) p =
      (if p \<in> er_Platform ` set (recs @ [r]) then Some (platform_totals p (recs @ [r])) else None)"
    using IH by (simp add: stats update_conv' totals_snoc Let_def)
  moreover have "distinct (map fst (rc_stats (report_step day rc r)))"
    using IH by (simp add: stats distinct_update)
  moreover have "map_of (rc_first (report_step day rc r)) k \<noteq> None \<longleftrightarrow> k \<in> problem_key ` set (accepted_recs (recs @ [r]))"
    using IH [of _ k] first by (auto simp: firsts update_conv' accepted_recs_def)
  ultimately show ?case unfolding step by blast
qed

lemma totals_mset:
  assumes "mset recs = mset recs'"
  shows "platform_totals p recs = platform_totals p recs'"
proof -
  have "mset (plat_recs p recs) = mset (plat_recs p recs')" using assms by (simp add: plat_recs_def)
  moreover have "mset (accepted_recs (plat_recs p recs)) = mset (accepted_recs (plat_recs p recs'))"
    using calculation by (simp add: accepted_recs_def)
  moreover have "set (accepted_recs (plat_recs p recs)) = set (accepted_recs (plat_recs p recs'))"
    using calculation(2) by (metis set_mset_mset)
  ultimately show ?thesis by (auto simp: platform_totals_def dest: mset_eq_length)
qed

text \<open>
  C18. The report of a user counts each record once: per platform with a record, and for no other, it
  gives the number of submissions, of accepted ones, and of different problems accepted; the feed of
  recent acceptances has at most 20 entries.
\<close>

theorem report_exact:
  assumes "externalReport order day e idstr px = Inr rep" and "paramID idstr = Some uid"
    and "\<And>xs. mset (order xs) = mset xs"
    and "plain_platforms (rows (px_records px))"
  shows "(let mine = filter (\<lambda>r. er_UserID r = uid) (rows (px_records px))
     in set (er_by_platform rep) = (\<lambda>p. platform_totals p mine) ` set (map er_Platform mine)
        \<and> distinct (map st_Platform (er_by_platform rep)))
     \<and> length (er_recent rep) \<le> 20"
proof -
  define mine where "mine = filter (\<lambda>r. er_UserID r = uid) (rows (px_records px))"
  define recs where "recs = user_records uid px"
  have ms: "mset recs = mset mine" by (simp add: recs_def mine_def user_records_def tbl_select_def)
  then have sets: "set recs = set mine" by (metis set_mset_mset)
  then have "plain_platforms recs"
    using assms(4) by (auto simp: plain_platforms_def list_all_iff mine_def)
  note inv = report_steps [OF this, of day]
  let ?stats = "rc_stats (foldl (report_step day) no_counts recs)"
  have dist: "distinct (map fst ?stats)" using inv by blast
  have entry: "(p, st) \<in> set ?stats \<longleftrightarrow> p \<in> er_Platform ` set mine \<and> st = platform_totals p mine" for p st
  proof -
    have "map_of ?stats p = (if p \<in> er_Platform ` set mine then Some (platform_totals p mine) else None)"
      using inv [of p undefined] by (simp add: sets totals_mset [OF ms])
    then show ?thesis unfolding map_of_eq_Some_iff [OF dist, symmetric] by (auto split: if_splits)
  qed
  have by_pl: "er_by_platform rep = order (map snd ?stats)" and recent: "length (er_recent rep) \<le> 20"
    using assms(1,2) by (auto simp: externalReport_def Let_def recs_def)
  have ord: "set (order (map snd ?stats)) = snd ` set ?stats"
    using assms(3) by (metis set_map set_mset_mset)
  have "set (er_by_platform rep) = (\<lambda>p. platform_totals p mine) ` set (map er_Platform mine)"
    unfolding by_pl ord using entry by (force simp: image_iff)
  moreover have "distinct (map st_Platform (er_by_platform rep))"
  proof -
    have "map st_Platform (map snd ?stats) = map fst ?stats"
      using entry by (auto simp: platform_totals_def)
    then have "distinct (map st_Platform (map snd ?stats))" using dist by (simp only:)
    moreover have "mset (map st_Platform (order (map snd ?stats))) = mset (map st_Platform (map snd ?stats))"
      using assms(3) by (metis mset_map)
    ultimately show ?thesis unfolding by_pl by (metis mset_eq_imp_distinct_iff)
  qed
  ultimately show ?thesis using recent by (simp add: mine_def Let_def)
qed

section \<open>Imported problems are hidden until reviewed\<close>

lemma gated_fields:
  assumes "\<not> isSetterRole (cl_Role cl)"
  shows "p_ReviewStatus (external_problem cl vis m) = ReviewPending" "p_Visibility (external_problem cl vis m) = VisibilityHidden"
    "p_CreatedBy (external_problem cl vis m) = cl_UserID cl" "p_ContestID (external_problem cl vis m) = None"
  using assms by (simp_all only: external_problem_def Let_def) (simp_all add: blank_problem_def)

text \<open>
  A problem imported from another platform by a user who is no setter waits for review: it gets no
  test data, is stored hidden and pending, and no other user below the rank of a setter can see it.
\<close>

theorem external_import_gated:
  assumes "importExternalProblem reg e cl req s = (s', Inr rep)"
    and "\<not> isSetterRole (cl_Role cl)" and "\<not> isSetterRole (cl_Role other)" and "cl_UserID other \<noteq> cl_UserID cl"
  shows "rows (db_problems s') = rows (db_problems s) @ [xr_problem rep]
     \<and> db_cases s' = db_cases s \<and> db_files s' = db_files s
     \<and> p_ReviewStatus (xr_problem rep) = ReviewPending \<and> p_Visibility (xr_problem rep) = VisibilityHidden
     \<and> p_CreatedBy (xr_problem rep) = cl_UserID cl \<and> xr_needs_review rep
     \<and> \<not> canSeeProblem e' other s' (xr_problem rep)"
proof -
  obtain q m vis where cp: "create_problem e (external_problem cl vis m) s = (s', xr_problem rep)"
    and rv: "xr_needs_review rep"
    using assms(1,2) by (auto simp: importExternalProblem_def Let_def split: sum.splits if_splits prod.splits)
  have prob: "p_ReviewStatus (xr_problem rep) = ReviewPending" "p_Visibility (xr_problem rep) = VisibilityHidden"
    "p_CreatedBy (xr_problem rep) = cl_UserID cl" "p_ContestID (xr_problem rep) = None"
    using created_problem_simps [of e "external_problem cl vis m" s] gated_fields [OF assms(2), of vis m]
    by (simp_all add: cp orDefault_def)
  have "\<not> canSeeProblem e' other s' (xr_problem rep)"
    using assms(3,4) by (simp add: canSeeProblem_def canManageProblem_def prob)
  with prob rv create_problem_simps [of e "external_problem cl vis m" s] show ?thesis by (simp add: cp)
qed

section \<open>Samples\<close>

definition sample_log :: "SubmitRecord list" where
  "sample_log = [
     \<lparr>sr_Platform = ''luogu'', sr_ExternalID = ''2'', sr_ProblemID = ''P1'', sr_ProblemName = [], sr_Verdict = ''AC'',
       sr_Language = [], sr_At = 200\<rparr>,
     \<lparr>sr_Platform = ''luogu'', sr_ExternalID = ''1'', sr_ProblemID = ''P1'', sr_ProblemName = [], sr_Verdict = ''AC'',
       sr_Language = [], sr_At = 100\<rparr>]"

definition sample_meta :: ProblemMeta where
  "sample_meta = \<lparr>mt_Source = ''luogu'', mt_ExternalID = ''P1'', mt_URL = [], mt_Title = ''Sum'',
     mt_StatementMD = ''add'', mt_InputDesc = [], mt_OutputDesc = [], mt_Hint = [], mt_TimeLimitMS = 0,
     mt_MemLimitMB = 0, mt_Tags = [], mt_Samples = [], mt_Notes = []\<rparr>"

definition sample_plugins :: "(source, fetcher, unit) plugins" where
  "sample_plugins = \<lparr>problemSrcs = [(''luogu'', \<lambda>_. Inr sample_meta)],
     subFetchers = [(''luogu'', \<lambda>_ _. Inr sample_log)], eventHooks = []\<rparr>"

definition sample_binding :: "nat \<Rightarrow> Binding" where
  "sample_binding uid = \<lparr>bd_ID = uid, bd_UserID = uid, bd_Platform = ''luogu'', bd_Handle = ''h'',
     bd_SyncedAt = None, bd_LastError = [], bd_CreatedAt = 0\<rparr>"

definition quiet :: env where
  "quiet = \<lparr>env_now = 0, env_dbok = (\<lambda>_. True), env_rand = []\<rparr>"

theorem sync_exact_witness:
  "\<exists>new. rows (px_records (fst (syncBinding sample_plugins quiet 0 (sample_binding 1) True empty_practice))) = new
     \<and> snd (syncBinding sample_plugins quiet 0 (sample_binding 1) True empty_practice) = (length new, [])
     \<and> set (map er_ExternalID new) = {''luogu:1'', ''luogu:2''}"
proof -
  have reg: "SubmitFetcherByID sample_plugins (bd_Platform (sample_binding 1)) = Some (\<lambda>_ _. Inr sample_log)"
    by (simp add: SubmitFetcherByID_def sample_plugins_def sample_binding_def)
  have keys: "ext_key (sample_binding 1) ` set sample_log - set (ext_ids empty_practice) = {''luogu:1'', ''luogu:2''}"
    by (auto simp: ext_key_def sample_binding_def sample_log_def ext_ids_def empty_practice_def rows_empty_table)
  show ?thesis
    using sync_exact [OF reg refl, of quiet 0 True empty_practice] keys
    by (auto simp: quiet_def empty_practice_def rows_empty_table)
qed

text \<open>The user's practice after one synchronisation.\<close>

definition synced :: practice where
  "synced = fst (syncBinding sample_plugins quiet 0 (sample_binding 1) True empty_practice)"

lemma synced_rows:
  "rows (px_records synced) =
     [record_row quiet (sample_binding 1) (sample_log ! 0) 1, record_row quiet (sample_binding 1) (sample_log ! 1) 2]"
  by (simp add: synced_def syncBinding_def SubmitFetcherByID_def sample_plugins_def sample_binding_def sample_log_def
      empty_practice_def empty_table_def create_record_def tbl_create_def record_row_def quiet_def Let_def)

text \<open>
  A second user with the same handle: nothing is stored, as the ids are unique over all users.
\<close>

lemma shared_handle_gets_nothing:
  "snd (syncBinding sample_plugins quiet 0 (sample_binding 2) True synced) = (0, [])"
proof -
  have "ext_key (sample_binding 2) ` set sample_log \<subseteq> set (ext_ids synced)"
    by (simp add: ext_ids_def synced_rows sample_log_def ext_key_def sample_binding_def)
  then have "store_records quiet (sample_binding 2) 0 sample_log synced = (synced, 0)" by (rule store_records_again)
  then show ?thesis
    by (simp add: syncBinding_def SubmitFetcherByID_def sample_plugins_def sample_binding_def Let_def)
qed

text \<open>The feed of first acceptances shows the latest acceptance of the problem, not the first one.\<close>

lemma recent_is_latest:
  "\<exists>rep. externalReport (\<lambda>x. x) (\<lambda>_. 0) quiet ''1'' synced = Inr rep
     \<and> er_recent rep = [(''luogu'', ''P1'', [], 200, ''luogu:2'')]"
proof -
  have uid: "paramID ''1'' = Some 1"
    by (simp add: paramID_def parse_uint64_def is_digit_def str_val_def digit_val_def)
  have recs: "user_records 1 synced = rows (px_records synced)"
    by (simp add: user_records_def tbl_select_def synced_rows sample_binding_def sample_log_def)
  have rc: "rc_first (foldl (report_step (\<lambda>_. 0)) no_counts (rows (px_records synced))) = [(''luogu/P1'', 200)]"
    by (simp add: synced_rows report_step_def no_counts_def problem_key_def record_row_def sample_binding_def
        sample_log_def Let_def)
  have feed: "map (\<lambda>r. (er_Platform r, er_ProblemID r, er_ProblemName r, er_At r, er_ExternalID r))
      (filter (\<lambda>r. er_Verdict r = ''AC'' \<and> map_of [(''luogu/P1'', 200)] (problem_key r) = Some (er_At r))
        (rows (px_records synced))) = [(''luogu'', ''P1'', [], 200, ''luogu:2'')]"
    by (simp add: synced_rows problem_key_def record_row_def sample_binding_def sample_log_def)
  show ?thesis
    unfolding externalReport_def uid Let_def option.case recs rc feed by simp
qed

theorem report_exact_witness:
  "\<exists>rep. externalReport (\<lambda>x. x) (\<lambda>_. 0) quiet ''1'' synced = Inr rep
     \<and> set (er_by_platform rep) = {\<lparr>st_Platform = ''luogu'', st_Submissions = 2, st_AC = 2, st_Solved = 1\<rparr>}"
proof -
  have uid: "paramID ''1'' = Some 1"
    by (simp add: paramID_def parse_uint64_def is_digit_def str_val_def digit_val_def)
  obtain rep where rep: "externalReport (\<lambda>x. x) (\<lambda>_. 0) quiet ''1'' synced = Inr rep"
    unfolding externalReport_def uid Let_def by simp
  have plain: "plain_platforms (rows (px_records synced))"
    by (simp add: plain_platforms_def synced_rows sample_binding_def)
  have mine: "filter (\<lambda>r. er_UserID r = 1) (rows (px_records synced)) = rows (px_records synced)"
    by (simp add: synced_rows sample_binding_def)
  have totals: "platform_totals ''luogu'' (rows (px_records synced)) =
      \<lparr>st_Platform = ''luogu'', st_Submissions = 2, st_AC = 2, st_Solved = 1\<rparr>"
    by (simp add: platform_totals_def plat_recs_def accepted_recs_def synced_rows record_row_def sample_binding_def
        sample_log_def)
  have plats: "set (map er_Platform (rows (px_records synced))) = {''luogu''}"
    by (simp add: synced_rows sample_binding_def)
  have "set (er_by_platform rep) = (\<lambda>p. platform_totals p (rows (px_records synced))) ` {''luogu''}"
    using report_exact [OF rep uid refl plain] unfolding Let_def mine plats by blast
  with totals rep show ?thesis by simp
qed

theorem external_import_gated_witness:
  "\<exists>s' rep. importExternalProblem sample_plugins quiet \<lparr>cl_UserID = 1, cl_Username = ''ann'', cl_Role = RoleUser\<rparr>
       (Some \<lparr>ie_Source = ''luogu'', ie_ExternalID = ''P1'', ie_Visibility = ''public''\<rparr>) empty_db = (s', Inr rep)
     \<and> \<not> canSeeProblem quiet \<lparr>cl_UserID = 2, cl_Username = ''bob'', cl_Role = RoleUser\<rparr> s' (xr_problem rep)"
proof -
  let ?ann = "\<lparr>cl_UserID = 1, cl_Username = ''ann'', cl_Role = RoleUser\<rparr>"
  let ?bob = "\<lparr>cl_UserID = 2, cl_Username = ''bob'', cl_Role = RoleUser\<rparr>"
  let ?req = "\<lparr>ie_Source = ''luogu'', ie_ExternalID = ''P1'', ie_Visibility = ''public''\<rparr>"
  have fetched: "fetch_external sample_plugins (Some ?req) = Inr (?req, sample_meta)"
    by (simp add: fetch_external_def ProblemSourceByID_def sample_plugins_def)
  obtain s' rep where run: "importExternalProblem sample_plugins quiet ?ann (Some ?req) empty_db = (s', Inr rep)"
    unfolding importExternalProblem_def fetched by (simp add: orDefault_def quiet_def Let_def split_beta)
  have "\<not> canSeeProblem quiet ?bob s' (xr_problem rep)"
    using external_import_gated [OF run, of ?bob quiet] by (simp add: isSetterRole_def isAdminRole_def)
  with run show ?thesis by blast
qed

end
