(* ===== verification/Admin_Pages.thy ===== *)
theory Admin_Pages
  imports Jury
begin

text \<open>
  The pages of the administration that read the running system: the dashboard (\<open>admin_stats.go\<close>), the
  viewer of the service logs (\<open>admin_logs.go\<close>), and the judges and the rejudging of a submission
  (\<open>admin_internal.go\<close>).

  The calendar is an argument: \<open>day t\<close> is the number of the day of an instant, \<open>day_start t\<close> its first
  instant, \<open>add_days t k\<close> is \<open>AddDate(0, 0, k)\<close>.  The load of the host is what \<open>sysload\<close> reports.
\<close>

section \<open>The dashboard\<close>

definition atoiDefault :: "string \<Rightarrow> int \<Rightarrow> int" where
  "atoiDefault s d = (case atoi s of None \<Rightarrow> d | Some v \<Rightarrow> if v = 0 then d else v)"

record overview =
  ov_users :: nat
  ov_submissions_total :: nat
  ov_submissions_today :: nat
  ov_ac_total :: nat
  ov_queue_length :: nat
  ov_daemons :: nat
  ov_daemons_online :: nat
  ov_contests :: nat
  ov_problems :: nat

definition statsOverview :: "(time \<Rightarrow> time) \<Rightarrow> env \<Rightarrow> 'load \<Rightarrow> server \<Rightarrow> overview \<times> 'load" where
  "statsOverview day_start e load sv =
     (let s = srv_db sv
      in (\<lparr>ov_users = tbl_count (\<lambda>_. True) (db_users s),
           ov_submissions_total = tbl_count (\<lambda>_. True) (db_submissions s),
           ov_submissions_today = tbl_count (\<lambda>r. day_start (env_now e) \<le> s_CreatedAt r) (db_submissions s),
           ov_ac_total = tbl_count (\<lambda>r. s_Status r = SubAC) (db_submissions s),
           ov_queue_length = mq_len (srv_queue sv),
           ov_daemons = tbl_count (\<lambda>_. True) (db_daemons s),
           ov_daemons_online = tbl_count (\<lambda>d. jd_Status d = DaemonOnline) (db_daemons s),
           ov_contests = tbl_count (\<lambda>_. True) (db_contests s),
           ov_problems = tbl_count (\<lambda>p. p_ContestID p = None) (db_problems s)\<rparr>, load))"

record dailyCount =
  dn_Date :: int
  dn_Count :: nat

definition count_day :: "(time \<Rightarrow> int) \<Rightarrow> (int \<rightharpoonup> nat) \<Rightarrow> Submission \<Rightarrow> (int \<rightharpoonup> nat)" where
  "count_day day counts sub =
     (let key = day (s_CreatedAt sub)
      in counts(key \<mapsto> (case counts key of None \<Rightarrow> 1 | Some n \<Rightarrow> Suc n)))"

definition statsTrend ::
  "(time \<Rightarrow> int) \<Rightarrow> (time \<Rightarrow> int \<Rightarrow> time) \<Rightarrow> env \<Rightarrow> string \<Rightarrow> db \<Rightarrow> dailyCount list" where
  "statsTrend day add_days e q s =
     (let days = clampInt (atoiDefault q 14) 1 90;
          now = env_now e;
          subs = tbl_select (\<lambda>r. add_days now (- days) \<le> s_CreatedAt r) (db_submissions s);
          counts = foldl (count_day day) Map.empty subs
      in map (\<lambda>i. \<lparr>dn_Date = day now - int i,
                    dn_Count = (case counts (day now - int i) of None \<Rightarrow> 0 | Some n \<Rightarrow> n)\<rparr>)
           (rev [0..<nat days]))"

section \<open>Judging at the same time\<close>

text \<open>The time a submission spent with the judge, as a pair of instants.\<close>

type_synonym span = "time \<times> time"

definition judge_span :: "Submission \<Rightarrow> span list" where
  "judge_span sub =
     (case s_JudgedAt sub of
        None \<Rightarrow> []
      | Some j \<Rightarrow> [(s_CreatedAt sub, if j < s_CreatedAt sub then s_CreatedAt sub else j)])"

definition clip :: "time \<Rightarrow> time \<Rightarrow> span \<Rightarrow> span" where
  "clip bStart bEnd sp =
     (if fst sp < bStart then bStart else fst sp, if snd sp > bEnd then bEnd else snd sp)"

definition span_events :: "time \<Rightarrow> time \<Rightarrow> span list \<Rightarrow> time list" where
  "span_events bStart bEnd spans =
     concat (map (\<lambda>sp. let (f, t) = clip bStart bEnd sp in if f < t then [f, t] else []) spans)"

text \<open>
  The kind of an event is looked up by its instant: the first span with an end point there decides, and
  a span that starts there wins over its own end.
\<close>

fun is_start :: "time \<Rightarrow> time \<Rightarrow> span list \<Rightarrow> time \<Rightarrow> bool" where
  "is_start bStart bEnd [] t = True"
| "is_start bStart bEnd (sp # sps) t =
     (let (f, u) = clip bStart bEnd sp
      in if f = t then True else if u = t then False else is_start bStart bEnd sps t)"

fun sweep :: "(time \<Rightarrow> bool) \<Rightarrow> int \<Rightarrow> int \<Rightarrow> time list \<Rightarrow> int" where
  "sweep start cur peak [] = peak"
| "sweep start cur peak (t # ts) =
     (if start t then sweep start (cur + 1) (if cur + 1 > peak then cur + 1 else peak) ts
      else sweep start (cur - 1) peak ts)"

definition hour_peak :: "time \<Rightarrow> time \<Rightarrow> span list \<Rightarrow> int" where
  "hour_peak bStart bEnd spans =
     sweep (is_start bStart bEnd spans) 0 0 (sort_by (<) (span_events bStart bEnd spans))"

definition hour_count :: "time \<Rightarrow> time \<Rightarrow> span list \<Rightarrow> nat" where
  "hour_count bStart bEnd spans = length (filter (\<lambda>sp. fst sp < bEnd \<and> snd sp > bStart) spans)"

definition hour :: duration where "hour = 60 * minute"

definition statsConcurrency :: "env \<Rightarrow> string \<Rightarrow> db \<Rightarrow> (time \<times> int \<times> nat) list" where
  "statsConcurrency e q s =
     (let hours = clampInt (atoiDefault q 24) 1 (24 * 7);
          start = env_now e - hours * hour;
          subs = tbl_select (\<lambda>r. start \<le> s_CreatedAt r \<and> s_JudgedAt r \<noteq> None) (db_submissions s);
          spans = concat (map judge_span subs)
      in map (\<lambda>h. let bStart = start + int h * hour; bEnd = bStart + hour
                  in (bStart, hour_peak bStart bEnd spans, hour_count bStart bEnd spans))
           [0..<nat hours])"

section \<open>The judges\<close>

definition heartbeatStaleAfter :: duration where "heartbeatStaleAfter = 60 * second"

definition by_name :: "JudgeDaemon list \<Rightarrow> JudgeDaemon list" where
  "by_name = sort_by (\<lambda>a b. bytes_less (jd_Name a) (jd_Name b))"

definition statsLoad :: "'load \<Rightarrow> db \<Rightarrow> 'load \<times> JudgeDaemon list" where
  "statsLoad load s = (load, by_name (tbl_select (\<lambda>d. jd_Status d = DaemonOnline) (db_daemons s)))"

definition stale :: "time \<Rightarrow> JudgeDaemon \<Rightarrow> bool" where
  "stale now d \<longleftrightarrow> jd_Status d = DaemonOnline \<and>
     (case jd_LastHeartbeat d of None \<Rightarrow> True | Some t \<Rightarrow> time_sub now t > heartbeatStaleAfter)"

definition listDaemons :: "env \<Rightarrow> server \<Rightarrow> JudgeDaemon list \<times> nat" where
  "listDaemons e sv =
     (map (\<lambda>d. if stale (env_now e) d then d\<lparr>jd_Status := DaemonOffline\<rparr> else d)
        (by_name (rows (db_daemons (srv_db sv)))),
      mq_len (srv_queue sv))"

definition rejudge :: "string \<Rightarrow> server \<Rightarrow> (server, unit) handled" where
  "rejudge idstr sv =
     (case submissionByID (srv_db sv) idstr of
        None \<Rightarrow> (sv, Inl (HTTP 404 ''submission not found''))
      | Some sub \<Rightarrow>
          let s = srv_db sv;
              s = s\<lparr>db_submissions := tbl_update (\<lambda>r. s_ID r = s_ID sub) reset_verdict (db_submissions s)\<rparr>;
              (q, err) = mq_push (srv_queue sv) (s_ID sub);
              sv = sv\<lparr>srv_db := s, srv_queue := q\<rparr>
          in if err \<noteq> None then (sv, Inl (HTTP 500 ''enqueue failed'')) else (sv, Inr ()))"

section \<open>The logs\<close>

definition logViewerMaxLines :: int where "logViewerMaxLines = 2000"
definition logViewerMaxHours :: int where "logViewerMaxHours = 168"
definition logViewerDefHours :: int where "logViewerDefHours = 24"
definition logViewerDefLines :: int where "logViewerDefLines = 200"

record logEntry =
  le_TS :: string
  le_Unit :: string
  le_Level :: string
  le_Msg :: string

record journalRecord =
  jr_Unit :: string
  jr_Priority :: string
  jr_Realtime :: string
  jr_Message :: string

text \<open>
  The decoders of JSON: an object of the journal, a string, and an array of numbers, of which only the
  length is used.
\<close>

record journal_json =
  jj_record :: "string \<Rightarrow> journalRecord option"
  jj_string :: "string \<Rightarrow> string option"
  jj_array :: "string \<Rightarrow> nat option"

definition decodeMessage :: "journal_json \<Rightarrow> string \<Rightarrow> string option" where
  "decodeMessage jj raw0 =
     (let raw = trim_space raw0
      in if raw = [] then None
         else if hd raw = CHR 0x22 then jj_string jj raw
         else map_option (\<lambda>n. ''<<binary record, '' @ nat_str n @ '' bytes>>'') (jj_array jj raw))"

definition priorityToLevel :: "string \<Rightarrow> string" where
  "priorityToLevel p =
     (if p \<in> {''0'', ''1'', ''2'', ''3''} then ''error''
      else if p = ''4'' then ''warn''
      else if p \<in> {''5'', ''6''} then ''info'' else ''debug'')"

definition epochMicroToRFC3339 :: "(int \<Rightarrow> string) \<Rightarrow> string \<Rightarrow> string" where
  "epochMicroToRFC3339 format us = (case atoi us of None \<Rightarrow> us | Some n \<Rightarrow> format n)"

definition journal_line :: "journal_json \<Rightarrow> (int \<Rightarrow> string) \<Rightarrow> string \<Rightarrow> logEntry option" where
  "journal_line jj format raw =
     (let line = trim_space raw
      in if line = [] \<or> \<not> is_prefix ''{'' line then None
         else case jj_record jj line of
                None \<Rightarrow> None
              | Some rec \<Rightarrow>
                  (case decodeMessage jj (jr_Message rec) of
                     None \<Rightarrow> None
                   | Some msg \<Rightarrow>
                       if msg = [] then None
                       else Some \<lparr>le_TS = epochMicroToRFC3339 format (jr_Realtime rec), le_Unit = jr_Unit rec,
                                  le_Level = priorityToLevel (jr_Priority rec), le_Msg = msg\<rparr>))"

definition parseJournalJSON :: "journal_json \<Rightarrow> (int \<Rightarrow> string) \<Rightarrow> string \<Rightarrow> logEntry list" where
  "parseJournalJSON jj format out = List.map_filter (journal_line jj format) (split_on (CHR 0x0A) out)"

definition logViewerArgv :: "string list" where
  "logViewerArgv = [''--no-pager'', ''-o'', ''json'', ''--unit'', ''oj-api.service'', ''--unit'', ''oj-judge.service'',
     ''--lines'', int_str logViewerMaxLines]"

text \<open>How the reader ends: with its output, with an exit code, or without having run to its end.\<close>

datatype journal_end = Exited nat string | Failed

text \<open>\<open>runJournalctl\<close>: what the process with this argument list does is given by \<open>exec\<close>.\<close>

definition runJournalctl :: "(string list \<Rightarrow> journal_end) \<Rightarrow> journal_end" where
  "runJournalctl exec = exec logViewerArgv"

record log_query =
  lq_unit :: string
  lq_q :: string
  lq_hours :: string
  lq_lines :: string

record log_reply =
  lg_entries :: "logEntry list"
  lg_window :: "(int \<times> int) option"

definition unit_filter :: "string \<Rightarrow> logEntry \<Rightarrow> bool" where
  "unit_filter unitKey le \<longleftrightarrow>
     unitKey = ''all'' \<or> le_Unit le = (if unitKey = ''judge'' then ''oj-judge.service'' else ''oj-api.service'')"

definition text_filter :: "string \<Rightarrow> logEntry \<Rightarrow> bool" where
  "text_filter q le \<longleftrightarrow>
     (let q = lower (trim_space q)
      in q = [] \<or> str_contains (lower (le_Msg le)) q \<or> str_contains (lower (le_Unit le)) q)"

text \<open>An absent unit is \<open>all\<close>, an absent number its default.\<close>

definition adminLogs ::
  "journal_json \<Rightarrow> (int \<Rightarrow> string) \<Rightarrow> (string list \<Rightarrow> journal_end) \<Rightarrow> log_query \<Rightarrow> http_error + log_reply" where
  "adminLogs jj format exec lq =
     (if lq_unit lq \<notin> {''api'', ''judge'', ''all''} then Inl (HTTP 400 ''unit must be api / judge / all'')
      else
        let hours = clampInt (atoiDefault (lq_hours lq) logViewerDefHours) 1 logViewerMaxHours;
            lns = clampInt (atoiDefault (lq_lines lq) logViewerDefLines) 1 logViewerMaxLines
        in case runJournalctl exec of
             Failed \<Rightarrow> Inl (HTTP 500 ''journalctl failed'')
           | Exited code out \<Rightarrow>
               if code = 1 \<and> out = [] then Inr \<lparr>lg_entries = [], lg_window = None\<rparr>
               else if code \<noteq> 0 then Inl (HTTP 500 ''journalctl failed'')
               else
                 let found = filter (text_filter (lq_q lq)) (filter (unit_filter (lq_unit lq)) (parseJournalJSON jj format out))
                 in Inr \<lparr>lg_entries = drop (length found - nat lns) found, lg_window = Some (hours, lns)\<rparr>)"

section \<open>The peak of an hour\<close>

text \<open>Submissions with the judge at an instant of the hour.\<close>

definition running_at :: "time \<Rightarrow> time \<Rightarrow> span list \<Rightarrow> time \<Rightarrow> int" where
  "running_at bStart bEnd spans t =
     int (length (filter (\<lambda>sp. fst (clip bStart bEnd sp) \<le> t \<and> t < snd (clip bStart bEnd sp)) spans))"

text \<open>No instant of the hour is both a start and an end.\<close>

definition clean_hour :: "time \<Rightarrow> time \<Rightarrow> span list \<Rightarrow> bool" where
  "clean_hour bStart bEnd spans \<longleftrightarrow>
     set (map (fst \<circ> clip bStart bEnd) spans) \<inter> set (map (snd \<circ> clip bStart bEnd) spans) = {}"

fun levels :: "(time \<Rightarrow> bool) \<Rightarrow> int \<Rightarrow> time list \<Rightarrow> int list" where
  "levels start c [] = []"
| "levels start c (t # ts) = (if start t then (c + 1) # levels start (c + 1) ts else levels start (c - 1) ts)"

lemma sweep_levels: "sweep start c p ts = foldl max p (levels start c ts)"
proof -
  have m: "(if c > p then c else p) = max p c" for c p :: int by (simp add: max_def)
  show ?thesis
    by (induction start c p ts rule: sweep.induct) (simp_all only: sweep.simps levels.simps m if_split foldl.simps, simp_all)
qed

lemma foldl_max: "foldl max p xs = Max (insert p (set xs))" for p :: int
proof (induction xs arbitrary: p)
  case (Cons x xs)
  have "Max (insert (max p x) (set xs)) = Max (insert p (insert x (set xs)))"
    by (cases "set xs = {}") (simp_all add: Max_insert max.assoc)
  with Cons [of "max p x"] show ?case by (simp del: Max_insert)
qed simp

definition upto_t :: "(time \<Rightarrow> bool) \<Rightarrow> time \<Rightarrow> time list \<Rightarrow> int" where
  "upto_t P t ts = int (length (filter (\<lambda>x. P x \<and> x \<le> t) ts))"

lemma upto_mono: "t' \<le> t \<Longrightarrow> upto_t P t' ts \<le> upto_t P t ts"
  unfolding upto_t_def of_nat_le_iff by (induction ts) auto

lemma levels_bound:
  assumes "sorted ts" and "x \<in> set (levels start c ts)"
  shows "\<exists>t \<in> set ts. start t \<and> x \<le> c + upto_t start t ts - upto_t (\<lambda>x. \<not> start x) t ts"
  using assms
proof (induction ts arbitrary: c)
  case (Cons t0 ts)
  have later: "t0 \<le> t" if "t \<in> set ts" for t using Cons.prems(1) that by simp
  show ?case
  proof (cases "start t0")
    case True
    show ?thesis
    proof (cases "x = c + 1")
      case x: True
      have "filter (\<lambda>x. \<not> start x \<and> x \<le> t0) ts = []"
        using later True by (fastforce simp: filter_empty_conv)
      then have "upto_t (\<lambda>x. \<not> start x) t0 (t0 # ts) = 0" using True by (simp add: upto_t_def)
      moreover have "1 \<le> upto_t start t0 (t0 # ts)" using True by (simp add: upto_t_def)
      ultimately show ?thesis using True x by (intro bexI [of _ t0]) auto
    next
      case False
      then obtain t where t: "t \<in> set ts" "start t" "x \<le> c + 1 + upto_t start t ts - upto_t (\<lambda>x. \<not> start x) t ts"
        using Cons True by auto
      then have "x \<le> c + upto_t start t (t0 # ts) - upto_t (\<lambda>x. \<not> start x) t (t0 # ts)"
        using True later [OF t(1)] by (simp add: upto_t_def)
      with t show ?thesis by auto
    qed
  next
    case False
    then obtain t where t: "t \<in> set ts" "start t" "x \<le> c - 1 + upto_t start t ts - upto_t (\<lambda>x. \<not> start x) t ts"
      using Cons by auto
    then have "x \<le> c + upto_t start t (t0 # ts) - upto_t (\<lambda>x. \<not> start x) t (t0 # ts)"
      using False later [OF t(1)] by (simp add: upto_t_def)
    with t show ?thesis by auto
  qed
qed simp

lemma levels_reach:
  assumes "sorted ts" and "t \<in> set ts" and "start t"
  shows "c + upto_t start t ts - upto_t (\<lambda>x. \<not> start x) t ts \<in> set (levels start c ts)"
  using assms(1,2)
proof (induction ts arbitrary: c)
  case (Cons t0 ts)
  have le: "t0 \<le> t" using Cons.prems by auto
  show ?case
  proof (cases "t \<in> set ts")
    case True
    with Cons.IH [of "c + 1"] Cons.IH [of "c - 1"] Cons.prems(1) le show ?thesis
      by (auto simp: upto_t_def algebra_simps)
  next
    case False
    then have t0: "t = t0" using Cons.prems(2) by simp
    have "filter (\<lambda>x. start x \<and> x \<le> t0) ts = []" "filter (\<lambda>x. \<not> start x \<and> x \<le> t0) ts = []"
      using Cons.prems(1) False t0 by (force simp: filter_empty_conv)+
    then show ?thesis using assms(3) t0 by (simp add: upto_t_def)
  qed
qed simp

interpretation instants: keyed_less "(<) :: time \<Rightarrow> time \<Rightarrow> bool" "\<lambda>t. t"
  by unfold_locales auto

lemma sorted_instants: "sorted (sort_by (<) (ts :: time list))"
  using instants.sorted_sort_by [of ts] by (simp add: not_less)

lemma is_start_iff:
  "clean_hour bStart bEnd spans \<Longrightarrow> set sps \<subseteq> set spans \<Longrightarrow>
   t \<in> set (map (fst \<circ> clip bStart bEnd) spans) \<union> set (map (snd \<circ> clip bStart bEnd) sps) \<Longrightarrow>
   is_start bStart bEnd sps t \<longleftrightarrow> t \<in> set (map (fst \<circ> clip bStart bEnd) spans)"
proof (induction sps)
  case (Cons sp sps)
  obtain f u where fu: "clip bStart bEnd sp = (f, u)" by fastforce
  have sp: "sp \<in> set spans" using Cons.prems(2) by simp
  have f: "f \<in> set (map (fst \<circ> clip bStart bEnd) spans)" using sp fu by force
  have u: "u \<in> set (map (snd \<circ> clip bStart bEnd) spans)" using sp fu by force
  show ?case
  proof (cases "f = t \<or> u = t")
    case True
    with f u Cons.prems(1) fu show ?thesis by (auto simp: clean_hour_def)
  next
    case False
    with Cons fu show ?thesis by auto
  qed
qed simp

text \<open>Counting over the events is counting over the spans.\<close>

lemma events_split:
  "length (filter P (span_events bStart bEnd spans)) =
     length (filter (\<lambda>sp. fst (clip bStart bEnd sp) < snd (clip bStart bEnd sp) \<and> P (fst (clip bStart bEnd sp))) spans)
     + length (filter (\<lambda>sp. fst (clip bStart bEnd sp) < snd (clip bStart bEnd sp) \<and> P (snd (clip bStart bEnd sp))) spans)"
  by (induction spans) (auto simp: span_events_def split_beta)

lemma length_filter_diff:
  "(\<And>x. x \<in> set xs \<Longrightarrow> Q x \<Longrightarrow> P x) \<Longrightarrow>
   int (length (filter P xs)) - int (length (filter Q xs)) = int (length (filter (\<lambda>x. P x \<and> \<not> Q x) xs))"
  by (induction xs) auto

lemma level_is_running:
  assumes "clean_hour bStart bEnd spans"
  defines "start \<equiv> \<lambda>t. t \<in> set (map (fst \<circ> clip bStart bEnd) spans)"
  shows "upto_t start t (span_events bStart bEnd spans) - upto_t (\<lambda>x. \<not> start x) t (span_events bStart bEnd spans)
     = running_at bStart bEnd spans t"
proof -
  let ?f = "\<lambda>sp. fst (clip bStart bEnd sp)" and ?u = "\<lambda>sp. snd (clip bStart bEnd sp)"
  have S: "start (?f sp)" "\<not> start (?u sp)" if "sp \<in> set spans" for sp
    using assms(1) that by (auto simp: start_def clean_hour_def)
  have starts: "length (filter (\<lambda>x. start x \<and> x \<le> t) (span_events bStart bEnd spans))
      = length (filter (\<lambda>sp. ?f sp < ?u sp \<and> ?f sp \<le> t) spans)"
    unfolding events_split using S by (simp cong: filter_cong)
  have ends: "length (filter (\<lambda>x. \<not> start x \<and> x \<le> t) (span_events bStart bEnd spans))
      = length (filter (\<lambda>sp. ?f sp < ?u sp \<and> ?u sp \<le> t) spans)"
    unfolding events_split using S by (simp cong: filter_cong)
  have "int (length (filter (\<lambda>sp. ?f sp < ?u sp \<and> ?f sp \<le> t) spans))
      - int (length (filter (\<lambda>sp. ?f sp < ?u sp \<and> ?u sp \<le> t) spans))
      = int (length (filter (\<lambda>sp. (?f sp < ?u sp \<and> ?f sp \<le> t) \<and> \<not> (?f sp < ?u sp \<and> ?u sp \<le> t)) spans))"
    by (rule length_filter_diff) auto
  also have "\<dots> = running_at bStart bEnd spans t"
    unfolding running_at_def by (intro arg_cong [where f = "\<lambda>xs. int (length xs)"] filter_cong) auto
  finally show ?thesis by (simp add: upto_t_def starts ends)
qed

lemma event_in:
  "t \<in> set (span_events bStart bEnd spans) \<Longrightarrow>
   t \<in> set (map (fst \<circ> clip bStart bEnd) spans) \<union> set (map (snd \<circ> clip bStart bEnd) spans)"
  by (force simp: span_events_def split_beta split: if_splits)

lemma peak_levels:
  assumes "clean_hour bStart bEnd spans"
  defines "start \<equiv> \<lambda>t. t \<in> set (map (fst \<circ> clip bStart bEnd) spans)"
  shows "hour_peak bStart bEnd spans = Max (insert 0 (set (levels start 0 (sort_by (<) (span_events bStart bEnd spans)))))"
proof -
  have cong: "levels (is_start bStart bEnd spans) c ts = levels start c ts"
    if "set ts \<subseteq> set (span_events bStart bEnd spans)" for c ts
    using that
  proof (induction ts arbitrary: c)
    case (Cons t ts)
    then have "is_start bStart bEnd spans t = start t"
      using is_start_iff [OF assms(1) subset_refl event_in] by (simp add: start_def)
    with Cons show ?case by simp
  qed simp
  show ?thesis
    unfolding hour_peak_def sweep_levels foldl_max by (simp add: cong)
qed

text \<open>
  The levels of an hour: the number of running submissions after each start, in the order of the sweep.
\<close>

definition hour_levels :: "time \<Rightarrow> time \<Rightarrow> span list \<Rightarrow> int set" where
  "hour_levels bStart bEnd spans =
     set (levels (\<lambda>t. t \<in> set (map (fst \<circ> clip bStart bEnd) spans)) 0 (sort_by (<) (span_events bStart bEnd spans)))"

lemma upto_sorted: "upto_t P t (sort_by (<) ts) = upto_t P t ts"
proof -
  have "mset (filter (\<lambda>x. P x \<and> x \<le> t) (sort_by (<) ts)) = mset (filter (\<lambda>x. P x \<and> x \<le> t) ts)"
    by (simp only: mset_filter mset_sort_by)
  then show ?thesis by (metis upto_t_def size_mset)
qed

lemma level_is_running_sorted:
  assumes "clean_hour bStart bEnd spans"
  defines "start \<equiv> \<lambda>t. t \<in> set (map (fst \<circ> clip bStart bEnd) spans)"
    and "ts \<equiv> sort_by (<) (span_events bStart bEnd spans)"
  shows "0 + upto_t start t ts - upto_t (\<lambda>x. \<not> start x) t ts = running_at bStart bEnd spans t"
  using level_is_running [OF assms(1), of t] by (simp add: upto_sorted start_def ts_def)

lemma running_at_start:
  assumes "clean_hour bStart bEnd spans" and "t \<in> set (sort_by (<) (span_events bStart bEnd spans))"
    and "t \<in> set (map (fst \<circ> clip bStart bEnd) spans)"
  shows "running_at bStart bEnd spans t \<in> hour_levels bStart bEnd spans"
  using levels_reach [OF sorted_instants assms(2), of "\<lambda>t. t \<in> set (map (fst \<circ> clip bStart bEnd) spans)" 0] assms(3)
  unfolding level_is_running_sorted [OF assms(1)] hour_levels_def by blast

text \<open>Between two starts the number of running submissions does not grow.\<close>

lemma running_before:
  assumes "clean_hour bStart bEnd spans"
  shows "running_at bStart bEnd spans t \<le> 0
     \<or> (\<exists>t' \<le> t. running_at bStart bEnd spans t' \<in> hour_levels bStart bEnd spans
          \<and> running_at bStart bEnd spans t \<le> running_at bStart bEnd spans t')"
proof -
  define start where "start = (\<lambda>t. t \<in> set (map (fst \<circ> clip bStart bEnd) spans))"
  define ts where "ts = sort_by (<) (span_events bStart bEnd spans)"
  have level: "0 + upto_t start t ts - upto_t (\<lambda>x. \<not> start x) t ts = running_at bStart bEnd spans t" for t
    using level_is_running_sorted [OF assms, of t] by (simp only: start_def ts_def)
  show ?thesis
  proof (cases "filter (\<lambda>x. start x \<and> x \<le> t) ts = []")
    case True
    then show ?thesis using level [of t] by (simp add: upto_t_def)
  next
    case False
    define t' where "t' = Max (set (filter (\<lambda>x. start x \<and> x \<le> t) ts))"
    have t': "t' \<in> set (filter (\<lambda>x. start x \<and> x \<le> t) ts)"
      unfolding t'_def using False by (intro Max_in) (simp_all only: finite_set set_empty not_False_eq_True)
    have "filter (\<lambda>x. start x \<and> x \<le> t) ts = filter (\<lambda>x. start x \<and> x \<le> t') ts"
      using t' by (intro filter_cong) (auto simp: t'_def)
    moreover have "upto_t (\<lambda>x. \<not> start x) t' ts \<le> upto_t (\<lambda>x. \<not> start x) t ts"
      using t' by (simp add: upto_mono)
    ultimately have "running_at bStart bEnd spans t \<le> running_at bStart bEnd spans t'"
      using level [of t] level [of t'] by (simp add: upto_t_def)
    then show ?thesis using running_at_start [OF assms, of t'] t' by (auto simp: start_def ts_def)
  qed
qed

lemma level_reached:
  assumes "clean_hour bStart bEnd spans" and "m \<in> hour_levels bStart bEnd spans"
  shows "\<exists>t. m \<le> running_at bStart bEnd spans t"
  using levels_bound [OF sorted_instants assms(2) [unfolded hour_levels_def]]
  unfolding level_is_running_sorted [OF assms(1)] by blast

lemma running_le_peak:
  assumes "clean_hour bStart bEnd spans"
  shows "running_at bStart bEnd spans t \<le> Max (insert 0 (hour_levels bStart bEnd spans))"
proof -
  have fin: "finite (insert 0 (hour_levels bStart bEnd spans))" by (simp add: hour_levels_def)
  show ?thesis using running_before [OF assms, of t] Max_ge [OF fin] by (meson insertCI order_trans)
qed

lemma running_zero:
  "\<exists>t. running_at bStart bEnd spans t = 0"
proof
  let ?t = "Min (insert 0 (set (map (fst \<circ> clip bStart bEnd) spans))) - 1"
  have "?t < fst (clip bStart bEnd sp)" if "sp \<in> set spans" for sp
  proof -
    have "Min (insert 0 (set (map (fst \<circ> clip bStart bEnd) spans))) \<le> fst (clip bStart bEnd sp)"
      using that by (intro Min_le) auto
    then show ?thesis by simp
  qed
  then have "filter (\<lambda>sp. fst (clip bStart bEnd sp) \<le> ?t \<and> ?t < snd (clip bStart bEnd sp)) spans = []"
    by (force simp: filter_empty_conv)
  then show "running_at bStart bEnd spans ?t = 0" unfolding running_at_def by (simp only: list.size of_nat_0)
qed

text \<open>
  C19. When no instant of an hour is both the start and the end of a submission's time with the judge, the
  peak of the dashboard is the exact maximum of the submissions judged at the same time in that hour:
  at no instant were there more, and it is reached, or there was none.
\<close>

theorem peak_exact:
  assumes "clean_hour bStart bEnd spans"
  shows "(\<forall>t. running_at bStart bEnd spans t \<le> hour_peak bStart bEnd spans)
     \<and> (\<exists>t. running_at bStart bEnd spans t = hour_peak bStart bEnd spans)"
proof -
  have peak: "hour_peak bStart bEnd spans = Max (insert 0 (hour_levels bStart bEnd spans))"
    using peak_levels [OF assms] by (simp only: hour_levels_def)
  have "Max (insert 0 (hour_levels bStart bEnd spans)) \<in> insert 0 (hour_levels bStart bEnd spans)"
    by (intro Max_in) (simp_all add: hour_levels_def)
  then have "\<exists>t. running_at bStart bEnd spans t = Max (insert 0 (hour_levels bStart bEnd spans))"
    using running_zero level_reached [OF assms] running_le_peak [OF assms] by (metis insertE order_antisym)
  then show ?thesis using running_le_peak [OF assms] unfolding peak by blast
qed

theorem peak_exact_witness:
  "(\<forall>t. running_at 0 100 [(10, 40), (20, 50), (60, 70)] t \<le> 2)
   \<and> (\<exists>t. running_at 0 100 [(10, 40), (20, 50), (60, 70)] t = 2)"
proof -
  have "clean_hour 0 100 [(10, 40), (20, 50), (60, 70)]" by (simp add: clean_hour_def clip_def)
  moreover have "hour_peak 0 100 [(10, 40), (20, 50), (60, 70)] = 2"
    by (simp add: hour_peak_def span_events_def clip_def)
  ultimately show ?thesis using peak_exact by metis
qed

text \<open>
  A submission that comes in when another one ends: the look-up takes the end for a start, and the peak of
  two submissions that never run together is three.
\<close>

lemma peak_exceeds_submissions:
  "hour_peak 0 100 [(10, 20), (0, 10)] = 3" "hour_count 0 100 [(10, 20), (0, 10)] = 2"
  by (simp_all add: hour_peak_def span_events_def clip_def hour_count_def)

section \<open>The other pages\<close>

lemma count_days:
  "(case foldl (count_day day) Map.empty subs k of None \<Rightarrow> 0 | Some n \<Rightarrow> n)
     = length (filter (\<lambda>r. day (s_CreatedAt r) = k) subs)"
proof (induction subs rule: rev_induct)
  case (snoc r subs)
  then show ?case by (auto simp: count_day_def Let_def split: option.splits)
qed simp

text \<open>A calendar: days follow each other in time, and \<open>AddDate\<close> moves by days.\<close>

definition calendar :: "(time \<Rightarrow> int) \<Rightarrow> (time \<Rightarrow> int \<Rightarrow> time) \<Rightarrow> bool" where
  "calendar day add_days \<longleftrightarrow> mono day \<and> (\<forall>t k. day (add_days t k) = day t + k)"

text \<open>Each day of the trend has all the submissions of that day, and the series ends with today.\<close>

lemma trend_exact:
  assumes "calendar day add_days" and "i < length (statsTrend day add_days e q s)"
  shows "statsTrend day add_days e q s ! i =
     (let d = day (env_now e) - int (length (statsTrend day add_days e q s) - Suc i)
      in \<lparr>dn_Date = d, dn_Count = length (filter (\<lambda>r. day (s_CreatedAt r) = d) (rows (db_submissions s)))\<rparr>)"
proof -
  define days where "days = clampInt (atoiDefault q 14) 1 90"
  define n where "n = nat days"
  have days: "1 \<le> days" by (simp add: days_def clampInt_def)
  define subs where "subs = filter (\<lambda>r. add_days (env_now e) (- days) \<le> s_CreatedAt r) (rows (db_submissions s))"
  define counts where "counts = foldl (count_day day) Map.empty subs"
  have tr: "statsTrend day add_days e q s = map (\<lambda>i. \<lparr>dn_Date = day (env_now e) - int i,
      dn_Count = (case counts (day (env_now e) - int i) of None \<Rightarrow> 0 | Some k \<Rightarrow> k)\<rparr>) (rev [0..<n])"
    by (simp add: statsTrend_def Let_def days_def n_def counts_def subs_def tbl_select_def)
  have ln: "length (statsTrend day add_days e q s) = n" by (simp add: tr)
  have i: "i < n" using assms(2) ln by simp
  define d where "d = day (env_now e) - int (n - Suc i)"
  have "filter (\<lambda>r. day (s_CreatedAt r) = d) subs = filter (\<lambda>r. day (s_CreatedAt r) = d) (rows (db_submissions s))"
  proof -
    have "add_days (env_now e) (- days) \<le> t" if "day t = d" for t
    proof (rule ccontr)
      assume "\<not> ?thesis"
      then have "t \<le> add_days (env_now e) (- days)" by simp
      then have "day t \<le> day (add_days (env_now e) (- days))"
        using assms(1) unfolding calendar_def by (blast dest: monoD)
      also have "\<dots> = day (env_now e) - days" using assms(1) by (simp add: calendar_def)
      finally show False using that i days by (simp add: d_def n_def)
    qed
    then have "filter (\<lambda>r. day (s_CreatedAt r) = d) subs
        = filter (\<lambda>r. day (s_CreatedAt r) = d \<and> add_days (env_now e) (- days) \<le> s_CreatedAt r) (rows (db_submissions s))"
      by (simp add: subs_def conj_commute)
    also have "\<dots> = filter (\<lambda>r. day (s_CreatedAt r) = d) (rows (db_submissions s))"
      using \<open>\<And>t. day t = d \<Longrightarrow> add_days (env_now e) (- days) \<le> t\<close> by (intro filter_cong) auto
    finally show ?thesis .
  qed
  moreover have "rev [0..<n] ! i = n - Suc i" using i by (simp add: rev_nth)
  ultimately show ?thesis
    using i count_days [of day subs d] by (simp add: tr ln d_def counts_def Let_def)
qed

text \<open>
  The log viewer runs the reader with the same arguments whatever the request says, and shows at most
  2000 entries, all of the chosen unit and with the text looked for, the last ones of what was read.
\<close>

lemma logs_shown:
  assumes "adminLogs jj format exec lq = Inr rep"
  shows "length (lg_entries rep) \<le> 2000
     \<and> list_all (\<lambda>le. unit_filter (lq_unit lq) le \<and> text_filter (lq_q lq) le) (lg_entries rep)
     \<and> (\<exists>k. lg_entries rep = drop k (filter (\<lambda>le. unit_filter (lq_unit lq) le \<and> text_filter (lq_q lq) le)
              (case exec logViewerArgv of Exited _ out \<Rightarrow> parseJournalJSON jj format out | Failed \<Rightarrow> [])))"
proof -
  define lns where "lns = clampInt (atoiDefault (lq_lines lq) logViewerDefLines) 1 logViewerMaxLines"
  have lns: "nat lns \<le> 2000" by (auto simp: lns_def clampInt_def logViewerMaxLines_def)
  define keep where "keep = (\<lambda>le. unit_filter (lq_unit lq) le \<and> text_filter (lq_q lq) le)"
  obtain code out where run: "exec logViewerArgv = Exited code out"
    and cases: "lg_entries rep = [] \<or> lg_entries rep =
      drop (length (filter keep (parseJournalJSON jj format out)) - nat lns) (filter keep (parseJournalJSON jj format out))"
    using assms by (auto simp: adminLogs_def runJournalctl_def Let_def keep_def lns_def conj_commute
        split: journal_end.splits if_splits)
  then obtain k where k: "lg_entries rep = drop k (filter keep (parseJournalJSON jj format out))"
    by (metis drop_all order_refl)
  moreover have "length (lg_entries rep) \<le> 2000" using cases lns by auto
  moreover have "list_all keep (lg_entries rep)"
    unfolding k by (auto simp: list_all_iff dest: in_set_dropD)
  ultimately show ?thesis by (auto simp: run keep_def)
qed

text \<open>The window of hours is answered but filters nothing.\<close>

lemma window_ignored:
  "adminLogs jj format exec (lq\<lparr>lq_hours := a\<rparr>) = Inr r \<Longrightarrow>
   \<exists>r'. adminLogs jj format exec (lq\<lparr>lq_hours := b\<rparr>) = Inr r' \<and> lg_entries r' = lg_entries r"
  by (auto simp: adminLogs_def Let_def split: journal_end.splits if_splits)

text \<open>
  A rejudging whose push fails has already set the row to pending: no queue holds the submission.
\<close>

lemma rejudge_full_queue:
  assumes "submissionByID (srv_db sv) idstr = Some sub" and "mq_push (srv_queue sv) (s_ID sub) = (q, Some err)"
  shows "snd (rejudge idstr sv) = Inl (HTTP 500 ''enqueue failed'')
     \<and> srv_queue (fst (rejudge idstr sv)) = q
     \<and> list_all (\<lambda>r. s_ID r \<noteq> s_ID sub \<or> s_Status r = SubPending) (rows (db_submissions (srv_db (fst (rejudge idstr sv)))))"
  using assms by (auto simp: rejudge_def Let_def table_simps list_all_iff reset_verdict_def)

text \<open>The dashboard counts a judge with a stale heartbeat as online, the list of judges shows it offline.\<close>

lemma stale_counted_online:
  assumes "rows (db_daemons (srv_db sv)) = [d]" and "stale (env_now e) d"
  shows "ov_daemons_online (fst (statsOverview ds e load sv)) = 1"
    and "map jd_Status (fst (listDaemons e sv)) = [DaemonOffline]"
  using assms by (simp_all add: statsOverview_def listDaemons_def by_name_def tbl_count_def stale_def Let_def)

end
