(* ===== verification/Maintenance.thy ===== *)
theory Maintenance
  imports Accounts Go_Strings "HOL-Library.Word"
begin

unbundle bit_operations_syntax

text \<open>
  The configuration (\<open>config/config.go\<close>, the level of \<open>logx/logx.go\<close>) and the maintenance command line
  \<open>cmd/cli/main.go\<close>, which works on the database without the server.

  The process environment is a map from names to values, \<open>[]\<close> when a name is not set (\<open>os.Getenv\<close>).
\<close>

section \<open>Configuration\<close>

record Config =
  cg_Listen :: string
  cg_GRPCAddr :: string
  cg_Mode :: string
  cg_DataDir :: string
  cg_FetchBase :: string
  cg_LogLevel :: string
  cg_DBDriver :: string
  cg_DBDSN :: string
  cg_RedisAddr :: string
  cg_RedisPassword :: string
  cg_RedisDB :: int
  cg_JWTSecret :: string
  cg_JWTExpireHours :: int
  cg_DaemonSecret :: string
  cg_APIEndpoint :: string
  cg_DaemonName :: string
  cg_DaemonToken :: string
  cg_MaxParallel :: int
  cg_CGroupBase :: string
  cg_WorkRoot :: string
  cg_CompileTimeout :: int

definition defaultConfig :: Config where
  "defaultConfig = \<lparr>cg_Listen = '':8080'', cg_GRPCAddr = '':9090'', cg_Mode = ''dev'', cg_DataDir = ''./data'',
     cg_FetchBase = ''http://127.0.0.1:8080'', cg_LogLevel = ''info'', cg_DBDriver = ''sqlite'',
     cg_DBDSN = ''./data/oj.db'', cg_RedisAddr = [], cg_RedisPassword = [], cg_RedisDB = 0, cg_JWTSecret = [],
     cg_JWTExpireHours = 72, cg_DaemonSecret = [], cg_APIEndpoint = [], cg_DaemonName = [], cg_DaemonToken = [],
     cg_MaxParallel = 2, cg_CGroupBase = ''/sys/fs/cgroup/oj-judge'', cg_WorkRoot = ''/oj-work'',
     cg_CompileTimeout = 60\<rparr>"

definition validateConfigPath :: "string \<Rightarrow> string option" where
  "validateConfigPath p =
     (if \<not> ends_with p ''.yaml'' \<and> \<not> ends_with p ''.yml'' then Some ''only .yaml/.yml configs are accepted''
      else if ''..'' \<in> set (split_on (CHR ''/'') (path_clean p)) then Some ''path traversal segments are not allowed''
      else None)"

type_synonym vars = "string \<Rightarrow> string"

definition setStr :: "vars \<Rightarrow> string \<Rightarrow> string \<Rightarrow> string" where
  "setStr v key d = (if v key \<noteq> [] then v key else d)"

definition applyEnv :: "vars \<Rightarrow> Config \<Rightarrow> Config" where
  "applyEnv v c =
     (let c = c\<lparr>cg_Listen := setStr v ''OJ_LISTEN'' (cg_Listen c),
                cg_GRPCAddr := setStr v ''OJ_GRPC_ADDR'' (cg_GRPCAddr c),
                cg_Mode := setStr v ''OJ_MODE'' (cg_Mode c),
                cg_DataDir := setStr v ''OJ_DATA_DIR'' (cg_DataDir c),
                cg_FetchBase := setStr v ''OJ_FETCH_BASE'' (cg_FetchBase c),
                cg_LogLevel := setStr v ''OJ_LOG_LEVEL'' (cg_LogLevel c),
                cg_DBDriver := setStr v ''OJ_DB_DRIVER'' (cg_DBDriver c),
                cg_DBDSN := setStr v ''OJ_DB_DSN'' (cg_DBDSN c),
                cg_RedisAddr := setStr v ''OJ_REDIS_ADDR'' (cg_RedisAddr c),
                cg_JWTSecret := setStr v ''OJ_JWT_SECRET'' (cg_JWTSecret c),
                cg_DaemonSecret := setStr v ''OJ_DAEMON_SECRET'' (cg_DaemonSecret c),
                cg_APIEndpoint := setStr v ''OJ_API_ENDPOINT'' (cg_APIEndpoint c),
                cg_DaemonName := setStr v ''OJ_DAEMON_NAME'' (cg_DaemonName c),
                cg_DaemonToken := setStr v ''OJ_DAEMON_TOKEN'' (cg_DaemonToken c),
                cg_WorkRoot := setStr v ''OJ_WORK_ROOT'' (cg_WorkRoot c)\<rparr>;
          c = (case atoi (v ''OJ_JWT_EXPIRE_HOURS'') of None \<Rightarrow> c | Some n \<Rightarrow> c\<lparr>cg_JWTExpireHours := n\<rparr>)
      in case atoi (v ''OJ_MAX_PARALLEL'') of
           None \<Rightarrow> c | Some n \<Rightarrow> if n > 0 then c\<lparr>cg_MaxParallel := n\<rparr> else c)"

text \<open>
  \<open>read\<close> reads a file and \<open>yaml\<close> decodes it over a configuration; \<open>token\<close> is the random token of the
  development mode.
\<close>

definition Load ::
  "(string \<Rightarrow> string option) \<Rightarrow> (string \<Rightarrow> Config \<Rightarrow> Config option) \<Rightarrow> string \<Rightarrow> vars \<Rightarrow> string \<Rightarrow> string + Config" where
  "Load read yaml token v cfgPath =
     (case (if cfgPath = [] then Inr defaultConfig
            else case validateConfigPath cfgPath of
                   Some err \<Rightarrow> Inl err
                 | None \<Rightarrow>
                     (case read cfgPath of
                        None \<Rightarrow> Inl (''read config '' @ cfgPath)
                      | Some raw \<Rightarrow>
                          (case yaml raw defaultConfig of None \<Rightarrow> Inl ''parse config'' | Some c \<Rightarrow> Inr c))) of
        Inl err \<Rightarrow> Inl err
      | Inr c \<Rightarrow>
          let c = applyEnv v c
          in if cg_JWTSecret c = [] \<and> cg_Mode c \<noteq> ''dev'' then Inl ''jwt.secret is required (set OJ_JWT_SECRET)''
             else
               let c = (if cg_JWTSecret c = [] then c\<lparr>cg_JWTSecret := token\<rparr> else c)
               in Inr (c\<lparr>cg_LogLevel := lower (trim_space (cg_LogLevel c))\<rparr>))"

datatype log_level = LevelDebug | LevelInfo | LevelWarn | LevelError

definition ParseLevel :: "string \<Rightarrow> log_level" where
  "ParseLevel s =
     (let l = lower (trim_space s)
      in if l = ''debug'' then LevelDebug
         else if l = ''warn'' \<or> l = ''warning'' then LevelWarn
         else if l = ''error'' then LevelError
         else LevelInfo)"

section \<open>The command line\<close>

text \<open>A command that fails prints its text and exits (\<open>fatal\<close>); the changes made before stay.\<close>

type_synonym ('s, 'a) command = "'s \<times> (string + 'a)"

definition byte_of :: "char \<Rightarrow> 8 word" where
  "byte_of c = of_nat (of_char c)"

definition equalConstTime :: "string \<Rightarrow> string \<Rightarrow> bool" where
  "equalConstTime a b =
     (if length a \<noteq> length b then False
      else foldl (\<lambda>v (x, y). v OR (byte_of x XOR byte_of y)) 0 (zip a b) = 0)"

definition confirmed :: "vars \<Rightarrow> string \<Rightarrow> bool" where
  "confirmed v presented =
     (let want = v ''OJ_CLI_TOKEN''
      in if want = [] then False
         else if \<not> equalConstTime presented want \<or> presented = [] then False else True)"

text \<open>One line of the file with the environment; a variable that is set keeps its value.\<close>

definition env_line :: "vars \<Rightarrow> string \<Rightarrow> vars" where
  "env_line v raw =
     (let line = trim_space raw
      in if line = [] \<or> is_prefix ''#'' line then v
         else case cut_at (CHR ''='') line of
                None \<Rightarrow> v
              | Some (k0, x0) \<Rightarrow>
                  let k = trim_space k0; x = trim_space x0
                  in if k = [] \<or> v k \<noteq> [] then v else v(k := x))"

definition loadEnvFileIfPresent :: "string list option \<Rightarrow> vars \<Rightarrow> vars" where
  "loadEnvFileIfPresent file v = (case file of None \<Rightarrow> v | Some ls \<Rightarrow> foldl env_line v ls)"

definition ensureNonEmpty :: "string \<Rightarrow> string \<Rightarrow> string option" where
  "ensureNonEmpty name x = (if trim_space x = [] then Some (name @ '' must not be empty'') else None)"

definition findUser :: "string \<Rightarrow> db \<Rightarrow> User option" where
  "findUser username s = tbl_first (\<lambda>u. u_Username u = username) (db_users s)"

text \<open>The checks that the commands with a password start with.\<close>

definition password_checks :: "(string \<Rightarrow> string + string) \<Rightarrow> string \<Rightarrow> string \<Rightarrow> string + string" where
  "password_checks hash username password =
     (case (ensureNonEmpty ''username'' username, ensureNonEmpty ''password'' password) of
        (Some err, _) \<Rightarrow> Inl err
      | (None, Some err) \<Rightarrow> Inl err
      | (None, None) \<Rightarrow> if length password < 8 then Inl ''at least 8 characters'' else hash password)"

text \<open>
  The succession comes first, statement 0.  GORM's \<open>Save\<close> of a row whose key is 0 inserts it, which the
  unique index on the name refuses.
\<close>

definition demote_others :: "string \<Rightarrow> db \<Rightarrow> db" where
  "demote_others username s = s\<lparr>db_users :=
     tbl_update (\<lambda>u. u_Role u = RoleSuperAdmin \<and> u_Username u \<noteq> username) (\<lambda>u. u\<lparr>u_Role := RoleAdmin\<rparr>) (db_users s)\<rparr>"

definition createSuperadmin ::
  "(string \<Rightarrow> string + string) \<Rightarrow> env \<Rightarrow> string \<Rightarrow> string \<Rightarrow> db \<Rightarrow> (db, unit) command" where
  "createSuperadmin hash e username password s =
     (case password_checks hash username password of
        Inl err \<Rightarrow> (s, Inl err)
      | Inr h \<Rightarrow>
          if \<not> env_dbok e 0 then (s, Inl ''demotion failed'')
          else
            let s = demote_others username s
            in case findUser username s of
                 None \<Rightarrow>
                   if \<not> env_dbok e 1 then (s, Inl ''creation failed'')
                   else (s\<lparr>db_users := snd (tbl_create (\<lambda>i. \<lparr>u_ID = i, u_Username = username, u_PasswordHash = h,
                           u_Nickname = ''Admin'', u_Role = RoleSuperAdmin, u_StudentNo = [], u_Banned = False,
                           u_CreatedAt = env_now e, u_LastLoginAt = None\<rparr>) (db_users s))\<rparr>, Inr ())
               | Some u \<Rightarrow>
                   if u_ID u = 0 \<or> \<not> env_dbok e 1 then (s, Inl ''update failed'')
                   else (patch_user (u_ID u) (\<lambda>u. u\<lparr>u_Role := RoleSuperAdmin, u_PasswordHash := h, u_Banned := False\<rparr>) s,
                         Inr ()))"

text \<open>GORM refuses an update without a condition, which is what a model with the key 0 gives.\<close>

definition resetPassword ::
  "(string \<Rightarrow> string + string) \<Rightarrow> env \<Rightarrow> string \<Rightarrow> string \<Rightarrow> db \<Rightarrow> (db, unit) command" where
  "resetPassword hash e username password s =
     (case password_checks hash username password of
        Inl err \<Rightarrow> (s, Inl err)
      | Inr h \<Rightarrow>
          (case findUser username s of
             None \<Rightarrow> (s, Inl ''user does not exist'')
           | Some u \<Rightarrow>
               if u_ID u = 0 \<or> \<not> env_dbok e 0 then (s, Inl ''reset failed'')
               else (patch_user (u_ID u) (\<lambda>u. u\<lparr>u_PasswordHash := h, u_Banned := False\<rparr>) s, Inr ())))"

definition setRole :: "env \<Rightarrow> string \<Rightarrow> string \<Rightarrow> db \<Rightarrow> (db, unit) command" where
  "setRole e username role s =
     (case ensureNonEmpty ''username'' username of
        Some err \<Rightarrow> (s, Inl err)
      | None \<Rightarrow>
          if role \<notin> {RoleUser, RoleSetter, RoleAdmin, RoleSuperAdmin} then (s, Inl ''invalid role'')
          else case findUser username s of
                 None \<Rightarrow> (s, Inl ''user does not exist'')
               | Some u \<Rightarrow>
                   if u_ID u = 0 \<or> \<not> env_dbok e 0 then (s, Inl ''update failed'')
                   else (patch_user (u_ID u) (\<lambda>u. u\<lparr>u_Role := role\<rparr>) s, Inr ()))"

definition cli_listUsers :: "(string \<Rightarrow> string \<Rightarrow> bool) \<Rightarrow> string \<Rightarrow> db \<Rightarrow> User list" where
  "cli_listUsers like keyword s =
     sort_by (\<lambda>a b. u_ID a < u_ID b)
       (if trim_space keyword = [] then rows (db_users s)
        else tbl_select (\<lambda>u. like (u_Username u) (''%'' @ keyword @ ''%'')) (db_users s))"

definition inviteAlphabet :: string where
  "inviteAlphabet = ''abcdefghijklmnopqrstuvwxyz0123456789''"

definition randCode :: "8 word list \<Rightarrow> string" where
  "randCode buf = map (\<lambda>b. inviteAlphabet ! (unat b mod length inviteAlphabet)) buf"

definition mintInvite :: "env \<Rightarrow> 8 word list \<Rightarrow> int \<Rightarrow> int \<Rightarrow> db \<Rightarrow> (db, InvitationCode) command" where
  "mintInvite e buf maxUses hours s =
     (let maxUses = (if maxUses \<le> 0 then 10 else maxUses);
          hours = (if hours \<le> 0 then 168 else hours);
          code = randCode (take 8 buf);
          expires = env_now e + wrap_int (hours * (60 * minute))
      in if tbl_count (\<lambda>c. ic_Code c = code) (db_codes s) > 0 \<or> \<not> env_dbok e 0 then (s, Inl ''no code was created'')
         else
           let (row, t) = tbl_create (\<lambda>i. \<lparr>ic_ID = i, ic_Code = code, ic_MaxUses = maxUses, ic_UsedCount = 0,
                 ic_ExpiresAt = Some expires, ic_CreatedBy = 0, ic_CreatedAt = env_now e\<rparr>) (db_codes s)
           in (s\<lparr>db_codes := t\<rparr>, Inr row))"

text \<open>The diagnosis: the database, the queue's server when one is configured, the judges that are online.\<close>

record diagnosis =
  di_users :: "nat option"
  di_redis :: "bool option"
  di_daemons :: "(string \<times> int \<times> int \<times> time option) list"

definition doctor :: "env \<Rightarrow> bool \<Rightarrow> Config \<Rightarrow> db \<Rightarrow> diagnosis" where
  "doctor e ping c s = \<lparr>
     di_users = (if env_dbok e 0 then Some (tbl_count (\<lambda>_. True) (db_users s)) else None),
     di_redis = (if cg_RedisAddr c \<noteq> [] then Some ping else None),
     di_daemons = map (\<lambda>d. (jd_Name d, jd_Capacity d, jd_ActiveTasks d, jd_LastHeartbeat d))
       (tbl_select (\<lambda>d. jd_Status d = DaemonOnline) (db_daemons s))\<rparr>"

record cli_args =
  ca_cmd :: string
  ca_username :: string
  ca_password :: string
  ca_role :: string
  ca_q :: string
  ca_token :: string
  ca_maxUses :: int
  ca_hours :: int

datatype cli_output = Done | Users "User list" | Invited InvitationCode | Diagnosed diagnosis

text \<open>
  The main function, with a command on the line (without one it prints its usage): the token is checked first, against the environment the process was started with;
  the file is read when the database is opened (\<open>mustDB\<close>), which fails without a configuration.
\<close>

definition mustDB ::
  "(string \<Rightarrow> string option) \<Rightarrow> (string \<Rightarrow> Config \<Rightarrow> Config option) \<Rightarrow> string \<Rightarrow> (Config \<Rightarrow> bool) \<Rightarrow>
     string list option \<Rightarrow> vars \<Rightarrow> string + Config" where
  "mustDB read yaml token connects file v =
     (let v = loadEnvFileIfPresent file v
      in case Load read yaml token v (v ''OJ_CONFIG'') of
           Inl err \<Rightarrow> Inl err
         | Inr c \<Rightarrow> if connects c then Inr c else Inl ''cannot connect to the database'')"

definition cli_main ::
  "(string \<Rightarrow> string + string) \<Rightarrow> (string \<Rightarrow> string \<Rightarrow> bool) \<Rightarrow> env \<Rightarrow> 8 word list \<Rightarrow> bool \<Rightarrow>
     (vars \<Rightarrow> string + Config) \<Rightarrow> vars \<Rightarrow> cli_args \<Rightarrow> db \<Rightarrow> (db, cli_output) command" where
  "cli_main hash like e buf ping open_db v a s =
     (let cmd = ca_cmd a;
          ret = (\<lambda>(s, r). (s, map_sum (\<lambda>x. x) (\<lambda>_. Done) r))
      in if cmd \<noteq> ''users'' \<and> cmd \<noteq> ''doctor'' \<and> \<not> confirmed v (ca_token a) then (s, Inl ''not confirmed'')
         else case open_db v of
                Inl err \<Rightarrow> (s, Inl err)
              | Inr c \<Rightarrow>
                  if cmd = ''create-superadmin'' then ret (createSuperadmin hash e (ca_username a) (ca_password a) s)
                  else if cmd = ''reset-password'' then ret (resetPassword hash e (ca_username a) (ca_password a) s)
                  else if cmd = ''set-role'' then ret (setRole e (ca_username a) (ca_role a) s)
                  else if cmd = ''users'' then (s, Inr (Users (cli_listUsers like (ca_q a) s)))
                  else if cmd = ''invite'' then
                    (case mintInvite e buf (ca_maxUses a) (ca_hours a) s of
                       (s, Inl err) \<Rightarrow> (s, Inl err) | (s, Inr row) \<Rightarrow> (s, Inr (Invited row)))
                  else if cmd = ''doctor'' then (s, Inr (Diagnosed (doctor e ping c s)))
                  else (s, Inl ''usage''))"

section \<open>Properties\<close>

lemma byte_of_inject: "byte_of c = byte_of d \<longleftrightarrow> c = d"
proof
  assume "byte_of c = byte_of d"
  then have "unat (byte_of c) = unat (byte_of d)" by simp
  moreover have "unat (byte_of x) = of_char x" for x
  proof -
    have "(of_char x :: nat) < 2 ^ LENGTH(8)" by (simp add: nat_of_char_less_256)
    then show ?thesis unfolding byte_of_def by (simp add: unsigned_of_nat take_bit_nat_eq_self)
  qed
  ultimately show "c = d" by simp
qed simp

lemma or_zero: "(v :: 8 word) OR w = 0 \<longleftrightarrow> v = 0 \<and> w = 0"
  by (auto simp: bit_eq_iff bit_simps)

lemma xor_zero: "(v :: 8 word) XOR w = 0 \<longleftrightarrow> v = w"
  by (auto simp: bit_eq_iff bit_simps)

text \<open>The comparison that does not stop early is equality.\<close>

lemma equalConstTime_iff: "equalConstTime a b \<longleftrightarrow> a = b"
proof -
  have diff: "foldl (\<lambda>v (x, y). v OR (byte_of x XOR byte_of y)) v zs = 0 \<longleftrightarrow> v = 0 \<and> list_all (\<lambda>(x, y). x = y) zs" for v zs
  proof (induction zs arbitrary: v)
    case (Cons z zs)
    show ?case by (cases z) (simp only: foldl.simps prod.case Cons or_zero xor_zero byte_of_inject list.pred_inject conj_assoc)
  qed simp
  have same: "list_all (\<lambda>(x, y). x = y) (zip a b) \<longleftrightarrow> a = b" if "length a = length b"
    using that by (induction a b rule: list_induct2) auto
  show ?thesis
  proof (cases "length a = length b")
    case True
    then show ?thesis by (simp only: equalConstTime_def diff same if_False simp_thms)
  qed (auto simp: equalConstTime_def)
qed

lemma mutation_needs_token:
  assumes "snd (cli_main hash like e buf ping open_db v a s) = Inr out" and "ca_cmd a \<noteq> ''users''" and "ca_cmd a \<noteq> ''doctor''"
  shows "v ''OJ_CLI_TOKEN'' \<noteq> [] \<and> ca_token a = v ''OJ_CLI_TOKEN''"
proof -
  have "confirmed v (ca_token a)"
  proof (rule ccontr)
    assume nc: "\<not> ?thesis"
    have "cli_main hash like e buf ping open_db v a s = (s, Inl ''not confirmed'')"
      unfolding cli_main_def Let_def by (rule if_P) (use assms(2,3) nc in blast)
    with assms(1) show False by (metis Inl_Inr_False snd_conv)
  qed
  then show ?thesis by (auto simp: confirmed_def equalConstTime_iff Let_def split: if_splits)
qed

text \<open>A configuration that loads has a secret, and a level in lower case.\<close>

lemma Load_sound:
  assumes "Load read yaml token v path = Inr c" and "token \<noteq> []"
  shows "cg_JWTSecret c \<noteq> [] \<and> (v ''OJ_JWT_SECRET'' \<noteq> [] \<longrightarrow> cg_JWTSecret c = v ''OJ_JWT_SECRET'')"
proof -
  have secret: "cg_JWTSecret (applyEnv v c0) = setStr v ''OJ_JWT_SECRET'' (cg_JWTSecret c0)" for c0
    by (simp add: applyEnv_def Let_def split: option.split)
  show ?thesis using assms
    by (auto simp: Load_def Let_def secret setStr_def split: sum.splits if_splits)
qed

lemma other_directories_pass: "validateConfigPath ''/etc/shadow.yaml'' = None" "validateConfigPath ''conf/../oj.yml'' = None"
  by code_simp+

text \<open>
  The token is compared before the file with the environment is read: with an empty process environment
  every command that changes something is refused, whatever token is given and whatever the file holds.
\<close>

lemma token_read_before_file:
  assumes "ca_cmd a \<noteq> ''users''" and "ca_cmd a \<noteq> ''doctor''"
  shows "cli_main hash like e buf ping (mustDB read yaml token connects (Some ls)) (\<lambda>_. []) a s = (s, Inl ''not confirmed'')"
  using assms by (simp add: cli_main_def Let_def confirmed_def)

section \<open>Super administrators\<close>

lemma findUser_SomeD: "findUser name s = Some u \<Longrightarrow> u \<in> set (rows (db_users s)) \<and> u_Username u = name"
  by (auto simp: findUser_def dest: tbl_first_SomeD)

lemma findUser_None: "findUser name s = None \<longleftrightarrow> name \<notin> u_Username ` set (rows (db_users s))"
  by (auto simp: findUser_def tbl_first_None)

lemma users_ok_demote: "users_ok (db_users s) \<Longrightarrow> users_ok (db_users (demote_others name s))"
  by (simp add: demote_others_def users_ok_update)

lemma demoted:
  "u \<in> set (rows (db_users (demote_others name s))) \<Longrightarrow> u_Role u = RoleSuperAdmin \<Longrightarrow> u_Username u = name"
  by (auto simp: demote_others_def table_simps split: if_splits)

text \<open>Exactly one super administrator, by name.\<close>

lemma same_name:
  "users_ok t \<Longrightarrow> u \<in> set (rows t) \<Longrightarrow> v \<in> set (rows t) \<Longrightarrow> u_Username u = u_Username v \<Longrightarrow> u = v"
  by (auto simp: users_ok_def distinct_map inj_on_def)

lemma one_by_name:
  assumes "users_ok (db_users s)" and "u \<in> set (rows (db_users s))" and "u_Role u = RoleSuperAdmin"
    and "\<And>x. x \<in> set (rows (db_users s)) \<Longrightarrow> u_Role x = RoleSuperAdmin \<Longrightarrow> u_Username x = u_Username u"
  shows "super_count s = 1"
proof -
  let ?sup = "filter (\<lambda>u. u_Role u = RoleSuperAdmin) (rows (db_users s))"
  have "x = u" if "x \<in> set ?sup" for x
  proof -
    have "x \<in> set (rows (db_users s))" "u_Role x = RoleSuperAdmin" using that by simp_all
    from same_name [OF assms(1) this(1) assms(2) assms(4) [OF this]] show "x = u" .
  qed
  then have "set ?sup \<subseteq> {u}" by blast
  moreover have "u \<in> set ?sup" using assms(2,3) by simp
  ultimately have "set ?sup = {u}" by blast
  moreover have "distinct ?sup" using assms(1) by (simp add: users_ok_def distinct_map)
  ultimately have "length ?sup = card {u}" by (metis distinct_card)
  then have "length ?sup = 1" by simp
  then show ?thesis by (simp add: super_count_def tbl_count_def)
qed

lemma createSuperadmin_users_ok:
  assumes "users_ok (db_users s)"
  shows "users_ok (db_users (fst (createSuperadmin hash e name password s)))"
proof -
  define d where "d = demote_others name s"
  have d: "users_ok (db_users d)" using assms by (simp add: d_def users_ok_demote)
  have "users_ok (snd (tbl_create (\<lambda>i. \<lparr>u_ID = i, u_Username = name, u_PasswordHash = h, u_Nickname = ''Admin'',
      u_Role = RoleSuperAdmin, u_StudentNo = [], u_Banned = False, u_CreatedAt = env_now e, u_LastLoginAt = None\<rparr>) (db_users d)))"
    if "findUser name d = None" for h
    using d that by (force simp: users_ok_def findUser_None table_simps list_all_iff)
  note created = this
  have patched: "users_ok (db_users (patch_user i (\<lambda>u. u\<lparr>u_Role := RoleSuperAdmin, u_PasswordHash := h, u_Banned := False\<rparr>) d))" for i h
    using d by (simp add: patch_user_def users_ok_update)
  show ?thesis
  proof (cases "password_checks hash name password")
    case (Inl err)
    then show ?thesis using assms by (simp add: createSuperadmin_def)
  next
    case (Inr h)
    then have run: "createSuperadmin hash e name password s =
        (if \<not> env_dbok e 0 then (s, Inl ''demotion failed'')
         else case findUser name d of
           None \<Rightarrow> if \<not> env_dbok e 1 then (d, Inl ''creation failed'')
             else (d\<lparr>db_users := snd (tbl_create (\<lambda>i. \<lparr>u_ID = i, u_Username = name, u_PasswordHash = h,
                u_Nickname = ''Admin'', u_Role = RoleSuperAdmin, u_StudentNo = [], u_Banned = False,
                u_CreatedAt = env_now e, u_LastLoginAt = None\<rparr>) (db_users d))\<rparr>, Inr ())
         | Some u \<Rightarrow> if u_ID u = 0 \<or> \<not> env_dbok e 1 then (d, Inl ''update failed'')
             else (patch_user (u_ID u) (\<lambda>u. u\<lparr>u_Role := RoleSuperAdmin, u_PasswordHash := h, u_Banned := False\<rparr>) d, Inr ()))"
      by (simp only: createSuperadmin_def sum.case Let_def d_def)
    show ?thesis
    proof (cases "findUser name d")
      case None
      then show ?thesis using assms d created [OF None, of h] by (simp add: run)
    next
      case (Some u)
      then show ?thesis using assms d patched [of "u_ID u" h] by (simp add: run)
    qed
  qed
qed

text \<open>The named user is super administrator with the new password, and no other name is.\<close>

definition only_super :: "string \<Rightarrow> string \<Rightarrow> db \<Rightarrow> bool" where
  "only_super name h s \<longleftrightarrow>
     (\<exists>u \<in> set (rows (db_users s)). u_Username u = name \<and> u_Role u = RoleSuperAdmin \<and> \<not> u_Banned u
        \<and> u_PasswordHash u = h)
     \<and> (\<forall>x \<in> set (rows (db_users s)). u_Role x = RoleSuperAdmin \<longrightarrow> u_Username x = name)"

lemma only_super_promoted:
  assumes "users_ok (db_users d)" and "findUser name d = Some u"
    and "\<And>x. x \<in> set (rows (db_users d)) \<Longrightarrow> u_Role x = RoleSuperAdmin \<Longrightarrow> u_Username x = name"
  shows "only_super name h (patch_user (u_ID u) (\<lambda>u. u\<lparr>u_Role := RoleSuperAdmin, u_PasswordHash := h, u_Banned := False\<rparr>) d)"
proof -
  let ?f = "\<lambda>u. u\<lparr>u_Role := RoleSuperAdmin, u_PasswordHash := h, u_Banned := False\<rparr>"
  have u: "u \<in> set (rows (db_users d))" "u_Username u = name" using findUser_SomeD [OF assms(2)] by auto
  have rows': "rows (db_users (patch_user (u_ID u) ?f d)) = map (\<lambda>x. if u_ID x = u_ID u then ?f x else x) (rows (db_users d))"
    by (simp add: patch_user_def table_simps)
  have name: "u_Username (if u_ID y = u_ID u then ?f y else y) = name"
    if "y \<in> set (rows (db_users d))" and "u_Role (if u_ID y = u_ID u then ?f y else y) = RoleSuperAdmin" for y
  proof (cases "u_ID y = u_ID u")
    case True
    then have "y = u" using same_id [OF assms(1)] that(1) u(1) by simp
    then show ?thesis using u(2) by simp
  next
    case False
    then show ?thesis using that assms(3) [of y] by simp
  qed
  have "?f u \<in> set (rows (db_users (patch_user (u_ID u) ?f d)))" using u(1) by (auto simp: rows')
  moreover have "u_Username (?f u) = name \<and> u_Role (?f u) = RoleSuperAdmin \<and> \<not> u_Banned (?f u) \<and> u_PasswordHash (?f u) = h"
    using u(2) by simp
  moreover have "u_Username x = name"
    if x_in: "x \<in> set (rows (db_users (patch_user (u_ID u) ?f d)))" and super: "u_Role x = RoleSuperAdmin" for x
  proof -
    obtain y where "y \<in> set (rows (db_users d))" and x: "x = (if u_ID y = u_ID u then ?f y else y)"
      using x_in unfolding rows' set_map by blast
    then show ?thesis using name [of y] super unfolding x by blast
  qed
  ultimately show ?thesis unfolding only_super_def by blast
qed

lemma createSuperadmin_only:
  assumes "users_ok (db_users s)" and "createSuperadmin hash e name password s = (s', Inr ())"
  shows "\<exists>h. hash password = Inr h \<and> only_super name h s'"
proof -
  define d where "d = demote_others name s"
  have sole: "u_Username x = name" if "x \<in> set (rows (db_users d))" "u_Role x = RoleSuperAdmin" for x
    using that demoted by (auto simp: d_def)
  obtain h where h: "hash password = Inr h" "password_checks hash name password = Inr h"
    using assms(2) by (auto simp: createSuperadmin_def password_checks_def split: sum.splits option.splits if_splits)
  have "only_super name h s'"
  proof (cases "findUser name d")
    case None
    define row where "row = \<lparr>u_ID = Suc (seq (db_users d)), u_Username = name, u_PasswordHash = h, u_Nickname = ''Admin'',
      u_Role = RoleSuperAdmin, u_StudentNo = [], u_Banned = False, u_CreatedAt = env_now e, u_LastLoginAt = None\<rparr>"
    have "rows (db_users s') = rows (db_users d) @ [row]"
      using assms(2) None by (auto simp: createSuperadmin_def h(2) d_def [symmetric] Let_def table_simps row_def split: if_splits)
    then show ?thesis using sole by (auto simp: only_super_def row_def)
  next
    case (Some u)
    then have s': "s' = patch_user (u_ID u) (\<lambda>u. u\<lparr>u_Role := RoleSuperAdmin, u_PasswordHash := h, u_Banned := False\<rparr>) d"
      using assms(2) by (auto simp: createSuperadmin_def h(2) d_def [symmetric] Let_def split: if_splits)
    have "users_ok (db_users d)" using users_ok_demote [OF assms(1)] by (simp add: d_def)
    from only_super_promoted [OF this Some sole] show ?thesis unfolding s' .
  qed
  with h(1) show ?thesis by blast
qed

text \<open>
  C36. The recovery command that succeeds leaves exactly one super administrator, the named user, with the
  new password and not banned, whoever held the post before and whether or not the user existed; names
  and ids stay unique.
\<close>

theorem createSuperadmin_sole:
  assumes "users_ok (db_users s)" and "createSuperadmin hash e name password s = (s', Inr ())"
  shows "users_ok (db_users s') \<and> super_count s' = 1
     \<and> list_ex (\<lambda>u. u_Username u = name \<and> u_Role u = RoleSuperAdmin \<and> \<not> u_Banned u
          \<and> hash password = Inr (u_PasswordHash u)) (rows (db_users s'))"
proof -
  have ok: "users_ok (db_users s')" using createSuperadmin_users_ok [OF assms(1), of hash e name password] assms(2) by simp
  obtain h where h: "hash password = Inr h" "only_super name h s'" using createSuperadmin_only [OF assms] by blast
  then obtain u where u: "u \<in> set (rows (db_users s'))" "u_Username u = name" "u_Role u = RoleSuperAdmin"
    "\<not> u_Banned u" "u_PasswordHash u = h" "\<And>x. x \<in> set (rows (db_users s')) \<Longrightarrow> u_Role x = RoleSuperAdmin \<Longrightarrow> u_Username x = name"
    unfolding only_super_def by blast
  have "super_count s' = 1" by (rule one_by_name [OF ok u(1,3)]) (simp add: u(2,6))
  with ok u h show ?thesis by (auto simp: list_ex_iff)
qed

theorem createSuperadmin_sole_witness:
  "users_ok (db_users rooted_db)
   \<and> snd (createSuperadmin root_hash (sample_env 0) ''carol'' ''carol-password'' rooted_db) = Inr ()
   \<and> super_count (fst (createSuperadmin root_hash (sample_env 0) ''carol'' ''carol-password'' rooted_db)) = 1"
proof -
  have ok: "users_ok (db_users rooted_db)" using rooted_ok by (simp add: accounts_ok_def)
  have checks: "password_checks root_hash ''carol'' ''carol-password'' = Inr ''#carol-password''"
    by (simp add: password_checks_def ensureNonEmpty_def trim_space_def root_hash_def)
  have nobody: "findUser ''carol'' (demote_others ''carol'' rooted_db) = None"
    by (simp add: findUser_None demote_others_def table_simps rooted_db_def bootstrapAdmin_def empty_db_def
        empty_table_def root_hash_def sample_env_def)
  obtain s' where run: "createSuperadmin root_hash (sample_env 0) ''carol'' ''carol-password'' rooted_db = (s', Inr ())"
    unfolding createSuperadmin_def checks Let_def sum.case nobody option.case by (simp add: sample_env_def)
  show ?thesis using createSuperadmin_sole [OF ok run] run ok by simp
qed

text \<open>
  The first administrator has the key 0: the commands that are meant for a lock-out cannot change this
  account.  When another user holds the post, the attempt to give it back demotes that user and then
  fails, so nobody is super administrator any more.
\<close>

lemma root_not_resettable:
  "snd (resetPassword root_hash (sample_env 0) ''root'' ''new-password'' rooted_db) = Inl ''reset failed''"
  by (simp add: resetPassword_def password_checks_def ensureNonEmpty_def trim_space_def root_hash_def findUser_def
      tbl_first_def rooted_db_def bootstrapAdmin_def empty_db_def empty_table_def sample_env_def)

lemma failed_recovery_leaves_none:
  assumes "findUser ''root'' (demote_others ''root'' s) = Some root" and "u_ID root = 0" and "u_Role root \<noteq> RoleSuperAdmin"
    and "users_ok (db_users s)" and "hash ''new-password'' = Inr h" and "env_dbok e 0"
  shows "snd (createSuperadmin hash e ''root'' ''new-password'' s) = Inl ''update failed''
     \<and> super_count (fst (createSuperadmin hash e ''root'' ''new-password'' s)) = 0"
proof -
  have checks: "password_checks hash ''root'' ''new-password'' = Inr h"
    using assms(5) by (simp add: password_checks_def ensureNonEmpty_def trim_space_def)
  have run: "createSuperadmin hash e ''root'' ''new-password'' s = (demote_others ''root'' s, Inl ''update failed'')"
    unfolding createSuperadmin_def checks Let_def sum.case assms(1) option.case using assms(2,6) by simp
  have "u_Role u \<noteq> RoleSuperAdmin" if u: "u \<in> set (rows (db_users (demote_others ''root'' s)))" for u
  proof
    assume role: "u_Role u = RoleSuperAdmin"
    have "u_Username u = u_Username root" using demoted [OF u role] findUser_SomeD [OF assms(1)] by simp
    then have "u = root"
      using same_name [OF users_ok_demote [OF assms(4)] u] findUser_SomeD [OF assms(1)] by simp
    with role assms(3) show False by simp
  qed
  then show ?thesis by (simp add: run super_count_def tbl_count_def filter_empty_conv)
qed

text \<open>\<open>set-role\<close> has no succession: it makes a second super administrator.\<close>

lemma set_role_second_super:
  assumes "findUser name s = Some u" and "u_ID u \<noteq> 0" and "u_Role u \<noteq> RoleSuperAdmin" and "super_count s = 1"
    and "users_ok (db_users s)" and "trim_space name \<noteq> []" and "env_dbok e 0"
  shows "super_count (fst (setRole e name RoleSuperAdmin s)) = 2"
proof -
  have row: "u \<in> set (rows (db_users s))" using findUser_SomeD [OF assms(1)] by simp
  have run: "fst (setRole e name RoleSuperAdmin s) = patch_user (u_ID u) (\<lambda>u. u\<lparr>u_Role := RoleSuperAdmin\<rparr>) s"
    using assms by (simp add: setRole_def ensureNonEmpty_def)
  have ids: "distinct (map u_ID (rows (db_users s)))" using assms(5) by (simp add: users_ok_def)
  have count: "length (filter (\<lambda>x. u_Role x = RoleSuperAdmin) (map (\<lambda>x. if u_ID x = u_ID u then x\<lparr>u_Role := RoleSuperAdmin\<rparr> else x) xs))
      = length (filter (\<lambda>x. u_Role x = RoleSuperAdmin) xs) + (if u \<in> set xs then 1 else 0)"
    if "distinct (map u_ID xs)" "set xs \<subseteq> set (rows (db_users s))" for xs
    using that
  proof (induction xs)
    case (Cons x xs)
    have "u_ID x = u_ID u \<longleftrightarrow> x = u" using same_id [OF assms(5) _ row] Cons.prems(2) by auto
    with Cons assms(3) show ?case by auto
  qed simp
  show ?thesis
    using count [OF ids subset_refl] row assms(4)
    by (simp add: run super_count_def patch_user_def tbl_count_def table_simps)
qed

end
