(* ===== verification/Daemon_Session.thy ===== *)
theory Daemon_Session
  imports Daemon Maintenance
begin

text \<open>
  One connection of a judge machine (\<open>session\<close> and \<open>heartbeatLoop\<close> of \<open>internal/daemon/daemon.go\<close>) as a
  state machine, and the start of the judge process (\<open>cmd/judge/main.go\<close>).

  The goroutines of a session interleave: the receiver takes a task, waits for a slot of the semaphore
  and starts a job; a job begins, reports its cases and ends with its result; the heartbeat ticks; the
  stream breaks, and the session waits for its jobs.  An event is one atomic step of one of them, with
  whether the message it sends goes out (the errors of these sends are only logged).
\<close>

section \<open>The session\<close>

datatype phase = Listening | Holding JudgeTask | Draining "string option" | Returned "string option"

record session =
  ss_phase :: phase
  ss_jobs :: "(JudgeTask \<times> bool) list"
  ss_finished :: "(JudgeTask \<times> JResult) list"
  ss_sent :: "DaemonMessage list"

definition send_if :: "bool \<Rightarrow> DaemonMessage \<Rightarrow> session \<Rightarrow> session" where
  "send_if ok msg s = (if ok then s\<lparr>ss_sent := ss_sent s @ [msg]\<rparr> else s)"

definition languageIDs :: "registry \<Rightarrow> string list" where
  "languageIDs r = map l_ID r"

definition register_message :: "Config \<Rightarrow> registry \<Rightarrow> Register" where
  "register_message c reg =
     \<lparr>rg_DaemonName = cg_DaemonName c, rg_Token = cg_DaemonToken c, rg_Capacity = i32 (cg_MaxParallel c),
      rg_Languages = languageIDs reg, rg_Version = ''v1''\<rparr>"

text \<open>
  Dialling, connecting and sending the registration may fail; \<open>make(chan struct{}, n)\<close> panics for a
  negative \<open>n\<close>, after the registration went out.
\<close>

datatype opened = NotOpened string | Panicked | Opened session

definition open_session :: "string option \<Rightarrow> string option \<Rightarrow> string option \<Rightarrow> Config \<Rightarrow> registry \<Rightarrow> opened" where
  "open_session dial connect send_err c reg =
     (case dial of Some err \<Rightarrow> NotOpened err | None \<Rightarrow>
     (case connect of Some err \<Rightarrow> NotOpened err | None \<Rightarrow>
     (case send_err of Some err \<Rightarrow> NotOpened err | None \<Rightarrow>
        if cg_MaxParallel c < 0 then Panicked
        else Opened \<lparr>ss_phase = Listening, ss_jobs = [], ss_finished = [],
                     ss_sent = [RegisterMsg (register_message c reg)]\<rparr>)))"

text \<open>
  Events.  \<open>Beat\<close> carries the load of the host, \<open>Broken\<close> how the stream ended (\<open>None\<close> for its regular end or
  a context that is done).
\<close>

datatype session_event =
    Dispatched JudgeTask
  | OtherMessage
  | Acquired
  | Begun nat
  | CaseKnown nat JCaseResult bool
  | Ended nat JResult bool
  | Beat load_figure load_figure load_figure bool
  | Broken "string option"
  | Left

text \<open>\<open>d.active\<close> is the number of jobs that have begun.\<close>

definition active_jobs :: "session \<Rightarrow> nat" where
  "active_jobs s = length (filter snd (ss_jobs s))"

definition heartbeat :: "session \<Rightarrow> load_figure \<Rightarrow> load_figure \<Rightarrow> load_figure \<Rightarrow> Heartbeat" where
  "heartbeat s load1 used total_mb =
     \<lparr>hb_ActiveTasks = i32 (int (active_jobs s)), hb_Load1 = load1, hb_MemUsedMb = used, hb_MemTotalMb = total_mb\<rparr>"

definition job :: "session \<Rightarrow> nat \<Rightarrow> bool \<Rightarrow> JudgeTask option" where
  "job s k begun = (if k < length (ss_jobs s) \<and> snd (ss_jobs s ! k) = begun then Some (fst (ss_jobs s ! k)) else None)"

text \<open>\<open>None\<close> is an event that cannot happen in this state.\<close>

fun session_step :: "int \<Rightarrow> session_event \<Rightarrow> session \<Rightarrow> session option" where
  "session_step slots (Dispatched task) s =
     (if ss_phase s = Listening then Some (s\<lparr>ss_phase := Holding task\<rparr>) else None)"
| "session_step slots OtherMessage s = (if ss_phase s = Listening then Some s else None)"
| "session_step slots Acquired s =
     (case ss_phase s of
        Holding task \<Rightarrow>
          (if int (length (ss_jobs s)) < slots
           then Some (s\<lparr>ss_phase := Listening, ss_jobs := ss_jobs s @ [(task, False)]\<rparr>) else None)
      | _ \<Rightarrow> None)"
| "session_step slots (Begun k) s =
     (case job s k False of
        None \<Rightarrow> None
      | Some task \<Rightarrow> Some (s\<lparr>ss_jobs := (ss_jobs s)[k := (task, True)]\<rparr>))"
| "session_step slots (CaseKnown k cr ok) s =
     (case job s k True of
        None \<Rightarrow> None
      | Some task \<Rightarrow> Some (send_if ok (CaseProgressMsg (case_progress task cr)) s))"
| "session_step slots (Ended k res ok) s =
     (case job s k True of
        None \<Rightarrow> None
      | Some task \<Rightarrow>
          Some (send_if ok (ResultMsg (task_result task res))
            (s\<lparr>ss_jobs := take k (ss_jobs s) @ drop (Suc k) (ss_jobs s),
               ss_finished := ss_finished s @ [(task, res)]\<rparr>)))"
| "session_step slots (Beat a b c ok) s = Some (send_if ok (HeartbeatMsg (heartbeat s a b c)) s)"
| "session_step slots (Broken r) s =
     (if ss_phase s = Listening then Some (s\<lparr>ss_phase := Draining r\<rparr>) else None)"
| "session_step slots Left s =
     (case ss_phase s of
        Draining r \<Rightarrow> (if ss_jobs s = [] then Some (s\<lparr>ss_phase := Returned r\<rparr>) else None)
      | _ \<Rightarrow> None)"

fun session_run :: "int \<Rightarrow> session_event list \<Rightarrow> session \<Rightarrow> session option" where
  "session_run slots [] s = Some s"
| "session_run slots (ev # evs) s =
     (case session_step slots ev s of None \<Rightarrow> None | Some s' \<Rightarrow> session_run slots evs s')"

section \<open>What a session keeps\<close>

definition dispatched :: "session_event list \<Rightarrow> JudgeTask list" where
  "dispatched evs = List.map_filter (\<lambda>ev. case ev of Dispatched task \<Rightarrow> Some task | _ \<Rightarrow> None) evs"

definition held :: "session \<Rightarrow> JudgeTask list" where
  "held s = (case ss_phase s of Holding task \<Rightarrow> [task] | _ \<Rightarrow> [])"

text \<open>All tasks a session has taken: finished, running and the one that waits for a slot.\<close>

definition taken :: "session \<Rightarrow> JudgeTask multiset" where
  "taken s = mset (map fst (ss_finished s)) + mset (map fst (ss_jobs s)) + mset (held s)"

definition beats_bounded :: "int \<Rightarrow> DaemonMessage list \<Rightarrow> bool" where
  "beats_bounded slots = list_all (\<lambda>msg. case msg of HeartbeatMsg hb \<Rightarrow> 0 \<le> hb_ActiveTasks hb \<and> hb_ActiveTasks hb \<le> slots | _ \<Rightarrow> True)"

text \<open>Every result that was sent belongs to a task that was judged, and no task has two.\<close>

definition result_of :: "DaemonMessage \<Rightarrow> TaskResult option" where
  "result_of msg = (case msg of ResultMsg tr \<Rightarrow> Some tr | _ \<Rightarrow> None)"

definition results_sent :: "session \<Rightarrow> TaskResult multiset" where
  "results_sent s = mset (List.map_filter result_of (ss_sent s))"

definition results_due :: "session \<Rightarrow> TaskResult multiset" where
  "results_due s = mset (map (\<lambda>(task, res). task_result task res) (ss_finished s))"

definition session_ok :: "int \<Rightarrow> session \<Rightarrow> bool" where
  "session_ok slots s \<longleftrightarrow>
     int (length (ss_jobs s)) \<le> slots \<and> beats_bounded slots (ss_sent s) \<and> results_sent s \<subseteq># results_due s
     \<and> (case ss_phase s of Returned _ \<Rightarrow> ss_jobs s = [] | _ \<Rightarrow> True)"

lemma job_SomeD: "job s k b = Some task \<Longrightarrow> k < length (ss_jobs s) \<and> ss_jobs s ! k = (task, b)"
  by (auto simp: job_def prod_eq_iff split: if_splits)

lemma send_if_simps [simp]:
  "ss_phase (send_if ok msg s) = ss_phase s" "ss_jobs (send_if ok msg s) = ss_jobs s"
  "ss_finished (send_if ok msg s) = ss_finished s"
  "ss_sent (send_if ok msg s) = ss_sent s @ (if ok then [msg] else [])"
  by (simp_all add: send_if_def)

lemma taken_step:
  assumes "session_step slots ev s = Some s'"
  shows "taken s' = taken s + mset (dispatched [ev])"
proof (cases ev)
  case (Begun k)
  then obtain task where j: "job s k False = Some task" and s': "s' = s\<lparr>ss_jobs := (ss_jobs s)[k := (task, True)]\<rparr>"
    using assms by (auto split: option.splits)
  have "map fst ((ss_jobs s)[k := (task, True)]) = map fst (ss_jobs s)"
    using job_SomeD [OF j] by (simp add: map_update list_update_same_conv)
  then show ?thesis using Begun by (simp add: s' taken_def held_def dispatched_def List.map_filter_simps)
next
  case (Ended k res ok)
  then obtain task where j: "job s k True = Some task"
    and s': "s' = send_if ok (ResultMsg (task_result task res)) (s\<lparr>ss_jobs := take k (ss_jobs s) @ drop (Suc k) (ss_jobs s),
               ss_finished := ss_finished s @ [(task, res)]\<rparr>)"
    using assms by (auto split: option.splits)
  have "ss_jobs s = take k (ss_jobs s) @ (task, True) # drop (Suc k) (ss_jobs s)"
    using job_SomeD [OF j] by (metis id_take_nth_drop)
  then have "mset (ss_jobs s) = add_mset (task, True) (mset (take k (ss_jobs s) @ drop (Suc k) (ss_jobs s)))"
    by (metis mset_append mset.simps(2) union_mset_add_mset_right)
  then have "mset (map fst (ss_jobs s)) = add_mset task (mset (map fst (take k (ss_jobs s) @ drop (Suc k) (ss_jobs s))))"
    by (simp only: mset_map image_mset_add_mset fst_conv)
  then show ?thesis using Ended
    by (simp add: s' taken_def held_def dispatched_def List.map_filter_simps)
qed (use assms in \<open>auto simp: taken_def held_def dispatched_def List.map_filter_simps split: if_splits option.splits phase.splits\<close>)

lemma beats_bounded_snoc:
  "beats_bounded slots (xs @ ys) \<longleftrightarrow> beats_bounded slots xs \<and> beats_bounded slots ys"
  by (simp add: beats_bounded_def)

lemma heartbeat_bounded:
  assumes "int (length (ss_jobs s)) \<le> slots" and "slots < 2 ^ 31"
  shows "0 \<le> hb_ActiveTasks (heartbeat s a b c) \<and> hb_ActiveTasks (heartbeat s a b c) \<le> slots"
proof -
  have "active_jobs s \<le> length (ss_jobs s)" by (simp add: active_jobs_def)
  then have n: "int (active_jobs s) \<le> slots" using assms(1) by linarith
  then have "i32 (int (active_jobs s)) = int (active_jobs s)" using assms(2) by (intro i32_fits) simp_all
  then show ?thesis using n by (simp add: heartbeat_def)
qed

lemma results_simps:
  "results_sent (send_if ok msg s) = results_sent s + (if ok then mset (List.map_filter result_of [msg]) else {#})"
  "results_due (send_if ok msg s) = results_due s"
  by (simp_all add: results_sent_def results_due_def List.map_filter_def)

lemma session_step_ok:
  assumes "session_ok slots s" and "session_step slots ev s = Some s'" and "slots < 2 ^ 31"
  shows "session_ok slots s'"
proof (cases ev)
  case (Ended k res ok)
  then obtain task where j: "job s k True = Some task"
    and s': "s' = send_if ok (ResultMsg (task_result task res)) (s\<lparr>ss_jobs := take k (ss_jobs s) @ drop (Suc k) (ss_jobs s),
               ss_finished := ss_finished s @ [(task, res)]\<rparr>)"
    using assms by (auto split: option.splits)
  have before: "results_sent s \<subseteq># results_due s" using assms(1) by (simp add: session_ok_def)
  have "results_sent s' = (if ok then add_mset (task_result task res) (results_sent s) else results_sent s)"
    and due: "results_due s' = add_mset (task_result task res) (results_due s)"
    by (simp_all add: s' results_simps results_due_def List.map_filter_simps result_of_def) (simp add: results_sent_def)
  then have "results_sent s' \<subseteq># results_due s'"
    using before by (auto intro: subset_mset.order_trans)
  moreover have "ss_phase s \<noteq> Returned r" for r
    using assms(1) job_SomeD [OF j] by (auto simp: session_ok_def)
  ultimately show ?thesis
    using assms(1) job_SomeD [OF j]
    by (auto simp: s' session_ok_def beats_bounded_snoc beats_bounded_def split: phase.split)
next
  case (Beat a b c ok)
  then show ?thesis
    using assms heartbeat_bounded [OF _ assms(3), of s a b c]
    by (auto simp: session_ok_def beats_bounded_snoc beats_bounded_def results_simps List.map_filter_simps result_of_def
        split: phase.split)
next
  case (CaseKnown k cr ok)
  then show ?thesis
    using assms by (auto simp: session_ok_def beats_bounded_snoc beats_bounded_def results_simps List.map_filter_simps
        result_of_def split: phase.splits option.splits)
qed (use assms in \<open>auto simp: session_ok_def results_sent_def results_due_def split: if_splits option.splits phase.splits dest!: job_SomeD\<close>)

lemma session_run_ok:
  assumes "session_run slots evs s = Some s'" and "session_ok slots s" and "slots < 2 ^ 31"
  shows "session_ok slots s' \<and> taken s' = taken s + mset (dispatched evs)"
  using assms
proof (induction evs arbitrary: s)
  case (Cons ev evs)
  then obtain t where t: "session_step slots ev s = Some t" "session_run slots evs t = Some s'"
    by (auto split: option.splits)
  have "mset (dispatched (ev # evs)) = mset (dispatched [ev]) + mset (dispatched evs)"
    by (simp add: dispatched_def List.map_filter_def)
  then show ?case
    using Cons.IH [OF t(2) session_step_ok [OF Cons.prems(2) t(1) Cons.prems(3)] Cons.prems(3)] taken_step [OF t(1)]
    by (simp add: ac_simps)
qed (simp add: dispatched_def List.map_filter_simps)

text \<open>
  C26. A session with \<open>n\<close> slots, whatever the interleaving of its receiver, jobs and heartbeats: at most \<open>n\<close>
  tasks are judged at once and no heartbeat reports more; every task that was dispatched is finished,
  running or waiting for a slot, none twice; a result that goes out is that of a finished task, at most
  one for each; and a session that has returned has finished every task it took.
\<close>

theorem session_bounded:
  assumes "open_session dial connect send_err c reg = Opened s"
    and "session_run (cg_MaxParallel c) evs s = Some s'" and "cg_MaxParallel c < 2 ^ 31"
  shows "int (length (ss_jobs s')) \<le> cg_MaxParallel c \<and> beats_bounded (cg_MaxParallel c) (ss_sent s')
     \<and> mset (dispatched evs) = taken s' \<and> results_sent s' \<subseteq># results_due s'
     \<and> (case ss_phase s' of
           Returned _ \<Rightarrow> mset (dispatched evs) = mset (map fst (ss_finished s')) | _ \<Rightarrow> True)"
proof -
  have start: "session_ok (cg_MaxParallel c) s" "taken s = {#}"
    using assms(1) by (auto simp: open_session_def session_ok_def beats_bounded_def results_sent_def result_of_def
        List.map_filter_simps results_due_def taken_def held_def split: option.splits if_splits)
  then show ?thesis
    using session_run_ok [OF assms(2) start(1) assms(3)]
    by (auto simp: session_ok_def taken_def held_def split: phase.split)
qed

definition two_slots :: Config where
  "two_slots = defaultConfig\<lparr>cg_DaemonName := ''judge-1'', cg_DaemonToken := ''secret''\<rparr>"

definition small_task :: "nat \<Rightarrow> JudgeTask" where
  "small_task i = \<lparr>jt_SubmissionId = i, jt_ProblemId = 1, jt_LanguageId = ''c'', jt_Code = [], jt_TimeLimitMs = 1000,
     jt_MemLimitMb = 64, jt_JudgeMode = [], jt_CheckerSource = [], jt_InteractorSource = [], jt_FetchBase = [],
     jt_FetchToken = [], jt_Cases = [], jt_StopOnFail = False\<rparr>"

definition all_right :: JResult where
  "all_right = \<lparr>jx_SubmissionID = 7, jx_Status = ''AC'', jx_TimeMS = 0, jx_MemKB = 0, jx_Score = 0, jx_CompileMessage = [],
     jx_Cases = [], jx_Error = []\<rparr>"

definition two_tasks :: "session_event list" where
  "two_tasks = [Dispatched (small_task 7), Acquired, Begun 0, Dispatched (small_task 8), Beat [] [] [] True, Acquired,
     Begun 1, Ended 0 all_right True, Broken None, Ended 0 all_right False, Left]"

theorem session_bounded_witness:
  "\<exists>s s'. open_session None None None two_slots [] = Opened s
     \<and> session_run (cg_MaxParallel two_slots) two_tasks s = Some s'
     \<and> ss_phase s' = Returned None \<and> mset (dispatched two_tasks) = mset (map fst (ss_finished s'))"
proof -
  obtain s where s: "open_session None None None two_slots [] = Opened s"
    and s0: "s = \<lparr>ss_phase = Listening, ss_jobs = [], ss_finished = [], ss_sent = [RegisterMsg (register_message two_slots [])]\<rparr>"
    by (simp add: open_session_def two_slots_def defaultConfig_def)
  have n: "cg_MaxParallel two_slots = 2" by (simp add: two_slots_def defaultConfig_def)
  obtain s' where run: "session_run 2 two_tasks s = Some s'" and left: "ss_phase s' = Returned None"
    by (simp add: s0 two_tasks_def job_def)
  have run2: "session_run (cg_MaxParallel two_slots) two_tasks s = Some s'" using run n by simp
  have small: "cg_MaxParallel two_slots < 2 ^ 31" by (simp add: n)
  have "mset (dispatched two_tasks) = mset (map fst (ss_finished s'))"
    using session_bounded [OF s run2 small] unfolding left phase.case by blast
  with s run2 left show ?thesis by blast
qed

section \<open>The session and the hub\<close>

text \<open>
  When the results come from the judge (\<open>Run\<close>), every message of a session after its registration is one
  whose handling is a step of the relay hub.
\<close>

definition judged_event :: "session_event \<Rightarrow> bool" where
  "judged_event ev \<longleftrightarrow> (case ev of Ended _ res _ \<Rightarrow> jx_Status res \<in> final_verdicts | _ \<Rightarrow> True)"

lemma final_messages:
  "final_message (CaseProgressMsg p)" "final_message (HeartbeatMsg b)" "final_message (RegisterMsg r)"
  "jx_Status res \<in> final_verdicts \<Longrightarrow> final_message (ResultMsg (task_result task res))"
  by (auto simp: final_message_def task_result_def final_verdicts_def final_status_def)

lemma session_step_sends_final:
  assumes "session_step slots ev s = Some t" and "judged_event ev" and "list_all final_message (ss_sent s)"
  shows "list_all final_message (ss_sent t)"
proof (cases ev)
  case (Ended k res ok)
  then show ?thesis using assms final_messages(4) [of res] by (auto simp: judged_event_def split: option.splits)
qed (use assms in \<open>auto simp: final_messages(1-3) split: option.splits if_splits phase.splits\<close>)

lemma session_sends_final:
  "session_run slots evs s = Some s' \<Longrightarrow> list_all judged_event evs \<Longrightarrow> list_all final_message (ss_sent s) \<Longrightarrow>
   list_all final_message (ss_sent s')"
proof (induction evs arbitrary: s)
  case (Cons ev evs)
  then obtain t where t: "session_step slots ev s = Some t" "session_run slots evs t = Some s'"
    by (auto split: option.splits)
  then show ?case using Cons.IH [OF t(2)] session_step_sends_final [OF t(1)] Cons.prems(2,3) by simp
qed simp

lemma session_feeds_hub:
  assumes "open_session dial connect send_err c reg = Opened s" and "session_run slots evs s = Some s'"
    and "list_all judged_event evs" and "msg \<in> set (ss_sent s')"
  shows "hub_step cfg foc h (readLoop_step e conn msg h)"
proof -
  have "list_all final_message (ss_sent s)"
    using assms(1) by (auto simp: open_session_def final_messages split: option.splits if_splits)
  then have "final_message msg"
    using session_sends_final [OF assms(2,3)] assms(4) by (simp add: list_all_iff)
  then show ?thesis by (rule step_message)
qed

text \<open>The registration of a configured machine is the one the hub accepts.\<close>

lemma registration_accepted:
  assumes "open_session dial connect send_err c reg = Opened s" and "cg_DaemonName c \<noteq> []"
    and "cg_DaemonToken c = hc_DaemonSecret cfg"
  shows "awaitRegister cfg (Some (hd (ss_sent s))) = Some (register_message c reg)"
  using assms by (auto simp: open_session_def awaitRegister_def register_message_def split: option.splits if_splits)

text \<open>
  With no slot (\<open>max_parallel: 0\<close> in the file passes, only the variable must be positive) a task that is
  dispatched is never judged, and a negative number ends the process when it connects.
\<close>

lemma no_slots_never_judges:
  assumes "session_run 0 evs s = Some s'" and "ss_jobs s = []"
  shows "ss_jobs s' = [] \<and> ss_finished s' = ss_finished s"
  using assms
proof (induction evs arbitrary: s)
  case (Cons ev evs)
  then obtain t where t: "session_step 0 ev s = Some t" "session_run 0 evs t = Some s'"
    by (auto split: option.splits)
  have "ss_jobs t = [] \<and> ss_finished t = ss_finished s"
    using t(1) Cons.prems(2) by (cases ev) (auto simp: job_def split: option.splits if_splits phase.splits)
  then show ?case using Cons.IH [OF t(2)] by simp
qed simp

lemma negative_slots_panic:
  "open_session None None None (c\<lparr>cg_MaxParallel := - 1\<rparr>) reg = Panicked"
  by (simp add: open_session_def)

section \<open>Reconnecting\<close>

text \<open>
  \<open>Run\<close>: one session after the other, with a wait in between that doubles up to thirty seconds and is never
  reset.  A session that was opened has started a loop of heartbeats, which ends only with the process
  (its context is that of \<open>Run\<close>): \<open>dr_loops\<close> are the streams these loops send to.
\<close>

record daemon_run =
  dr_backoff :: duration
  dr_loops :: "nat list"
  dr_stream :: nat

definition daemon_start :: daemon_run where
  "daemon_start = \<lparr>dr_backoff = second, dr_loops = [], dr_stream = 0\<rparr>"

definition next_session :: "bool \<Rightarrow> daemon_run \<Rightarrow> daemon_run" where
  "next_session was_opened d =
     \<lparr>dr_backoff = next_backoff (dr_backoff d),
      dr_loops = (if was_opened then dr_loops d @ [dr_stream d] else dr_loops d),
      dr_stream = Suc (dr_stream d)\<rparr>"

text \<open>After n reconnections all the loops of the old streams still tick, and the wait is thirty seconds for good.\<close>

lemma loops_accumulate: "length (dr_loops (fold next_session opens d)) = length (dr_loops d) + length (filter id opens)"
  by (induction opens arbitrary: d) (simp_all add: next_session_def)

lemma backoff_never_reset: "dr_backoff (fold next_session opens d) = (next_backoff ^^ length opens) (dr_backoff d)"
  by (induction opens arbitrary: d) (simp_all add: next_session_def funpow_swap1)

end
