(* ===== verification/Sandbox_Host.thy ===== *)
theory Sandbox_Host
  imports Sandbox_Run
begin

text \<open>
  What the sandbox does on its host (\<open>cgroup_linux.go\<close>, \<open>helpers_linux.go\<close>, \<open>sandbox_linux.go\<close>): the control
  group of a run and its counters, the redirections of the standard streams, the process that enters
  the new name spaces, the watchdog, and the probe before the first run.  \<open>Sandbox_Run\<close> says what a run
  answers; here is the sequence of effects it has, for every way its steps turn out.

  \<open>read p\<close> is the content of a file of the control group, \<open>fail p\<close> the error of a write to it.
\<close>

section \<open>Effects\<close>

datatype run_effect =
    MkdirAll string
  | WriteFile string string
  | Start
  | KillProcess
  | Wait
  | KillPid int
  | RemoveDir string

text \<open>\<open>filepath.Join\<close> of two elements.\<close>

definition go_join :: "string \<Rightarrow> string \<Rightarrow> string" where
  "go_join a b = (if a = [] then path_clean b else path_clean (a @ ''/'' @ b))"

fun str_fields_from :: "string \<Rightarrow> string \<Rightarrow> string list" where
  "str_fields_from w [] = (if w = [] then [] else [w])"
| "str_fields_from w (c # cs) =
     (if is_space c then (if w = [] then str_fields_from [] cs else w # str_fields_from [] cs)
      else str_fields_from (w @ [c]) cs)"

text \<open>\<open>strings.Fields\<close>.\<close>

definition str_fields :: "string \<Rightarrow> string list" where
  "str_fields = str_fields_from []"

section \<open>The control group\<close>

definition cgroup_dir :: "string \<Rightarrow> string \<Rightarrow> string" where
  "cgroup_dir base runID = go_join base (''run-'' @ runID)"

definition cg_write :: "string \<Rightarrow> string \<Rightarrow> string \<Rightarrow> run_effect" where
  "cg_write dir name content = WriteFile (go_join dir name) content"

definition addPid :: "string \<Rightarrow> int \<Rightarrow> run_effect" where
  "addPid dir pid = cg_write dir ''cgroup.procs'' (int_str pid)"

text \<open>Writes are listed whether or not they go through; only the first one's error matters.\<close>

definition cg_kill :: "(string \<Rightarrow> string option) \<Rightarrow> (string \<Rightarrow> string option) \<Rightarrow> string \<Rightarrow> run_effect list" where
  "cg_kill fail read dir =
     cg_write dir ''cgroup.kill'' ''1'' #
     (if fail (go_join dir ''cgroup.kill'') = None then []
      else
        [cg_write dir ''cgroup.freeze'' ''1'']
        @ map KillPid (List.map_filter atoi
            (str_fields (case read (go_join dir ''cgroup.procs'') of None \<Rightarrow> [] | Some raw \<Rightarrow> raw)))
        @ [cg_write dir ''cgroup.freeze'' ''0''])"

definition peakRSSKB :: "(string \<Rightarrow> string option) \<Rightarrow> string \<Rightarrow> int" where
  "peakRSSKB read dir =
     (case read (go_join dir ''memory.peak'') of
        None \<Rightarrow> 0
      | Some raw \<Rightarrow> (case atoi (trim_space raw) of None \<Rightarrow> 0 | Some v \<Rightarrow> go_div v 1024))"

definition oomKills :: "(string \<Rightarrow> string option) \<Rightarrow> string \<Rightarrow> int" where
  "oomKills read dir =
     (case read (go_join dir ''memory.events'') of
        None \<Rightarrow> 0
      | Some raw \<Rightarrow>
          (case find (is_prefix ''oom_kill '') (split_on (CHR 0x0A) raw) of
             None \<Rightarrow> 0
           | Some line \<Rightarrow>
               (case atoi (trim_space (drop (length ''oom_kill '') line)) of None \<Rightarrow> 0 | Some v \<Rightarrow> v)))"

definition cg_destroy :: "(string \<Rightarrow> string option) \<Rightarrow> (string \<Rightarrow> string option) \<Rightarrow> string \<Rightarrow> run_effect list" where
  "cg_destroy fail read dir = cg_kill fail read dir @ [RemoveDir dir]"

section \<open>Streams and process\<close>

record 'f Files =
  fi_Stdin :: "'f option"
  fi_Stdout :: "'f option"
  fi_Stderr :: "'f option"

text \<open>
  The handle of one stream (\<open>None\<close> is \<open>/dev/null\<close>) and the files that were opened for it: one that the caller
  gives wins, a path that cannot be opened gives nothing.
\<close>

definition devOrFile :: "'f option \<Rightarrow> (string \<Rightarrow> 'f option) \<Rightarrow> string \<Rightarrow> 'f option \<times> 'f list" where
  "devOrFile given opens path =
     (case given of
        Some f \<Rightarrow> (Some f, [])
      | None \<Rightarrow>
          if path = [] then (None, [])
          else case opens path of None \<Rightarrow> (None, []) | Some f \<Rightarrow> (Some f, [f]))"

text \<open>\<open>opens_in\<close> opens for reading, \<open>opens_out\<close> creates or truncates; the last component is closed at the end.\<close>

definition applyRedirects ::
  "(string \<Rightarrow> 'f option) \<Rightarrow> (string \<Rightarrow> 'f option) \<Rightarrow> Spec \<Rightarrow> 'f Files option \<Rightarrow>
     'f option \<times> 'f option \<times> 'f option \<times> 'f list" where
  "applyRedirects opens_in opens_out spec files =
     (let given = (\<lambda>pick. case files of None \<Rightarrow> None | Some fs \<Rightarrow> pick fs);
          (i, a) = devOrFile (given fi_Stdin) opens_in (sp_StdinPath spec);
          (out, b) = devOrFile (given fi_Stdout) opens_out (sp_StdoutPath spec);
          (err, c) = devOrFile (given fi_Stderr) opens_out (sp_StderrPath spec)
      in (i, out, err, a @ b @ c))"

definition joinPaths :: "string list \<Rightarrow> string" where
  "joinPaths = join_with '':''"

record command_line =
  cl_Path :: string
  cl_Args :: "string list"
  cl_Env :: "string list"
  cl_Cloneflags :: "string list"

definition buildCmd :: "string list \<Rightarrow> string \<Rightarrow> command_line" where
  "buildCmd hide specJSON =
     \<lparr>cl_Path = ''/proc/self/exe'', cl_Args = [''oj-stage2''],
      cl_Env = [''OJ_STAGE2=1'', ''OJ_STAGE2_SPEC='' @ specJSON, ''OJ_STAGE2_HIDE='' @ joinPaths hide],
      cl_Cloneflags = [''NEWNS'', ''NEWPID'', ''NEWNET'', ''NEWIPC'', ''NEWUTS'']\<rparr>"

text \<open>What the watchdog does when it fires.\<close>

definition watchdog_fires :: "(string \<Rightarrow> string option) \<Rightarrow> (string \<Rightarrow> string option) \<Rightarrow> string \<Rightarrow> run_effect list" where
  "watchdog_fires fail read dir = cg_kill fail read dir @ [KillProcess]"

section \<open>The effects of one run\<close>

text \<open>
  The effects of \<open>runProcess\<close> in their order, for a run whose steps turn out as \<open>x\<close> says: it leaves at the
  first step that fails, and the group is destroyed on every way out once it was made (\<open>defer\<close>).
\<close>

definition limit_effects :: "string \<Rightarrow> execution \<Rightarrow> Spec \<Rightarrow> run_effect list" where
  "limit_effects dir x spec = map (\<lambda>(name, content). cg_write dir name content) (fst (applyLimits (x_limit x) spec))"

definition started :: "(string \<Rightarrow> string option) \<Rightarrow> (string \<Rightarrow> string option) \<Rightarrow> string \<Rightarrow> int \<Rightarrow> execution \<Rightarrow> run_effect list" where
  "started fail read dir pid x =
     Start # addPid dir pid #
       (if x_attach x \<noteq> None then [KillProcess, Wait]
        else (if x_fired x then watchdog_fires fail read dir else []) @ [Wait])"

definition run_effects ::
  "(string \<Rightarrow> string option) \<Rightarrow> (string \<Rightarrow> string option) \<Rightarrow> string \<Rightarrow> string \<Rightarrow> int \<Rightarrow> Spec \<Rightarrow> execution \<Rightarrow> run_effect list" where
  "run_effects fail read base runID pid spec x =
     (let dir = cgroup_dir base runID
      in if spec_validate spec \<noteq> None \<or> x_workspace x \<noteq> None then []
         else MkdirAll dir #
           (if x_cgroup x \<noteq> None then []
            else limit_effects dir x spec
              @ (if snd (applyLimits (x_limit x) spec) \<noteq> None \<or> x_build x \<noteq> None \<or> x_start x \<noteq> None then []
                 else started fail read dir pid x)
              @ cg_destroy fail read dir))"

text \<open>What the run sees of the counters, read before the group is destroyed.\<close>

definition with_counters :: "(string \<Rightarrow> string option) \<Rightarrow> string \<Rightarrow> execution \<Rightarrow> execution" where
  "with_counters read dir x =
     x\<lparr>x_outcome := (x_outcome x)\<lparr>oc_peak := peakRSSKB read dir, oc_oom := oomKills read dir\<rparr>\<rparr>"

section \<open>The probe\<close>

text \<open>
  For each controller at most twenty attempts: the file is read, and the controller written when its name
  does not occur in it.  \<open>control k\<close> is what the file holds at the k-th reading of this controller.
\<close>

fun enable_controller :: "nat \<Rightarrow> nat \<Rightarrow> (nat \<Rightarrow> string option) \<Rightarrow> string \<Rightarrow> string \<Rightarrow> run_effect list" where
  "enable_controller 0 k control file ctrl = []"
| "enable_controller (Suc fuel) k control file ctrl =
     (if (case control k of None \<Rightarrow> False | Some cur \<Rightarrow> str_contains cur ctrl) then []
      else WriteFile file ('' '' @ ctrl) # enable_controller fuel (Suc k) control file ctrl)"

definition Preflight ::
  "(string \<Rightarrow> nat \<Rightarrow> string option) \<Rightarrow> string option \<Rightarrow> string option \<Rightarrow> string \<Rightarrow> string \<Rightarrow> run_effect list \<times> string option" where
  "Preflight control mkdir_err remove_err base suffix =
     (let file = go_join base ''cgroup.subtree_control'';
          writes = concat (map (\<lambda>ctrl. enable_controller 20 0 (control ctrl) file ctrl) [''memory'', ''pids'', ''cpu'']);
          probe = go_join base (''preflight-'' @ take 8 suffix)
      in case mkdir_err of
           Some err \<Rightarrow> (writes @ [MkdirAll probe], Some (''cgroup base '' @ base @ '' unusable: '' @ err))
         | None \<Rightarrow> (writes @ [MkdirAll probe, RemoveDir probe], remove_err))"

section \<open>Properties\<close>

text \<open>The limits that are written when none of the writes fails.\<close>

lemma write_all_ok: "snd (write_all fail ws) = None \<Longrightarrow> fst (write_all fail ws) = ws"
  by (induction fail ws rule: write_all.induct) (auto split: option.splits prod.splits)

lemma limit_effects_ok:
  "snd (applyLimits (x_limit x) spec) = None \<Longrightarrow>
   limit_effects dir x spec = map (\<lambda>(name, content). cg_write dir name content) (cgroup_writes spec)"
  by (simp add: limit_effects_def applyLimits_def write_all_ok)

lemma no_start_in:
  "Start \<notin> set (limit_effects dir x spec)" "Start \<notin> set (cg_kill fail read dir)"
  "Start \<notin> set (cg_destroy fail read dir)" "Start \<notin> set (watchdog_fires fail read dir)"
  by (auto simp: limit_effects_def cg_kill_def cg_destroy_def watchdog_fires_def cg_write_def)

lemma runProcess_started:
  "runProcess spec x = Inr res \<Longrightarrow>
   spec_validate spec = None \<and> x_workspace x = None \<and> x_cgroup x = None
     \<and> snd (applyLimits (x_limit x) spec) = None \<and> x_build x = None \<and> x_start x = None \<and> x_attach x = None"
  by (auto simp: runProcess_def Let_def split: option.splits)

lemma run_effects_started:
  assumes "Start \<in> set (run_effects fail read base runID pid spec x)"
  shows "run_effects fail read base runID pid spec x =
      (MkdirAll (cgroup_dir base runID)
        # map (\<lambda>(name, content). cg_write (cgroup_dir base runID) name content) (cgroup_writes spec))
      @ Start # tl (started fail read (cgroup_dir base runID) pid x) @ cg_destroy fail read (cgroup_dir base runID)"
proof -
  have went: "spec_validate spec = None" "x_workspace x = None" "x_cgroup x = None"
    "snd (applyLimits (x_limit x) spec) = None" "x_build x = None" "x_start x = None"
    using assms by (auto simp: run_effects_def Let_def no_start_in split: if_splits)
  then show ?thesis
    by (simp add: run_effects_def Let_def started_def limit_effects_ok [OF went(4)])
qed

lemma no_start_around:
  "Start \<notin> set (MkdirAll dir # map (\<lambda>(name, content). cg_write dir name content) ws)"
  "Start \<notin> set (tl (started fail read dir pid x) @ cg_destroy fail read dir)"
  by (auto simp: started_def no_start_in addPid_def cg_write_def)

lemma started_after_limits:
  assumes "run_effects fail read base runID pid spec x = before @ Start # after"
  shows "before = MkdirAll (cgroup_dir base runID)
        # map (\<lambda>(name, content). cg_write (cgroup_dir base runID) name content) (cgroup_writes spec)
      \<and> Wait \<in> set after"
proof -
  have "Start \<in> set (run_effects fail read base runID pid spec x)" by (simp add: assms)
  from run_effects_started [OF this]
  have "before @ Start # after = (MkdirAll (cgroup_dir base runID)
        # map (\<lambda>(name, content). cg_write (cgroup_dir base runID) name content) (cgroup_writes spec))
      @ Start # tl (started fail read (cgroup_dir base runID) pid x) @ cg_destroy fail read (cgroup_dir base runID)"
    using assms by simp
  then have "before = MkdirAll (cgroup_dir base runID)
        # map (\<lambda>(name, content). cg_write (cgroup_dir base runID) name content) (cgroup_writes spec)"
    and "after = tl (started fail read (cgroup_dir base runID) pid x) @ cg_destroy fail read (cgroup_dir base runID)"
    using append_Cons_eq_iff [OF no_start_around] by metis+
  then show ?thesis by (simp add: started_def)
qed

lemma run_starts_once:
  assumes "runProcess spec x = Inr res"
  shows "count_list (run_effects fail read base runID pid spec x) Start = 1"
proof -
  have "Start \<in> set (run_effects fail read base runID pid spec x)"
    using runProcess_started [OF assms] by (simp add: run_effects_def Let_def started_def)
  from run_effects_started [OF this] show ?thesis
    using no_start_around by (simp add: count_list_append count_notin del: set_map)
qed

text \<open>
  C22. No process is started before every limit of its control group was written, the process that was
  started is waited for, and whatever fails, a control group that was made is killed and removed at the
  end; a run that answers has started its process exactly once.
\<close>

theorem run_confined:
  fixes fail read base runID pid spec x
  defines "effects \<equiv> run_effects fail read base runID pid spec x" and "dir \<equiv> cgroup_dir base runID"
  shows "(\<forall>before after. effects = before @ Start # after \<longrightarrow>
            before = MkdirAll dir # map (\<lambda>(name, content). cg_write dir name content) (cgroup_writes spec)
            \<and> Wait \<in> set after)
     \<and> (x_cgroup x = None \<longrightarrow> effects = [] \<or> (\<exists>body. effects = MkdirAll dir # body @ cg_destroy fail read dir))
     \<and> (\<forall>res. runProcess spec x = Inr res \<longrightarrow> count_list effects Start = 1)"
  using started_after_limits run_starts_once unfolding effects_def dir_def
  by (auto simp: run_effects_def Let_def)

theorem run_confined_witness:
  "count_list (run_effects (\<lambda>_. None) (\<lambda>_. None) ''/sys/fs/cgroup/oj'' ''1'' 42 sample_spec sample_run) Start = 1"
proof -
  obtain res where "runProcess sample_spec sample_run = Inr res" using sample_run_starts by blast
  then show ?thesis
    using run_confined [of "\<lambda>_. None" "\<lambda>_. None" "''/sys/fs/cgroup/oj''" "''1''" 42 sample_spec sample_run] by blast
qed

text \<open>The kill reaches every process that is listed, if the kernel does not do it in one step.\<close>

lemma kill_reaches_all:
  assumes "fail (go_join dir ''cgroup.kill'') \<noteq> None" and "read (go_join dir ''cgroup.procs'') = Some raw"
    and "w \<in> set (str_fields raw)" and "atoi w = Some pid"
  shows "KillPid pid \<in> set (cg_kill fail read dir)"
  using assms by (force simp: cg_kill_def List.map_filter_def)

text \<open>A stream that the caller gives is never closed by the run; what it opens is.\<close>

lemma redirects_close_own:
  assumes "applyRedirects opens_in opens_out spec files = (i, out, err, closes)" and "f \<in> set closes"
  shows "opens_in (sp_StdinPath spec) = Some f \<or> opens_out (sp_StdoutPath spec) = Some f \<or> opens_out (sp_StderrPath spec) = Some f"
  using assms by (auto simp: applyRedirects_def devOrFile_def Let_def split: option.splits if_splits prod.splits)

text \<open>The second stage reads back the paths to hide, when none of them has a colon.\<close>

lemma split_joined:
  "ps \<noteq> [] \<Longrightarrow> list_all (\<lambda>p. CHR '':'' \<notin> set p) ps \<Longrightarrow> split_on (CHR '':'') (joinPaths ps) = ps"
  unfolding joinPaths_def
proof (induction ps)
  case (Cons p ps)
  then show ?case by (cases ps) (simp_all add: split_on_none split_on_sep)
qed simp

text \<open>
  The process is started before it is attached to its group: until then it runs outside, without the limits.
\<close>

lemma attached_after_start:
  assumes "Start \<in> set (run_effects fail read base runID pid spec x)"
  shows "\<exists>before after. run_effects fail read base runID pid spec x = before @ Start # addPid (cgroup_dir base runID) pid # after"
proof -
  have "tl (started fail read dir pid x) = addPid dir pid # tl (tl (started fail read dir pid x))" for dir
    by (simp add: started_def)
  with run_effects_started [OF assms] show ?thesis by (metis append_Cons)
qed

text \<open>
  The probe looks for the name of a controller as a piece of text: where \<open>cpuset\<close> is enabled, it takes \<open>cpu\<close>
  for enabled and never enables it.
\<close>

lemma cpuset_taken_for_cpu:
  "enable_controller 20 0 (\<lambda>_. Some ''cpuset memory pids'') file ''cpu'' = []"
  by (simp add: eval_nat_numeral str_contains_def is_prefix_append)

end
