(* ===== verification/Startup.thy ===== *)
theory Startup
  imports Daemon_Session Sandbox_Host
begin

text \<open>
  The start of the two servers: the judge process (\<open>cmd/judge/main.go\<close> with its self test, \<open>NewService\<close> of
  \<open>pkg/judge\<close>) and the API process (\<open>cmd/api/main.go\<close>), up to the moment they serve.  The configuration file,
  the tables, the queue server and the random secrets come from outside and are arguments.
\<close>

section \<open>The judge process\<close>

definition judge_configPath :: "vars \<Rightarrow> string list \<Rightarrow> string" where
  "judge_configPath v args =
     (if v ''OJ_CONFIG'' \<noteq> [] then v ''OJ_CONFIG''
      else if length args > 2 \<and> args ! 1 = ''--config'' then args ! 2 else [])"

definition flagArg :: "string \<Rightarrow> string list \<Rightarrow> bool" where
  "flagArg name args \<longleftrightarrow> name \<in> set (tl args)"

definition constrainedOverridePath :: "string \<Rightarrow> string" where
  "constrainedOverridePath p =
     (if p = [] then [] else if \<not> ends_with p ''.yaml'' \<and> \<not> ends_with p ''.yml'' then [] else path_clean p)"

text \<open>\<open>NewService\<close>: the two cache directories are made first; \<open>mkdir\<close> gives the error.\<close>

definition NewService :: "(string \<Rightarrow> string option) \<Rightarrow> registry \<Rightarrow> string \<Rightarrow> string \<Rightarrow> string + Service" where
  "NewService mkdir reg cacheRoot fetchBase =
     (let bin = go_join cacheRoot ''bin''; blobs = go_join cacheRoot ''blobs''
      in case mkdir bin of
           Some err \<Rightarrow> Inl err
         | None \<Rightarrow>
             (case mkdir blobs of
                Some err \<Rightarrow> Inl err
              | None \<Rightarrow> Inr \<lparr>sv_Reg = reg, sv_CacheRoot = bin, sv_BlobDir = blobs, sv_FetchBase = fetchBase,
                            sv_MaxCases = 200, sv_CaseWorkers = 0\<rparr>))"

text \<open>The two runs of the self test, in a fresh directory \<open>ws\<close> that may not be made.\<close>

definition test_spec :: "string list \<Rightarrow> string \<Rightarrow> string \<Rightarrow> int \<Rightarrow> Spec" where
  "test_spec argv ws out limit =
     \<lparr>sp_Argv = argv, sp_Env = [''PATH=/usr/bin:/bin''], sp_Workspace = ws, sp_StdinPath = [], sp_StdoutPath = out,
      sp_StderrPath = [], sp_TimeLimitMS = limit, sp_WallLimitMS = 0, sp_MemLimitKB = 0, sp_FSizeLimitKB = 1024,
      sp_StackLimitKB = 0, sp_AsLimitKB = 0, sp_PidsLimit = 0, sp_Profile = ProfileRun\<rparr>"

definition runEchoTest ::
  "string + string \<Rightarrow> (Spec \<Rightarrow> string + SandboxResult) \<Rightarrow> (string \<Rightarrow> string option) \<Rightarrow> string option" where
  "runEchoTest tmp run read =
     (case tmp of
        Inl err \<Rightarrow> Some err
      | Inr ws \<Rightarrow>
          let out = go_join ws ''out.txt''
          in case run (test_spec [''/bin/echo'', ''sandbox-ok''] ws out 2000) of
               Inl err \<Rightarrow> Some err
             | Inr res \<Rightarrow>
                 if sr_Status res \<noteq> StatusOK then Some (''status '' @ sr_Status res @ '': '' @ sr_Message res)
                 else
                   let raw = (case read out of None \<Rightarrow> [] | Some raw \<Rightarrow> raw)
                   in if raw \<noteq> ''sandbox-ok'' @ [CHR 0x0A] then Some (''echo output mismatch: '' @ raw) else None)"

definition runTimeoutTest :: "string + string \<Rightarrow> (Spec \<Rightarrow> string + SandboxResult) \<Rightarrow> string option" where
  "runTimeoutTest tmp run =
     (case tmp of
        Inl err \<Rightarrow> Some err
      | Inr ws \<Rightarrow>
          (case run (test_spec [''/bin/sh'', ''-c'', ''i=0; while :; do i=$((i+1)); done''] ws [] 100) of
             Inl err \<Rightarrow> Some err
           | Inr res \<Rightarrow>
               if sr_Status res \<noteq> StatusTLE
               then Some (''expected TLE, got '' @ sr_Status res @ '' ('' @ sr_Message res @ '')'') else None))"

record judge_world =
  jw_vars :: vars
  jw_args :: "string list"
  jw_load :: "string \<Rightarrow> string + Config"
  jw_mkdir :: "string \<Rightarrow> string option"
  jw_preflight :: "string option"
  jw_registry :: "string \<Rightarrow> string + registry"
  jw_tmp1 :: "string + string"
  jw_tmp2 :: "string + string"
  jw_run :: "Spec \<Rightarrow> string + SandboxResult"
  jw_read :: "string \<Rightarrow> string option"

text \<open>The exit code of the self test.\<close>

definition runSelftest :: "judge_world \<Rightarrow> string \<Rightarrow> nat" where
  "runSelftest w workRoot =
     (if jw_preflight w \<noteq> None then 1
      else if jw_mkdir w workRoot \<noteq> None then 1
      else if runEchoTest (jw_tmp1 w) (jw_run w) (jw_read w) \<noteq> None then 1
      else if runTimeoutTest (jw_tmp2 w) (jw_run w) \<noteq> None then 1
      else 0)"

datatype judge_end = SecondStage | Exits nat | Serves Service Config

definition judge_main :: "judge_world \<Rightarrow> judge_end" where
  "judge_main w =
     (if jw_vars w ''OJ_STAGE2'' = ''1'' then SecondStage
      else case jw_load w (judge_configPath (jw_vars w) (jw_args w)) of
        Inl err \<Rightarrow> Exits 1
      | Inr c \<Rightarrow>
          if flagArg ''--selftest'' (jw_args w) then Exits (runSelftest w (cg_WorkRoot c))
          else if jw_mkdir w (cg_WorkRoot c) \<noteq> None then Exits 1
          else if jw_preflight w \<noteq> None then Exits 1
          else case jw_registry w (constrainedOverridePath (jw_vars w ''OJ_LANGUAGES_FILE'')) of
            Inl err \<Rightarrow> Exits 1
          | Inr langs \<Rightarrow>
              (case NewService (jw_mkdir w) langs (cg_DataDir c @ ''/judge-cache'') (cg_FetchBase c) of
                 Inl err \<Rightarrow> Exits 1
               | Inr svc \<Rightarrow> Serves svc (if cg_DaemonName c = [] then c\<lparr>cg_DaemonName := ''judge-1''\<rparr> else c)))"

text \<open>A judge that serves and has the hub's secret is accepted by it with its first message.\<close>

lemma judge_is_accepted:
  assumes "judge_main w = Serves svc c" and "open_session dial connect send_err c (sv_Reg svc) = Opened s"
    and "cg_DaemonToken c = hc_DaemonSecret cfg"
  shows "awaitRegister cfg (Some (hd (ss_sent s))) = Some (register_message c (sv_Reg svc))"
proof -
  have "cg_DaemonName c \<noteq> []"
    using assms(1) by (auto simp: judge_main_def Let_def split: if_splits sum.splits)
  then show ?thesis using registration_accepted [OF assms(2) _ assms(3)] by simp
qed

text \<open>
  The variable decides over the flag here, and the flag over the variable in the API process, although the
  usage says that the variable is the default of the flag.
\<close>

definition api_configPath :: "vars \<Rightarrow> string list \<Rightarrow> string" where
  "api_configPath v args = (if length args > 2 \<and> args ! 1 = ''--config'' then args ! 2 else v ''OJ_CONFIG'')"

lemma flag_loses_to_variable:
  assumes "v ''OJ_CONFIG'' = ''a.yaml''"
  shows "judge_configPath v [''judge'', ''--config'', ''b.yaml''] = ''a.yaml''"
    and "api_configPath v [''api'', ''--config'', ''b.yaml''] = ''b.yaml''"
  using assms by (simp_all add: judge_configPath_def api_configPath_def)

section \<open>The API process\<close>

record 'r api_world =
  aw_vars :: vars
  aw_args :: "string list"
  aw_load :: "string \<Rightarrow> string + Config"
  aw_mkdir :: "string \<Rightarrow> string option"
  aw_secrets :: "string \<times> string"
  aw_open :: "Config \<Rightarrow> string + db"
  aw_hash :: "string \<Rightarrow> string + string"
  aw_env :: env
  aw_connect :: "string \<Rightarrow> 'r option"
  aw_rpush :: "'r \<Rightarrow> string \<Rightarrow> 'r \<times> bool"
  aw_registry :: "string \<Rightarrow> string + registry"

record 'r api_state =
  as_config :: Config
  as_db :: db
  as_queue :: "'r any_queue"
  as_langs :: registry

text \<open>The scan for pending submissions on a queue server: as in the hub, it stops at the first error.\<close>

fun push_ids :: "('r \<Rightarrow> string \<Rightarrow> 'r \<times> bool) \<Rightarrow> nat list \<Rightarrow> 'r \<Rightarrow> 'r" where
  "push_ids rpush [] r = r"
| "push_ids rpush (i # is) r =
     (case rq_push rpush r i of (r', None) \<Rightarrow> push_ids rpush is r' | (r', Some _) \<Rightarrow> r')"

definition pending_ids :: "db \<Rightarrow> nat list" where
  "pending_ids s = map s_ID (tbl_select (\<lambda>r. s_Status r = SubPending) (db_submissions s))"

definition requeue_on :: "('r \<Rightarrow> string \<Rightarrow> 'r \<times> bool) \<Rightarrow> env \<Rightarrow> db \<Rightarrow> 'r any_queue \<Rightarrow> 'r any_queue" where
  "requeue_on rpush e s q =
     (case q of
        InMemory m \<Rightarrow> InMemory (h_queue (RequeuePending e ((hub_start s)\<lparr>h_queue := m\<rparr>)))
      | OnServer r \<Rightarrow> OnServer (if env_dbok e 0 then push_ids rpush (pending_ids s) r else r))"

definition api_run :: "'r api_world \<Rightarrow> string + 'r api_state" where
  "api_run w =
     (case aw_load w (api_configPath (aw_vars w) (aw_args w)) of
        Inl err \<Rightarrow> Inl err
      | Inr c \<Rightarrow>
          if aw_mkdir w (cg_DataDir c) \<noteq> None then Inl ''create data dir''
          else
            let c = (if cg_JWTSecret c = [] \<and> cg_Mode c = ''dev'' then c\<lparr>cg_JWTSecret := fst (aw_secrets w)\<rparr> else c);
                c = (if cg_DaemonSecret c = [] then c\<lparr>cg_DaemonSecret := snd (aw_secrets w)\<rparr> else c)
            in case aw_open w c of
                 Inl err \<Rightarrow> Inl err
               | Inr s \<Rightarrow>
                   (case bootstrapAdmin (aw_hash w) (aw_env w) (aw_vars w ''OJ_ADMIN_USERNAME'')
                           (aw_vars w ''OJ_ADMIN_PASSWORD'') s of
                      (s, Some err) \<Rightarrow> Inl err
                    | (s, None) \<Rightarrow>
                        (case new_queue (aw_connect w) (cg_RedisAddr c) of
                           Inl err \<Rightarrow> Inl err
                         | Inr q \<Rightarrow>
                             (case aw_registry w [] of
                                Inl err \<Rightarrow> Inl err
                              | Inr langs \<Rightarrow>
                                  Inr \<lparr>as_config = c, as_db = s, as_queue = requeue_on (aw_rpush w) (aw_env w) s q,
                                       as_langs = langs\<rparr>))))"

section \<open>What a started server has\<close>

lemma requeue_in_memory:
  assumes "env_dbok e 0" and "length (rows (db_submissions s)) \<le> mq_capacity"
  shows "requeue_on rpush e s (InMemory newMemoryQueue)
     = InMemory \<lparr>mq_ch = pending_ids s, mq_closed = False\<rparr>"
proof -
  have fits: "length (pending_ids s) \<le> mq_capacity"
    using assms(2) by (simp add: pending_ids_def tbl_select_def) (metis length_filter_le order_trans)
  have run: "RequeuePending e ((hub_start s)\<lparr>h_queue := newMemoryQueue\<rparr>)
      = push_all (pending_ids s) ((hub_start s)\<lparr>h_queue := newMemoryQueue\<rparr>)"
    using assms(1) by (simp add: RequeuePending_def pending_ids_def hub_start_def)
  have "room (length (pending_ids s)) ((hub_start s)\<lparr>h_queue := newMemoryQueue\<rparr>)"
    using fits by (simp add: room_def newMemoryQueue_def)
  from push_all_room [OF this] show ?thesis
    unfolding requeue_on_def any_queue.case run by (simp add: newMemoryQueue_def)
qed

lemma bootstrap_one:
  assumes "bootstrapAdmin hash e username password s = (s', None)"
  shows "if rows (db_users s) = [] \<and> username \<noteq> [] \<and> password \<noteq> [] then super_count s' = 1 else s' = s"
  using assms by (auto simp: bootstrapAdmin_def super_count_def tbl_count_def split: sum.splits if_splits)


definition fresh_world :: "unit api_world" where
  "fresh_world =
     \<lparr>aw_vars = (\<lambda>k. if k = ''OJ_ADMIN_USERNAME'' then ''root'' else if k = ''OJ_ADMIN_PASSWORD'' then ''root-password'' else []),
      aw_args = [''api''], aw_load = (\<lambda>_. Inr (defaultConfig\<lparr>cg_JWTSecret := ''jwt''\<rparr>)), aw_mkdir = (\<lambda>_. None),
      aw_secrets = (''s1'', ''s2''), aw_open = (\<lambda>_. Inr empty_db), aw_hash = root_hash, aw_env = sample_env 0,
      aw_connect = (\<lambda>_. None), aw_rpush = (\<lambda>r x. (r, False)), aw_registry = (\<lambda>_. Inr [])\<rparr>"


text \<open>
  The list of a queue server outlives the process, and the scan pushes every pending submission again: what
  was still waiting there is queued twice, and a dispatch does not look at the status of a submission.
\<close>

lemma redis_restart_duplicates:
  "requeue_on list_rpush hub_env (empty_db\<lparr>db_submissions := \<lparr>rows = [pending_sub 7], seq = 7\<rparr>\<rparr>) (OnServer ([], [nat_str 7]))
     = OnServer ([], [nat_str 7, nat_str 7])"
  by (simp add: requeue_on_def hub_env_def pending_ids_def pending_sub_def rq_push_def list_rpush_def goes_def tbl_select_def)

end
