(* ===== verification/Spec2Isabelle.thy ===== *)
theory Spec2Isabelle
  imports Outbound Seccomp Board_Views Rate_Limits Judge_Verdicts Daemon Registration
    Submissions Solutions Problem_Lists Teams Access Hub_Liveness Testdata_Delivery Package_Roundtrip Practice Admin_Pages
    Startup
begin

text \<open>
  Verification development for YSNB OJ, an online judge written in Go (all paths below are under
  \<open>src/backend\<close>).

  \<^bold>\<open>The program.\<close>  An API server keeps users, problems, contests, teams and submissions in a relational
  database and serves a web client over HTTP.  A submission is stored, its id goes on a task queue, and
  the relay hub hands it over a gRPC stream to one of several judge daemons.  The daemon fetches the
  test data over HTTP, compiles and runs the program in a sandbox (cgroups, namespaces, a seccomp
  filter) and reports verdicts back; the hub stores them and publishes events to the browsers over
  WebSocket.  Scoreboards are computed from the stored submissions on request.  Around this core there
  are the packages problems are exchanged in, crawlers and practice statistics of other platforms,
  webhooks, an interface with keys for other programs, admin pages and a maintenance command line.

  \<^bold>\<open>How the program is read.\<close>  \<open>OJ_Prelude\<close> fixes it.  A handler is a function from the request (path
  parameters as text, the decoded body, \<open>None\<close> when binding fails), the caller's \<open>Claims\<close>, the
  environment \<open>env\<close> and the state to the new state and a result: \<open>Inl (HTTP code text)\<close> for an error,
  \<open>Inr\<close> of the payload otherwise.  \<open>env\<close> carries the clock, which of the database statements whose error
  the code checks succeed (\<open>env_dbok\<close>, numbered in program order) and the random code.  A table is a list
  of rows in key order with its sequence; statements whose error the code ignores are taken to succeed.
  Instants are nanoseconds and durations saturate as in package \<open>time\<close>; 64-bit integers that can
  overflow are wrapped explicitly, bytes of addresses and the BPF machine are words.  Hashes, token signatures,
  the SQL operator LIKE, the calendar, JSON and zip decoding, and the iteration order of Go maps are
  arguments of the functions that use them.  Texts written in Chinese are given in English.

  \<^bold>\<open>Theories and sources.\<close>
  \<^item> Foundations: \<open>OJ_Prelude\<close>; \<open>Go_Strings\<close> (the functions of \<open>strings\<close> and \<open>path/filepath\<close>); \<open>OJ_Model\<close>
    (\<open>internal/model\<close>, claims, roles, lookups by id).
  \<^item> Judge side: \<open>Seccomp\<close>, \<open>Sandbox_Run\<close> and \<open>Sandbox_Host\<close> (\<open>pkg/sandbox\<close>), \<open>Token_Compare\<close>, \<open>Judge_Service\<close>
    and \<open>Judge_Verdicts\<close> (\<open>pkg/judge\<close>), \<open>Daemon\<close> and \<open>Daemon_Session\<close> (\<open>internal/daemon\<close>).
  \<^item> Relay: \<open>Task_Queue\<close> (\<open>internal/queue\<close>), \<open>Judge_Messages\<close> (\<open>proto/oj.proto\<close>), \<open>Judge_Hub\<close> and
    \<open>Hub_Liveness\<close> (\<open>internal/judgehub\<close>), \<open>Ws_Hub\<close> (\<open>internal/wsq\<close>).
  \<^item> Contests: \<open>Standings\<close>, \<open>Standings_Props\<close>, \<open>Board_Views\<close>, \<open>Contest_Admin\<close> (\<open>handler/contests.go\<close>), \<open>Jury\<close>
    (\<open>handler/jury.go\<close>), \<open>Registration\<close> (\<open>handler/registration.go\<close>, \<open>user_reg_edit.go\<close>).
  \<^item> Problems: \<open>Problems\<close> (\<open>problems.go\<close>, \<open>user_problems.go\<close>, \<open>problem_extra.go\<close>), \<open>Problem_Import\<close> and
    \<open>Package_Roundtrip\<close> (\<open>problem_import.go\<close>), \<open>Testdata\<close> and \<open>Testdata_Delivery\<close> (\<open>testdata.go\<close>,
    \<open>case_files.go\<close>, \<open>judge_source.go\<close>), \<open>Solutions\<close>, \<open>Problem_Lists\<close>.
  \<^item> Users: \<open>Submissions\<close>, \<open>Teams\<close>, \<open>Accounts\<close> (\<open>auth_users.go\<close>, \<open>super_admin.go\<close>, \<open>csv.go\<close>), \<open>Access\<close>
    (\<open>auth/auth.go\<close>, \<open>router.go\<close>), \<open>Rate_Limits\<close>, \<open>Public_Api\<close> (\<open>profile.go\<close>, \<open>public_api.go\<close>).
  \<^item> Outside world: \<open>Outbound\<close> (\<open>plugin/plugin.go\<close>, \<open>http.go\<close>, \<open>hooks.go\<close>), \<open>Crawl\<close> and \<open>Platforms\<close> (the
    adapters under \<open>plugin\<close>), \<open>Practice\<close> (\<open>internal/external\<close>, \<open>external_practice.go\<close>,
    \<open>external_sync.go\<close>, \<open>problem_external.go\<close>).
  \<^item> Operation: \<open>Admin_Pages\<close> (\<open>admin_stats.go\<close>, \<open>admin_logs.go\<close>, \<open>admin_internal.go\<close>), \<open>Maintenance\<close>
    (\<open>internal/config\<close>, \<open>cmd/cli\<close>), \<open>Startup\<close> (\<open>cmd/judge\<close>, \<open>cmd/api\<close>).

  \<^bold>\<open>Interfaces.\<close>  \<open>fifo_queue\<close> is the contract of a queue of tasks and \<open>task_queue\<close> its extension by the bound
  the hub relies on, interpreted by the channel; \<open>redis_server\<close> is what Redis documents of its commands, from
  which the other queue has the same contract, interpreted by a list behind a network that loses calls; \<open>strict_less\<close> and \<open>keyed_less\<close> are the contract of the comparison functions given to
  \<open>sort.Slice\<close>, interpreted by the orders the program sorts with; \<open>sliding_window\<close> is the promise of a
  rate limiter, interpreted by the five limiters; \<open>runner\<close> and its extension \<open>fs_runner\<close> are what the judge
  core needs of a sandbox, interpreted by the sandbox of the model; \<open>redirect_policy\<close> is what bounds the
  chain of redirections of an HTTP client, interpreted by the guarded client and by the webhook's.

  \<^bold>\<open>What is shown.\<close>
  \<^item> No submission is lost between database, queue and daemons, and each pending one can still be judged
    (\<open>Judge_Hub\<close>, \<open>Hub_Liveness\<close>, \<open>Task_Queue\<close>); accepting one is a step of the relay (\<open>Submissions\<close>) and
    what a daemon sends is a message the relay accepts (\<open>Daemon\<close>); a daemon's session loses no task it was
    given and never runs more than its slots (\<open>Daemon_Session\<close>), and a server that starts queues what is
    pending (\<open>Startup\<close>).
  \<^item> Boards: order, ranks, totals and cells follow the ACM and IOI rules, and nothing that is masked by the
    freeze has an influence on what is shown, on the boards, the feed of submissions and the public
    summary (\<open>Standings_Props\<close>, \<open>Board_Views\<close>, \<open>Submissions\<close>, \<open>Public_Api\<close>).
  \<^item> Judging: the generated filter is the whitelist, the classification of a run, the aggregation of the
    cases, a final verdict in every case, and the order of the effects of a run on its host (\<open>Sandbox_Host\<close>, \<open>Seccomp\<close>, \<open>Sandbox_Run\<close>, \<open>Judge_Service\<close>, \<open>Judge_Verdicts\<close>).
  \<^item> Data: the bytes of an uploaded case reach the judge, rows and files agree after any operations, an
    import is complete or leaves the tables alone, export and import are inverse (\<open>Testdata\<close>,
    \<open>Testdata_Delivery\<close>, \<open>Problem_Import\<close>, \<open>Package_Roundtrip\<close>).
  \<^item> Users: one registration per contest, sound teams, one super administrator, who may see, write and
    publish what, and the gates in front of every route (\<open>Registration\<close>, \<open>Teams\<close>, \<open>Accounts\<close>, \<open>Problems\<close>,
    \<open>Solutions\<close>, \<open>Access\<close>, \<open>Ws_Hub\<close>).
  \<^item> Outside: guarded fetches end and stay outside the local network, and the practice tables hold
    each fetched submission once (\<open>Outbound\<close>, \<open>Practice\<close>).
  \<^item> Operation: the peaks and counts of the dashboard, what the log viewer shows, and what the recovery
    commands leave (\<open>Admin_Pages\<close>, \<open>Maintenance\<close>).

  \<^bold>\<open>Bounds and fuel.\<close>  Loops are structural or carry a measure.  Four bounds are the program's own: the
  six passes of \<open>stripMathJax\<close>, the ten hops of a webhook, the five requests of a guarded fetch and the
  twenty attempts of the probe.  \<open>client_do\<close> and \<open>rq_pop\<close> are partial functions, as only their check and the
  server's list bound them; \<open>fetch_returns\<close> and \<open>pop_cases\<close> show that they answer.  No definition runs on
  fuel of the model's own.

  \<^bold>\<open>Not modelled.\<close>  What the kernel does in a run (its reports are arguments) and the figures of the host's
  load; the transport of gRPC and of the WebSocket protocol; listening, signals and tickers; the
  migration of the schema, which the ORM does; the formatting of log lines; generated protobuf code; the
  web client and the deployment scripts.  Handlers are single steps, except where their check and
  their write are separated on purpose (registration, invitations).
\<close>

end
